(* ===== verification/Rw_Prelude.thy ===== *)
theory Rw_Prelude
  imports Main "HOL-Library.Word"
begin

text \<open>
  The shared layer of the rw-store development: machine integer types, the
  outcome type of fallible operations, half-open slices, little-endian byte
  encodings of fixed-width integers, and the interface of a fixed-width byte
  codec (locale \<open>fixed_codec\<close>) with the facts about arrays of such encodings
  that the chunk payload codec and the chunk index both use.

  A Rust \<open>usize\<close> is a \<^typ>\<open>nat\<close> of a 64-bit target: checked operations test the
  bound \<open>2 ^ 64\<close> explicitly. A Rust \<open>f32\<close> is its 32-bit pattern.
\<close>

named_theorems rw_simps \<open>outcome-type unfolding shared by the components\<close>

section \<open>Machine integers\<close>

type_synonym u8 = "8 word"
type_synonym u16 = "16 word"
type_synonym u32 = "32 word"
type_synonym u64 = "64 word"
type_synonym i16 = "16 word"

definition usize_bound :: nat where
  "usize_bound = 2 ^ 64"

definition usize_checked_mul :: "nat \<Rightarrow> nat \<Rightarrow> nat option" where
  "usize_checked_mul a b = (if a * b < usize_bound then Some (a * b) else None)"

definition usize_checked_add :: "nat \<Rightarrow> nat \<Rightarrow> nat option" where
  "usize_checked_add a b = (if a + b < usize_bound then Some (a + b) else None)"

definition u64_checked_mul :: "u64 \<Rightarrow> u64 \<Rightarrow> u64 option" where
  "u64_checked_mul a b = (if unat a * unat b < 2 ^ 64 then Some (a * b) else None)"

definition u64_checked_add :: "u64 \<Rightarrow> u64 \<Rightarrow> u64 option" where
  "u64_checked_add a b = (if unat a + unat b < 2 ^ 64 then Some (a + b) else None)"

definition div_ceil :: "nat \<Rightarrow> nat \<Rightarrow> nat" where
  "div_ceil a b = (a + b - 1) div b"

section \<open>Outcomes\<close>

text \<open>
  The error type of the crate (\<^verbatim>\<open>rw-store/src/error.rs\<close>). A message is
  represented by its fixed leading text; interpolated values are left out. The
  constructor \<open>Panicked\<close> is not an error value of the code: it is the outcome of
  an operation of the language that panics (a slice out of range, a failed
  \<open>expect\<close>), so that the absence of panics is a statement about the model.
\<close>

datatype rw_store_error =
    Io string
  | Format string
  | UnsupportedVersion u32
  | Meta string
  | UnknownVariable string
  | Chunk string
  | Grid string
  | Locked string
  | Panicked string

type_synonym 'a rw_result = "rw_store_error + 'a"

definition r_bind :: "'e + 'a \<Rightarrow> ('a \<Rightarrow> 'e + 'b) \<Rightarrow> 'e + 'b" where
  "r_bind m f = (case m of Inl e \<Rightarrow> Inl e | Inr x \<Rightarrow> f x)"

definition r_guard :: "bool \<Rightarrow> 'e \<Rightarrow> ('e + 'a) \<Rightarrow> 'e + 'a" where
  "r_guard ok e k = (if ok then k else Inl e)"

definition ok_or :: "'a option \<Rightarrow> 'e \<Rightarrow> 'e + 'a" where
  "ok_or m e = (case m of None \<Rightarrow> Inl e | Some x \<Rightarrow> Inr x)"

fun r_map :: "('a \<Rightarrow> 'e + 'b) \<Rightarrow> 'a list \<Rightarrow> 'e + 'b list" where
  "r_map f [] = Inr []"
| "r_map f (x # xs) = r_bind (f x) (\<lambda>y. r_bind (r_map f xs) (\<lambda>ys. Inr (y # ys)))"

fun r_fold :: "('a \<Rightarrow> 's \<Rightarrow> 'e + 's) \<Rightarrow> 'a list \<Rightarrow> 's \<Rightarrow> 'e + 's" where
  "r_fold f [] s = Inr s"
| "r_fold f (x # xs) s = r_bind (f x s) (r_fold f xs)"

definition panics :: "'a rw_result \<Rightarrow> bool" where
  "panics m = (case m of Inl (Panicked _) \<Rightarrow> True | _ \<Rightarrow> False)"

section \<open>Slices\<close>

text \<open>\<open>subslice i j xs\<close> is \<open>xs[i..j]\<close> where that does not panic.\<close>

definition subslice :: "nat \<Rightarrow> nat \<Rightarrow> 'a list \<Rightarrow> 'a list" where
  "subslice i j xs = take (j - i) (drop i xs)"

definition subslice_ok :: "nat \<Rightarrow> nat \<Rightarrow> 'a list \<Rightarrow> bool" where
  "subslice_ok i j xs \<longleftrightarrow> i \<le> j \<and> j \<le> length xs"

definition r_slice :: "nat \<Rightarrow> nat \<Rightarrow> 'a list \<Rightarrow> 'a list rw_result" where
  "r_slice i j xs = (if subslice_ok i j xs then Inr (subslice i j xs) else Inl (Panicked ''slice''))"

definition r_nth :: "'a list \<Rightarrow> nat \<Rightarrow> 'a rw_result" where
  "r_nth xs i = (if i < length xs then Inr (xs ! i) else Inl (Panicked ''index''))"

section \<open>Little-endian integers\<close>

fun le_bytes :: "nat \<Rightarrow> nat \<Rightarrow> u8 list" where
  "le_bytes 0 x = []"
| "le_bytes (Suc n) x = of_nat x # le_bytes n (x div 256)"

fun le_nat :: "u8 list \<Rightarrow> nat" where
  "le_nat [] = 0"
| "le_nat (b # bs) = unat b + 256 * le_nat bs"

definition u16_to_le :: "u16 \<Rightarrow> u8 list" where "u16_to_le w = le_bytes 2 (unat w)"
definition u32_to_le :: "u32 \<Rightarrow> u8 list" where "u32_to_le w = le_bytes 4 (unat w)"
definition u64_to_le :: "u64 \<Rightarrow> u8 list" where "u64_to_le w = le_bytes 8 (unat w)"
definition u16_of_le :: "u8 list \<Rightarrow> u16" where "u16_of_le bs = of_nat (le_nat bs)"
definition u32_of_le :: "u8 list \<Rightarrow> u32" where "u32_of_le bs = of_nat (le_nat bs)"
definition u64_of_le :: "u8 list \<Rightarrow> u64" where "u64_of_le bs = of_nat (le_nat bs)"

text \<open>\<open>chunks_exact w bs\<close>: the full pieces of width \<open>w\<close>, the remainder dropped.\<close>

fun chunks_n :: "nat \<Rightarrow> nat \<Rightarrow> 'a list \<Rightarrow> 'a list list" where
  "chunks_n w 0 xs = []"
| "chunks_n w (Suc n) xs = take w xs # chunks_n w n (drop w xs)"

definition chunks_exact :: "nat \<Rightarrow> 'a list \<Rightarrow> 'a list list" where
  "chunks_exact w xs = chunks_n w (length xs div w) xs"

section \<open>Facts about outcomes\<close>

lemma r_bind_Inr [simp]: "r_bind (Inr x) f = f x"
  by (simp add: r_bind_def)

lemma r_bind_Inl [simp]: "r_bind (Inl e) f = Inl e"
  by (simp add: r_bind_def)

lemma r_bind_eq_Inr: "r_bind m f = Inr y \<longleftrightarrow> (\<exists>x. m = Inr x \<and> f x = Inr y)"
  by (cases m) auto

lemma r_bind_eq_Inl: "r_bind m f = Inl e \<longleftrightarrow> m = Inl e \<or> (\<exists>x. m = Inr x \<and> f x = Inl e)"
  by (cases m) auto

lemma r_guard_eq_Inr: "r_guard b e k = Inr y \<longleftrightarrow> b \<and> k = Inr y"
  by (simp add: r_guard_def)

lemma r_guard_True [simp]: "r_guard True e k = k"
  by (simp add: r_guard_def)

lemma r_guard_False [simp]: "r_guard False e k = Inl e"
  by (simp add: r_guard_def)

lemma ok_or_simps [simp]: "ok_or (Some x) e = Inr x" "ok_or None e = Inl e"
  by (simp_all add: ok_or_def)

lemma ok_or_eq_Inr: "ok_or m e = Inr y \<longleftrightarrow> m = Some y"
  by (cases m) auto

lemmas r_eq_Inr = r_bind_eq_Inr r_guard_eq_Inr ok_or_eq_Inr

lemma panics_simps [simp]:
  "\<not> panics (Inr x)" "panics (Inl (Panicked m))"
  "\<not> panics (Inl (Format m))" "\<not> panics (Inl (Meta m))" "\<not> panics (Inl (Chunk m))"
  "\<not> panics (Inl (Io m))" "\<not> panics (Inl (UnsupportedVersion v))"
  "\<not> panics (Inl (UnknownVariable m))" "\<not> panics (Inl (Grid m))" "\<not> panics (Inl (Locked m))"
  by (simp_all add: panics_def)

lemma not_panics_bind:
  "\<not> panics m \<Longrightarrow> (\<And>x. m = Inr x \<Longrightarrow> \<not> panics (f x)) \<Longrightarrow> \<not> panics (r_bind m f)"
  by (cases m) (auto simp: panics_def split: rw_store_error.splits)

lemma not_panics_guard:
  "(b \<Longrightarrow> \<not> panics k) \<Longrightarrow> \<not> panics (Inl e :: 'a rw_result) \<Longrightarrow> \<not> panics (r_guard b e (k :: 'a rw_result))"
  by (simp add: r_guard_def)

lemma not_panics_ok_or:
  "\<not> panics (Inl e :: 'a rw_result) \<Longrightarrow> \<not> panics (ok_or m e :: 'a rw_result)"
  by (cases m) auto

lemma not_panics_r_map:
  "(\<And>x. x \<in> set xs \<Longrightarrow> \<not> panics (f x)) \<Longrightarrow> \<not> panics (r_map f xs)"
proof (induction xs)
  case Nil
  show ?case by simp
next
  case (Cons x xs)
  from Cons.IH Cons.prems have xs: "\<not> panics (r_map f xs)" by simp
  have rest: "\<not> panics (r_bind (r_map f xs) (\<lambda>ys. Inr (y # ys)))" for y
    by (rule not_panics_bind [OF xs]) simp
  from Cons.prems have "\<not> panics (f x)" by simp
  then have "\<not> panics (r_bind (f x) (\<lambda>y. r_bind (r_map f xs) (\<lambda>ys. Inr (y # ys))))"
    by (rule not_panics_bind) (rule rest)
  then show ?case by simp
qed

lemma r_map_eq_Inr: "r_map f xs = Inr ys \<longleftrightarrow> list_all2 (\<lambda>x y. f x = Inr y) xs ys"
  by (induction xs arbitrary: ys) (auto simp: r_bind_eq_Inr list_all2_Cons1)

lemma r_map_Inr: "(\<And>x. x \<in> set xs \<Longrightarrow> f x = Inr (g x)) \<Longrightarrow> r_map f xs = Inr (map g xs)"
  by (induction xs) auto

lemma r_map_length: "r_map f xs = Inr ys \<Longrightarrow> length ys = length xs"
  by (simp add: r_map_eq_Inr list_all2_lengthD)

lemma r_map_append:
  "r_map f (xs @ ys) = r_bind (r_map f xs) (\<lambda>as. r_bind (r_map f ys) (\<lambda>bs. Inr (as @ bs)))"
proof (induction xs)
  case Nil
  show ?case by (cases "r_map f ys") auto
next
  case (Cons x xs)
  then show ?case
    by (cases "f x"; cases "r_map f xs"; cases "r_map f ys") auto
qed

section \<open>Facts about integers\<close>

lemma unat_lt2p: "unat (w :: 'a::len word) < 2 ^ LENGTH('a)"
  by (rule unsigned_less)

lemma unat_bounds:
  "unat (a :: u8) < 256" "unat (b :: u16) < 65536" "unat (c :: u32) < 4294967296"
  "unat (d :: u64) < 18446744073709551616"
  using unat_lt2p [of a] unat_lt2p [of b] unat_lt2p [of c] unat_lt2p [of d] by simp_all

lemma u64_checked_mul_Some: "u64_checked_mul a b = Some c \<Longrightarrow> unat c = unat a * unat b"
  by (auto simp: u64_checked_mul_def unat_word_ariths split: if_splits)

lemma u64_checked_add_Some: "u64_checked_add a b = Some c \<Longrightarrow> unat c = unat a + unat b"
  by (auto simp: u64_checked_add_def unat_word_ariths split: if_splits)

lemma div_ceil_le_iff: "0 < b \<Longrightarrow> div_ceil a b \<le> k \<longleftrightarrow> a \<le> k * b"
proof -
  assume b: "0 < b"
  have "div_ceil a b \<le> k \<longleftrightarrow> (a + b - 1) div b < Suc k"
    by (simp add: div_ceil_def less_Suc_eq_le)
  also have "\<dots> \<longleftrightarrow> a + b - 1 < Suc k * b"
    using b by (simp add: div_less_iff_less_mult)
  also have "\<dots> \<longleftrightarrow> a \<le> k * b"
    using b by auto
  finally show ?thesis .
qed

lemma less_div_ceil_iff: "0 < b \<Longrightarrow> k < div_ceil a b \<longleftrightarrow> k * b < a"
  using div_ceil_le_iff [of b a k] by linarith

lemma div_less_div_ceil: "0 < b \<Longrightarrow> y < a \<Longrightarrow> y div b < div_ceil a b"
  by (simp add: less_div_ceil_iff) (meson div_times_less_eq_dividend le_less_trans)

lemma div_ceil_pos: "0 < b \<Longrightarrow> 0 < div_ceil a b \<longleftrightarrow> 0 < a"
  by (simp add: less_div_ceil_iff)

lemma div_ceil_le: "0 < b \<Longrightarrow> div_ceil a b \<le> a"
  by (simp add: div_ceil_le_iff)

section \<open>Facts about slices\<close>

lemma length_slice [simp]: "j \<le> length xs \<Longrightarrow> length (subslice i j xs) = j - i"
  by (simp add: subslice_def)

lemma nth_slice: "k < j - i \<Longrightarrow> j \<le> length xs \<Longrightarrow> subslice i j xs ! k = xs ! (i + k)"
  by (simp add: subslice_def)

lemma slice_append_right: "subslice (length xs + i) (length xs + j) (xs @ ys) = subslice i j ys"
  by (simp add: subslice_def)

lemma slice_append_left: "j \<le> length xs \<Longrightarrow> subslice i j (xs @ ys) = subslice i j xs"
  by (cases "i \<le> j") (simp_all add: subslice_def)

lemma slice_middle: "subslice (length xs) (length xs + length ys) (xs @ ys @ zs) = ys"
  by (simp add: subslice_def)

lemma not_panics_r_slice: "subslice_ok i j xs \<Longrightarrow> \<not> panics (r_slice i j xs)"
  by (simp add: r_slice_def)

section \<open>Facts about little-endian integers\<close>

lemma length_le_bytes [simp]: "length (le_bytes n x) = n"
  by (induction n arbitrary: x) auto

lemma le_nat_le_bytes: "le_nat (le_bytes n x) = x mod 256 ^ n"
proof (induction n arbitrary: x)
  case 0
  show ?case by simp
next
  case (Suc n)
  have "le_nat (le_bytes (Suc n) x) = x mod 256 + 256 * (x div 256 mod 256 ^ n)"
    by (simp add: Suc unat_of_nat)
  also have "\<dots> = x mod (256 * 256 ^ n)"
    by (simp add: mod_mult2_eq)
  finally show ?case by simp
qed

lemma le_nat_bound: "le_nat bs < 256 ^ length bs"
proof (induction bs)
  case Nil
  show ?case by simp
next
  case (Cons b bs)
  have "unat b < 256"
    using unat_lt2p [of b] by simp
  moreover have "Suc (le_nat bs) \<le> 256 ^ length bs"
    using Cons by simp
  then have "256 * Suc (le_nat bs) \<le> 256 * 256 ^ length bs"
    by (rule mult_le_mono2)
  ultimately show ?case by simp
qed

lemma le_bytes_le_nat: "le_bytes (length bs) (le_nat bs) = bs"
proof (induction bs)
  case Nil
  show ?case by simp
next
  case (Cons b bs)
  have b: "unat b < 256"
    using unat_lt2p [of b] by simp
  have "(of_nat (unat b + 256 * le_nat bs) :: u8) = of_nat (unat b) + of_nat 256 * of_nat (le_nat bs)"
    by (simp only: of_nat_add of_nat_mult)
  also have "\<dots> = b"
  proof -
    have "(of_nat 256 :: u8) = 0" by simp
    then show ?thesis by (simp only: mult_zero_left) simp
  qed
  finally have "(of_nat (unat b + 256 * le_nat bs) :: u8) = b" .
  with Cons b show ?case by simp
qed

section \<open>The interface of a fixed-width codec\<close>

text \<open>
  Every binary field, chunk value and index record of a store file is encoded at
  a fixed width. The contract: an encoding has that width, and decoding it gives
  the value back. What the clients need follows once, here: the pieces of an
  array of encodings, found by \<open>chunks_exact\<close> or by a slice at a multiple of the
  width, are the encodings of the elements.
\<close>

locale fixed_codec =
  fixes enc :: "'a \<Rightarrow> u8 list"
    and dec :: "u8 list \<Rightarrow> 'a"
    and width :: nat
  assumes enc_length: "length (enc x) = width"
    and dec_enc: "dec (enc x) = x"
    and width_pos: "0 < width"
begin

lemma enc_array_length: "length (concat (map enc xs)) = width * length xs"
  by (induction xs) (simp_all add: enc_length)

lemma enc_inj: "enc x = enc y \<Longrightarrow> x = y"
  using dec_enc by metis

lemma chunks_enc_array: "chunks_exact width (concat (map enc xs)) = map enc xs"
proof -
  have "chunks_n width (length xs) (concat (map enc xs)) = map enc xs"
    by (induction xs) (simp_all add: enc_length)
  then show ?thesis
    using width_pos by (simp add: chunks_exact_def enc_array_length)
qed

lemma dec_array: "map dec (chunks_exact width (concat (map enc xs))) = xs"
  by (simp add: chunks_enc_array dec_enc comp_def)

lemma slice_enc_array:
  "i < length xs \<Longrightarrow> subslice (i * width) (i * width + width) (concat (map enc xs)) = enc (xs ! i)"
proof (induction xs arbitrary: i)
  case Nil
  then show ?case by simp
next
  case (Cons x xs)
  show ?case
  proof (cases i)
    case 0
    then show ?thesis by (simp add: subslice_def enc_length)
  next
    case (Suc k)
    with Cons.prems have k: "k < length xs" by simp
    have "subslice (i * width) (i * width + width) (concat (map enc (x # xs)))
        = subslice (length (enc x) + k * width) (length (enc x) + (k * width + width))
            (enc x @ concat (map enc xs))"
      by (simp add: Suc enc_length add.assoc)
    also have "\<dots> = subslice (k * width) (k * width + width) (concat (map enc xs))"
      by (rule slice_append_right)
    finally show ?thesis
      using Cons.IH [OF k] Suc by simp
  qed
qed

end

interpretation u16c: fixed_codec u16_to_le u16_of_le 2
proof unfold_locales
  fix w :: u16
  show "u16_of_le (u16_to_le w) = w"
    using unat_bounds by (simp add: u16_to_le_def u16_of_le_def le_nat_le_bytes)
qed (simp_all add: u16_to_le_def)

interpretation u32c: fixed_codec u32_to_le u32_of_le 4
proof unfold_locales
  fix w :: u32
  show "u32_of_le (u32_to_le w) = w"
    using unat_bounds by (simp add: u32_to_le_def u32_of_le_def le_nat_le_bytes)
qed (simp_all add: u32_to_le_def)

interpretation u64c: fixed_codec u64_to_le u64_of_le 8
proof unfold_locales
  fix w :: u64
  show "u64_of_le (u64_to_le w) = w"
    using unat_bounds by (simp add: u64_to_le_def u64_of_le_def le_nat_le_bytes)
qed (simp_all add: u64_to_le_def)

lemmas le_field_simps [simp] =
  u16c.enc_length u32c.enc_length u64c.enc_length u16c.dec_enc u32c.dec_enc u64c.dec_enc

lemma u16_to_le_of_le: "length bs = 2 \<Longrightarrow> u16_to_le (u16_of_le bs) = bs"
  using le_nat_bound [of bs] le_bytes_le_nat [of bs]
  by (simp add: u16_to_le_def u16_of_le_def unat_of_nat)

lemma u32_to_le_of_le: "length bs = 4 \<Longrightarrow> u32_to_le (u32_of_le bs) = bs"
  using le_nat_bound [of bs] le_bytes_le_nat [of bs]
  by (simp add: u32_to_le_def u32_of_le_def unat_of_nat)

lemma u64_to_le_of_le: "length bs = 8 \<Longrightarrow> u64_to_le (u64_of_le bs) = bs"
  using le_nat_bound [of bs] le_bytes_le_nat [of bs]
  by (simp add: u64_to_le_def u64_of_le_def unat_of_nat)

end
