(* ===== verification/Rw_Float.thy ===== *)
theory Rw_Float
  imports Complex_Main Rw_Prelude
begin

text \<open>
  The part of Rust's \<open>f32\<close> and \<open>f64\<close> arithmetic that the store uses. An \<open>f32\<close> is
  its IEEE 754 bit pattern, so that \<open>to_le_bytes\<close> and \<open>from_le_bytes\<close> are the byte
  encodings of a 32-bit word. An arithmetic operation is computed exactly on the
  rational values and then rounded to nearest, ties to even, as IEEE 754 and the
  Rust reference define it. \<open>f64\<close> values occur only as intermediate results and
  are kept as numbers (\<open>fnum\<close>) rounded to 53 bits.

  Rust leaves two results open and the model picks one: \<open>min\<close> and \<open>max\<close> of two
  zeros of opposite sign return the first operand, and a freshly produced NaN is
  the canonical quiet NaN (the value of \<open>f32::NAN\<close>).
\<close>

type_synonym f32 = "32 word"

section \<open>Numbers\<close>

text \<open>A finite number is a sign (\<open>True\<close> for negative) and a magnitude.\<close>

datatype fnum = FNaN | FInf bool | FFin bool rat

definition pow2 :: "int \<Rightarrow> rat" where
  "pow2 k = (if 0 \<le> k then 2 ^ nat k else 1 / 2 ^ nat (- k))"

function bit_len :: "int \<Rightarrow> int" where
  "bit_len n = (if n \<le> 0 then 0 else 1 + bit_len (n div 2))"
  by pat_completeness auto
termination
  by (relation "measure nat") auto

declare bit_len.simps [simp del]

definition ilog2 :: "rat \<Rightarrow> int" where
  "ilog2 m = (case quotient_of m of (n, d) \<Rightarrow>
     let k = bit_len n - bit_len d in if m < pow2 k then k - 1 else k)"

definition round_half_even :: "rat \<Rightarrow> nat" where
  "round_half_even x =
     (let f = \<lfloor>x\<rfloor>; d = x - of_int f
      in nat (if d < 1 / 2 then f else if 1 / 2 < d then f + 1 else if even f then f else f + 1))"

fun signed :: "bool \<Rightarrow> rat \<Rightarrow> rat" where
  "signed s m = (if s then - m else m)"

fun num_neg :: "fnum \<Rightarrow> fnum" where
  "num_neg FNaN = FNaN"
| "num_neg (FInf s) = FInf (\<not> s)"
| "num_neg (FFin s m) = FFin (\<not> s) m"

fun num_abs :: "fnum \<Rightarrow> fnum" where
  "num_abs FNaN = FNaN"
| "num_abs (FInf s) = FInf False"
| "num_abs (FFin s m) = FFin False m"

fun num_add :: "fnum \<Rightarrow> fnum \<Rightarrow> fnum" where
  "num_add FNaN _ = FNaN"
| "num_add _ FNaN = FNaN"
| "num_add (FInf s) (FInf t) = (if s = t then FInf s else FNaN)"
| "num_add (FInf s) (FFin _ _) = FInf s"
| "num_add (FFin _ _) (FInf t) = FInf t"
| "num_add (FFin s m) (FFin t n) =
     (let v = signed s m + signed t n
      in if v = 0 then FFin (s \<and> t) 0 else FFin (v < 0) \<bar>v\<bar>)"

definition num_sub :: "fnum \<Rightarrow> fnum \<Rightarrow> fnum" where
  "num_sub a b = num_add a (num_neg b)"

fun num_mul :: "fnum \<Rightarrow> fnum \<Rightarrow> fnum" where
  "num_mul FNaN _ = FNaN"
| "num_mul _ FNaN = FNaN"
| "num_mul (FInf s) (FInf t) = FInf (s \<noteq> t)"
| "num_mul (FInf s) (FFin t n) = (if n = 0 then FNaN else FInf (s \<noteq> t))"
| "num_mul (FFin s m) (FInf t) = (if m = 0 then FNaN else FInf (s \<noteq> t))"
| "num_mul (FFin s m) (FFin t n) = FFin (s \<noteq> t) (m * n)"

fun num_div :: "fnum \<Rightarrow> fnum \<Rightarrow> fnum" where
  "num_div FNaN _ = FNaN"
| "num_div _ FNaN = FNaN"
| "num_div (FInf s) (FInf t) = FNaN"
| "num_div (FInf s) (FFin t n) = FInf (s \<noteq> t)"
| "num_div (FFin s m) (FInf t) = FFin (s \<noteq> t) 0"
| "num_div (FFin s m) (FFin t n) =
     (if n = 0 then if m = 0 then FNaN else FInf (s \<noteq> t) else FFin (s \<noteq> t) (m / n))"

text \<open>\<open>round\<close> rounds half away from zero.\<close>

fun num_round :: "fnum \<Rightarrow> fnum" where
  "num_round FNaN = FNaN"
| "num_round (FInf s) = FInf s"
| "num_round (FFin s m) = FFin s (of_int \<lfloor>m + 1 / 2\<rfloor>)"

fun num_lt :: "fnum \<Rightarrow> fnum \<Rightarrow> bool" where
  "num_lt FNaN _ = False"
| "num_lt _ FNaN = False"
| "num_lt (FInf s) (FInf t) = (s \<and> \<not> t)"
| "num_lt (FInf s) (FFin _ _) = s"
| "num_lt (FFin _ _) (FInf t) = (\<not> t)"
| "num_lt (FFin s m) (FFin t n) = (signed s m < signed t n)"

fun num_eq :: "fnum \<Rightarrow> fnum \<Rightarrow> bool" where
  "num_eq FNaN _ = False"
| "num_eq _ FNaN = False"
| "num_eq (FInf s) (FInf t) = (s = t)"
| "num_eq (FInf s) (FFin _ _) = False"
| "num_eq (FFin _ _) (FInf t) = False"
| "num_eq (FFin s m) (FFin t n) = (signed s m = signed t n)"

definition num_le :: "fnum \<Rightarrow> fnum \<Rightarrow> bool" where
  "num_le a b \<longleftrightarrow> num_lt a b \<or> num_eq a b"

section \<open>Binary32\<close>

definition f32_NAN :: f32 where "f32_NAN = 0x7FC00000"
definition f32_INFINITY :: f32 where "f32_INFINITY = 0x7F800000"
definition f32_NEG_INFINITY :: f32 where "f32_NEG_INFINITY = 0xFF800000"
definition f32_EPSILON :: f32 where "f32_EPSILON = 0x34000000"

text \<open>
  The pattern without its sign bit orders the magnitudes: below \<open>2 ^ 23\<close> it is a
  subnormal, from \<open>255 * 2 ^ 23\<close> on an infinity or a NaN. \<open>f32_mag\<close> is the
  magnitude in units of the least positive subnormal, \<open>2 ^ -149\<close>.
\<close>

definition f32_abs_bits :: "f32 \<Rightarrow> nat" where
  "f32_abs_bits w = unat w mod 2 ^ 31"

definition f32_sign :: "f32 \<Rightarrow> bool" where
  "f32_sign w \<longleftrightarrow> 2 ^ 31 \<le> unat w"

definition f32_mag :: "nat \<Rightarrow> nat" where
  "f32_mag b = (if b < 2 ^ 23 then b else (2 ^ 23 + b mod 2 ^ 23) * 2 ^ (b div 2 ^ 23 - 1))"

definition f32_is_finite :: "f32 \<Rightarrow> bool" where
  "f32_is_finite w \<longleftrightarrow> f32_abs_bits w < 255 * 2 ^ 23"

definition f32_is_nan :: "f32 \<Rightarrow> bool" where
  "f32_is_nan w \<longleftrightarrow> 255 * 2 ^ 23 < f32_abs_bits w"

definition f32_num :: "f32 \<Rightarrow> fnum" where
  "f32_num w =
     (if f32_is_nan w then FNaN
      else if \<not> f32_is_finite w then FInf (f32_sign w)
      else FFin (f32_sign w) (of_nat (f32_mag (f32_abs_bits w)) / 2 ^ 149))"

definition f32_round_bits :: "rat \<Rightarrow> nat" where
  "f32_round_bits m =
     (if m = 0 then 0
      else let e = max (ilog2 m) (-126);
               b = nat (e + 126) * 2 ^ 23 + round_half_even (m / pow2 (e - 23))
           in min b (255 * 2 ^ 23))"

fun f32_of_num :: "fnum \<Rightarrow> f32" where
  "f32_of_num FNaN = f32_NAN"
| "f32_of_num (FInf s) = (if s then f32_NEG_INFINITY else f32_INFINITY)"
| "f32_of_num (FFin s m) = of_nat ((if s then 2 ^ 31 else 0) + f32_round_bits m)"

definition f32_add :: "f32 \<Rightarrow> f32 \<Rightarrow> f32" where
  "f32_add a b = f32_of_num (num_add (f32_num a) (f32_num b))"
definition f32_sub :: "f32 \<Rightarrow> f32 \<Rightarrow> f32" where
  "f32_sub a b = f32_of_num (num_sub (f32_num a) (f32_num b))"
definition f32_mul :: "f32 \<Rightarrow> f32 \<Rightarrow> f32" where
  "f32_mul a b = f32_of_num (num_mul (f32_num a) (f32_num b))"
definition f32_div :: "f32 \<Rightarrow> f32 \<Rightarrow> f32" where
  "f32_div a b = f32_of_num (num_div (f32_num a) (f32_num b))"
definition f32_abs :: "f32 \<Rightarrow> f32" where
  "f32_abs a = of_nat (f32_abs_bits a)"
definition f32_round :: "f32 \<Rightarrow> f32" where
  "f32_round a = f32_of_num (num_round (f32_num a))"
definition f32_lt :: "f32 \<Rightarrow> f32 \<Rightarrow> bool" where
  "f32_lt a b = num_lt (f32_num a) (f32_num b)"
definition f32_le :: "f32 \<Rightarrow> f32 \<Rightarrow> bool" where
  "f32_le a b = num_le (f32_num a) (f32_num b)"
definition f32_eq :: "f32 \<Rightarrow> f32 \<Rightarrow> bool" where
  "f32_eq a b = num_eq (f32_num a) (f32_num b)"
definition f32_min :: "f32 \<Rightarrow> f32 \<Rightarrow> f32" where
  "f32_min a b = (if f32_is_nan a then b else if f32_lt b a then b else a)"
definition f32_max :: "f32 \<Rightarrow> f32 \<Rightarrow> f32" where
  "f32_max a b = (if f32_is_nan a then b else if f32_lt a b then b else a)"

text \<open>\<open>x.clamp(lo, hi)\<close>; a NaN stays a NaN.\<close>

definition f32_clamp :: "f32 \<Rightarrow> f32 \<Rightarrow> f32 \<Rightarrow> f32" where
  "f32_clamp x lo hi = (let y = if f32_lt x lo then lo else x in if f32_lt hi y then hi else y)"

text \<open>\<open>f32::from(q)\<close> for \<open>q : i16\<close> is exact; \<open>x as i16\<close> truncates and saturates.\<close>

definition f32_of_i16 :: "i16 \<Rightarrow> f32" where
  "f32_of_i16 q = f32_of_num (FFin (sint q < 0) (of_int \<bar>sint q\<bar>))"

definition sat_i16 :: "int \<Rightarrow> i16" where
  "sat_i16 v = of_int (max (- 32768) (min 32767 v))"

definition f32_to_i16 :: "f32 \<Rightarrow> i16" where
  "f32_to_i16 x = (case f32_num x of
      FNaN \<Rightarrow> 0
    | FInf s \<Rightarrow> (if s then sat_i16 (- 32768) else sat_i16 32767)
    | FFin s m \<Rightarrow> sat_i16 (if s then - \<lfloor>m\<rfloor> else \<lfloor>m\<rfloor>))"

section \<open>Binary64 intermediate results\<close>

fun f64_round :: "fnum \<Rightarrow> fnum" where
  "f64_round FNaN = FNaN"
| "f64_round (FInf s) = FInf s"
| "f64_round (FFin s m) =
     (let e = max (ilog2 m) (-1022);
          r = of_nat (round_half_even (m / pow2 (e - 52))) * pow2 (e - 52)
      in if pow2 1024 \<le> r then FInf s else FFin s r)"

definition f64_add :: "fnum \<Rightarrow> fnum \<Rightarrow> fnum" where "f64_add a b = f64_round (num_add a b)"
definition f64_sub :: "fnum \<Rightarrow> fnum \<Rightarrow> fnum" where "f64_sub a b = f64_round (num_sub a b)"
definition f64_mul :: "fnum \<Rightarrow> fnum \<Rightarrow> fnum" where "f64_mul a b = f64_round (num_mul a b)"
definition f64_div :: "fnum \<Rightarrow> fnum \<Rightarrow> fnum" where "f64_div a b = f64_round (num_div a b)"

section \<open>Facts\<close>

lemma f32_abs_bits_bound: "f32_abs_bits w < 2 ^ 31"
  by (simp add: f32_abs_bits_def)

lemma f32_bits_split: "unat w = (if f32_sign w then 2 ^ 31 else 0) + f32_abs_bits w"
  using unat_bounds(3) [of w] by (auto simp: f32_sign_def f32_abs_bits_def mod_if)

lemma f32_bits_eqI:
  "f32_sign a = f32_sign b \<Longrightarrow> f32_abs_bits a = f32_abs_bits b \<Longrightarrow> a = b"
  by (rule word_unat_eq_iff [THEN iffD2]) (simp add: f32_bits_split)

lemma f32_not_finite_and_nan: "f32_is_finite w \<Longrightarrow> \<not> f32_is_nan w"
  by (simp add: f32_is_finite_def f32_is_nan_def)

lemma f32_num_finite:
  "f32_is_finite w \<Longrightarrow> f32_num w = FFin (f32_sign w) (of_nat (f32_mag (f32_abs_bits w)) / 2 ^ 149)"
  by (simp add: f32_num_def f32_not_finite_and_nan)

text \<open>Magnitudes grow strictly with the pattern, so a pattern is determined by its number.\<close>

lemma f32_mag_Suc: "f32_mag b < f32_mag (Suc b)"
proof (cases "Suc b < 2 ^ 23")
  case True
  then show ?thesis by (simp add: f32_mag_def)
next
  case False
  define q where "q = b div 2 ^ 23"
  define r where "r = b mod (2 ^ 23 :: nat)"
  have b: "b = q * 2 ^ 23 + r" and r: "r < 2 ^ 23"
    by (simp_all add: q_def r_def)
  show ?thesis
  proof (cases "Suc r < 2 ^ 23")
    case True
    have qr: "Suc b div 2 ^ 23 = q" "Suc b mod 2 ^ 23 = Suc r"
      using True by (simp_all add: b div_nat_eqI mod_nat_eqI)
    have "1 \<le> q"
      using False True b by (cases q) auto
    then have "\<not> b < 2 ^ 23" using b by simp
    then have lhs: "f32_mag b = (2 ^ 23 + r) * 2 ^ (q - 1)"
      by (simp only: f32_mag_def if_False q_def r_def)
    have rhs: "f32_mag (Suc b) = (2 ^ 23 + Suc r) * 2 ^ (q - 1)"
      using False by (simp only: f32_mag_def qr if_False)
    show ?thesis by (simp add: lhs rhs)
  next
    case top: False
    then have r_top: "r = 2 ^ 23 - 1" using r by simp
    have qr: "Suc b div 2 ^ 23 = Suc q" "Suc b mod 2 ^ 23 = 0"
      by (simp_all add: b r_top)
    show ?thesis
    proof (cases q)
      case 0
      then have "b = 2 ^ 23 - 1" using b r_top by simp
      then show ?thesis by (simp add: f32_mag_def)
    next
      case (Suc k)
      have "\<not> b < 2 ^ 23" using b Suc by simp
      then have "f32_mag b = (2 ^ 23 + r) * 2 ^ (q - 1)"
        by (simp only: f32_mag_def if_False q_def r_def)
      then have lhs: "f32_mag b = (2 ^ 23 + r) * 2 ^ k"
        by (simp add: Suc)
      have rhs: "f32_mag (Suc b) = 2 ^ 23 * 2 ^ Suc k"
        using False by (simp only: f32_mag_def qr Suc if_False) simp
      have "(2 ^ 23 + r) * 2 ^ k < (2 ^ 24 :: nat) * 2 ^ k"
        using r by (intro mult_strict_right_mono) auto
      then show ?thesis by (simp add: lhs rhs)
    qed
  qed
qed

lemma f32_mag_strict_mono: "strict_mono f32_mag"
  by (simp add: strict_mono_Suc_iff f32_mag_Suc)

lemma f32_mag_eq_iff [simp]: "f32_mag a = f32_mag b \<longleftrightarrow> a = b"
  using f32_mag_strict_mono by (simp add: strict_mono_eq)

lemma f32_mag_0_iff [simp]: "f32_mag b = 0 \<longleftrightarrow> b = 0"
  using f32_mag_eq_iff [of b 0] by (simp add: f32_mag_def)

lemma signed_eqD: "signed s x = signed t y \<Longrightarrow> 0 \<le> x \<Longrightarrow> 0 \<le> y \<Longrightarrow> x = y"
  by (auto split: if_splits)

text \<open>Numerically equal finite values have the same bits unless both are zeros.\<close>

lemma f32_eq_bits:
  assumes "f32_eq a b" and "f32_is_finite a" and "f32_is_finite b"
  shows "a = b \<or> f32_abs_bits a = 0 \<and> f32_abs_bits b = 0"
proof -
  let ?ma = "of_nat (f32_mag (f32_abs_bits a)) / 2 ^ 149 :: rat"
  let ?mb = "of_nat (f32_mag (f32_abs_bits b)) / 2 ^ 149 :: rat"
  have eq: "signed (f32_sign a) ?ma = signed (f32_sign b) ?mb"
    using assms by (simp add: f32_eq_def f32_num_finite del: signed.simps)
  have nonneg: "0 \<le> ?ma" "0 \<le> ?mb" by simp_all
  from eq nonneg have "?ma = ?mb"
    by (rule signed_eqD)
  then have same: "f32_abs_bits a = f32_abs_bits b"
    by simp
  show ?thesis
  proof (cases "f32_abs_bits a = 0")
    case True
    with same show ?thesis by simp
  next
    case False
    then have "?ma \<noteq> 0" by simp
    with eq \<open>?ma = ?mb\<close> have "f32_sign a = f32_sign b"
      by (auto split: if_splits)
    with same show ?thesis by (simp add: f32_bits_eqI)
  qed
qed

lemma f32_lt_irrefl: "\<not> f32_lt a a"
  by (cases "f32_num a") (simp_all add: f32_lt_def)

lemma f32_lt_trans: "f32_lt a b \<Longrightarrow> f32_lt b c \<Longrightarrow> f32_lt a c"
  by (cases "f32_num a"; cases "f32_num b"; cases "f32_num c") (auto simp: f32_lt_def split: if_splits)

lemma f32_eq_refl: "f32_is_finite a \<Longrightarrow> f32_eq a a"
  by (simp add: f32_eq_def f32_num_finite)

lemma f32_consts:
  "f32_is_nan f32_NAN" "\<not> f32_is_finite f32_NAN" "\<not> f32_is_finite f32_INFINITY"
  "\<not> f32_is_nan f32_INFINITY" "\<not> f32_is_finite f32_NEG_INFINITY" "\<not> f32_is_nan f32_NEG_INFINITY"
  "f32_num f32_INFINITY = FInf False" "f32_num f32_NEG_INFINITY = FInf True"
  by (simp_all add: f32_is_nan_def f32_is_finite_def f32_abs_bits_def f32_NAN_def
      f32_INFINITY_def f32_NEG_INFINITY_def f32_num_def f32_sign_def)

text \<open>Evaluation of closed terms.\<close>

lemmas f32_eval_num = f32_num_def f32_is_nan_def f32_is_finite_def f32_abs_bits_def f32_sign_def f32_mag_def
lemmas f32_eval_round = f32_round_bits_def ilog2_def bit_len.simps pow2_def round_half_even_def Let_def
lemmas f32_eval = f32_eval_num f32_eval_round f32_add_def f32_sub_def f32_mul_def f32_div_def f32_lt_def
  f32_le_def f32_eq_def num_sub_def num_le_def f32_min_def f32_max_def f32_abs_def f32_round_def
  f32_NAN_def f32_INFINITY_def f32_NEG_INFINITY_def f32_EPSILON_def

section \<open>Finite values in order\<close>

text \<open>The rational value of a finite pattern; comparisons of finite values are comparisons of it.\<close>

definition f32_val :: "f32 \<Rightarrow> rat" where
  "f32_val w = signed (f32_sign w) (of_nat (f32_mag (f32_abs_bits w)) / 2 ^ 149)"

lemma f32_lt_val: "f32_is_finite a \<Longrightarrow> f32_is_finite b \<Longrightarrow> f32_lt a b \<longleftrightarrow> f32_val a < f32_val b"
  by (simp add: f32_lt_def f32_num_finite f32_val_def)

lemma f32_eq_val: "f32_is_finite a \<Longrightarrow> f32_is_finite b \<Longrightarrow> f32_eq a b \<longleftrightarrow> f32_val a = f32_val b"
  by (simp add: f32_eq_def f32_num_finite f32_val_def)

lemma f32_lt_infinity: "f32_is_finite a \<Longrightarrow> f32_lt a f32_INFINITY"
  by (simp add: f32_lt_def f32_num_finite f32_consts)

lemma f32_neg_infinity_lt: "f32_is_finite a \<Longrightarrow> f32_lt f32_NEG_INFINITY a"
  by (simp add: f32_lt_def f32_num_finite f32_consts)

lemma f32_min_infinity: "f32_is_finite a \<Longrightarrow> f32_min f32_INFINITY a = a"
  by (simp add: f32_min_def f32_consts f32_lt_infinity)

lemma f32_max_neg_infinity: "f32_is_finite a \<Longrightarrow> f32_max f32_NEG_INFINITY a = a"
  by (simp add: f32_max_def f32_consts f32_neg_infinity_lt)

lemma f32_zero: "f32_is_finite 0" "f32_abs_bits 0 = 0" "f32_val 0 = 0"
  by (simp_all add: f32_is_finite_def f32_abs_bits_def f32_val_def f32_mag_def f32_sign_def)

lemma f32_num_pos:
  assumes "f32_is_finite w" and "f32_lt 0 w"
  shows "\<exists>m. f32_num w = FFin False m \<and> 0 < m"
proof -
  have pos: "0 < f32_val w"
    using assms by (simp add: f32_lt_val f32_zero)
  then have "\<not> f32_sign w"
    by (auto simp: f32_val_def split: if_splits)
  with pos show ?thesis
    using assms(1) by (intro exI [of _ "f32_val w"]) (simp add: f32_num_finite f32_val_def)
qed

lemma f32_min_finite:
  "f32_is_finite a \<Longrightarrow> f32_is_finite b \<Longrightarrow>
     f32_min a b \<in> {a, b} \<and> f32_val (f32_min a b) = min (f32_val a) (f32_val b)"
  by (auto simp: f32_min_def f32_lt_val f32_not_finite_and_nan)

lemma f32_max_finite:
  "f32_is_finite a \<Longrightarrow> f32_is_finite b \<Longrightarrow>
     f32_max a b \<in> {a, b} \<and> f32_val (f32_max a b) = max (f32_val a) (f32_val b)"
  by (auto simp: f32_max_def f32_lt_val f32_not_finite_and_nan)

lemma f32_num_nan_iff: "f32_num w = FNaN \<longleftrightarrow> f32_is_nan w"
  by (simp add: f32_num_def)

section \<open>Rounding\<close>

lemma pow2_power_int: "pow2 k = 2 powi k"
  by (simp add: pow2_def power_int_def field_simps)

lemma pow2_pos [simp]: "0 < pow2 k"
  by (simp add: pow2_power_int)

lemma pow2_nonzero [simp]: "pow2 k \<noteq> 0"
  by (metis less_irrefl pow2_pos)

lemma pow2_add: "pow2 (a + b) = pow2 a * pow2 b"
  by (simp add: pow2_power_int power_int_add)

lemma pow2_nonneg [simp]: "0 \<le> pow2 k"
  by (simp add: less_imp_le)

lemma pow2_le_iff [simp]: "pow2 a \<le> pow2 b \<longleftrightarrow> a \<le> b"
proof (cases "a \<le> b")
  case True
  then show ?thesis by (simp add: pow2_power_int power_int_increasing)
next
  case False
  then have "pow2 b < pow2 a" by (simp add: pow2_power_int power_int_strict_increasing)
  with False show ?thesis by simp
qed

lemma pow2_nat: "pow2 (int n) = 2 ^ n"
  by (simp add: pow2_def)

lemma bit_len_bounds:
  "0 < n \<Longrightarrow> 1 \<le> bit_len n \<and> 2 ^ nat (bit_len n - 1) \<le> n \<and> n < 2 ^ nat (bit_len n)"
proof (induction n rule: bit_len.induct)
  case (1 n)
  show ?case
  proof (cases "n = 1")
    case True
    then show ?thesis by (simp add: bit_len.simps)
  next
    case False
    with "1.prems" have "0 < n div 2" by simp
    with "1.IH" "1.prems" have ih: "1 \<le> bit_len (n div 2)" "2 ^ nat (bit_len (n div 2) - 1) \<le> n div 2"
        "n div 2 < 2 ^ nat (bit_len (n div 2))"
      by auto
    have b: "bit_len n = 1 + bit_len (n div 2)"
      using "1.prems" by (simp add: bit_len.simps [of n])
    have "(2::int) ^ nat (bit_len n - 1) = 2 * 2 ^ nat (bit_len (n div 2) - 1)"
      using ih(1) by (simp add: b flip: power_Suc Suc_nat_eq_nat_zadd1)
    moreover have "(2::int) ^ nat (bit_len n) = 2 * 2 ^ nat (bit_len (n div 2))"
      using ih(1) by (simp add: b nat_add_distrib)
    ultimately have "2 ^ nat (bit_len n - 1) \<le> n" "n < 2 ^ nat (bit_len n)"
      using ih(2,3) by linarith+
    then show ?thesis
      using ih(1) b by simp
  qed
qed

lemma pow2_bit_len:
  assumes "0 < n"
  shows "pow2 (bit_len n - 1) \<le> of_int n" "of_int n < pow2 (bit_len n)"
proof -
  note b = bit_len_bounds [OF assms]
  have "pow2 (bit_len n - 1) = of_int (2 ^ nat (bit_len n - 1))" "pow2 (bit_len n) = of_int (2 ^ nat (bit_len n))"
    using b by (simp_all add: pow2_def)
  with b show "pow2 (bit_len n - 1) \<le> of_int n" "of_int n < pow2 (bit_len n)"
    by (simp_all only: of_int_le_iff of_int_less_iff)
qed

lemma ilog2_bounds:
  assumes "0 < m"
  shows "pow2 (ilog2 m) \<le> m" "m < pow2 (ilog2 m + 1)"
proof -
  obtain n d where q: "quotient_of m = (n, d)" by (cases "quotient_of m")
  have m: "m = of_int n / of_int d" and d: "0 < d"
    using quotient_of_div [OF q] quotient_of_denom_pos [OF q] by simp_all
  with assms have n: "0 < n" by (simp add: zero_less_divide_iff)
  let ?k = "bit_len n - bit_len d"
  note bn = pow2_bit_len [OF n] and bd = pow2_bit_len [OF d]
  have "m < pow2 (bit_len n) / pow2 (bit_len d - 1)"
    unfolding m using bn(2) bd(1) n by (intro frac_less) simp_all
  also have "\<dots> = pow2 (?k + 1)"
    by (simp add: pow2_power_int power_int_add power_int_diff)
  finally have upper: "m < pow2 (?k + 1)" .
  have "pow2 (?k - 1) = pow2 (bit_len n - 1) / pow2 (bit_len d)"
    by (simp add: pow2_power_int power_int_add power_int_diff)
  also have "\<dots> \<le> m"
    using bn(1) bd(2) d n by (simp add: m frac_le)
  finally have lower: "pow2 (?k - 1) \<le> m" .
  show "pow2 (ilog2 m) \<le> m" "m < pow2 (ilog2 m + 1)"
    using upper lower by (auto simp: ilog2_def q Let_def)
qed

lemma ilog2_less: "0 \<le> m \<Longrightarrow> m < pow2 k \<Longrightarrow> m \<noteq> 0 \<Longrightarrow> ilog2 m < k"
proof -
  assume "0 \<le> m" "m < pow2 k" "m \<noteq> 0"
  then have "pow2 (ilog2 m) < pow2 k"
    using ilog2_bounds(1) [of m] by simp
  then show ?thesis
    using pow2_le_iff [of k "ilog2 m"] by linarith
qed

lemma round_half_even_le: "0 \<le> x \<Longrightarrow> x \<le> of_nat N \<Longrightarrow> round_half_even x \<le> N"
proof -
  assume x: "0 \<le> x" "x \<le> of_nat N"
  then have fl: "\<lfloor>x\<rfloor> \<le> int N" by (simp add: floor_le_iff)
  show ?thesis
  proof (cases "\<lfloor>x\<rfloor> = int N")
    case True
    with x have "x = of_nat N" by (metis of_int_floor_le of_int_of_nat_eq order_antisym)
    then show ?thesis by (simp add: round_half_even_def)
  next
    case False
    with fl have "\<lfloor>x\<rfloor> + 1 \<le> int N" by simp
    then show ?thesis by (auto simp: round_half_even_def Let_def)
  qed
qed

lemma f32_round_bits_finite:
  assumes "0 \<le> m" and "m < pow2 127"
  shows "f32_round_bits m < 255 * 2 ^ 23"
proof -
  define e where "e = max (ilog2 m) (-126)"
  have e: "e \<le> 126"
    using assms ilog2_less [of m 127] by (cases "m = 0") (auto simp: e_def ilog2_def bit_len.simps pow2_def)
  have "m \<le> pow2 (e + 1)"
  proof (cases "m = 0")
    case False
    then have "m < pow2 (ilog2 m + 1)" using assms(1) ilog2_bounds by simp
    also have "\<dots> \<le> pow2 (e + 1)" by (simp add: e_def)
    finally show ?thesis by simp
  qed simp
  also have "pow2 (e + 1) = pow2 (e - 23) * pow2 24"
    by (simp add: add.commute flip: pow2_add)
  finally have "m / pow2 (e - 23) \<le> of_nat (2 ^ 24)"
    by (simp add: pos_divide_le_eq mult.commute pow2_def [of 24])
  then have "round_half_even (m / pow2 (e - 23)) \<le> 2 ^ 24"
    using assms(1) by (intro round_half_even_le) (simp_all add: divide_nonneg_pos)
  moreover have "nat (e + 126) \<le> 252" using e by simp
  ultimately have "nat (e + 126) * 2 ^ 23 + round_half_even (m / pow2 (e - 23)) \<le> 252 * 2 ^ 23 + 2 ^ 24"
    by (intro add_mono mult_le_mono) simp_all
  then show ?thesis
    by (simp add: f32_round_bits_def Let_def flip: e_def)
qed

lemma f32_of_num_abs_bits: "f32_abs_bits (f32_of_num (FFin s m)) = f32_round_bits m"
proof -
  have le: "f32_round_bits m \<le> 255 * 2 ^ 23"
    by (simp add: f32_round_bits_def Let_def)
  define k where "k = (if s then 2 ^ 31 else 0) + f32_round_bits m"
  have "k < 2 ^ 32" using le by (simp add: k_def)
  then have "unat (f32_of_num (FFin s m)) = k"
    by (simp only: f32_of_num.simps unat_of_nat flip: k_def) simp
  then show ?thesis
    using le by (simp add: f32_abs_bits_def k_def)
qed

lemma f32_of_num_finite:
  "0 \<le> m \<Longrightarrow> m < pow2 127 \<Longrightarrow> f32_is_finite (f32_of_num (FFin s m))"
  unfolding f32_is_finite_def f32_of_num_abs_bits by (rule f32_round_bits_finite)

text \<open>Rounding never produces a NaN.\<close>

lemma f32_of_num_not_nan: "x \<noteq> FNaN \<Longrightarrow> \<not> f32_is_nan (f32_of_num x)"
proof (cases x)
  case (FFin s m)
  have "f32_round_bits m \<le> 255 * 2 ^ 23"
    by (simp add: f32_round_bits_def Let_def)
  then show ?thesis
    by (simp add: FFin f32_is_nan_def f32_of_num_abs_bits del: f32_of_num.simps)
qed (simp_all add: f32_consts)

lemma f32_of_i16_finite: "f32_is_finite (f32_of_i16 q)"
proof -
  have "- 32768 \<le> sint q" "sint q < 32768"
    using sint_ge [of q] sint_lt [of q] by simp_all
  then have "\<bar>sint q\<bar> \<le> 32768" by simp
  then have "(of_int \<bar>sint q\<bar> :: rat) \<le> 32768"
    by (metis of_int_le_iff of_int_numeral)
  then have "(of_int \<bar>sint q\<bar> :: rat) < pow2 127"
    by (simp add: pow2_def)
  then show ?thesis
    by (simp add: f32_of_i16_def f32_of_num_finite del: f32_of_num.simps)
qed

end
