(* ===== verification/Rw_Format.thy ===== *)
theory Rw_Format
  imports Rw_Float
begin

text \<open>
  On-disk constants and per-hour metadata of the store
  (\<^verbatim>\<open>rw-store/src/format.rs\<close>): the metadata records with the source's fields, the
  exact-time pair of a v2 hour, and the schema/timing contract that every reader
  applies before it looks at the binary layout.
\<close>

section \<open>Constants\<close>

definition MAGIC :: "u8 list" where
  "MAGIC = [0x52, 0x57, 0x53, 0x54, 0x4F, 0x52, 0x45, 0x31]"
definition VERSION :: u32 where "VERSION = 1"
definition SUPPORTED_VERSIONS :: "u32 list" where "SUPPORTED_VERSIONS = [1]"
definition HEADER_LEN :: nat where "HEADER_LEN = 64"
definition INDEX_RECORD_LEN :: nat where "INDEX_RECORD_LEN = 64"
definition TILE_Y :: nat where "TILE_Y = 256"
definition TILE_X :: nat where "TILE_X = 256"
definition COL_Y :: nat where "COL_Y = 16"
definition COL_X :: nat where "COL_X = 16"
definition FLAG_EMPTY :: u8 where "FLAG_EMPTY = 1"
definition FLAG_CONSTANT :: u8 where "FLAG_CONSTANT = 2"
definition FLAG_HAS_MISSING :: u8 where "FLAG_HAS_MISSING = 4"
definition KIND_TILE2D :: u8 where "KIND_TILE2D = 0"
definition KIND_COLUMN3D :: u8 where "KIND_COLUMN3D = 1"
definition SCHEMA_HOUR :: string where "SCHEMA_HOUR = ''rw-store.hour.v1''"
definition SCHEMA_HOUR_V2 :: string where "SCHEMA_HOUR_V2 = ''rw-store.hour.v2''"
definition CODEC_2D :: string where "CODEC_2D = ''zstd1_f32''"
definition CODEC_3D :: string where "CODEC_3D = ''zstd1_affine_i16''"

lemmas geometry_consts = TILE_Y_def TILE_X_def COL_Y_def COL_X_def
lemmas layout_consts = HEADER_LEN_def INDEX_RECORD_LEN_def
lemmas flag_consts = FLAG_EMPTY_def FLAG_CONSTANT_def FLAG_HAS_MISSING_def

section \<open>Metadata\<close>

text \<open>The shape of a \<open>serde_json::Value\<close>; a number is kept as its text.\<close>

datatype json = JNull | JBool bool | JNumber string | JString string
  | JArray "json list" | JObject "(string \<times> json) list"

record rws_variable_meta =
  vm_id :: u16
  vm_name :: string
  vm_units :: string
  vm_kind :: string
  vm_codec :: string
  vm_levels_hpa :: "u16 list"
  vm_selector :: json

record rws_chunking =
  ck_tile_y :: nat
  ck_tile_x :: nat
  ck_col_y :: nat
  ck_col_x :: nat

record rws_writer_info =
  wi_name :: string
  wi_version :: string
  wi_build :: string

type_synonym i64 = "64 word"

record rws_exact_time =
  et_lead_seconds :: u64
  et_valid_unix :: i64

record rws_hour_meta =
  hm_schema :: string
  hm_model :: string
  hm_run :: string
  hm_forecast_hour :: u16
  hm_lead_seconds :: "u64 option"
  hm_valid_unix :: "i64 option"
  hm_nx :: nat
  hm_ny :: nat
  hm_grid_hash :: string
  hm_variables :: "rws_variable_meta list"
  hm_chunking :: rws_chunking
  hm_writer :: rws_writer_info

text \<open>
  \<open>origin_unix\<close> subtracts in \<open>i128\<close> and converts back with \<open>i64::try_from\<close>.
\<close>

definition origin_unix :: "rws_exact_time \<Rightarrow> i64 option" where
  "origin_unix t =
     (let origin = sint (et_valid_unix t) - uint (et_lead_seconds t)
      in if - (2 ^ 63) \<le> origin \<and> origin < 2 ^ 63 then Some (of_int origin) else None)"

definition exact_time :: "rws_hour_meta \<Rightarrow> rws_exact_time option" where
  "exact_time m = (case hm_lead_seconds m of None \<Rightarrow> None
     | Some l \<Rightarrow> (case hm_valid_unix m of None \<Rightarrow> None
       | Some v \<Rightarrow> Some \<lparr>et_lead_seconds = l, et_valid_unix = v\<rparr>))"

definition validate_time_schema :: "rws_hour_meta \<Rightarrow> string + rws_exact_time option" where
  "validate_time_schema m =
     r_bind
       (case (hm_lead_seconds m, hm_valid_unix m) of
          (Some l, Some v) \<Rightarrow> Inr (Some \<lparr>et_lead_seconds = l, et_valid_unix = v\<rparr>)
        | (None, None) \<Rightarrow> Inr None
        | _ \<Rightarrow> Inl ''hour metadata must contain both lead_seconds and valid_unix or neither'')
       (\<lambda>timing.
          if hm_schema m = SCHEMA_HOUR then
            (if timing = None then Inr None
             else Inl ''v1 hour metadata must not contain exact-time metadata'')
          else if hm_schema m = SCHEMA_HOUR_V2 then
            r_bind (ok_or timing ''v2 hour metadata requires lead_seconds and valid_unix'') (\<lambda>t.
            r_bind (ok_or (origin_unix t) ''v2 hour metadata cannot represent valid_unix - lead_seconds'')
              (\<lambda>_. Inr (Some t)))
          else Inl ''unexpected schema'')"

section \<open>Facts\<close>

lemma length_MAGIC [simp]: "length MAGIC = 8"
  by (simp add: MAGIC_def)

lemma origin_unix_Some:
  assumes "origin_unix t = Some w"
  shows "sint w = sint (et_valid_unix t) - uint (et_lead_seconds t)"
proof -
  let ?o = "sint (et_valid_unix t) - uint (et_lead_seconds t)"
  have range: "- (2 ^ 63) \<le> ?o" "?o < 2 ^ 63" and w: "w = of_int ?o"
    using assms by (auto simp: origin_unix_def Let_def split: if_splits)
  have "sint w = signed_take_bit 63 ?o"
    by (simp only: w sint_sbintrunc') simp
  also have "\<dots> = ?o"
    using range by (simp add: signed_take_bit_int_eq_self)
  finally show ?thesis .
qed

text \<open>The schema/timing contract, on every branch. \<open>validate_time_schema\<close>
  accepts exactly two shapes of hour metadata: schema v1 with neither time field,
  and schema v2 with both time fields whose run origin \<open>valid_unix - lead_seconds\<close>
  fits an \<open>i64\<close>; it then returns that pair. In particular a v2 hour can never be
  read as a whole forecast hour, and a half-specified time is always rejected.\<close>

theorem validate_time_schema_accepts_iff:
  "validate_time_schema m = Inr r \<longleftrightarrow>
     (hm_schema m = ''rw-store.hour.v1'' \<and> hm_lead_seconds m = None \<and> hm_valid_unix m = None \<and> r = None)
   \<or> (hm_schema m = ''rw-store.hour.v2'' \<and>
       (\<exists>l v. hm_lead_seconds m = Some l \<and> hm_valid_unix m = Some v \<and>
          - (2 ^ 63) \<le> sint v - uint l \<and> sint v - uint l < 2 ^ 63 \<and>
          r = Some \<lparr>et_lead_seconds = l, et_valid_unix = v\<rparr>))"
  by (cases "hm_lead_seconds m"; cases "hm_valid_unix m")
    (auto simp: validate_time_schema_def SCHEMA_HOUR_def SCHEMA_HOUR_V2_def origin_unix_def Let_def
      ok_or_eq_Inr r_bind_eq_Inr)

end
