(* ===== verification/Rw_Header.thy ===== *)
theory Rw_Header
  imports Rw_Format
begin

text \<open>
  The 64-byte file header (\<^verbatim>\<open>rw-store/src/header.rs\<close>): layout, serialisation and
  the parser with every check it makes. The \<open>u64\<close> arithmetic of \<open>for_layout\<close> wraps,
  as in a release build; the parser's is checked.
\<close>

record rws_header =
  hd_version :: u32
  hd_meta_len :: u32
  hd_index_count :: u64
  hd_index_offset :: u64
  hd_payload_offset :: u64

definition for_layout :: "u32 \<Rightarrow> u64 \<Rightarrow> rws_header" where
  "for_layout meta_len index_count =
     (let index_offset = of_nat HEADER_LEN + ucast meta_len;
          payload_offset = index_offset + index_count * of_nat INDEX_RECORD_LEN
      in \<lparr>hd_version = VERSION, hd_meta_len = meta_len, hd_index_count = index_count,
          hd_index_offset = index_offset, hd_payload_offset = payload_offset\<rparr>)"

definition pack_header :: "rws_header \<Rightarrow> u8 list" where
  "pack_header h =
     MAGIC @ u32_to_le (hd_version h) @ u32_to_le (hd_meta_len h) @ u64_to_le (hd_index_count h) @
     u64_to_le (hd_index_offset h) @ u64_to_le (hd_payload_offset h) @ replicate 24 0"

definition parse_header :: "u8 list \<Rightarrow> rws_header rw_result" where
  "parse_header bytes =
     (if length bytes < HEADER_LEN then Inl (Format ''header requires'')
      else if subslice 0 8 bytes \<noteq> MAGIC then Inl (Format ''bad magic'')
      else
        (let version = u32_of_le (subslice 8 12 bytes)
         in if version \<notin> set SUPPORTED_VERSIONS then Inl (UnsupportedVersion version)
         else
           (let meta_len = u32_of_le (subslice 12 16 bytes);
                index_count = u64_of_le (subslice 16 24 bytes);
                index_offset = u64_of_le (subslice 24 32 bytes);
                payload_offset = u64_of_le (subslice 32 40 bytes);
                expected_index_offset = of_nat HEADER_LEN + ucast meta_len
            in if index_offset \<noteq> expected_index_offset
               then Inl (Format ''inconsistent index_offset'')
               else
                 r_bind
                   (ok_or
                     (Option.bind (u64_checked_mul index_count (of_nat INDEX_RECORD_LEN))
                       (\<lambda>index_bytes. u64_checked_add index_offset index_bytes))
                     (Format ''index_count overflows the index size computation''))
                   (\<lambda>expected_payload_offset.
                      if payload_offset \<noteq> expected_payload_offset
                      then Inl (Format ''inconsistent payload_offset'')
                      else Inr \<lparr>hd_version = version, hd_meta_len = meta_len,
                                hd_index_count = index_count, hd_index_offset = index_offset,
                                hd_payload_offset = payload_offset\<rparr>))))"

section \<open>The contract of a header\<close>

text \<open>What a header promises: the current version and the two derived offsets, without wrap-around.\<close>

definition header_layout :: "rws_header \<Rightarrow> bool" where
  "header_layout h \<longleftrightarrow>
     hd_version h = VERSION \<and>
     unat (hd_index_offset h) = 64 + unat (hd_meta_len h) \<and>
     unat (hd_payload_offset h) = 64 + unat (hd_meta_len h) + 64 * unat (hd_index_count h)"

lemma length_pack_header [simp]: "length (pack_header h) = 64"
  by (simp add: pack_header_def)

lemma unat_meta_end: "unat (64 + ucast (m :: u32) :: u64) = 64 + unat m"
proof -
  have "unat (ucast m :: u64) = unat m"
    using unat_bounds(3) [of m] by (simp add: unsigned_ucast_eq take_bit_nat_eq_self)
  moreover have "unat m < 4294967296" by (rule unat_bounds)
  ultimately show ?thesis
    by (simp add: unat_word_ariths)
qed

lemma for_layout_header_layout:
  assumes "64 + unat m + 64 * unat n < 2 ^ 64"
  shows "header_layout (for_layout m n)"
proof -
  have "unat (64 + ucast m + n * 64 :: u64) = (unat (64 + ucast m :: u64) + unat (n * 64)) mod 2 ^ 64"
    by (simp add: unat_word_ariths)
  also have "unat (n * 64) = 64 * unat n"
    using assms by (simp add: unat_word_ariths mult.commute)
  finally show ?thesis
    using assms by (simp add: header_layout_def for_layout_def Let_def layout_consts unat_meta_end)
qed

lemma header_fields:
  "subslice 0 8 (pack_header h @ rest) = MAGIC"
  "subslice 8 12 (pack_header h @ rest) = u32_to_le (hd_version h)"
  "subslice 12 16 (pack_header h @ rest) = u32_to_le (hd_meta_len h)"
  "subslice 16 24 (pack_header h @ rest) = u64_to_le (hd_index_count h)"
  "subslice 24 32 (pack_header h @ rest) = u64_to_le (hd_index_offset h)"
  "subslice 32 40 (pack_header h @ rest) = u64_to_le (hd_payload_offset h)"
  by (simp_all add: pack_header_def subslice_def)

lemma parse_pack_header:
  assumes "header_layout h"
  shows "parse_header (pack_header h @ rest) = Inr h"
proof -
  have io: "hd_index_offset h = 64 + ucast (hd_meta_len h)"
    using assms by (intro word_unat_eq_iff [THEN iffD2]) (simp add: header_layout_def unat_meta_end)
  have po: "unat (hd_payload_offset h) = unat (hd_index_offset h) + 64 * unat (hd_index_count h)"
    using assms by (simp add: header_layout_def)
  have lt: "unat (hd_index_offset h) + 64 * unat (hd_index_count h) < 2 ^ 64"
    using unat_bounds(4) [of "hd_payload_offset h"] by (simp add: po)
  have mul: "u64_checked_mul (hd_index_count h) 64 = Some (hd_index_count h * 64)"
    using lt by (simp add: u64_checked_mul_def mult.commute)
  from u64_checked_mul_Some [OF mul] have nb: "unat (hd_index_count h * 64) = 64 * unat (hd_index_count h)"
    by simp
  then have add: "u64_checked_add (hd_index_offset h) (hd_index_count h * 64)
      = Some (hd_index_offset h + hd_index_count h * 64)"
    using lt by (simp add: u64_checked_add_def)
  have pay: "hd_payload_offset h = hd_index_offset h + hd_index_count h * 64"
    using u64_checked_add_Some [OF add] nb po
    by (intro word_unat_eq_iff [THEN iffD2]) simp
  have v: "hd_version h = 1"
    using assms by (simp add: header_layout_def VERSION_def)
  show ?thesis
    unfolding parse_header_def header_fields
    by (simp add: layout_consts Let_def v SUPPORTED_VERSIONS_def mul add flip: io pay)
qed

lemma parse_header_InrD:
  assumes "parse_header bs = Inr h"
  shows "64 \<le> length bs" "header_layout h" "take 40 bs = take 40 (pack_header h)"
proof -
  obtain nb where ok: "64 \<le> length bs" "subslice 0 8 bs = MAGIC"
      "hd_version h = u32_of_le (subslice 8 12 bs)" "hd_version h = 1"
      "hd_meta_len h = u32_of_le (subslice 12 16 bs)"
      "hd_index_count h = u64_of_le (subslice 16 24 bs)"
      "hd_index_offset h = u64_of_le (subslice 24 32 bs)"
      "hd_payload_offset h = u64_of_le (subslice 32 40 bs)"
      "hd_index_offset h = 64 + ucast (hd_meta_len h)"
      "u64_checked_mul (hd_index_count h) 64 = Some nb"
      "u64_checked_add (hd_index_offset h) nb = Some (hd_payload_offset h)"
    using assms
    by (auto simp: parse_header_def Let_def layout_consts SUPPORTED_VERSIONS_def r_eq_Inr
        bind_eq_Some_conv not_less split: if_splits)
  show "64 \<le> length bs" by (rule ok)
  show "header_layout h"
    using ok(4,9) u64_checked_mul_Some [OF ok(10)] u64_checked_add_Some [OF ok(11)]
    by (simp add: header_layout_def VERSION_def unat_meta_end)
  have pieces: "take 40 bs = subslice 0 8 bs @ subslice 8 12 bs @ subslice 12 16 bs @
      subslice 16 24 bs @ subslice 24 32 bs @ subslice 32 40 bs"
    using take_add [of 8 32 bs] take_add [of 4 28 "drop 8 bs"] take_add [of 4 24 "drop 12 bs"]
      take_add [of 8 16 "drop 16 bs"] take_add [of 8 8 "drop 24 bs"]
    by (simp add: subslice_def)
  have lens: "length (subslice 8 12 bs) = 4" "length (subslice 12 16 bs) = 4"
      "length (subslice 16 24 bs) = 8" "length (subslice 24 32 bs) = 8" "length (subslice 32 40 bs) = 8"
    using ok(1) by simp_all
  show "take 40 bs = take 40 (pack_header h)"
    unfolding pieces pack_header_def ok(2,3,5,6,7,8)
    by (simp add: u32_to_le_of_le u64_to_le_of_le lens)
qed

lemma not_panics_parse_header: "\<not> panics (parse_header bs)"
  by (auto simp: parse_header_def Let_def ok_or_def split: option.splits intro!: not_panics_bind)

section \<open>Properties\<close>

text \<open>C31. Round trip of the header. Whatever follows it in the file, a header built
  by \<open>for_layout\<close> for a metadata length and an index count whose layout fits in 64
  bits is parsed back unchanged from its 64 packed bytes.\<close>

theorem header_round_trip:
  assumes "64 + unat meta_len + 64 * unat index_count < 2 ^ 64"
  shows "length (pack_header (for_layout meta_len index_count)) = 64 \<and>
    parse_header (pack_header (for_layout meta_len index_count) @ rest) = Inr (for_layout meta_len index_count)"
  using for_layout_header_layout [OF assms] by (simp add: parse_pack_header)

theorem header_round_trip_witness:
  "parse_header (pack_header (for_layout 256 42) @ [7]) = Inr (for_layout 256 42)"
  using header_round_trip [of 256 42 "[7]"] by simp



text \<open>A hostile index count is refused. For every otherwise well-formed header
  whose \<open>index_count\<close> makes \<open>index_offset + 64 * index_count\<close> exceed 64 bits, the
  parser returns a format error, whatever payload offset the file claims.\<close>

theorem parse_header_rejects_overflow:
  assumes "hd_version h = 1" and "hd_index_offset h = 64 + ucast (hd_meta_len h)"
    and "2 ^ 64 \<le> unat (hd_index_offset h) + 64 * unat (hd_index_count h)"
  shows "parse_header (pack_header h @ rest)
    = Inl (Format ''index_count overflows the index size computation'')"
proof -
  have over: "Option.bind (u64_checked_mul (hd_index_count h) 64) (u64_checked_add (hd_index_offset h)) = None"
  proof (cases "u64_checked_mul (hd_index_count h) 64")
    case (Some nb)
    then show ?thesis
      using assms(3) u64_checked_mul_Some [OF Some] by (simp add: u64_checked_add_def)
  qed simp
  show ?thesis
    unfolding parse_header_def header_fields
    by (simp add: layout_consts Let_def SUPPORTED_VERSIONS_def over assms(1) flip: assms(2))
qed

text \<open>The witness is the count of the regression test: \<open>2 ^ 58\<close> records wrap the index size to 0.\<close>

theorem parse_header_rejects_overflow_witness:
  "parse_header (pack_header ((for_layout 0 0)\<lparr>hd_index_count := 2 ^ 58\<rparr>) @ [])
    = Inl (Format ''index_count overflows the index size computation'')"
  by (rule parse_header_rejects_overflow) (simp_all add: for_layout_def Let_def VERSION_def layout_consts)

end
