(* ===== verification/Rw_Index.thy ===== *)
theory Rw_Index
  imports Rw_Header "HOL-Library.Product_Lexorder"
begin

text \<open>
  The 64-byte chunk index record (\<^verbatim>\<open>rw-store/src/index.rs\<close>) and its sort key. The
  order of the keys is the lexicographic order of the tuple, as in Rust.
\<close>

record chunk_record =
  cr_var_id :: u16
  cr_kind :: u8
  cr_flags :: u8
  cr_tile_y :: u32
  cr_tile_x :: u32
  cr_offset :: u64
  cr_len :: u32
  cr_raw_len :: u32
  cr_center :: f32
  cr_scale :: f32
  cr_min :: f32
  cr_max :: f32
  cr_valid_count :: u32

definition pack_into :: "chunk_record \<Rightarrow> u8 list \<Rightarrow> u8 list" where
  "pack_into r out =
     out @ u16_to_le (cr_var_id r) @ [cr_kind r] @ [cr_flags r] @
     u32_to_le (cr_tile_y r) @ u32_to_le (cr_tile_x r) @ u64_to_le (cr_offset r) @
     u32_to_le (cr_len r) @ u32_to_le (cr_raw_len r) @ u32_to_le (cr_center r) @
     u32_to_le (cr_scale r) @ u32_to_le (cr_min r) @ u32_to_le (cr_max r) @
     u32_to_le (cr_valid_count r) @ replicate 16 0"

definition unpack :: "u8 list \<Rightarrow> chunk_record rw_result" where
  "unpack bytes =
     (if length bytes < 64 then Inl (Format ''index record requires 64 bytes'')
      else Inr \<lparr>
        cr_var_id = u16_of_le (subslice 0 2 bytes),
        cr_kind = bytes ! 2,
        cr_flags = bytes ! 3,
        cr_tile_y = u32_of_le (subslice 4 8 bytes),
        cr_tile_x = u32_of_le (subslice 8 12 bytes),
        cr_offset = u64_of_le (subslice 12 20 bytes),
        cr_len = u32_of_le (subslice 20 24 bytes),
        cr_raw_len = u32_of_le (subslice 24 28 bytes),
        cr_center = u32_of_le (subslice 28 32 bytes),
        cr_scale = u32_of_le (subslice 32 36 bytes),
        cr_min = u32_of_le (subslice 36 40 bytes),
        cr_max = u32_of_le (subslice 40 44 bytes),
        cr_valid_count = u32_of_le (subslice 44 48 bytes)\<rparr>)"

definition sort_key :: "chunk_record \<Rightarrow> u16 \<times> u8 \<times> u32 \<times> u32" where
  "sort_key r = (cr_var_id r, cr_kind r, cr_tile_y r, cr_tile_x r)"

section \<open>Facts\<close>

definition pack_record :: "chunk_record \<Rightarrow> u8 list" where
  "pack_record r = pack_into r []"

definition unpack_record :: "u8 list \<Rightarrow> chunk_record" where
  "unpack_record bs = projr (unpack bs)"

lemma pack_into_append: "pack_into r out = out @ pack_record r"
  by (simp add: pack_into_def pack_record_def)

lemma length_pack_record [simp]: "length (pack_record r) = 64"
  by (simp add: pack_record_def pack_into_def)

lemma unpack_pack: "unpack (pack_record r @ rest) = Inr r"
proof -
  have "length (pack_record r @ rest) \<ge> 64" by simp
  moreover have
    "subslice 0 2 (pack_record r @ rest) = u16_to_le (cr_var_id r)"
    "(pack_record r @ rest) ! 2 = cr_kind r"
    "(pack_record r @ rest) ! 3 = cr_flags r"
    "subslice 4 8 (pack_record r @ rest) = u32_to_le (cr_tile_y r)"
    "subslice 8 12 (pack_record r @ rest) = u32_to_le (cr_tile_x r)"
    "subslice 12 20 (pack_record r @ rest) = u64_to_le (cr_offset r)"
    "subslice 20 24 (pack_record r @ rest) = u32_to_le (cr_len r)"
    "subslice 24 28 (pack_record r @ rest) = u32_to_le (cr_raw_len r)"
    "subslice 28 32 (pack_record r @ rest) = u32_to_le (cr_center r)"
    "subslice 32 36 (pack_record r @ rest) = u32_to_le (cr_scale r)"
    "subslice 36 40 (pack_record r @ rest) = u32_to_le (cr_min r)"
    "subslice 40 44 (pack_record r @ rest) = u32_to_le (cr_max r)"
    "subslice 44 48 (pack_record r @ rest) = u32_to_le (cr_valid_count r)"
    by (simp_all add: pack_record_def pack_into_def subslice_def nth_append)
  ultimately show ?thesis by (simp add: unpack_def)
qed

interpretation recc: fixed_codec pack_record unpack_record 64
  by unfold_locales (use unpack_pack [where rest = "[]"] in \<open>simp_all add: unpack_record_def\<close>)

lemma fold_pack_into: "fold pack_into rs out = out @ concat (map pack_record rs)"
  by (induction rs arbitrary: out) (simp_all add: pack_into_append)

lemma not_panics_unpack: "\<not> panics (unpack bs)"
  by (simp add: unpack_def)

text \<open>C33. Round trip of the chunk index. The index section is the concatenation of
  packed records; every record, with whatever bits its statistics fields hold (NaN
  payloads included), is unpacked unchanged from the 64 bytes at its position.\<close>

theorem index_round_trip:
  assumes "i < length rs"
  shows "length (fold pack_into rs []) = 64 * length rs \<and>
    unpack (subslice (i * 64) (i * 64 + 64) (fold pack_into rs [])) = Inr (rs ! i)"
  using recc.slice_enc_array [OF assms] unpack_pack [of "rs ! i" "[]"]
  by (simp add: fold_pack_into recc.enc_array_length)

definition sample_record :: chunk_record where
  "sample_record = \<lparr>cr_var_id = 0xABCD, cr_kind = 1, cr_flags = 3, cr_tile_y = 0x01020304,
     cr_tile_x = 0x05060708, cr_offset = 0xDEADBEEFCAFE1234, cr_len = 0x11112222,
     cr_raw_len = 0x33334444, cr_center = 0x3FC00000, cr_scale = 0x3E800000,
     cr_min = 0x7FC00001, cr_max = 0xFFC00000, cr_valid_count = 0x9999AAAA\<rparr>"

theorem index_round_trip_witness:
  "unpack (subslice (1 * 64) (1 * 64 + 64)
     (fold pack_into [sample_record\<lparr>cr_var_id := 7\<rparr>, sample_record] [])) = Inr sample_record"
  using index_round_trip [of 1 "[sample_record\<lparr>cr_var_id := 7\<rparr>, sample_record]"] by simp

end
