(* ===== verification/Rw_Float_Error.thy ===== *)
theory Rw_Float_Error
  imports Rw_Float
begin

text \<open>
  Error bounds of the floating-point operations: the rational value of a finite
  number, that the exact operations compute on it, and how far rounding moves it.
\<close>

fun num_val :: "fnum \<Rightarrow> rat" where
  "num_val (FFin s m) = signed s m"
| "num_val _ = 0"

definition num_fin :: "fnum \<Rightarrow> bool" where
  "num_fin x \<longleftrightarrow> (\<exists>s m. x = FFin s m \<and> 0 \<le> m)"

lemma abs_diff_leD: "\<bar>x - y\<bar> \<le> e \<Longrightarrow> x \<le> y + e" "\<bar>x - y\<bar> \<le> e \<Longrightarrow> y - e \<le> x" for x y e :: rat
  by (simp_all add: abs_le_iff)

lemma num_finE: "num_fin x \<Longrightarrow> (\<And>s m. x = FFin s m \<Longrightarrow> 0 \<le> m \<Longrightarrow> P) \<Longrightarrow> P"
  by (auto simp: num_fin_def)

lemma num_fin_FFin [simp]: "num_fin (FFin s m) \<longleftrightarrow> 0 \<le> m"
  by (simp add: num_fin_def)

lemma num_add_fin:
  "num_fin x \<Longrightarrow> num_fin y \<Longrightarrow> num_fin (num_add x y) \<and> num_val (num_add x y) = num_val x + num_val y"
  by (elim num_finE) (auto simp: Let_def)

lemma num_neg_fin: "num_fin x \<Longrightarrow> num_fin (num_neg x) \<and> num_val (num_neg x) = - num_val x"
  by (elim num_finE) auto

lemma num_sub_fin:
  "num_fin x \<Longrightarrow> num_fin y \<Longrightarrow> num_fin (num_sub x y) \<and> num_val (num_sub x y) = num_val x - num_val y"
  using num_add_fin [of x "num_neg y"] num_neg_fin [of y] by (simp add: num_sub_def)

lemma num_mul_fin:
  "num_fin x \<Longrightarrow> num_fin y \<Longrightarrow> num_fin (num_mul x y) \<and> num_val (num_mul x y) = num_val x * num_val y"
  by (elim num_finE) auto

lemma num_div_fin:
  "num_fin x \<Longrightarrow> num_fin y \<Longrightarrow> num_val y \<noteq> 0 \<Longrightarrow>
     num_fin (num_div x y) \<and> num_val (num_div x y) = num_val x / num_val y"
  by (elim num_finE) (auto split: if_splits)

lemma f32_val_max:
  assumes "f32_is_finite w"
  shows "\<bar>f32_val w\<bar> \<le> pow2 128 - pow2 104"
proof -
  have "f32_abs_bits w \<le> 255 * 2 ^ 23 - 1"
    using assms by (simp add: f32_is_finite_def)
  then have "f32_mag (f32_abs_bits w) \<le> f32_mag (255 * 2 ^ 23 - 1)"
    using f32_mag_strict_mono by (simp only: strict_mono_less_eq)
  also have "\<dots> = (2 ^ 24 - 1) * 2 ^ 253"
    by (simp add: f32_mag_def)
  finally have "(of_nat (f32_mag (f32_abs_bits w)) :: rat) \<le> of_nat ((2 ^ 24 - 1) * 2 ^ 253)"
    by (simp only: of_nat_le_iff)
  then have "(of_nat (f32_mag (f32_abs_bits w)) :: rat) / 2 ^ 149 \<le> pow2 128 - pow2 104"
    by (simp add: pow2_def)
  moreover have "\<bar>f32_val w\<bar> = of_nat (f32_mag (f32_abs_bits w)) / 2 ^ 149"
    by (simp add: f32_val_def)
  ultimately show ?thesis by simp
qed

lemma f32_num_fin:
  "f32_is_finite w \<Longrightarrow> num_fin (f32_num w) \<and> num_val (f32_num w) = f32_val w"
  by (simp add: f32_num_finite f32_val_def)

lemma round_half_even_error: "0 \<le> x \<Longrightarrow> \<bar>of_nat (round_half_even x) - x\<bar> \<le> 1 / 2"
proof -
  assume x: "0 \<le> x"
  let ?f = "\<lfloor>x\<rfloor>"
  have f: "0 \<le> ?f" "of_int ?f \<le> x" "x < of_int ?f + 1"
    using x by (simp_all add: floor_less_iff) (use floor_correct [of x] in simp)
  show ?thesis
    using f by (auto simp: round_half_even_def Let_def of_nat_nat abs_le_iff)
qed

lemma round_half_even_le_half: "0 \<le> x \<Longrightarrow> x < of_nat N + 1 / 2 \<Longrightarrow> round_half_even x \<le> N"
proof -
  assume x: "0 \<le> x" "x < of_nat N + 1 / 2"
  then have "(of_nat (round_half_even x) :: rat) < of_nat (N + 1)"
    using abs_le_D1 [OF round_half_even_error [of x]] by simp
  then show ?thesis by (simp only: of_nat_less_iff)
qed

lemma f64_round_error:
  assumes "num_fin x" and "\<bar>num_val x\<bar> < pow2 1000"
  shows "num_fin (f64_round x) \<and>
    \<bar>num_val (f64_round x) - num_val x\<bar> \<le> \<bar>num_val x\<bar> * pow2 (-53) + pow2 (-1075)"
proof -
  obtain s m where x: "x = FFin s m" and m: "0 \<le> m" using assms(1) by (rule num_finE)
  define e where "e = max (ilog2 m) (-1022)"
  define r where "r = of_nat (round_half_even (m / pow2 (e - 52))) * pow2 (e - 52)"
  have "\<bar>of_nat (round_half_even (m / pow2 (e - 52))) - m / pow2 (e - 52)\<bar> \<le> 1 / 2"
    using m by (intro round_half_even_error) simp
  then have "\<bar>of_nat (round_half_even (m / pow2 (e - 52))) - m / pow2 (e - 52)\<bar> * pow2 (e - 52)
      \<le> 1 / 2 * pow2 (e - 52)"
    by (rule mult_right_mono) simp
  moreover have "\<bar>of_nat (round_half_even (m / pow2 (e - 52))) - m / pow2 (e - 52)\<bar> * pow2 (e - 52) = \<bar>r - m\<bar>"
    using pow2_pos [of "e - 52"] by (simp only: abs_mult_pos [OF pow2_nonneg] r_def left_diff_distrib) simp
  moreover have "1 / 2 * pow2 (e - 52) = pow2 (e - 53)"
    using pow2_add [of "e - 53" 1] by (simp add: pow2_def [of 1])
  ultimately have half: "\<bar>r - m\<bar> \<le> pow2 (e - 53)" by simp
  have err: "\<bar>r - m\<bar> \<le> m * pow2 (-53) + pow2 (-1075)"
  proof (cases "m = 0")
    case True
    then show ?thesis by (simp add: r_def round_half_even_def)
  next
    case nz: False
    have "pow2 (e - 53) \<le> m * pow2 (-53) + pow2 (-1075)"
    proof (cases "ilog2 m \<le> -1022")
      case True
      then show ?thesis using m by (simp add: e_def)
    next
      case False
      then have "pow2 e \<le> m" using m nz ilog2_bounds(1) [of m] by (simp add: e_def max_def)
      then have "pow2 e * pow2 (-53) \<le> m * pow2 (-53)" by (rule mult_right_mono) simp
      then show ?thesis by (simp add: add_increasing2 flip: pow2_add)
    qed
    with half show ?thesis by linarith
  qed
  have mlt: "m < pow2 1000" using assms(2) x m by (simp split: if_splits)
  have "r \<le> m + m * pow2 (-53) + pow2 (-1075)" using err by (simp add: abs_le_iff)
  also have "\<dots> \<le> pow2 1000 + pow2 1000 * pow2 (-53) + pow2 (-1075)"
    using mlt by (intro add_mono mult_right_mono) simp_all
  also have "\<dots> < pow2 1024" by (simp add: pow2_def)
  finally have r: "r < pow2 1024" .
  have rd: "f64_round x = FFin s r"
    using r by (simp add: x r_def Let_def flip: e_def)
  have "0 \<le> r" by (simp add: r_def)
  moreover have "\<bar>signed s r - signed s m\<bar> = \<bar>r - m\<bar>" by (simp add: abs_minus_commute)
  moreover have "\<bar>signed s m\<bar> = m" using m by simp
  ultimately show ?thesis
    using err unfolding rd by (simp add: x del: signed.simps)
qed

lemma f32_of_num_finite_max:
  assumes "num_fin x" and "\<bar>num_val x\<bar> < pow2 128 - pow2 103"
  shows "f32_is_finite (f32_of_num x)"
proof -
  obtain s m where x: "x = FFin s m" and m: "0 \<le> m" using assms(1) by (rule num_finE)
  have mlt: "m < pow2 128 - pow2 103" using assms(2) x m by (simp split: if_splits)
  show ?thesis
  proof (cases "m < pow2 127")
    case True
    then show ?thesis using m x f32_of_num_finite by simp
  next
    case False
    have "ilog2 m < 128" using mlt m False by (intro ilog2_less) (auto simp: pow2_def)
    moreover have "\<not> ilog2 m < 127"
    proof
      assume "ilog2 m < 127"
      then have "pow2 (ilog2 m + 1) \<le> pow2 127" by simp
      moreover have "0 < m" using False pow2_pos [of 127] m by linarith
      ultimately show False using ilog2_bounds(2) [of m] False by linarith
    qed
    ultimately have e: "ilog2 m = 127" by linarith
    have "m / pow2 104 < of_nat (2 ^ 24 - 1) + 1 / 2"
      using mlt by (simp add: pow2_def)
    then have "round_half_even (m / pow2 104) \<le> 2 ^ 24 - 1"
      using m by (intro round_half_even_le_half) (simp_all del: of_nat_diff)
    then have "f32_round_bits m < 255 * 2 ^ 23"
      by (simp add: f32_round_bits_def e)
    then show ?thesis
      unfolding x f32_is_finite_def f32_of_num_abs_bits .
  qed
qed

text \<open>The binary exponent is the one whose binade holds the number.\<close>

lemma ilog2_eqI:
  assumes "pow2 k \<le> m" and "m < pow2 (k + 1)"
  shows "ilog2 m = k"
proof -
  have "0 < m" using pow2_pos assms(1) by (rule less_le_trans)
  then have b: "pow2 (ilog2 m) \<le> m" "m < pow2 (ilog2 m + 1)" using ilog2_bounds by auto
  have "pow2 (ilog2 m) < pow2 (k + 1)" "pow2 k < pow2 (ilog2 m + 1)"
    using b assms by (auto intro: le_less_trans)
  then have "ilog2 m < k + 1" "k < ilog2 m + 1"
    by (metis not_less pow2_le_iff)+
  then show ?thesis by simp
qed

end
