(* ===== verification/Rw_Codec.thy ===== *)
theory Rw_Codec
  imports Rw_Index Rw_Float_Error
begin

text \<open>
  The chunk codecs (\<^verbatim>\<open>rw-store/src/codec.rs\<close>): the scan for finite range and missing
  values, the lossless \<open>f32\<close> tile codec of 2D fields and the affine \<open>i16\<close> codec of
  3D column chunks, each with its decoder.
\<close>

unbundle bit_operations_syntax

definition MISSING_Q :: i16 where "MISSING_Q = of_int (- 32768)"
definition Q_MIN :: i16 where "Q_MIN = of_int (- 32767)"
definition Q_MAX :: i16 where "Q_MAX = of_int 32767"

record encoded_chunk =
  ec_flags :: u8
  ec_center :: f32
  ec_scale :: f32
  ec_min :: f32
  ec_max :: f32
  ec_valid_count :: u32
  ec_payload :: "u8 list"

record chunk_scan =
  cs_valid_min :: f32
  cs_valid_max :: f32
  cs_valid_count :: nat
  cs_has_missing :: bool

definition scan_step :: "f32 \<Rightarrow> chunk_scan \<Rightarrow> chunk_scan" where
  "scan_step v s =
     (if f32_is_finite v
      then s\<lparr>cs_valid_min := f32_min (cs_valid_min s) v,
             cs_valid_max := f32_max (cs_valid_max s) v,
             cs_valid_count := cs_valid_count s + 1\<rparr>
      else s\<lparr>cs_has_missing := True\<rparr>)"

definition scan_values :: "f32 list \<Rightarrow> chunk_scan" where
  "scan_values values = fold scan_step values
     \<lparr>cs_valid_min = f32_INFINITY, cs_valid_max = f32_NEG_INFINITY,
      cs_valid_count = 0, cs_has_missing = False\<rparr>"

definition empty_chunk :: encoded_chunk where
  "empty_chunk = \<lparr>ec_flags = FLAG_EMPTY, ec_center = 0, ec_scale = 0, ec_min = f32_NAN,
     ec_max = f32_NAN, ec_valid_count = 0, ec_payload = []\<rparr>"

definition i16_bytes :: "i16 list \<Rightarrow> u8 list" where
  "i16_bytes qs = concat (map u16_to_le qs)"

definition f32_bytes :: "f32 list \<Rightarrow> u8 list" where
  "f32_bytes vs = concat (map u32_to_le vs)"

definition affine_center :: "chunk_scan \<Rightarrow> f32" where
  "affine_center scan =
     (let range = f64_sub (f32_num (cs_valid_max scan)) (f32_num (cs_valid_min scan))
      in f32_of_num (f64_add (f32_num (cs_valid_min scan)) (f64_mul (FFin False (1 / 2)) range)))"

definition affine_scale :: "chunk_scan \<Rightarrow> f32" where
  "affine_scale scan =
     (let range = f64_sub (f32_num (cs_valid_max scan)) (f32_num (cs_valid_min scan))
      in f32_of_num (f64_div range (f64_mul (FFin False 2) (FFin False (of_int (sint Q_MAX))))))"

definition quantize :: "f32 \<Rightarrow> f32 \<Rightarrow> f32 \<Rightarrow> i16" where
  "quantize center scale value =
     (if f32_is_finite value
      then f32_to_i16 (f32_clamp (f32_round (f32_div (f32_sub value center) scale))
             (f32_of_i16 Q_MIN) (f32_of_i16 Q_MAX))
      else MISSING_Q)"

definition encode_affine_i16 :: "f32 list \<Rightarrow> encoded_chunk rw_result" where
  "encode_affine_i16 values =
     (let scan = scan_values values
      in if cs_valid_count scan = 0 then Inr empty_chunk
      else if f32_le (f32_abs (f32_sub (cs_valid_max scan) (cs_valid_min scan))) f32_EPSILON then
        (if cs_has_missing scan then
           Inr \<lparr>ec_flags = FLAG_CONSTANT OR FLAG_HAS_MISSING, ec_center = cs_valid_min scan,
                ec_scale = 0, ec_min = cs_valid_min scan, ec_max = cs_valid_max scan,
                ec_valid_count = of_nat (cs_valid_count scan),
                ec_payload = i16_bytes (map (\<lambda>v. if f32_is_finite v then 0 else MISSING_Q) values)\<rparr>
         else
           Inr \<lparr>ec_flags = FLAG_CONSTANT, ec_center = cs_valid_min scan, ec_scale = 0,
                ec_min = cs_valid_min scan, ec_max = cs_valid_max scan,
                ec_valid_count = of_nat (cs_valid_count scan), ec_payload = []\<rparr>)
      else
        (let center = affine_center scan; scale = affine_scale scan
         in if \<not> f32_is_finite scale \<or> f32_le scale 0
            then Inl (Chunk ''invalid affine quantization scale'')
            else Inr \<lparr>ec_flags = (if cs_has_missing scan then FLAG_HAS_MISSING else 0),
                      ec_center = center, ec_scale = scale, ec_min = cs_valid_min scan,
                      ec_max = cs_valid_max scan, ec_valid_count = of_nat (cs_valid_count scan),
                      ec_payload = i16_bytes (map (quantize center scale) values)\<rparr>))"

definition dequantize :: "u8 \<Rightarrow> f32 \<Rightarrow> f32 \<Rightarrow> i16 \<Rightarrow> f32" where
  "dequantize flags center scale q =
     (if q = MISSING_Q then f32_NAN
      else if flags AND FLAG_CONSTANT \<noteq> 0 then center
      else f32_add center (f32_mul scale (f32_of_i16 q)))"

definition decode_affine_i16 :: "u8 \<Rightarrow> f32 \<Rightarrow> f32 \<Rightarrow> u8 list \<Rightarrow> nat \<Rightarrow> f32 list rw_result" where
  "decode_affine_i16 flags center scale payload value_count =
     (if flags AND FLAG_EMPTY \<noteq> 0 then Inr (replicate value_count f32_NAN)
      else if flags AND FLAG_CONSTANT \<noteq> 0 \<and> payload = [] then Inr (replicate value_count center)
      else if length payload \<noteq> value_count * 2 then Inl (Chunk ''dense i16 payload'')
      else Inr (map (\<lambda>pair. dequantize flags center scale (u16_of_le pair)) (chunks_exact 2 payload)))"

definition encode_f32_tile :: "f32 list \<Rightarrow> encoded_chunk" where
  "encode_f32_tile values =
     (let scan = scan_values values
      in if cs_valid_count scan = 0 then empty_chunk
      else if f32_eq (cs_valid_max scan) (cs_valid_min scan) \<and> \<not> cs_has_missing scan then
        \<lparr>ec_flags = FLAG_CONSTANT, ec_center = cs_valid_min scan, ec_scale = 0,
         ec_min = cs_valid_min scan, ec_max = cs_valid_max scan,
         ec_valid_count = of_nat (cs_valid_count scan), ec_payload = []\<rparr>
      else
        \<lparr>ec_flags = (if cs_has_missing scan then FLAG_HAS_MISSING else 0),
         ec_center = f32_mul 0x3F000000 (f32_add (cs_valid_min scan) (cs_valid_max scan)),
         ec_scale = 0, ec_min = cs_valid_min scan, ec_max = cs_valid_max scan,
         ec_valid_count = of_nat (cs_valid_count scan), ec_payload = f32_bytes values\<rparr>)"

definition decode_f32_tile :: "u8 \<Rightarrow> f32 \<Rightarrow> u8 list \<Rightarrow> nat \<Rightarrow> f32 list rw_result" where
  "decode_f32_tile flags center payload value_count =
     (if flags AND FLAG_EMPTY \<noteq> 0 then Inr (replicate value_count f32_NAN)
      else if flags AND FLAG_CONSTANT \<noteq> 0 \<and> payload = [] then Inr (replicate value_count center)
      else if length payload \<noteq> value_count * 4 then Inl (Chunk ''dense f32 payload'')
      else Inr (map u32_of_le (chunks_exact 4 payload)))"

section \<open>The scan\<close>

lemma scan_values_snoc: "scan_values (vs @ [v]) = scan_step v (scan_values vs)"
  by (simp add: scan_values_def)

lemma scan_count: "cs_valid_count (scan_values vs) = length (filter f32_is_finite vs)"
  by (induction vs rule: rev_induct) (simp_all add: scan_values_snoc scan_step_def, simp add: scan_values_def)

lemma scan_has_missing: "cs_has_missing (scan_values vs) \<longleftrightarrow> (\<exists>v\<in>set vs. \<not> f32_is_finite v)"
  by (induction vs rule: rev_induct) (auto simp: scan_values_snoc scan_step_def, simp add: scan_values_def)

lemma scan_range_aux:
  "(if \<forall>v\<in>set vs. \<not> f32_is_finite v
    then cs_valid_min (scan_values vs) = f32_INFINITY \<and> cs_valid_max (scan_values vs) = f32_NEG_INFINITY
    else (cs_valid_min (scan_values vs) \<in> set vs \<and> f32_is_finite (cs_valid_min (scan_values vs))) \<and>
         (cs_valid_max (scan_values vs) \<in> set vs \<and> f32_is_finite (cs_valid_max (scan_values vs))) \<and>
         (\<forall>v\<in>set vs. f32_is_finite v \<longrightarrow> f32_val (cs_valid_min (scan_values vs)) \<le> f32_val v \<and>
            f32_val v \<le> f32_val (cs_valid_max (scan_values vs))))"
proof (induction vs rule: rev_induct)
  case Nil
  show ?case by (simp add: scan_values_def)
next
  case (snoc v vs)
  let ?lo = "cs_valid_min (scan_values vs)" and ?hi = "cs_valid_max (scan_values vs)"
  show ?case
  proof (cases "f32_is_finite v")
    case False
    with snoc show ?thesis by (auto simp: scan_values_snoc scan_step_def)
  next
    case fin: True
    show ?thesis
    proof (cases "\<forall>v\<in>set vs. \<not> f32_is_finite v")
      case True
      with snoc have "?lo = f32_INFINITY" "?hi = f32_NEG_INFINITY" by simp_all
      with fin True show ?thesis
        by (auto simp: scan_values_snoc scan_step_def f32_min_infinity f32_max_neg_infinity)
    next
      case False
      with snoc have old: "?lo \<in> set vs" "f32_is_finite ?lo" "?hi \<in> set vs" "f32_is_finite ?hi"
          "\<forall>v\<in>set vs. f32_is_finite v \<longrightarrow> f32_val ?lo \<le> f32_val v \<and> f32_val v \<le> f32_val ?hi"
        by simp_all
      have "f32_min ?lo v \<in> {?lo, v}" "f32_max ?hi v \<in> {?hi, v}"
          "f32_val (f32_min ?lo v) = min (f32_val ?lo) (f32_val v)"
          "f32_val (f32_max ?hi v) = max (f32_val ?hi) (f32_val v)"
        using f32_min_finite [OF old(2) fin] f32_max_finite [OF old(4) fin] by simp_all
      with fin old show ?thesis
        by (auto simp: scan_values_snoc scan_step_def min_def max_def)
    qed
  qed
qed

lemma scan_range:
  assumes "v \<in> set vs" and "f32_is_finite v"
  shows "cs_valid_min (scan_values vs) \<in> set vs" "f32_is_finite (cs_valid_min (scan_values vs))"
    "cs_valid_max (scan_values vs) \<in> set vs" "f32_is_finite (cs_valid_max (scan_values vs))"
    "f32_val (cs_valid_min (scan_values vs)) \<le> f32_val v" "f32_val v \<le> f32_val (cs_valid_max (scan_values vs))"
  using scan_range_aux [of vs] assms by (auto split: if_splits)

lemma scan_count_0_iff: "cs_valid_count (scan_values vs) = 0 \<longleftrightarrow> (\<forall>v\<in>set vs. \<not> f32_is_finite v)"
  by (simp add: scan_count filter_empty_conv)

section \<open>The lossless tile codec\<close>

text \<open>What decoding gives for a stored value: its bits, or NaN for a missing value, or a zero for a zero.\<close>

definition tile_same :: "f32 \<Rightarrow> f32 \<Rightarrow> bool" where
  "tile_same v w \<longleftrightarrow> w = v \<or> (\<not> f32_is_finite v \<and> w = f32_NAN)
     \<or> (f32_abs_bits v = 0 \<and> f32_abs_bits w = 0)"

definition decode_encoded_tile :: "encoded_chunk \<Rightarrow> nat \<Rightarrow> f32 list rw_result" where
  "decode_encoded_tile c n = decode_f32_tile (ec_flags c) (ec_center c) (ec_payload c) n"

lemma flag_bits:
  "FLAG_EMPTY \<noteq> 0" "FLAG_CONSTANT AND FLAG_EMPTY = 0" "FLAG_HAS_MISSING AND FLAG_EMPTY = 0"
  "FLAG_CONSTANT \<noteq> 0" "FLAG_HAS_MISSING AND FLAG_CONSTANT = 0"
  "FLAG_EMPTY AND FLAG_CONSTANT = 0" "FLAG_EMPTY AND FLAG_HAS_MISSING = 0"
  "FLAG_CONSTANT AND FLAG_HAS_MISSING = 0" "FLAG_HAS_MISSING \<noteq> 0"
  "(FLAG_CONSTANT OR FLAG_HAS_MISSING) AND FLAG_EMPTY = 0"
  "(FLAG_CONSTANT OR FLAG_HAS_MISSING) AND FLAG_CONSTANT \<noteq> 0"
  "(FLAG_CONSTANT OR FLAG_HAS_MISSING) AND FLAG_HAS_MISSING \<noteq> 0"
  by (simp_all add: flag_consts)

lemma decode_f32_bytes: "map u32_of_le (chunks_exact 4 (f32_bytes vs)) = vs"
  by (simp add: f32_bytes_def u32c.dec_array)

lemma length_f32_bytes [simp]: "length (f32_bytes vs) = length vs * 4"
  by (simp add: f32_bytes_def u32c.enc_array_length)

text \<open>The three shapes of an encoded tile.\<close>

lemma encode_f32_tile_cases:
  obtains (empty) "\<forall>v\<in>set vs. \<not> f32_is_finite v" "encode_f32_tile vs = empty_chunk"
  | (uniform) c where "\<forall>v\<in>set vs. f32_is_finite v \<and> f32_eq v c" "c \<in> set vs"
      "ec_flags (encode_f32_tile vs) = FLAG_CONSTANT" "ec_center (encode_f32_tile vs) = c"
      "ec_payload (encode_f32_tile vs) = []"
  | (dense) "\<exists>v\<in>set vs. f32_is_finite v"
      "ec_flags (encode_f32_tile vs) = (if \<exists>v\<in>set vs. \<not> f32_is_finite v then FLAG_HAS_MISSING else 0)"
      "ec_payload (encode_f32_tile vs) = f32_bytes vs"
proof (cases "\<forall>v\<in>set vs. \<not> f32_is_finite v")
  case True
  then show ?thesis by (intro empty) (simp_all add: encode_f32_tile_def Let_def scan_count_0_iff)
next
  case False
  then obtain v where v: "v \<in> set vs" "f32_is_finite v" by auto
  let ?s = "scan_values vs"
  note r = scan_range [OF v]
  have cnt: "cs_valid_count ?s \<noteq> 0" using False by (simp add: scan_count_0_iff)
  show ?thesis
  proof (cases "f32_eq (cs_valid_max ?s) (cs_valid_min ?s) \<and> \<not> cs_has_missing ?s")
    case True
    then have all: "\<forall>v\<in>set vs. f32_is_finite v" by (simp add: scan_has_missing)
    have "f32_eq v' (cs_valid_min ?s)" if "v' \<in> set vs" for v'
    proof -
      have "f32_val (cs_valid_max ?s) = f32_val (cs_valid_min ?s)"
        using True by (simp add: f32_eq_val r)
      moreover have "f32_is_finite v'" using all that by simp
      ultimately show ?thesis using scan_range(5,6) [OF that] r(2) by (simp add: f32_eq_val)
    qed
    with True all r(1) cnt show ?thesis
      by (intro uniform [of "cs_valid_min ?s"]) (auto simp: encode_f32_tile_def Let_def)
  next
    case dense_case: False
    with cnt v show ?thesis
      by (intro dense) (auto simp: encode_f32_tile_def Let_def scan_has_missing)
  qed
qed

lemma tile_round_trip_same:
  "\<exists>ws. decode_encoded_tile (encode_f32_tile vs) (length vs) = Inr ws \<and> list_all2 tile_same vs ws"
proof (cases vs rule: encode_f32_tile_cases)
  case empty
  then show ?thesis
    by (auto simp: decode_encoded_tile_def decode_f32_tile_def empty_chunk_def flag_bits
        list_all2_conv_all_nth tile_same_def)
next
  case (uniform c)
  have "tile_same v c" if "v \<in> set vs" for v
    using that uniform(1,2) f32_eq_bits [of v c] by (auto simp: tile_same_def)
  with uniform show ?thesis
    by (auto simp: decode_encoded_tile_def decode_f32_tile_def flag_bits list_all2_conv_all_nth)
next
  case dense
  then have "vs \<noteq> []" by auto
  then have "f32_bytes vs \<noteq> []"
    using length_f32_bytes [of vs] by (metis length_0_conv mult_eq_0_iff zero_neq_numeral)
  with dense show ?thesis
    by (auto simp: decode_encoded_tile_def decode_f32_tile_def flag_bits decode_f32_bytes
        list_all2_same tile_same_def)
qed

lemma tile_round_trip_exact:
  assumes "\<exists>v\<in>set vs. f32_is_finite v"
    and zeros: "\<And>a b. a \<in> set vs \<Longrightarrow> b \<in> set vs \<Longrightarrow> f32_abs_bits a = 0 \<Longrightarrow> f32_abs_bits b = 0 \<Longrightarrow> a = b"
  shows "decode_encoded_tile (encode_f32_tile vs) (length vs) = Inr vs"
proof (cases vs rule: encode_f32_tile_cases)
  case empty
  with assms(1) show ?thesis by simp
next
  case (uniform c)
  have "v = c" if "v \<in> set vs" for v
    using f32_eq_bits [of v c] zeros [OF that uniform(2)] uniform(1,2) that by auto
  then have "vs = replicate (length vs) c"
    by (simp add: replicate_eqI)
  with uniform show ?thesis
    by (simp add: decode_encoded_tile_def decode_f32_tile_def flag_bits)
next
  case dense
  then have "f32_bytes vs \<noteq> []"
    using length_f32_bytes [of vs] by (metis empty_iff length_0_conv list.set(1) mult_eq_0_iff zero_neq_numeral)
  with dense show ?thesis
    by (auto simp: decode_encoded_tile_def decode_f32_tile_def flag_bits decode_f32_bytes)
qed

lemma encode_f32_tile_stats:
  assumes "v \<in> set vs" and "f32_is_finite v"
  shows "ec_min (encode_f32_tile vs) = cs_valid_min (scan_values vs)"
    "ec_max (encode_f32_tile vs) = cs_valid_max (scan_values vs)"
    "ec_valid_count (encode_f32_tile vs) = of_nat (length (filter f32_is_finite vs))"
proof -
  have "cs_valid_count (scan_values vs) \<noteq> 0" using assms by (auto simp: scan_count_0_iff)
  then show "ec_min (encode_f32_tile vs) = cs_valid_min (scan_values vs)"
    "ec_max (encode_f32_tile vs) = cs_valid_max (scan_values vs)"
    "ec_valid_count (encode_f32_tile vs) = of_nat (length (filter f32_is_finite vs))"
    by (simp_all add: encode_f32_tile_def Let_def flip: scan_count)
qed

section \<open>The affine codec\<close>

definition decode_encoded_affine :: "encoded_chunk \<Rightarrow> nat \<Rightarrow> f32 list rw_result" where
  "decode_encoded_affine c n = decode_affine_i16 (ec_flags c) (ec_center c) (ec_scale c) (ec_payload c) n"

lemma q_limits:
  "f32_num (f32_of_i16 Q_MIN) = FFin True 32767" "f32_num (f32_of_i16 Q_MAX) = FFin False 32767"
  "sint Q_MAX = 32767"
proof -
  have bits: "f32_round_bits 32767 = 0x46FFFE00"
    by (simp add: f32_eval_round)
  have "f32_of_i16 Q_MIN = 0xC6FFFE00" "f32_of_i16 Q_MAX = 0x46FFFE00"
    by (simp_all add: f32_of_i16_def Q_MIN_def Q_MAX_def bits)
  then show "f32_num (f32_of_i16 Q_MIN) = FFin True 32767" "f32_num (f32_of_i16 Q_MAX) = FFin False 32767"
    by (simp_all add: f32_eval_num)
qed (simp add: Q_MAX_def)

lemma decode_i16_bytes: "map u16_of_le (chunks_exact 2 (i16_bytes qs)) = qs"
  by (simp add: i16_bytes_def u16c.dec_array)

lemma length_i16_bytes [simp]: "length (i16_bytes qs) = length qs * 2"
  by (simp add: i16_bytes_def u16c.enc_array_length)

lemma sat_i16_not_missing: "- 32767 \<le> v \<Longrightarrow> v \<le> 32767 \<Longrightarrow> sat_i16 v \<noteq> MISSING_Q"
proof
  assume v: "- 32767 \<le> v" "v \<le> 32767" and "sat_i16 v = MISSING_Q"
  then have "sint (of_int v :: i16) = sint (of_int (- 32768) :: i16)"
    by (simp add: sat_i16_def MISSING_Q_def)
  then have "signed_take_bit 15 v = signed_take_bit 15 (- 32768 :: int)"
    by (simp add: sint_sbintrunc')
  then show False
    using v by (simp add: signed_take_bit_int_eq_self)
qed

text \<open>A clamped value that is a number quantizes to the data range, never to the missing sentinel.\<close>

lemma to_i16_clamped:
  assumes "\<not> f32_is_nan x"
  shows "f32_to_i16 (f32_clamp x (f32_of_i16 Q_MIN) (f32_of_i16 Q_MAX)) \<noteq> MISSING_Q"
proof -
  let ?lo = "f32_of_i16 Q_MIN" and ?hi = "f32_of_i16 Q_MAX"
  define y where "y = f32_clamp x ?lo ?hi"
  have lohi: "\<not> f32_lt ?hi ?lo" by (simp add: f32_lt_def q_limits)
  have y: "y \<in> {x, ?lo, ?hi}" "\<not> f32_lt y ?lo" "\<not> f32_lt ?hi y"
    using lohi f32_lt_irrefl [of ?lo] f32_lt_irrefl [of ?hi]
    by (auto simp: y_def f32_clamp_def Let_def f32_lt_def q_limits)
  have "f32_num y \<noteq> FNaN"
    using y(1) assms by (auto simp: f32_num_nan_iff [symmetric] q_limits)
  then obtain s m where num: "f32_num y = FFin s m" and m: "- 32767 \<le> signed s m" "signed s m \<le> 32767"
    using y(2,3) by (cases "f32_num y") (auto simp: f32_lt_def q_limits split: if_splits)
  have "0 \<le> m"
    using num by (auto simp: f32_num_def split: if_splits)
  then have fl: "0 \<le> \<lfloor>m\<rfloor>" "\<lfloor>m\<rfloor> \<le> 32767"
    using m by (auto simp: floor_le_iff split: if_splits)
  then have "- 32767 \<le> (if s then - \<lfloor>m\<rfloor> else \<lfloor>m\<rfloor>)" "(if s then - \<lfloor>m\<rfloor> else \<lfloor>m\<rfloor>) \<le> 32767"
    by (cases s; simp only: if_True if_False; linarith)+
  then have "sat_i16 (if s then - \<lfloor>m\<rfloor> else \<lfloor>m\<rfloor>) \<noteq> MISSING_Q"
    by (rule sat_i16_not_missing)
  then show ?thesis
    using num by (simp add: f32_to_i16_def flip: y_def)
qed

lemma quantize_missing_iff:
  assumes "f32_is_finite center" "f32_is_finite scale" "f32_lt 0 scale"
  shows "quantize center scale v = MISSING_Q \<longleftrightarrow> \<not> f32_is_finite v"
proof (cases "f32_is_finite v")
  case True
  obtain m where sc: "f32_num scale = FFin False m" "0 < m"
    using f32_num_pos [OF assms(2,3)] by blast
  have "num_sub (f32_num v) (f32_num center) \<noteq> FNaN"
    using True assms(1) by (simp add: f32_num_finite num_sub_def Let_def)
  then have "\<not> f32_is_nan (f32_sub v center)"
    by (simp add: f32_sub_def f32_of_num_not_nan)
  then have "num_div (f32_num (f32_sub v center)) (f32_num scale) \<noteq> FNaN"
    using sc by (cases "f32_num (f32_sub v center)") (auto simp: f32_num_nan_iff)
  then have "\<not> f32_is_nan (f32_div (f32_sub v center) scale)"
    by (simp add: f32_div_def f32_of_num_not_nan)
  then have "num_round (f32_num (f32_div (f32_sub v center) scale)) \<noteq> FNaN"
    by (cases "f32_num (f32_div (f32_sub v center) scale)") (auto simp: f32_num_nan_iff)
  then have "\<not> f32_is_nan (f32_round (f32_div (f32_sub v center) scale))"
    by (simp add: f32_round_def f32_of_num_not_nan)
  with True show ?thesis by (simp add: quantize_def to_i16_clamped)
qed (simp add: quantize_def)

lemma dequantize_nan_iff:
  assumes "f32_is_finite center" "f32_is_finite scale"
  shows "f32_is_nan (dequantize flags center scale q) \<longleftrightarrow> q = MISSING_Q"
proof (cases "q = MISSING_Q \<or> flags AND FLAG_CONSTANT \<noteq> 0")
  case True
  then show ?thesis
    using assms(1) by (auto simp: dequantize_def f32_consts f32_not_finite_and_nan)
next
  case False
  have "num_mul (f32_num scale) (f32_num (f32_of_i16 q)) \<noteq> FNaN"
    using assms(2) f32_of_i16_finite [of q] by (simp add: f32_num_finite)
  then have "\<not> f32_is_nan (f32_mul scale (f32_of_i16 q))"
    by (simp add: f32_mul_def f32_of_num_not_nan)
  then have "num_add (f32_num center) (f32_num (f32_mul scale (f32_of_i16 q))) \<noteq> FNaN"
    using assms(1)
    by (cases "f32_num (f32_mul scale (f32_of_i16 q))") (auto simp: f32_num_finite f32_num_nan_iff Let_def)
  then have "\<not> f32_is_nan (f32_add center (f32_mul scale (f32_of_i16 q)))"
    by (simp add: f32_add_def f32_of_num_not_nan)
  with False show ?thesis by (simp add: dequantize_def)
qed

text \<open>The center of a chunk is finite: the double-precision steps stay clear of the overflow threshold.\<close>

lemma affine_center_finite:
  assumes "f32_is_finite (cs_valid_min scan)" and "f32_is_finite (cs_valid_max scan)"
    and "f32_val (cs_valid_min scan) \<le> f32_val (cs_valid_max scan)"
  shows "f32_is_finite (affine_center scan)"
proof -
  define a where "a = f32_val (cs_valid_min scan)"
  define b where "b = f32_val (cs_valid_max scan)"
  define M where "M = pow2 128 - pow2 104"
  define D where "D = b - a"
  have ab: "\<bar>a\<bar> \<le> M" "\<bar>b\<bar> \<le> M" "0 \<le> D"
    using f32_val_max [OF assms(1)] f32_val_max [OF assms(2)] assms(3)
    by (simp_all add: a_def b_def M_def D_def)
  have M: "1 \<le> M" "M * 4 < pow2 1000" by (simp_all add: M_def pow2_def)
  have dR: "D \<le> 2 * M" "a + D \<le> M" "- M \<le> a"
    using abs_le_D1 [OF ab(2)] abs_le_D2 [OF ab(1)] by (simp_all add: D_def)
  have eps: "pow2 (-53) = 1 / 9007199254740992" "pow2 (-1075) \<le> 1" "0 < pow2 (-1075)" by (simp_all add: pow2_def)
  let ?min = "f32_num (cs_valid_min scan)" and ?max = "f32_num (cs_valid_max scan)"
  have fin: "num_fin ?min" "num_val ?min = a" "num_fin ?max" "num_val ?max = b"
    using f32_num_fin assms by (simp_all add: a_def b_def)
  define R where "R = f64_sub ?max ?min"
  have sub: "num_fin (num_sub ?max ?min)" "num_val (num_sub ?max ?min) = D"
    using num_sub_fin [OF fin(3,1)] fin by (simp_all add: D_def)
  then have R: "num_fin R" "\<bar>num_val R - D\<bar> \<le> D * pow2 (-53) + pow2 (-1075)"
    using f64_round_error [OF sub(1)] ab(3) dR(1) M by (simp_all add: R_def f64_sub_def)
  have R2: "num_val R / 2 \<le> 2 * M + 1" "- 1 \<le> num_val R / 2"
    using abs_diff_leD [OF R(2)] ab(3) dR(1) eps(2,3) unfolding eps(1) by linarith+
  then have Rb: "\<bar>num_val R / 2\<bar> \<le> 2 * M + 1"
    using M(1) by (intro abs_leI) linarith+
  define H where "H = f64_mul (FFin False (1 / 2)) R"
  have mul: "num_fin (num_mul (FFin False (1 / 2)) R)" "num_val (num_mul (FFin False (1 / 2)) R) = num_val R / 2"
    using num_mul_fin [of "FFin False (1 / 2)" R] R(1) by simp_all
  have "\<bar>num_val R / 2\<bar> < pow2 1000" using Rb M by linarith
  then have H: "num_fin H" "\<bar>num_val H - num_val R / 2\<bar> \<le> \<bar>num_val R / 2\<bar> * pow2 (-53) + pow2 (-1075)"
    using f64_round_error [OF mul(1)] mul(2) by (simp_all only: H_def f64_mul_def)
  define S where "S = a + num_val H"
  have add: "num_fin (num_add ?min H)" "num_val (num_add ?min H) = S"
    using num_add_fin [OF fin(1) H(1)] fin by (simp_all add: S_def)
  have sum: "\<bar>S\<bar> \<le> M + M * (1 / 1125899906842624) + 4"
    using abs_diff_leD [OF R(2)] abs_diff_leD [OF H(2)] ab(3) dR Rb M(1) eps(2,3)
    unfolding eps(1) S_def by (intro abs_leI) linarith+
  then have "\<bar>S\<bar> < pow2 1000"
    by (rule le_less_trans) (simp add: M_def pow2_def)
  then have C: "num_fin (f64_add ?min H)"
      "\<bar>num_val (f64_add ?min H) - S\<bar> \<le> \<bar>S\<bar> * pow2 (-53) + pow2 (-1075)"
    using f64_round_error [OF add(1)] add(2) by (simp_all only: f64_add_def)
  have "\<bar>num_val (f64_add ?min H)\<bar> \<le> M + M * (1 / 562949953421312) + 8"
    using abs_diff_leD [OF C(2)] abs_le_D1 [OF sum] abs_le_D2 [OF sum] sum M(1) eps(2) unfolding eps(1)
    by (intro abs_leI) linarith+
  also have "\<dots> < pow2 128 - pow2 103"
    by (simp add: M_def pow2_def)
  finally have "f32_is_finite (f32_of_num (f64_add ?min H))"
    by (rule f32_of_num_finite_max [OF C(1)])
  then show ?thesis
    by (simp add: affine_center_def Let_def H_def R_def)
qed

lemma encode_affine_dense:
  assumes "encode_affine_i16 vs = Inr c" and "ec_scale c \<noteq> 0"
  shows "f32_is_finite (ec_center c)" "f32_is_finite (ec_scale c)" "f32_lt 0 (ec_scale c)"
    "ec_flags c = (if \<exists>v\<in>set vs. \<not> f32_is_finite v then FLAG_HAS_MISSING else 0)"
    "ec_payload c = i16_bytes (map (quantize (ec_center c) (ec_scale c)) vs)"
proof -
  let ?s = "scan_values vs"
  have dense: "cs_valid_count ?s \<noteq> 0" "f32_is_finite (affine_scale ?s)" "\<not> f32_le (affine_scale ?s) 0"
      "c = \<lparr>ec_flags = (if cs_has_missing ?s then FLAG_HAS_MISSING else 0),
            ec_center = affine_center ?s, ec_scale = affine_scale ?s, ec_min = cs_valid_min ?s,
            ec_max = cs_valid_max ?s, ec_valid_count = of_nat (cs_valid_count ?s),
            ec_payload = i16_bytes (map (quantize (affine_center ?s) (affine_scale ?s)) vs)\<rparr>"
    using assms by (auto simp: encode_affine_i16_def Let_def empty_chunk_def split: if_splits)
  obtain v where v: "v \<in> set vs" "f32_is_finite v"
    using dense(1) by (auto simp: scan_count_0_iff)
  note r = scan_range [OF v]
  have "f32_is_finite (affine_center ?s)"
    using r by (intro affine_center_finite) simp_all
  then show "f32_is_finite (ec_center c)" "f32_is_finite (ec_scale c)"
      "ec_flags c = (if \<exists>v\<in>set vs. \<not> f32_is_finite v then FLAG_HAS_MISSING else 0)"
      "ec_payload c = i16_bytes (map (quantize (ec_center c) (ec_scale c)) vs)"
    using dense by (simp_all add: scan_has_missing)
  have "\<not> f32_val (affine_scale ?s) \<le> 0"
    using dense(2,3) f32_zero by (auto simp: f32_le_def num_le_def f32_lt_val f32_eq_val
        simp flip: f32_lt_def f32_eq_def)
  then show "f32_lt 0 (ec_scale c)"
    using dense f32_zero by (simp add: f32_lt_val)
qed

text \<open>The payload-free and constant shapes of an affine chunk all have scale 0.\<close>

lemma encode_affine_cases:
  assumes "encode_affine_i16 vs = Inr c"
  obtains (empty) "\<forall>v\<in>set vs. \<not> f32_is_finite v" "c = empty_chunk"
  | (uniform) "f32_is_finite (ec_center c)" "ec_flags c = FLAG_CONSTANT" "ec_payload c = []"
      "\<forall>v\<in>set vs. f32_is_finite v" "vs \<noteq> []"
  | (uniform_missing) "f32_is_finite (ec_center c)" "ec_flags c = FLAG_CONSTANT OR FLAG_HAS_MISSING"
      "ec_payload c = i16_bytes (map (\<lambda>v. if f32_is_finite v then 0 else MISSING_Q) vs)"
      "\<exists>v\<in>set vs. \<not> f32_is_finite v"
  | (dense) "ec_scale c \<noteq> 0" "\<exists>v\<in>set vs. f32_is_finite v"
proof (cases "\<forall>v\<in>set vs. \<not> f32_is_finite v")
  case True
  with assms show ?thesis by (intro empty) (simp_all add: encode_affine_i16_def Let_def scan_count_0_iff)
next
  case False
  then obtain v where v: "v \<in> set vs" "f32_is_finite v" by auto
  let ?s = "scan_values vs"
  note r = scan_range [OF v]
  have cnt: "cs_valid_count ?s \<noteq> 0" using False by (simp add: scan_count_0_iff)
  show ?thesis
  proof (cases "f32_le (f32_abs (f32_sub (cs_valid_max ?s) (cs_valid_min ?s))) f32_EPSILON")
    case eps: True
    show ?thesis
    proof (cases "cs_has_missing ?s")
      case True
      with eps cnt assms r(2) show ?thesis
        by (intro uniform_missing) (auto simp: encode_affine_i16_def Let_def scan_has_missing)
    next
      case False
      with eps cnt assms r(2) v show ?thesis
        by (intro uniform) (auto simp: encode_affine_i16_def Let_def scan_has_missing)
    qed
  next
    case neps: False
    have "affine_scale ?s \<noteq> 0"
    proof
      assume "affine_scale ?s = 0"
      then have "f32_le (affine_scale ?s) 0"
        using f32_zero f32_eq_refl [of 0] by (simp add: f32_le_def num_le_def f32_eq_def)
      with neps cnt assms show False by (auto simp: encode_affine_i16_def Let_def)
    qed
    with neps cnt assms v show ?thesis
      by (intro dense) (auto simp: encode_affine_i16_def Let_def split: if_splits)
  qed
qed

lemma decode_affine_i16_bytes:
  assumes "flags AND FLAG_EMPTY = 0" and "qs \<noteq> []"
  shows "decode_affine_i16 flags center scale (i16_bytes qs) (length qs) = Inr (map (dequantize flags center scale) qs)"
proof -
  have "i16_bytes qs \<noteq> []"
    using assms(2) length_i16_bytes [of qs] by (metis length_0_conv mult_eq_0_iff zero_neq_numeral)
  moreover have "map (\<lambda>pair. dequantize flags center scale (u16_of_le pair)) (chunks_exact 2 (i16_bytes qs))
      = map (dequantize flags center scale) (map u16_of_le (chunks_exact 2 (i16_bytes qs)))"
    by simp
  ultimately show ?thesis
    using assms(1) unfolding decode_i16_bytes by (simp add: decode_affine_i16_def)
qed

text \<open>A range of \<open>2 ^ -24\<close> is inside the absolute tolerance of the constant test.\<close>

lemma tiny_range_constant: "f32_le (f32_abs (f32_sub 0x33800000 0)) f32_EPSILON"
proof -
  have n: "f32_num 0x33800000 = FFin False (1 / 2 ^ 24)" "f32_num 0 = FFin False 0"
      "f32_num f32_EPSILON = FFin False (1 / 2 ^ 23)"
    by (simp_all add: f32_eval_num f32_EPSILON_def)
  have "ilog2 (1 / 2 ^ 24) = -24" by (rule ilog2_eqI) (simp_all add: pow2_def)
  then have "f32_round_bits (1 / 2 ^ 24) = 0x33800000"
    by (simp add: f32_round_bits_def pow2_def round_half_even_def)
  then have "f32_sub 0x33800000 0 = 0x33800000"
    by (simp add: f32_sub_def n num_sub_def)
  then show ?thesis
    by (simp add: f32_le_def num_le_def n f32_abs_def f32_abs_bits_def)
qed

section \<open>Properties\<close>


text \<open>The 2D tile codec is bit-exact on every tile that has a finite value and in
  which all zeros have the same sign: no rounding, and NaN payloads and infinities
  are kept.\<close>

theorem tile_codec_bit_exact:
  assumes "\<exists>v\<in>set vs. f32_is_finite v"
    and "\<forall>a\<in>set vs. \<forall>b\<in>set vs. f32_abs_bits a = 0 \<longrightarrow> f32_abs_bits b = 0 \<longrightarrow> a = b"
  shows "decode_f32_tile (ec_flags (encode_f32_tile vs)) (ec_center (encode_f32_tile vs))
    (ec_payload (encode_f32_tile vs)) (length vs) = Inr vs"
  using tile_round_trip_exact [of vs] assms by (simp add: decode_encoded_tile_def)

text \<open>A tile with a subnormal, a NaN payload, an infinity and a negative zero.\<close>

theorem tile_codec_bit_exact_witness:
  "(let vs = [0x00000001, 0x7FC12345, 0x7F800000, 0x80000000] in
    decode_f32_tile (ec_flags (encode_f32_tile vs)) (ec_center (encode_f32_tile vs))
      (ec_payload (encode_f32_tile vs)) (length vs) = Inr vs)"
  unfolding Let_def
  by (rule tile_codec_bit_exact) (simp_all add: f32_is_finite_def f32_abs_bits_def)


text \<open>C36. Chunk statistics are exact: in a tile with a finite value, the recorded
  minimum and maximum are values of the tile that bound all its finite values, and
  the recorded count is the number of finite values (below \<open>2 ^ 32\<close> of them).\<close>

theorem tile_stats_exact:
  assumes "v \<in> set vs" and "f32_is_finite v" and "length vs < 2 ^ 32"
  shows "ec_min (encode_f32_tile vs) \<in> set vs \<and> ec_max (encode_f32_tile vs) \<in> set vs \<and>
    f32_val (ec_min (encode_f32_tile vs)) \<le> f32_val v \<and> f32_val v \<le> f32_val (ec_max (encode_f32_tile vs)) \<and>
    unat (ec_valid_count (encode_f32_tile vs)) = length (filter f32_is_finite vs)"
proof -
  have "length (filter f32_is_finite vs) < 2 ^ 32"
    using assms(3) by (rule le_less_trans [OF length_filter_le])
  then show ?thesis
    using scan_range [OF assms(1,2)] encode_f32_tile_stats [OF assms(1,2)] by (simp add: unat_of_nat)
qed

theorem tile_stats_exact_witness:
  "unat (ec_valid_count (encode_f32_tile [0x3F800000, f32_NAN, 0x40000000])) = 2"
  using tile_stats_exact [of "0x3F800000" "[0x3F800000, f32_NAN, 0x40000000]"]
  by (simp add: f32_is_finite_def f32_abs_bits_def f32_NAN_def)

lemma affine_round_trip_missing:
  assumes "encode_affine_i16 vs = Inr c"
  shows "\<exists>ws. decode_affine_i16 (ec_flags c) (ec_center c) (ec_scale c) (ec_payload c) (length vs) = Inr ws \<and>
    list_all2 (\<lambda>v w. f32_is_nan w \<longleftrightarrow> \<not> f32_is_finite v) vs ws"
  using assms
proof (cases rule: encode_affine_cases)
  case empty
  then show ?thesis
    by (simp add: decode_affine_i16_def empty_chunk_def flag_bits list_all2_conv_all_nth f32_consts)
next
  case uniform
  then show ?thesis
    by (simp add: decode_affine_i16_def flag_bits list_all2_conv_all_nth f32_not_finite_and_nan)
next
  case uniform_missing
  define qs where "qs = map (\<lambda>v. if f32_is_finite v then 0 else MISSING_Q) vs"
  have "qs \<noteq> []" using uniform_missing(4) by (auto simp: qs_def)
  then have "decode_affine_i16 (ec_flags c) (ec_center c) (ec_scale c) (ec_payload c) (length vs)
      = Inr (map (dequantize (ec_flags c) (ec_center c) (ec_scale c)) qs)"
    using decode_affine_i16_bytes [of "ec_flags c" qs] uniform_missing(2,3) by (simp add: qs_def flag_bits)
  moreover have "(0 :: i16) \<noteq> MISSING_Q" by (simp add: MISSING_Q_def)
  then have "list_all2 (\<lambda>v w. f32_is_nan w \<longleftrightarrow> \<not> f32_is_finite v) vs
      (map (dequantize (ec_flags c) (ec_center c) (ec_scale c)) qs)"
    using uniform_missing(1,2)
    by (auto simp: qs_def list_all2_conv_all_nth dequantize_def flag_bits f32_consts f32_not_finite_and_nan)
  ultimately show ?thesis by blast
next
  case dense
  note d = encode_affine_dense [OF assms dense(1)]
  define qs where "qs = map (quantize (ec_center c) (ec_scale c)) vs"
  have "qs \<noteq> []" "ec_flags c AND FLAG_EMPTY = 0"
    using dense(2) d(4) by (auto simp: qs_def flag_bits)
  then have "decode_affine_i16 (ec_flags c) (ec_center c) (ec_scale c) (ec_payload c) (length vs)
      = Inr (map (dequantize (ec_flags c) (ec_center c) (ec_scale c)) qs)"
    using decode_affine_i16_bytes [of "ec_flags c" qs] d(5) by (simp add: qs_def)
  moreover have "list_all2 (\<lambda>v w. f32_is_nan w \<longleftrightarrow> \<not> f32_is_finite v) vs
      (map (dequantize (ec_flags c) (ec_center c) (ec_scale c)) qs)"
    by (simp add: qs_def list_all2_conv_all_nth dequantize_nan_iff [OF d(1,2)] quantize_missing_iff [OF d(1,2,3)])
  ultimately show ?thesis by blast
qed

text \<open>C35. The affine codec never confuses data with missing values: whenever a chunk
  encodes, it decodes to one value per source value, and a decoded value is NaN exactly
  where the source value was not finite. In particular quantisation never produces the
  missing sentinel for a finite value, at any chunk range.\<close>

theorem affine_codec_missing_exact:
  assumes "encode_affine_i16 vs = Inr c"
  shows "\<exists>ws. decode_affine_i16 (ec_flags c) (ec_center c) (ec_scale c) (ec_payload c) (length vs) = Inr ws \<and>
    list_all2 (\<lambda>v w. f32_is_nan w \<longleftrightarrow> \<not> f32_is_finite v) vs ws"
  using assms by (rule affine_round_trip_missing)

text \<open>A chunk of 0, a missing value and \<open>2 ^ -24\<close>.\<close>

theorem affine_codec_missing_exact_witness:
  "\<exists>c ws. encode_affine_i16 [0x00000000, f32_NAN, 0x33800000] = Inr c \<and>
    decode_affine_i16 (ec_flags c) (ec_center c) (ec_scale c) (ec_payload c) 3 = Inr ws \<and>
    list_all2 (\<lambda>v w. f32_is_nan w \<longleftrightarrow> \<not> f32_is_finite v) [0x00000000, f32_NAN, 0x33800000] ws"
proof -
  have "scan_values [0x00000000, f32_NAN, 0x33800000] =
      \<lparr>cs_valid_min = 0, cs_valid_max = 0x33800000, cs_valid_count = 2, cs_has_missing = True\<rparr>"
    by (simp add: scan_values_def scan_step_def f32_eval)
  then obtain c where "encode_affine_i16 [0x00000000, f32_NAN, 0x33800000] = Inr c"
    using tiny_range_constant by (simp add: encode_affine_i16_def)
  with affine_codec_missing_exact [OF this] show ?thesis by (simp add: numeral_3_eq_3)
qed

end
