(* ===== verification/Rw_Cache.thy ===== *)
theory Rw_Cache
  imports Rw_Prelude
begin

text \<open>
  The decoded-tile cache of an open hour file (\<^verbatim>\<open>DecodedTileCache\<close> in
  \<^verbatim>\<open>rw-store/src/reader.rs\<close>): a byte-bounded map from tile keys to decoded
  values with least-recently-used eviction.

  The hash map is an association list. Its order stands for the unspecified
  iteration order of the hash map; the facts below hold for every order. The
  interface that the reader relies on is the locale \<open>value_cache\<close>, interpreted
  on the cache at the end of the theory.
\<close>

section \<open>Interface of a value cache\<close>

text \<open>
  What a client may assume of a cache of computed values: a lookup answers with the
  present contents and changes none of them, and an insertion can only forget
  entries, add the inserted one, or keep an entry that was there before.
\<close>

locale value_cache =
  fixes fetch :: "'k \<Rightarrow> 'c \<Rightarrow> 'v option \<times> 'c"
    and store :: "'k \<Rightarrow> 'v \<Rightarrow> 'c \<Rightarrow> 'v \<times> 'c"
    and contents :: "'c \<Rightarrow> 'k \<Rightarrow> 'v option"
    and wf :: "'c \<Rightarrow> bool"
  assumes fetch_value: "wf c \<Longrightarrow> fst (fetch k c) = contents c k"
    and fetch_contents: "wf c \<Longrightarrow> contents (snd (fetch k c)) = contents c"
    and fetch_wf: "wf c \<Longrightarrow> wf (snd (fetch k c))"
    and store_value: "wf c \<Longrightarrow> fst (store k v c) = (case contents c k of None \<Rightarrow> v | Some w \<Rightarrow> w)"
    and store_contents: "wf c \<Longrightarrow> contents (snd (store k v c)) k' = Some w \<Longrightarrow>
      contents c k' = Some w \<or> k' = k \<and> w = v"
    and store_wf: "wf c \<Longrightarrow> wf (snd (store k v c))"
begin

text \<open>A cache is coherent with a computation when all its entries are results of it.\<close>

definition coherent :: "('k \<Rightarrow> 'e + 'v) \<Rightarrow> 'c \<Rightarrow> bool" where
  "coherent f c \<longleftrightarrow> wf c \<and> (\<forall>k v. contents c k = Some v \<longrightarrow> f k = Inr v)"

lemma coherent_hit: "coherent f c \<Longrightarrow> fetch k c = (Some v, c') \<Longrightarrow> f k = Inr v \<and> coherent f c'"
  using fetch_value [of c k] fetch_contents [of c k] fetch_wf [of c k] by (simp add: coherent_def)

lemma coherent_miss: "coherent f c \<Longrightarrow> fetch k c = (None, c') \<Longrightarrow> coherent f c'"
  using fetch_contents [of c k] fetch_wf [of c k] by (simp add: coherent_def)

lemma coherent_store:
  assumes "coherent f c" and "f k = Inr v" and "store k v c = (w, c')"
  shows "w = v \<and> coherent f c'"
proof -
  have "w = v"
    using assms store_value [of c k v] by (auto simp: coherent_def split: option.splits)
  moreover have "coherent f c'"
    using assms store_contents [of c k v] store_wf [of c k v] by (auto simp: coherent_def)
  ultimately show ?thesis ..
qed

text \<open>Reading through the cache is the computation, and keeps the cache coherent.\<close>

lemma read_through:
  assumes "coherent f c"
    and "r = (case fetch k c of
        (Some v, c') \<Rightarrow> (Inr v, c')
      | (None, c') \<Rightarrow> (case f k of
            Inl e \<Rightarrow> (Inl e, c')
          | Inr v \<Rightarrow> (let (w, c'') = store k v c' in (Inr w, c''))))"
  shows "fst r = f k \<and> coherent f (snd r)"
proof (cases "fetch k c")
  case (Pair x c')
  show ?thesis
  proof (cases x)
    case None
    then show ?thesis
      using assms Pair coherent_miss [OF assms(1)] coherent_store [of f c' k]
      by (auto split: sum.splits prod.splits)
  next
    case (Some v)
    then show ?thesis using assms Pair coherent_hit [OF assms(1)] by auto
  qed
qed

end

section \<open>State\<close>

record tile_cache_key =
  tk_kind :: u8
  tk_var_id :: u16
  tk_tile_y :: u32
  tk_tile_x :: u32

record cached_tile =
  ct_values :: "u32 list"
  ct_bytes :: nat
  ct_last_used :: u64

record tile_cache_stats =
  ts_hits :: u64
  ts_misses :: u64
  ts_insertions :: u64
  ts_evictions :: u64
  ts_entries :: nat
  ts_bytes :: nat
  ts_capacity_bytes :: nat

record decoded_tile_cache =
  dc_capacity_bytes :: nat
  dc_bytes :: nat
  dc_clock :: u64
  dc_hits :: u64
  dc_misses :: u64
  dc_insertions :: u64
  dc_evictions :: u64
  dc_entries :: "(tile_cache_key \<times> cached_tile) list"

section \<open>Operations\<close>

text \<open>Saturating arithmetic of \<open>u64\<close> counters and \<open>usize\<close> sizes.\<close>

definition u64_saturating_inc :: "u64 \<Rightarrow> u64" where
  "u64_saturating_inc w = (if w = - 1 then w else w + 1)"

definition usize_saturating_add :: "nat \<Rightarrow> nat \<Rightarrow> nat" where
  "usize_saturating_add a b = min (a + b) (usize_bound - 1)"

definition usize_saturating_mul :: "nat \<Rightarrow> nat \<Rightarrow> nat" where
  "usize_saturating_mul a b = min (a * b) (usize_bound - 1)"

definition cache_new :: "nat \<Rightarrow> decoded_tile_cache" where
  "cache_new capacity_bytes =
     \<lparr>dc_capacity_bytes = capacity_bytes, dc_bytes = 0, dc_clock = 0, dc_hits = 0, dc_misses = 0,
      dc_insertions = 0, dc_evictions = 0, dc_entries = []\<rparr>"

definition next_stamp :: "decoded_tile_cache \<Rightarrow> u64 \<times> decoded_tile_cache" where
  "next_stamp c = (dc_clock c + 1, c\<lparr>dc_clock := dc_clock c + 1\<rparr>)"

text \<open>Setting \<open>last_used\<close> of the entry of a key, through \<open>get_mut\<close>.\<close>

definition touch :: "tile_cache_key \<Rightarrow> u64 \<Rightarrow> (tile_cache_key \<times> cached_tile) list
    \<Rightarrow> (tile_cache_key \<times> cached_tile) list" where
  "touch key stamp = map (\<lambda>(k, e). (k, if k = key then e\<lparr>ct_last_used := stamp\<rparr> else e))"

definition cache_get :: "tile_cache_key \<Rightarrow> decoded_tile_cache \<Rightarrow> u32 list option \<times> decoded_tile_cache" where
  "cache_get key c0 =
     (let (stamp, c) = next_stamp c0
      in case map_of (dc_entries c) key of
           Some entry \<Rightarrow> (Some (ct_values entry),
             c\<lparr>dc_entries := touch key stamp (dc_entries c), dc_hits := u64_saturating_inc (dc_hits c)\<rparr>)
         | None \<Rightarrow> (None, c\<lparr>dc_misses := u64_saturating_inc (dc_misses c)\<rparr>))"

text \<open>\<open>min_by_key(last_used)\<close>: the first entry with the least stamp.\<close>

fun oldest :: "(tile_cache_key \<times> cached_tile) list \<Rightarrow> (tile_cache_key \<times> cached_tile) option" where
  "oldest [] = None"
| "oldest (e # es) = (case oldest es of
      None \<Rightarrow> Some e
    | Some f \<Rightarrow> if ct_last_used (snd f) < ct_last_used (snd e) then Some f else Some e)"

definition remove_entry :: "tile_cache_key \<Rightarrow> decoded_tile_cache \<Rightarrow> decoded_tile_cache" where
  "remove_entry key c =
     (case map_of (dc_entries c) key of
        None \<Rightarrow> c
      | Some removed \<Rightarrow> c\<lparr>dc_entries := filter (\<lambda>(k, _). k \<noteq> key) (dc_entries c),
          dc_bytes := dc_bytes c - ct_bytes removed,
          dc_evictions := u64_saturating_inc (dc_evictions c)\<rparr>)"

lemma oldest_in_set: "oldest es = Some e \<Longrightarrow> e \<in> set es"
  by (induction es arbitrary: e) (auto split: option.splits if_splits)

lemma oldest_None [simp]: "oldest es = None \<longleftrightarrow> es = []"
  by (cases es) (auto split: option.splits)

lemma length_remove_entry:
  "oldest (dc_entries c) = Some e \<Longrightarrow> length (dc_entries (remove_entry (fst e) c)) < length (dc_entries c)"
proof -
  assume "oldest (dc_entries c) = Some e"
  then have e: "e \<in> set (dc_entries c)" by (rule oldest_in_set)
  then obtain r where "map_of (dc_entries c) (fst e) = Some r"
    by (metis map_of_eq_None_iff not_None_eq image_eqI)
  then show ?thesis
    using length_filter_less [OF e, of "\<lambda>(k, _). k \<noteq> fst e"] by (simp add: remove_entry_def split_beta)
qed

text \<open>The eviction loop of \<open>insert\<close>; it ends because every round removes an entry.\<close>

function evict :: "nat \<Rightarrow> decoded_tile_cache \<Rightarrow> decoded_tile_cache" where
  "evict bytes c =
     (if usize_saturating_add (dc_bytes c) bytes > dc_capacity_bytes c
      then (case oldest (dc_entries c) of
              None \<Rightarrow> c
            | Some e \<Rightarrow> evict bytes (remove_entry (fst e) c))
      else c)"
  by pat_completeness auto
termination
  by (relation "measure (\<lambda>(_, c). length (dc_entries c))") (auto intro: length_remove_entry)

declare evict.simps [simp del]

text \<open>
  \<open>reserve_ok\<close> is the outcome of \<open>try_reserve(1)\<close>: without room for the bookkeeping
  the decoded tile is returned uncached.
\<close>

definition cache_insert :: "bool \<Rightarrow> tile_cache_key \<Rightarrow> u32 list \<Rightarrow> decoded_tile_cache
    \<Rightarrow> u32 list \<times> decoded_tile_cache" where
  "cache_insert reserve_ok key values c0 =
     (let (last_used, c) = next_stamp c0
      in case map_of (dc_entries c) key of
           Some existing \<Rightarrow> (ct_values existing, c\<lparr>dc_entries := touch key last_used (dc_entries c)\<rparr>)
         | None \<Rightarrow>
             (let bytes = usize_saturating_mul (length values) 4
              in if dc_capacity_bytes c = 0 \<or> bytes > dc_capacity_bytes c then (values, c)
                 else if \<not> reserve_ok then (values, c)
                 else let c1 = evict bytes c
                      in (values, c1\<lparr>dc_bytes := usize_saturating_add (dc_bytes c1) bytes,
                            dc_insertions := u64_saturating_inc (dc_insertions c1),
                            dc_entries := (key, \<lparr>ct_values = values, ct_bytes = bytes,
                              ct_last_used = last_used\<rparr>) # dc_entries c1\<rparr>)))"

definition cache_clear :: "decoded_tile_cache \<Rightarrow> decoded_tile_cache" where
  "cache_clear c = cache_new (dc_capacity_bytes c)"

definition cache_stats :: "decoded_tile_cache \<Rightarrow> tile_cache_stats" where
  "cache_stats c =
     \<lparr>ts_hits = dc_hits c, ts_misses = dc_misses c, ts_insertions = dc_insertions c,
      ts_evictions = dc_evictions c, ts_entries = length (dc_entries c), ts_bytes = dc_bytes c,
      ts_capacity_bytes = dc_capacity_bytes c\<rparr>"

section \<open>Invariant\<close>

abbreviation entry_bytes :: "(tile_cache_key \<times> cached_tile) list \<Rightarrow> nat" where
  "entry_bytes es \<equiv> sum_list (map (\<lambda>x. ct_bytes (snd x)) es)"

text \<open>
  Keys are unique, the byte counter is the sum of the sizes of the entries and within
  the capacity, and each entry is charged four bytes per value. The capacity is below
  \<open>usize::MAX\<close>: at that value the saturating sum of the loop test never exceeds it.
\<close>

definition cache_wf :: "decoded_tile_cache \<Rightarrow> bool" where
  "cache_wf c \<longleftrightarrow> distinct (map fst (dc_entries c)) \<and> dc_bytes c = entry_bytes (dc_entries c) \<and>
     dc_bytes c \<le> dc_capacity_bytes c \<and> dc_capacity_bytes c < usize_bound - 1 \<and>
     (\<forall>(k, e) \<in> set (dc_entries c). ct_bytes e = 4 * length (ct_values e))"

text \<open>Stamps are unique and not ahead of the clock.\<close>

definition stamps_ok :: "decoded_tile_cache \<Rightarrow> bool" where
  "stamps_ok c \<longleftrightarrow> distinct (map (\<lambda>x. ct_last_used (snd x)) (dc_entries c)) \<and>
     (\<forall>(k, e) \<in> set (dc_entries c). ct_last_used e \<le> dc_clock c)"

definition cache_contents :: "decoded_tile_cache \<Rightarrow> tile_cache_key \<Rightarrow> u32 list option" where
  "cache_contents c k = map_option ct_values (map_of (dc_entries c) k)"

lemma touch_simps [simp]:
  "map fst (touch k t es) = map fst es"
  "map (\<lambda>x. ct_bytes (snd x)) (touch k t es) = map (\<lambda>x. ct_bytes (snd x)) es"
  "length (touch k t es) = length es"
  by (auto simp: touch_def)

lemma touch_Cons:
  "touch key t ((k, e) # es) = (k, if k = key then e\<lparr>ct_last_used := t\<rparr> else e) # touch key t es"
  by (simp add: touch_def)

lemma map_of_touch: "map_option ct_values (map_of (touch k t es) k') = map_option ct_values (map_of es k')"
  by (induction es) (auto simp: touch_def)

lemma set_touchD:
  "(k, e) \<in> set (touch key t es) \<Longrightarrow> \<exists>e0. (k, e0) \<in> set es \<and> ct_values e = ct_values e0 \<and> ct_bytes e = ct_bytes e0 \<and>
    ct_last_used e = (if k = key then t else ct_last_used e0)"
  by (auto simp: touch_def)

lemma stamps_touch:
  assumes "distinct (map fst es)" and "distinct (map (\<lambda>x. ct_last_used (snd x)) es)"
    and "\<forall>(k, e) \<in> set es. ct_last_used e < t"
  shows "distinct (map (\<lambda>x. ct_last_used (snd x)) (touch key t es))"
  using assms
proof (induction es)
  case (Cons a es)
  obtain k e where a: "a = (k, e)" by (cases a)
  have stamp: "ct_last_used f \<noteq> (if k = key then t else ct_last_used e)"
    if f: "(k', f) \<in> set (touch key t es)" for k' f
  proof -
    obtain f0 where f0: "(k', f0) \<in> set es" "ct_last_used f = (if k' = key then t else ct_last_used f0)"
      using set_touchD [OF f] by blast
    have "k' \<noteq> k" using Cons.prems(1) f0(1) a by force
    moreover have "ct_last_used f0 < t" "ct_last_used e < t" using Cons.prems(3) f0(1) a by auto
    moreover have "ct_last_used f0 \<noteq> ct_last_used e" using Cons.prems(2) f0(1) a by force
    ultimately show ?thesis using f0(2) by auto
  qed
  have "(if k = key then t else ct_last_used e) \<notin> (\<lambda>x. ct_last_used (snd x)) ` set (touch key t es)"
    using stamp by force
  moreover have "distinct (map (\<lambda>x. ct_last_used (snd x)) (touch key t es))"
    using Cons by (simp add: comp_def)
  ultimately show ?case
    by (cases "k = key") (simp_all add: a touch_Cons comp_def)
qed (simp add: touch_def)

lemma entry_bytes_remove:
  "distinct (map fst es) \<Longrightarrow> (k, e) \<in> set es \<Longrightarrow>
    entry_bytes (filter (\<lambda>(k', _). k' \<noteq> k) es) + ct_bytes e = entry_bytes es"
proof (induction es)
  case (Cons a es)
  then show ?case
  proof (cases "a = (k, e)")
    case True
    then have "k \<notin> fst ` set es" using Cons.prems by simp
    then have "filter (\<lambda>(k', _). k' \<noteq> k) es = es" by (intro filter_True) force
    with True show ?thesis by simp
  next
    case False
    with Cons show ?thesis by (cases a) (force simp: image_iff)
  qed
qed simp

lemma remove_oldest:
  assumes "distinct (map fst (dc_entries c))" and "oldest (dc_entries c) = Some (k, e)"
  shows "remove_entry k c = c\<lparr>dc_entries := filter (\<lambda>(k', _). k' \<noteq> k) (dc_entries c),
      dc_bytes := dc_bytes c - ct_bytes e, dc_evictions := u64_saturating_inc (dc_evictions c)\<rparr>"
  using map_of_is_SomeI [OF assms(1) oldest_in_set [OF assms(2)]] by (simp add: remove_entry_def)

lemma cache_wf_remove:
  assumes "cache_wf c" and "oldest (dc_entries c) = Some (k, e)"
  shows "cache_wf (remove_entry k c)"
proof -
  have d: "distinct (map fst (dc_entries c))" using assms(1) by (simp add: cache_wf_def)
  show ?thesis
    using assms(1) entry_bytes_remove [OF d oldest_in_set [OF assms(2)]] d
    unfolding remove_oldest [OF d assms(2)]
    by (auto simp: cache_wf_def distinct_map_filter)
qed

lemma remove_entry_frame [simp]:
  "dc_capacity_bytes (remove_entry k c) = dc_capacity_bytes c" "dc_clock (remove_entry k c) = dc_clock c"
  by (auto simp: remove_entry_def split: option.splits)

lemma evict_frame [simp]:
  "dc_capacity_bytes (evict b c) = dc_capacity_bytes c" "dc_clock (evict b c) = dc_clock c"
  by (induction b c rule: evict.induct) (subst evict.simps, auto split: option.splits)+

lemma evict_noop: "usize_saturating_add (dc_bytes c) b \<le> dc_capacity_bytes c \<Longrightarrow> evict b c = c"
  by (subst evict.simps) simp

lemma evict_wf: "cache_wf c \<Longrightarrow> cache_wf (evict b c)"
  by (induction b c rule: evict.induct)
    (subst evict.simps, auto split: option.splits simp: cache_wf_remove)

lemma evict_subset: "set (dc_entries (evict b c)) \<subseteq> set (dc_entries c)"
proof (induction b c rule: evict.induct)
  case (1 b c)
  have r: "set (dc_entries (remove_entry k c)) \<subseteq> set (dc_entries c)" for k
    by (auto simp: remove_entry_def split: option.splits)
  show ?case
  proof (cases "usize_saturating_add (dc_bytes c) b > dc_capacity_bytes c \<and> dc_entries c \<noteq> []")
    case True
    then obtain e where e: "oldest (dc_entries c) = Some e" by (cases "oldest (dc_entries c)") auto
    have "set (dc_entries (evict b (remove_entry (fst e) c))) \<subseteq> set (dc_entries c)"
      using 1 [OF _ e] True r by (rule_tac subset_trans) simp_all
    with True e show ?thesis by (simp add: evict.simps [of b c])
  qed (auto simp: evict.simps [of b c])
qed

lemma evict_fits:
  assumes "cache_wf c" and "b \<le> dc_capacity_bytes c"
  shows "dc_bytes (evict b c) + b \<le> dc_capacity_bytes c"
  using assms
proof (induction b c rule: evict.induct)
  case (1 b c)
  show ?case
  proof (cases "usize_saturating_add (dc_bytes c) b > dc_capacity_bytes c")
    case True
    show ?thesis
    proof (cases "oldest (dc_entries c)")
      case None
      then have "dc_bytes c = 0" using 1(2) by (simp add: cache_wf_def)
      with 1(3) show ?thesis using None by (simp add: evict.simps [of b c])
    next
      case (Some e)
      obtain k t where e: "e = (k, t)" by (cases e)
      from 1(1) [OF True Some] 1(2,3) True Some cache_wf_remove [OF 1(2), of k t] show ?thesis
        by (simp add: e evict.simps [of b c])
    qed
  next
    case False
    then show ?thesis
      using 1(2) by (auto simp: evict.simps [of b c] usize_saturating_add_def cache_wf_def min_def split: if_splits)
  qed
qed

text \<open>The entries at least as young as a given stamp.\<close>

definition young_bytes :: "(tile_cache_key \<times> cached_tile) list \<Rightarrow> u64 \<Rightarrow> nat" where
  "young_bytes es t = entry_bytes (filter (\<lambda>(_, e). t \<le> ct_last_used e) es)"

lemma oldest_min: "oldest es = Some f \<Longrightarrow> e \<in> set es \<Longrightarrow> ct_last_used (snd f) \<le> ct_last_used (snd e)"
  by (induction es arbitrary: f) (auto split: option.splits if_splits intro: less_imp_le)

lemma young_bytes_le: "young_bytes es t \<le> entry_bytes es"
  by (induction es) (auto simp: young_bytes_def)

lemma distinct_stamps_filter:
  "distinct (map (\<lambda>x. ct_last_used (snd x)) es) \<Longrightarrow> distinct (map (\<lambda>x. ct_last_used (snd x)) (filter P es))"
  by (rule distinct_map_filter)

lemma oldest_strict:
  assumes "distinct (map (\<lambda>x. ct_last_used (snd x)) es)" and "oldest es = Some f" and "e \<in> set es" and "e \<noteq> f"
  shows "ct_last_used (snd f) < ct_last_used (snd e)"
proof -
  have "inj_on (\<lambda>x. ct_last_used (snd x)) (set es)" using assms(1) by (simp add: distinct_map)
  then have "ct_last_used (snd f) \<noteq> ct_last_used (snd e)"
    using assms(3,4) oldest_in_set [OF assms(2)] inj_onD by fastforce
  with oldest_min [OF assms(2,3)] show ?thesis by simp
qed

text \<open>
  Eviction is exactly least recently used: an entry survives when it, the younger
  entries and the new tile fit the capacity together.
\<close>

lemma evict_lru:
  assumes "cache_wf c" and "distinct (map (\<lambda>x. ct_last_used (snd x)) (dc_entries c))"
    and "e \<in> set (dc_entries c)"
  shows "e \<in> set (dc_entries (evict b c)) \<longleftrightarrow>
    b + young_bytes (dc_entries c) (ct_last_used (snd e)) \<le> dc_capacity_bytes c"
  using assms
proof (induction b c rule: evict.induct)
  case (1 b c)
  let ?es = "dc_entries c"
  have bytes: "dc_bytes c = entry_bytes ?es" "dc_capacity_bytes c < usize_bound - 1" using 1(2) by (simp_all add: cache_wf_def)
  show ?case
  proof (cases "usize_saturating_add (dc_bytes c) b > dc_capacity_bytes c")
    case False
    then have "b + entry_bytes ?es \<le> dc_capacity_bytes c"
      using bytes by (auto simp: usize_saturating_add_def min_def split: if_splits)
    then have "b + young_bytes ?es (ct_last_used (snd e)) \<le> dc_capacity_bytes c"
      using young_bytes_le [of ?es "ct_last_used (snd e)"] by simp
    with False 1(4) show ?thesis by (simp add: evict.simps [of b c])
  next
    case big: True
    with 1(4) obtain f where f: "oldest ?es = Some f" by (cases "oldest ?es") auto
    obtain k t where kt: "f = (k, t)" by (cases f)
    have d: "distinct (map fst ?es)" using 1(2) by (simp add: cache_wf_def)
    let ?fs = "filter (\<lambda>(k', _). k' \<noteq> k) ?es"
    have rem: "dc_entries (remove_entry k c) = ?fs" "dc_capacity_bytes (remove_entry k c) = dc_capacity_bytes c"
      using remove_oldest [OF d, of k t] f kt by simp_all
    have ev: "evict b c = evict b (remove_entry k c)" using big f kt by (simp add: evict.simps [of b c])
    show ?thesis
    proof (cases "e = f")
      case True
      have "young_bytes ?es (ct_last_used (snd f)) = entry_bytes ?es"
        unfolding young_bytes_def using oldest_min [OF f] by (subst filter_True) auto
      moreover have "b + entry_bytes ?es > dc_capacity_bytes c"
        using big bytes by (auto simp: usize_saturating_add_def min_def split: if_splits)
      moreover have "e \<notin> set (dc_entries (evict b (remove_entry k c)))"
        using evict_subset [of b "remove_entry k c"] rem(1) True kt by auto
      ultimately show ?thesis using True ev by simp
    next
      case False
      have lt: "ct_last_used t < ct_last_used (snd e)" using oldest_strict [OF 1(3) f 1(4) False] kt by simp
      have e: "e \<in> set ?fs"
        using 1(4) oldest_in_set [OF f] False kt eq_key_imp_eq_value [OF d] by auto
      have "filter (\<lambda>(_, x). ct_last_used (snd e) \<le> ct_last_used x) ?es
          = filter (\<lambda>(_, x). ct_last_used (snd e) \<le> ct_last_used x) ?fs"
        unfolding filter_filter
      proof (rule filter_cong [OF refl])
        fix x assume x: "x \<in> set ?es"
        then have "fst x = k \<Longrightarrow> snd x = t"
          using oldest_in_set [OF f] kt eq_key_imp_eq_value [OF d, of k "snd x" t] by (metis prod.collapse)
        then show "(case x of (_, x) \<Rightarrow> ct_last_used (snd e) \<le> ct_last_used x) =
            ((case x of (k', _) \<Rightarrow> k' \<noteq> k) \<and> (case x of (_, x) \<Rightarrow> ct_last_used (snd e) \<le> ct_last_used x))"
          using lt by (cases x) auto
      qed
      then have "young_bytes ?es (ct_last_used (snd e)) = young_bytes ?fs (ct_last_used (snd e))"
        by (simp add: young_bytes_def)
      moreover have "e \<in> set (dc_entries (evict b (remove_entry k c))) \<longleftrightarrow>
          b + young_bytes ?fs (ct_last_used (snd e)) \<le> dc_capacity_bytes c"
        using 1(1) [OF big f] cache_wf_remove [OF 1(2), of k t] distinct_stamps_filter [OF 1(3)] e f kt rem
        by (simp add: comp_def)
      ultimately show ?thesis using ev by simp
    qed
  qed
qed

section \<open>Every operation keeps the invariant\<close>

lemma usize_mul_small: "usize_saturating_mul n 4 \<le> cap \<Longrightarrow> cap < usize_bound - 1 \<Longrightarrow> usize_saturating_mul n 4 = 4 * n"
  by (auto simp: usize_saturating_mul_def min_def split: if_splits)

lemma cache_wf_touch:
  assumes "cache_wf c"
  shows "cache_wf (c\<lparr>dc_entries := touch k t (dc_entries c)\<rparr>)"
proof -
  have "ct_bytes e = 4 * length (ct_values e)" if "(k', e) \<in> set (touch k t (dc_entries c))" for k' e
    using set_touchD [OF that] assms by (auto simp: cache_wf_def)
  with assms show ?thesis by (auto simp: cache_wf_def)
qed

lemma cache_wf_frame:
  "cache_wf (c\<lparr>dc_clock := a\<rparr>) = cache_wf c" "cache_wf (c\<lparr>dc_hits := h\<rparr>) = cache_wf c"
  "cache_wf (c\<lparr>dc_misses := m\<rparr>) = cache_wf c"
  by (simp_all add: cache_wf_def)

lemma get_wf: "cache_wf c \<Longrightarrow> cache_wf (snd (cache_get k c))"
  using cache_wf_touch [of "c\<lparr>dc_clock := dc_clock c + 1\<rparr>" k "dc_clock c + 1"]
  by (auto simp: cache_get_def next_stamp_def cache_wf_frame split: option.splits)

lemma insert_wf:
  assumes "cache_wf c"
  shows "cache_wf (snd (cache_insert ok k v c))"
proof -
  let ?c = "c\<lparr>dc_clock := dc_clock c + 1\<rparr>"
  let ?b = "usize_saturating_mul (length v) 4"
  have wf: "cache_wf ?c" using assms by (simp add: cache_wf_frame)
  consider (old) x where "map_of (dc_entries c) k = Some x"
    | (skip) "map_of (dc_entries c) k = None" "dc_capacity_bytes c = 0 \<or> ?b > dc_capacity_bytes c \<or> \<not> ok"
    | (new) "map_of (dc_entries c) k = None" "?b \<le> dc_capacity_bytes c" "dc_capacity_bytes c \<noteq> 0" "ok"
    by fastforce
  then show ?thesis
  proof cases
    case old
    then show ?thesis using cache_wf_touch [OF wf, of k] by (simp add: cache_insert_def next_stamp_def)
  next
    case skip
    then show ?thesis using wf by (auto simp: cache_insert_def next_stamp_def Let_def)
  next
    case new
    define E where "E = evict ?b ?c"
    have cap: "dc_capacity_bytes E = dc_capacity_bytes c" by (simp add: E_def)
    have e: "cache_wf E" and fit: "dc_bytes E + ?b \<le> dc_capacity_bytes E"
      using evict_wf [OF wf, of ?b] evict_fits [OF wf, of ?b] new(2) by (simp_all add: E_def)
    have b: "?b = 4 * length v"
      using usize_mul_small [OF new(2)] assms unfolding cache_wf_def by blast
    have k: "k \<notin> fst ` set (dc_entries E)"
      using evict_subset [of ?b ?c] new(1) unfolding E_def by (auto simp: map_of_eq_None_iff)
    have add: "usize_saturating_add (dc_bytes E) ?b = dc_bytes E + ?b"
      using fit e unfolding usize_saturating_add_def cache_wf_def by linarith
    have "snd (cache_insert ok k v c) = E\<lparr>dc_bytes := dc_bytes E + ?b,
        dc_insertions := u64_saturating_inc (dc_insertions E),
        dc_entries := (k, \<lparr>ct_values = v, ct_bytes = ?b, ct_last_used = dc_clock c + 1\<rparr>) # dc_entries E\<rparr>"
      using new add unfolding E_def by (simp add: cache_insert_def next_stamp_def Let_def)
    then show ?thesis
      using e fit k b unfolding cache_wf_def by simp
  qed
qed

lemma clear_wf: "cache_wf c \<Longrightarrow> cache_wf (cache_clear c)"
  by (simp add: cache_wf_def cache_clear_def cache_new_def)

lemma get_contents: "cache_contents (snd (cache_get k c)) = cache_contents c"
  by (auto simp: cache_contents_def cache_get_def next_stamp_def map_of_touch split: option.splits)

lemma evict_contents:
  assumes "cache_wf c" and "map_of (dc_entries (evict b c)) k = Some e"
  shows "map_of (dc_entries c) k = Some e"
  using assms evict_subset [of b c] by (auto simp: cache_wf_def dest!: map_of_SomeD intro: map_of_is_SomeI)

lemma insert_contents:
  assumes "cache_wf c" and "cache_contents (snd (cache_insert ok k v c)) k' = Some w"
  shows "cache_contents c k' = Some w \<or> k' = k \<and> w = v"
proof -
  have wf: "cache_wf (c\<lparr>dc_clock := dc_clock c + 1\<rparr>)" using assms(1) by (simp add: cache_wf_frame)
  show ?thesis
  proof (cases "map_of (dc_entries c) k")
    case None
    then show ?thesis
      using assms(2)
      by (auto simp: cache_contents_def cache_insert_def next_stamp_def Let_def
          dest: evict_contents [OF wf] split: option.splits if_splits)
  next
    case (Some e)
    then show ?thesis
      using assms(2) map_of_touch [of k "dc_clock c + 1" "dc_entries c" k']
      by (simp add: cache_contents_def cache_insert_def next_stamp_def)
  qed
qed

lemma cache_interface:
  "value_cache cache_get (cache_insert ok) cache_contents cache_wf"
proof
  fix c k k' v w assume c: "cache_wf c"
  show "fst (cache_get k c) = cache_contents c k"
    by (auto simp: cache_get_def next_stamp_def cache_contents_def split: option.splits)
  show "cache_contents (snd (cache_get k c)) = cache_contents c" by (rule get_contents)
  show "cache_wf (snd (cache_get k c))" using c by (rule get_wf)
  show "fst (cache_insert ok k v c) = (case cache_contents c k of None \<Rightarrow> v | Some w \<Rightarrow> w)"
    by (auto simp: cache_insert_def next_stamp_def cache_contents_def Let_def split: option.splits)
  show "cache_wf (snd (cache_insert ok k v c))" using c by (rule insert_wf)
  show "cache_contents c k' = Some w \<or> k' = k \<and> w = v"
    if "cache_contents (snd (cache_insert ok k v c)) k' = Some w"
    using c that by (rule insert_contents)
qed

interpretation tc: value_cache cache_get "cache_insert ok" cache_contents cache_wf for ok
  by (rule cache_interface)

section \<open>Sequences of operations\<close>

datatype cache_op =
    Op_get tile_cache_key
  | Op_insert bool tile_cache_key "u32 list"
  | Op_clear

fun run_op :: "cache_op \<Rightarrow> decoded_tile_cache \<Rightarrow> decoded_tile_cache" where
  "run_op (Op_get k) c = snd (cache_get k c)"
| "run_op (Op_insert ok k v) c = snd (cache_insert ok k v c)"
| "run_op Op_clear c = cache_clear c"

lemma run_op_wf: "cache_wf c \<Longrightarrow> cache_wf (run_op op c)"
  by (cases op) (simp_all add: get_wf insert_wf clear_wf)

lemma run_op_capacity: "dc_capacity_bytes (run_op op c) = dc_capacity_bytes c"
  by (cases op) (auto simp: cache_get_def cache_insert_def cache_clear_def cache_new_def next_stamp_def Let_def
      split: option.splits)

lemma run_op_clock: "dc_clock (run_op op c) = dc_clock c + 1 \<or> dc_clock (run_op op c) = 0"
  by (cases op) (auto simp: cache_get_def cache_insert_def cache_clear_def cache_new_def next_stamp_def Let_def
      split: option.splits)

lemma clock_next: "unat (t :: u64) < 2 ^ 64 - 1 \<Longrightarrow> t < t + 1 \<and> unat (t + 1) = unat t + 1"
  by (simp add: unat_word_ariths(1) word_less_nat_alt)

lemma stamps_touch_ok:
  assumes "cache_wf c" and "stamps_ok c" and "unat (dc_clock c) < 2 ^ 64 - 1"
  shows "stamps_ok (c\<lparr>dc_clock := dc_clock c + 1, dc_entries := touch k (dc_clock c + 1) (dc_entries c)\<rparr>)"
proof -
  note n = clock_next [OF assms(3)]
  have old: "ct_last_used e < dc_clock c + 1" if "(k', e) \<in> set (dc_entries c)" for k' e
    using assms(2) that n unfolding stamps_ok_def by (auto intro: le_less_trans)
  have "distinct (map (\<lambda>x. ct_last_used (snd x)) (touch k (dc_clock c + 1) (dc_entries c)))"
    using assms(1,2) old by (intro stamps_touch) (auto simp: cache_wf_def stamps_ok_def)
  moreover have "ct_last_used e \<le> dc_clock c + 1"
    if "(k', e) \<in> set (touch k (dc_clock c + 1) (dc_entries c))" for k' e
  proof -
    note t = that
    obtain e0 where "(k', e0) \<in> set (dc_entries c)" "ct_last_used e = (if k' = k then dc_clock c + 1 else ct_last_used e0)"
      using set_touchD [OF t] by blast
    with old [of k' e0] show ?thesis by (cases "k' = k") simp_all
  qed
  ultimately show ?thesis by (auto simp: stamps_ok_def)
qed

lemma distinct_subset_stamps:
  assumes "distinct (map (\<lambda>x. ct_last_used (snd x)) (dc_entries c))"
  shows "distinct (map (\<lambda>x. ct_last_used (snd x)) (dc_entries (evict b c)))"
  using assms
proof (induction b c rule: evict.induct)
  case (1 b c)
  have "distinct (map (\<lambda>x. ct_last_used (snd x)) (dc_entries (remove_entry k c)))" for k
    using distinct_stamps_filter [OF 1(2)] 1(2) by (auto simp: remove_entry_def comp_def split: option.splits)
  then show ?case
    using 1 by (subst evict.simps) (simp split: option.splits)
qed

lemma stamps_insert_new:
  assumes "stamps_ok c" and "unat (dc_clock c) < 2 ^ 64 - 1" and c1: "c1 = evict b (c\<lparr>dc_clock := dc_clock c + 1\<rparr>)"
  shows "stamps_ok (c1\<lparr>dc_bytes := a, dc_insertions := i,
    dc_entries := (k, \<lparr>ct_values = v, ct_bytes = b, ct_last_used = dc_clock c + 1\<rparr>) # dc_entries c1\<rparr>)"
proof -
  note n = clock_next [OF assms(2)]
  have old: "ct_last_used e < dc_clock c + 1" if e: "(k', e) \<in> set (dc_entries c1)" for k' e
  proof -
    have "(k', e) \<in> set (dc_entries c)" using evict_subset [of b "c\<lparr>dc_clock := dc_clock c + 1\<rparr>"] e c1 by auto
    with assms(1) n show ?thesis unfolding stamps_ok_def by (auto intro: le_less_trans)
  qed
  have "distinct (map (\<lambda>x. ct_last_used (snd x)) (dc_entries c1))"
    using distinct_subset_stamps [of "c\<lparr>dc_clock := dc_clock c + 1\<rparr>" b] assms(1) c1 by (simp add: stamps_ok_def)
  moreover have "dc_clock c1 = dc_clock c + 1" using c1 by simp
  ultimately show ?thesis
    using old by (fastforce simp: stamps_ok_def intro: less_imp_le)
qed

lemma run_op_stamps:
  assumes "cache_wf c" and "stamps_ok c" and "unat (dc_clock c) < 2 ^ 64 - 1"
  shows "stamps_ok (run_op op c)"
proof -
  have frame: "stamps_ok (c\<lparr>dc_clock := dc_clock c + 1\<rparr>)"
    using assms(2) clock_next [OF assms(3)] by (auto simp: stamps_ok_def intro: order_trans less_imp_le)
  have hits: "stamps_ok (x\<lparr>dc_hits := h\<rparr>) = stamps_ok x" "stamps_ok (x\<lparr>dc_misses := h\<rparr>) = stamps_ok x" for x h
    by (simp_all add: stamps_ok_def)
  show ?thesis
  proof (cases op)
    case (Op_get k)
    then show ?thesis
      using frame stamps_touch_ok [OF assms, of k]
      by (auto simp: cache_get_def next_stamp_def hits split: option.splits)
  next
    case (Op_insert ok k v)
    then show ?thesis
      using frame stamps_touch_ok [OF assms, of k] stamps_insert_new [OF assms(2,3) refl]
      by (auto simp: cache_insert_def next_stamp_def Let_def split: option.splits)
  qed (simp add: stamps_ok_def cache_clear_def cache_new_def)
qed

lemma new_wf: "cap < 2 ^ 64 - 1 \<Longrightarrow> cache_wf (cache_new cap) \<and> stamps_ok (cache_new cap)"
  by (simp add: cache_wf_def stamps_ok_def cache_new_def usize_bound_def)

lemma run_ops_wf: "cache_wf c \<Longrightarrow> cache_wf (fold run_op ops c) \<and> dc_capacity_bytes (fold run_op ops c) = dc_capacity_bytes c"
  by (induction ops arbitrary: c) (simp_all add: run_op_wf run_op_capacity)

lemma run_ops_stamps:
  "cache_wf c \<Longrightarrow> stamps_ok c \<Longrightarrow> unat (dc_clock c) + length ops < 2 ^ 64 \<Longrightarrow> stamps_ok (fold run_op ops c)"
proof (induction ops arbitrary: c)
  case (Cons op ops)
  then have lt: "unat (dc_clock c) < 2 ^ 64 - 1" by simp
  have "unat (dc_clock (run_op op c)) \<le> unat (dc_clock c) + 1"
    using run_op_clock [of op c] clock_next [OF lt] by auto
  with Cons lt show ?case by (simp add: run_op_wf run_op_stamps)
qed simp

section \<open>Properties\<close>

text \<open>C37. The decoded-tile cache never holds more than its byte bound: after any sequence
  of lookups, insertions and clears, the byte counter is the exact size of the cached
  values and at most the configured capacity, and no key is cached twice.\<close>

theorem cache_bounded:
  assumes "cap < 2 ^ 64 - 1"
  shows "let c = fold run_op ops (cache_new cap) in
    dc_bytes c \<le> cap \<and> dc_bytes c = sum_list (map (\<lambda>(_, e). 4 * length (ct_values e)) (dc_entries c)) \<and>
    distinct (map fst (dc_entries c))"
proof -
  define c where "c = fold run_op ops (cache_new cap)"
  have "cache_wf c" "dc_capacity_bytes c = cap"
    using run_ops_wf [of "cache_new cap" ops] new_wf [OF assms] by (simp_all add: c_def cache_new_def)
  moreover have "entry_bytes es = sum_list (map (\<lambda>(_, e). 4 * length (ct_values e)) es)"
    if "\<forall>(k, e) \<in> set es. ct_bytes e = 4 * length (ct_values e)" for es
    using that by (induction es) auto
  ultimately show ?thesis
    unfolding c_def [symmetric] Let_def cache_wf_def by auto
qed

text \<open>Two of three tiles of two values fit sixteen bytes.\<close>

definition sample_key :: "nat \<Rightarrow> tile_cache_key" where
  "sample_key n = \<lparr>tk_kind = 0, tk_var_id = 0, tk_tile_y = 0, tk_tile_x = of_nat n\<rparr>"

definition sample_ops :: "cache_op list" where
  "sample_ops = [Op_insert True (sample_key 0) [1, 2], Op_insert True (sample_key 1) [3, 4],
     Op_get (sample_key 0)]"

theorem cache_bounded_witness:
  "dc_bytes (fold run_op (sample_ops @ [Op_insert True (sample_key 2) [5, 6]]) (cache_new 16)) \<le> 16"
  using cache_bounded [of 16 "sample_ops @ [Op_insert True (sample_key 2) [5, 6]]"] by (simp add: Let_def)

text \<open>C38. Eviction is exactly least-recently-used and evicts no more than needed: in a
  cache reached by fewer than \<open>2 ^ 64\<close> operations, when a new tile that fits the
  capacity is inserted, an old entry survives if and only if the new tile, that entry
  and all entries used more recently fit the capacity together; whatever the iteration
  order of the hash map.\<close>

theorem cache_insert_lru:
  assumes "0 < cap" and "cap < 2 ^ 64 - 1" and "length ops < 2 ^ 64"
    and "c = fold run_op ops (cache_new cap)"
    and "(k, e) \<in> set (dc_entries c)" and "key \<notin> fst ` set (dc_entries c)" and "4 * length v \<le> cap"
  shows "(k, e) \<in> set (dc_entries (snd (cache_insert True key v c))) \<longleftrightarrow>
    4 * length v + young_bytes (dc_entries c) (ct_last_used e) \<le> cap"
proof -
  have wf: "cache_wf c" and cap: "dc_capacity_bytes c = cap"
    using run_ops_wf [of "cache_new cap" ops] new_wf [OF assms(2)] assms(4) by (simp_all add: cache_new_def)
  have "stamps_ok c"
    using run_ops_stamps [of "cache_new cap" ops] new_wf [OF assms(2)] assms(3,4) by (simp add: cache_new_def)
  then have d: "distinct (map (\<lambda>x. ct_last_used (snd x)) (dc_entries c))" by (simp add: stamps_ok_def)
  let ?c = "c\<lparr>dc_clock := dc_clock c + 1\<rparr>"
  have b: "usize_saturating_mul (length v) 4 = 4 * length v"
    using assms(2,7) by (simp add: usize_saturating_mul_def usize_bound_def)
  have "map_of (dc_entries c) key = None" using assms(6) by (simp add: map_of_eq_None_iff)
  moreover have "k \<noteq> key" using assms(5,6) by force
  ultimately have "(k, e) \<in> set (dc_entries (snd (cache_insert True key v c))) \<longleftrightarrow>
      (k, e) \<in> set (dc_entries (evict (4 * length v) ?c))"
    using assms(1,7) cap by (simp add: cache_insert_def next_stamp_def b Let_def)
  then show ?thesis
    using evict_lru [of ?c "(k, e)" "4 * length v"] wf d assms(5) cap by (simp add: cache_wf_frame)
qed

text \<open>After tile 0 was used again, inserting a third tile keeps it.\<close>

theorem cache_insert_lru_witness:
  "\<exists>e. (sample_key 0, e) \<in> set (dc_entries (snd (cache_insert True (sample_key 2) [5, 6]
    (fold run_op sample_ops (cache_new 16)))))"
proof -
  define c where "c = fold run_op sample_ops (cache_new 16)"
  define e0 where "e0 = \<lparr>ct_values = [1, 2], ct_bytes = 8, ct_last_used = 3\<rparr>"
  have c: "dc_entries c = [(sample_key 1, \<lparr>ct_values = [3, 4], ct_bytes = 8, ct_last_used = 2\<rparr>), (sample_key 0, e0)]"
    by (simp add: c_def e0_def sample_ops_def cache_new_def cache_insert_def cache_get_def next_stamp_def Let_def
        touch_def evict_noop usize_saturating_add_def usize_saturating_mul_def usize_bound_def sample_key_def)
  have "(sample_key 0, e0) \<in> set (dc_entries (snd (cache_insert True (sample_key 2) [5, 6] c)))"
  proof (subst cache_insert_lru [where cap = 16 and ops = sample_ops])
    show "(sample_key 0, e0) \<in> set (dc_entries c)" "sample_key 2 \<notin> fst ` set (dc_entries c)"
      by (simp_all add: c sample_key_def)
    show "4 * length [5, 6] + young_bytes (dc_entries c) (ct_last_used e0) \<le> 16"
      by (simp add: c young_bytes_def e0_def)
  qed (simp_all add: c_def sample_ops_def)
  then show ?thesis unfolding c_def by blast
qed

end
