(* ===== verification/Wx_Grid.thy ===== *)
theory Wx_Grid
  imports Rw_Float
begin

text \<open>
  The grid types of the shared data model (\<^verbatim>\<open>rustwx-core/src/lib.rs\<close>): shapes, coordinate
  arrays, projections, and the checks that every owner of an allocation applies. An \<open>f64\<close>
  is its number.
\<close>

datatype rustwx_error =
    InvalidGridShape nat nat
  | GridTooLarge nat nat nat
  | VolumeTooLarge nat nat
  | InvalidFieldDataLength nat nat
  | UnknownModel string
  | UnknownSource string
  | InvalidCycleDate string
  | InvalidCycleHour u8
  | InvalidTimeStamp string
  | InvalidForecastHour u16
  | EmptyPressureLevels
  | InvalidPressureLevel nat f32
  | EmptyHybridLevels
  | InvalidHybridLevel nat u16

type_synonym 'a wx_result = "rustwx_error + 'a"

definition MAX_GRID_CELLS :: nat where "MAX_GRID_CELLS = (2 ^ 63 - 1) div (3 * 4)"
definition MAX_VOLUME_ELEMENTS :: nat where "MAX_VOLUME_ELEMENTS = (2 ^ 63 - 1) div 4"

record grid_shape =
  gs_nx :: nat
  gs_ny :: nat

definition checked_len :: "grid_shape \<Rightarrow> nat wx_result" where
  "checked_len s =
     (if gs_nx s = 0 \<or> gs_ny s = 0 then Inl (InvalidGridShape (gs_nx s) (gs_ny s)) else
      r_bind (ok_or (usize_checked_mul (gs_nx s) (gs_ny s)) (InvalidGridShape (gs_nx s) (gs_ny s))) (\<lambda>cells.
      if cells > MAX_GRID_CELLS then Inl (GridTooLarge (gs_nx s) (gs_ny s) cells) else Inr cells))"

definition new_shape :: "nat \<Rightarrow> nat \<Rightarrow> grid_shape wx_result" where
  "new_shape nx ny = r_bind (checked_len \<lparr>gs_nx = nx, gs_ny = ny\<rparr>) (\<lambda>_. Inr \<lparr>gs_nx = nx, gs_ny = ny\<rparr>)"

definition shape_len :: "grid_shape \<Rightarrow> nat" where
  "shape_len s = (case checked_len s of Inr cells \<Rightarrow> cells | Inl _ \<Rightarrow> 0)"

definition checked_volume_elements :: "nat \<Rightarrow> nat \<Rightarrow> nat wx_result" where
  "checked_volume_elements levels cells =
     r_bind (ok_or (usize_checked_mul levels cells) (VolumeTooLarge levels cells)) (\<lambda>elements.
     if elements > MAX_VOLUME_ELEMENTS then Inl (VolumeTooLarge levels cells) else Inr elements)"

datatype grid_projection =
    Geographic
  | LambertConformal fnum fnum fnum
  | PolarStereographic fnum fnum bool
  | Mercator fnum fnum
  | OtherProjection u16

definition is_projected :: "grid_projection \<Rightarrow> bool" where
  "is_projected p = (case p of Geographic \<Rightarrow> False | _ \<Rightarrow> True)"

record lat_lon_grid =
  lg_shape :: grid_shape
  lg_lat_deg :: "f32 list"
  lg_lon_deg :: "f32 list"

definition new_lat_lon_grid :: "grid_shape \<Rightarrow> f32 list \<Rightarrow> f32 list \<Rightarrow> lat_lon_grid wx_result" where
  "new_lat_lon_grid shape lat lon =
     r_bind (checked_len shape) (\<lambda>cells.
     if length lat \<noteq> cells \<or> length lon \<noteq> cells then Inl (InvalidGridShape (gs_nx shape) (gs_ny shape))
     else Inr \<lparr>lg_shape = shape, lg_lat_deg = lat, lg_lon_deg = lon\<rparr>)"

text \<open>A field on a grid; the selector type is left open.\<close>

record 's selected_field2d =
  sf_selector :: 's
  sf_units :: string
  sf_grid :: lat_lon_grid
  sf_values :: "f32 list"
  sf_projection :: "grid_projection option"

definition new_selected_field :: "'s \<Rightarrow> string \<Rightarrow> lat_lon_grid \<Rightarrow> f32 list \<Rightarrow> 's selected_field2d wx_result" where
  "new_selected_field selector units grid values =
     r_bind (checked_len (lg_shape grid)) (\<lambda>expected.
     if length values \<noteq> expected then Inl (InvalidFieldDataLength expected (length values))
     else Inr \<lparr>sf_selector = selector, sf_units = units, sf_grid = grid, sf_values = values, sf_projection = None\<rparr>)"

definition with_projection :: "grid_projection \<Rightarrow> 's selected_field2d \<Rightarrow> 's selected_field2d" where
  "with_projection p f = f\<lparr>sf_projection := Some p\<rparr>"

section \<open>Facts\<close>

lemma grid_cells_usize: "n \<le> MAX_GRID_CELLS \<Longrightarrow> n < usize_bound"
  by (simp add: MAX_GRID_CELLS_def usize_bound_def)

lemma checked_len_iff: "checked_len s = Inr n \<longleftrightarrow> n = gs_nx s * gs_ny s \<and> 0 < n \<and> n \<le> MAX_GRID_CELLS"
  using grid_cells_usize [of "gs_nx s * gs_ny s"]
  by (auto simp: checked_len_def r_bind_eq_Inr ok_or_eq_Inr usize_checked_mul_def split: if_splits)

end
