(* ===== verification/Rw_Open.thy ===== *)
theory Rw_Open
  imports Wx_Grid Rw_Index Rw_Cache
begin

text \<open>
  Opening an hour file (\<^verbatim>\<open>rw-store/src/reader.rs\<close>): the ceilings on header and
  metadata, the validation of every chunk record against the metadata and the file
  length, the sort check of the index, and the per-variable record ranges.

  The metadata parser (\<open>serde_json::from_slice\<close>) is the parameter \<open>from_json\<close>. What
  the operating system shows of the file is the record \<open>opened_file\<close>: the bytes seen
  by the preflight reads, by the memory map and by the second read of the RAM
  fallback may differ, because the file may change between them.
\<close>

section \<open>Ceilings\<close>

definition PARALLEL_TILE_THRESHOLD :: nat where "PARALLEL_TILE_THRESHOLD = 8"
definition DEFAULT_TILE_CACHE_BYTES :: nat where "DEFAULT_TILE_CACHE_BYTES = 8 * 1024 * 1024"
definition MAX_HOUR_META_LEN :: u64 where "MAX_HOUR_META_LEN = 16 * 1024 * 1024"
definition MAX_HOUR_FILE_LEN :: u64 where "MAX_HOUR_FILE_LEN = 64 * 1024 * 1024 * 1024"
definition MAX_RAM_FALLBACK_FILE_LEN :: u64 where "MAX_RAM_FALLBACK_FILE_LEN = 1024 * 1024 * 1024"
definition MAX_INDEX_RECORDS :: u64 where "MAX_INDEX_RECORDS = (512 * 1024 * 1024) div of_nat INDEX_RECORD_LEN"
definition MAX_PRESSURE_LEVELS :: nat where "MAX_PRESSURE_LEVELS = 4096"
definition MAX_CHUNK_COMP_OVERHEAD :: u64 where "MAX_CHUNK_COMP_OVERHEAD = 1024 * 1024"

lemmas ceiling_consts = MAX_HOUR_META_LEN_def MAX_HOUR_FILE_LEN_def MAX_RAM_FALLBACK_FILE_LEN_def
  MAX_PRESSURE_LEVELS_def MAX_CHUNK_COMP_OVERHEAD_def MAX_GRID_CELLS_def MAX_VOLUME_ELEMENTS_def

section \<open>Header and metadata\<close>

text \<open>\<open>usize::try_from\<close> of a \<open>u64\<close>, on a 64-bit target.\<close>

definition usize_try_from :: "u64 \<Rightarrow> nat option" where
  "usize_try_from w = (if unat w < usize_bound then Some (unat w) else None)"

definition validate_header_bounds :: "rws_header \<Rightarrow> u64 \<Rightarrow> unit rw_result" where
  "validate_header_bounds header file_len =
     (if file_len < of_nat HEADER_LEN then Inl (Format ''header requires'')
      else if file_len > MAX_HOUR_FILE_LEN then Inl (Format ''hour file is'')
      else if ucast (hd_meta_len header) > MAX_HOUR_META_LEN then Inl (Format ''hour meta JSON is'')
      else if hd_index_count header > MAX_INDEX_RECORDS then Inl (Format ''hour chunk index has'')
      else if hd_payload_offset header > file_len then Inl (Format ''file truncated inside chunk index'')
      else r_bind (ok_or (usize_try_from file_len) (Format ''hour file length'')) (\<lambda>_.
           r_bind (ok_or (usize_try_from (hd_index_offset header)) (Format ''hour index offset'')) (\<lambda>_.
           r_bind (ok_or (usize_try_from (hd_payload_offset header)) (Format ''hour payload offset'')) (\<lambda>_.
             Inr ()))))"

type_synonym json_parser = "u8 list \<Rightarrow> rws_hour_meta option"

definition parse_hour_meta :: "json_parser \<Rightarrow> u8 list \<Rightarrow> rws_hour_meta rw_result" where
  "parse_hour_meta from_json bytes = ok_or (from_json bytes) (Meta ''hour meta JSON'')"

text \<open>\<open>levels.windows(2).find(|pair| pair[0] <= pair[1])\<close>\<close>

definition not_descending :: "u16 list \<Rightarrow> (u16 \<times> u16) option" where
  "not_descending levels = find (\<lambda>(a, b). a \<le> b) (zip levels (tl levels))"

text \<open>The number of chunk records of one variable: the \<open>match var.kind\<close> of \<open>validate_hour_meta\<close>.\<close>

definition variable_records :: "nat \<Rightarrow> nat \<Rightarrow> nat \<Rightarrow> rws_variable_meta \<Rightarrow> nat rw_result" where
  "variable_records cells surface_chunks column_chunks var =
     (if vm_kind var = ''surface2d'' then
        (if vm_codec var \<noteq> CODEC_2D \<or> vm_levels_hpa var \<noteq> [] then Inl (Meta ''surface variable'')
         else Inr surface_chunks)
      else if vm_kind var = ''pressure3d'' then
        (let levels = length (vm_levels_hpa var)
         in if vm_codec var \<noteq> CODEC_3D \<or> levels = 0 \<or> levels > MAX_PRESSURE_LEVELS
            then Inl (Meta ''pressure variable must use codec'')
            else if not_descending (vm_levels_hpa var) \<noteq> None
            then Inl (Meta ''pressure variable levels must be strictly descending'')
            else r_bind (ok_or (usize_checked_mul levels cells) (Meta ''pressure variable element count overflows'')) (\<lambda>elements.
              if elements > MAX_VOLUME_ELEMENTS then Inl (Meta ''pressure variable has too many values'')
              else Inr column_chunks))
      else Inl (Meta ''variable has unknown kind''))"

text \<open>One round of the loop over the variables; the state is the record count and the ids and names seen.\<close>

definition variable_step :: "nat \<Rightarrow> nat \<Rightarrow> nat \<Rightarrow> rws_variable_meta
    \<Rightarrow> u64 \<times> u16 set \<times> string set \<Rightarrow> (u64 \<times> u16 set \<times> string set) rw_result" where
  "variable_step cells surface_chunks column_chunks var st =
     (case st of (expected_records, ids, names) \<Rightarrow>
       if vm_id var \<in> ids then Inl (Meta ''duplicate variable id'')
       else if vm_name var \<in> names then Inl (Meta ''duplicate variable name'')
       else r_bind (variable_records cells surface_chunks column_chunks var) (\<lambda>records.
            r_bind (ok_or (u64_checked_add expected_records (of_nat records)) (Meta ''expected index count overflows u64''))
              (\<lambda>expected. Inr (expected, insert (vm_id var) ids, insert (vm_name var) names))))"

definition validate_hour_meta :: "rws_hour_meta \<Rightarrow> rws_header \<Rightarrow> unit rw_result" where
  "validate_hour_meta meta header =
     r_bind (case validate_time_schema meta of Inl e \<Rightarrow> Inl (Meta e) | Inr t \<Rightarrow> Inr t) (\<lambda>_.
     if hm_nx meta = 0 \<or> hm_ny meta = 0 then Inl (Meta ''degenerate grid'')
     else
       r_bind (ok_or (Option.bind (usize_checked_mul (hm_nx meta) (hm_ny meta))
                 (\<lambda>cells. if cells \<le> MAX_GRID_CELLS then Some cells else None))
                 (Meta ''grid is invalid or exceeds the supported ceiling'')) (\<lambda>cells.
       if ck_tile_y (hm_chunking meta) \<noteq> TILE_Y \<or> ck_tile_x (hm_chunking meta) \<noteq> TILE_X \<or>
          ck_col_y (hm_chunking meta) \<noteq> COL_Y \<or> ck_col_x (hm_chunking meta) \<noteq> COL_X
       then Inl (Meta ''unsupported chunk geometry'')
       else if length (hm_variables meta) > 65535 + 1 then Inl (Meta ''variables exceed the u16 id space'')
       else
         r_bind (ok_or (usize_checked_mul (div_ceil (hm_ny meta) TILE_Y) (div_ceil (hm_nx meta) TILE_X))
                   (Meta ''surface chunk count overflows usize'')) (\<lambda>surface_chunks.
         r_bind (ok_or (usize_checked_mul (div_ceil (hm_ny meta) COL_Y) (div_ceil (hm_nx meta) COL_X))
                   (Meta ''column chunk count overflows usize'')) (\<lambda>column_chunks.
         r_bind (r_fold (variable_step cells surface_chunks column_chunks) (hm_variables meta) (0, {}, {}))
           (\<lambda>(expected_records, _, _).
         if expected_records > MAX_INDEX_RECORDS then Inl (Meta ''metadata requires too many chunk records'')
         else if hd_index_count header \<noteq> expected_records
         then Inl (Format ''chunk index count does not match metadata geometry'')
         else Inr ())))))"

definition parse_and_validate_hour :: "json_parser \<Rightarrow> u8 list \<Rightarrow> (rws_header \<times> rws_hour_meta) rw_result" where
  "parse_and_validate_hour from_json data =
     (let file_len = of_nat (length data)
      in r_bind (parse_header data) (\<lambda>header.
         r_bind (validate_header_bounds header file_len) (\<lambda>_.
         r_bind (ok_or (usize_try_from (hd_index_offset header)) (Format ''hour meta end'')) (\<lambda>meta_end.
         r_bind (r_slice HEADER_LEN meta_end data) (\<lambda>meta_bytes.
         r_bind (parse_hour_meta from_json meta_bytes) (\<lambda>meta.
         r_bind (validate_hour_meta meta header) (\<lambda>_. Inr (header, meta))))))))"

section \<open>Chunk records\<close>

unbundle bit_operations_syntax

text \<open>What the kind of a variable says of its chunks: record kind, chunk height and width, levels, bytes per value.\<close>

definition chunk_layout :: "rws_variable_meta \<Rightarrow> (u8 \<times> nat \<times> nat \<times> nat \<times> nat) rw_result" where
  "chunk_layout var =
     (if vm_kind var = ''surface2d'' then Inr (KIND_TILE2D, TILE_Y, TILE_X, 1, 4)
      else if vm_kind var = ''pressure3d'' then Inr (KIND_COLUMN3D, COL_Y, COL_X, length (vm_levels_hpa var), 2)
      else Inl (Format ''index record refers to variable with unsupported kind''))"

text \<open>The checks on a record with a payload.\<close>

definition validate_payload :: "chunk_record \<Rightarrow> nat \<Rightarrow> rws_header \<Rightarrow> u64 \<Rightarrow> unit rw_result" where
  "validate_payload record expected_raw_len header file_len =
     (if cr_len record = 0 \<or> unat (cr_raw_len record) \<noteq> expected_raw_len
      then Inl (Format ''expected nonzero len and raw_len'')
      else
        (let max_comp_len = (case u64_checked_add (of_nat expected_raw_len) MAX_CHUNK_COMP_OVERHEAD of
                               None \<Rightarrow> - 1 | Some m \<Rightarrow> m)
         in if ucast (cr_len record) > max_comp_len then Inl (Format ''compressed length exceeds limit'')
            else if cr_offset record < hd_payload_offset header
            then Inl (Format ''payload offset precedes payload section'')
            else r_bind (ok_or (u64_checked_add (cr_offset record) (ucast (cr_len record)))
                     (Format ''payload range overflows u64'')) (\<lambda>stop.
                 if stop > file_len then Inl (Format ''payload ends beyond file length'') else Inr ())))"

definition validate_chunk_record :: "chunk_record \<Rightarrow> rws_hour_meta \<Rightarrow> rws_header \<Rightarrow> u64
    \<Rightarrow> (u16 \<rightharpoonup> rws_variable_meta) \<Rightarrow> unit rw_result" where
  "validate_chunk_record record meta header file_len variables =
     r_bind (ok_or (variables (cr_var_id record)) (Format ''variable id is absent from metadata'')) (\<lambda>var.
     r_bind (chunk_layout var) (\<lambda>(kind, chunk_y, chunk_x, levels, bytes_per_value).
     if cr_kind record \<noteq> kind then Inl (Format ''kind does not match expected'')
     else if cr_flags record AND NOT (FLAG_EMPTY OR FLAG_CONSTANT OR FLAG_HAS_MISSING) \<noteq> 0
     then Inl (Format ''unknown flags'')
     else
       (let tile_y = unat (cr_tile_y record); tile_x = unat (cr_tile_x record);
            max_y = div_ceil (hm_ny meta) chunk_y; max_x = div_ceil (hm_nx meta) chunk_x
        in if tile_y \<ge> max_y \<or> tile_x \<ge> max_x then Inl (Format ''chunk is outside'')
        else
          r_bind (ok_or (usize_checked_mul tile_y chunk_y) (Format ''chunk y offset overflows'')) (\<lambda>y0.
          r_bind (ok_or (usize_checked_mul tile_x chunk_x) (Format ''chunk x offset overflows'')) (\<lambda>x0.
          let rows = min (hm_ny meta - y0) chunk_y; cols = min (hm_nx meta - x0) chunk_x
          in r_bind (ok_or (Option.bind (usize_checked_mul rows cols) (\<lambda>count. usize_checked_mul count levels))
                 (Format ''value count overflows usize'')) (\<lambda>values.
             r_bind (ok_or (usize_checked_mul values bytes_per_value) (Format ''raw byte count overflows usize''))
               (\<lambda>expected_raw_len.
             let is_empty = cr_flags record AND FLAG_EMPTY \<noteq> 0;
                 is_constant_no_missing =
                   cr_flags record AND FLAG_CONSTANT \<noteq> 0 \<and> cr_flags record AND FLAG_HAS_MISSING = 0
             in r_bind (if is_empty \<or> is_constant_no_missing
                        then (if cr_len record \<noteq> 0 \<or> cr_raw_len record \<noteq> 0
                              then Inl (Format ''empty/constant chunk must have len=raw_len=0'') else Inr ())
                        else validate_payload record expected_raw_len header file_len) (\<lambda>_.
                if unat (cr_valid_count record) > values
                then Inl (Format ''valid_count exceeds chunk value count'') else Inr ()))))))))"

section \<open>Opening\<close>

datatype file_bytes = Mmap "u8 list" | Ram "u8 list"

fun as_slice :: "file_bytes \<Rightarrow> u8 list" where
  "as_slice (Mmap bs) = bs"
| "as_slice (Ram bs) = bs"

record hour_reader =
  hr_bytes :: file_bytes
  hr_source :: nat
  hr_meta :: rws_hour_meta
  hr_records :: "chunk_record list"
  hr_var_ranges :: "u16 \<rightharpoonup> nat \<times> nat"
  hr_tile_cache :: decoded_tile_cache

text \<open>
  What the operating system shows of a file during \<open>open\<close>: the identity of the handle,
  the length, the bytes of the preflight reads, the map (\<open>None\<close> when it is refused) and
  the bytes of the second read.
\<close>

record opened_file =
  fl_handle :: nat
  fl_len :: u64
  fl_preflight :: "u8 list"
  fl_map :: "u8 list option"
  fl_reread :: "u8 list"

text \<open>\<open>read_exact\<close> of \<open>n\<close> bytes at position \<open>p\<close>.\<close>

definition read_exact_at :: "nat \<Rightarrow> nat \<Rightarrow> u8 list \<Rightarrow> u8 list rw_result" where
  "read_exact_at p n bs = (if p + n \<le> length bs then Inr (subslice p (p + n) bs) else Inl (Io ''failed to fill whole buffer''))"

definition read_file_to_ram :: "opened_file \<Rightarrow> file_bytes rw_result" where
  "read_file_to_ram f =
     (if fl_len f > MAX_RAM_FALLBACK_FILE_LEN then Inl (Format ''memory mapping failed'')
      else r_bind (ok_or (usize_try_from (fl_len f)) (Format ''hour file length'')) (\<lambda>len.
           r_bind (read_exact_at 0 len (fl_reread f)) (\<lambda>bytes.
           if length (fl_reread f) > len then Inl (Format ''hour file grew while it was being read into RAM'')
           else Inr (Ram bytes))))"

definition open_bytes :: "json_parser \<Rightarrow> opened_file option \<Rightarrow> (file_bytes \<times> nat) rw_result" where
  "open_bytes from_json path =
     r_bind (ok_or path (Io ''open'')) (\<lambda>f.
     let file_len = fl_len f
     in if file_len < of_nat HEADER_LEN then Inl (Format ''header requires'')
        else if file_len > MAX_HOUR_FILE_LEN then Inl (Format ''hour file is'')
        else r_bind (read_exact_at 0 HEADER_LEN (fl_preflight f)) (\<lambda>header_bytes.
             r_bind (parse_header header_bytes) (\<lambda>header.
             r_bind (validate_header_bounds header file_len) (\<lambda>_.
             r_bind (read_exact_at HEADER_LEN (unat (hd_meta_len header)) (fl_preflight f)) (\<lambda>meta_bytes.
             r_bind (parse_hour_meta from_json meta_bytes) (\<lambda>meta.
             r_bind (validate_hour_meta meta header) (\<lambda>_.
             case fl_map f of
               Some bs \<Rightarrow> Inr (Mmap bs, fl_handle f)
             | None \<Rightarrow> r_bind (read_file_to_ram f) (\<lambda>bytes. Inr (bytes, fl_handle f)))))))))"

text \<open>One round of the index loop: slice, unpack, validate.\<close>

definition read_record :: "u8 list \<Rightarrow> nat \<Rightarrow> rws_hour_meta \<Rightarrow> rws_header \<Rightarrow> (u16 \<rightharpoonup> rws_variable_meta)
    \<Rightarrow> nat \<Rightarrow> chunk_record rw_result" where
  "read_record data index_offset meta header variables i =
     r_bind (ok_or (Option.bind (usize_checked_mul i INDEX_RECORD_LEN) (\<lambda>off. usize_checked_add index_offset off))
         (Format ''chunk index record offset overflows usize'')) (\<lambda>start.
     r_bind (ok_or (usize_checked_add start INDEX_RECORD_LEN) (Format ''chunk index record end overflows usize'')) (\<lambda>stop.
     r_bind (r_slice start stop data) (\<lambda>bytes.
     r_bind (unpack bytes) (\<lambda>record.
     r_bind (validate_chunk_record record meta header (of_nat (length data)) variables) (\<lambda>_. Inr record)))))"

text \<open>The sort check: the first adjacent pair whose keys do not increase.\<close>

definition sort_violation :: "chunk_record list \<Rightarrow> (chunk_record \<times> chunk_record) option" where
  "sort_violation records = find (\<lambda>(a, b). sort_key a \<ge> sort_key b) (zip records (tl records))"

text \<open>The runs of equal variable ids. The state is the start of the current run and the map.\<close>

definition range_step :: "chunk_record list \<Rightarrow> nat \<Rightarrow> nat \<times> (u16 \<rightharpoonup> nat \<times> nat)
    \<Rightarrow> (nat \<times> (u16 \<rightharpoonup> nat \<times> nat)) rw_result" where
  "range_step records stop st =
     (case st of (run_start, ranges) \<Rightarrow>
       r_bind (r_nth records run_start) (\<lambda>first.
       r_bind (if stop = length records then Inr True
               else r_bind (r_nth records stop) (\<lambda>r. Inr (cr_var_id r \<noteq> cr_var_id first))) (\<lambda>ends.
       if ends then Inr (stop, ranges(cr_var_id first \<mapsto> (run_start, stop))) else Inr (run_start, ranges))))"

definition build_ranges :: "chunk_record list \<Rightarrow> (u16 \<rightharpoonup> nat \<times> nat) rw_result" where
  "build_ranges records =
     (if records = [] then Inr Map.empty
      else r_bind (r_fold (range_step records) [1..<length records + 1] (0, Map.empty)) (\<lambda>(_, ranges). Inr ranges))"

definition variable_map :: "rws_variable_meta list \<Rightarrow> u16 \<rightharpoonup> rws_variable_meta" where
  "variable_map vars = fold (\<lambda>var m. m(vm_id var \<mapsto> var)) vars Map.empty"

definition open_with_tile_cache_bytes :: "json_parser \<Rightarrow> opened_file option \<Rightarrow> nat \<Rightarrow> hour_reader rw_result" where
  "open_with_tile_cache_bytes from_json path tile_cache_bytes =
     r_bind (open_bytes from_json path) (\<lambda>(bytes, source).
     let data = as_slice bytes
     in r_bind (parse_and_validate_hour from_json data) (\<lambda>(header, meta).
        r_bind (ok_or (usize_try_from (hd_index_count header)) (Format ''chunk index count does not fit usize'')) (\<lambda>index_count.
        let variables = variable_map (hm_variables meta)
        in r_bind (ok_or (usize_try_from (hd_index_offset header)) (Format ''chunk index offset does not fit usize'')) (\<lambda>index_offset.
           r_bind (r_map (read_record data index_offset meta header variables) [0..<index_count]) (\<lambda>records.
           if sort_violation records \<noteq> None then Inl (Format ''chunk index sort order violated'')
           else r_bind (build_ranges records) (\<lambda>var_ranges.
             Inr \<lparr>hr_bytes = bytes, hr_source = source, hr_meta = meta, hr_records = records,
                  hr_var_ranges = var_ranges, hr_tile_cache = cache_new tile_cache_bytes\<rparr>))))))"

definition open_hour :: "json_parser \<Rightarrow> opened_file option \<Rightarrow> hour_reader rw_result" where
  "open_hour from_json path = open_with_tile_cache_bytes from_json path DEFAULT_TILE_CACHE_BYTES"

definition find_variable :: "hour_reader \<Rightarrow> string \<Rightarrow> rws_variable_meta option" where
  "find_variable rd name = find (\<lambda>var. vm_name var = name) (hm_variables (hr_meta rd))"

definition source_matches_path :: "hour_reader \<Rightarrow> opened_file option \<Rightarrow> bool rw_result" where
  "source_matches_path rd path = r_bind (ok_or path (Io ''open'')) (\<lambda>f. Inr (hr_source rd = fl_handle f))"

end
