(* ===== verification/Rw_Open_Facts.thy ===== *)
theory Rw_Open_Facts
  imports Rw_Open
begin

text \<open>
  What a successful open guarantees. The checks of \<open>Rw_Open\<close> are characterised by
  predicates on the metadata and the records; from them follow the absence of panics,
  the completeness of the chunk index (by counting), and the per-variable ranges.
\<close>

section \<open>Folds over fallible steps\<close>

lemma r_fold_append: "r_fold f (xs @ ys) s = r_bind (r_fold f xs s) (r_fold f ys)"
proof (induction xs arbitrary: s)
  case (Cons x xs)
  then show ?case by (cases "f x s") simp_all
qed simp

lemma r_fold_upt:
  assumes "a \<le> b" and "I a s" and "\<And>i s. a \<le> i \<Longrightarrow> i < b \<Longrightarrow> I i s \<Longrightarrow> \<exists>s'. f i s = Inr s' \<and> I (Suc i) s'"
  shows "\<exists>s'. r_fold f [a..<b] s = Inr s' \<and> I b s'"
  using assms
proof (induction "b - a" arbitrary: a s)
  case (Suc n)
  then have "a < b" by simp
  then obtain s1 where s1: "f a s = Inr s1" "I (Suc a) s1" using Suc.prems(2) Suc.prems(3) [of a s] by auto
  have "\<exists>s'. r_fold f [Suc a..<b] s1 = Inr s' \<and> I b s'"
    using Suc.hyps(1) [of "Suc a" s1] Suc.hyps(2) \<open>a < b\<close> s1(2) Suc.prems(3) by simp
  with s1(1) \<open>a < b\<close> show ?case by (simp add: upt_conv_Cons)
qed auto

lemma not_panics_r_fold:
  assumes "\<And>x s. x \<in> set xs \<Longrightarrow> \<not> panics (f x s)"
  shows "\<not> panics (r_fold f xs s)"
  using assms
proof (induction xs arbitrary: s)
  case (Cons x xs)
  have "\<not> panics (r_bind (f x s) (r_fold f xs))"
    by (rule not_panics_bind) (use Cons in auto)
  then show ?case by simp
qed simp

lemma usize_checked_mul_eq_Some: "usize_checked_mul a b = Some c \<longleftrightarrow> a * b < usize_bound \<and> c = a * b"
  by (auto simp: usize_checked_mul_def)

lemma usize_checked_add_eq_Some: "usize_checked_add a b = Some c \<longleftrightarrow> a + b < usize_bound \<and> c = a + b"
  by (auto simp: usize_checked_add_def)

lemma u64_checked_add_eq_Some: "u64_checked_add a b = Some c \<longleftrightarrow> unat c = unat a + unat b"
proof
  assume "unat c = unat a + unat b"
  moreover from this have "unat a + unat b < 2 ^ 64" using unat_bounds(4) [of c] by simp
  ultimately show "u64_checked_add a b = Some c"
    by (auto simp: u64_checked_add_def unat_word_ariths intro!: word_unat_eq_iff [THEN iffD2])
qed (rule u64_checked_add_Some)

lemma usize_try_from_Some [simp]: "usize_try_from w = Some (unat w)"
  using unat_bounds(4) [of w] by (simp add: usize_try_from_def usize_bound_def)

section \<open>Adjacent pairs\<close>

lemma find_zip_tl_None: "find P (zip xs (tl xs)) = None \<longleftrightarrow> successively (\<lambda>a b. \<not> P (a, b)) xs"
proof (induction xs rule: induct_list012)
  case (3 x y zs)
  then show ?case by simp
qed simp_all

lemma not_descending_None: "not_descending levels = None \<longleftrightarrow> sorted_wrt (>) levels"
proof -
  have "not_descending levels = None \<longleftrightarrow> successively (>) levels"
    by (simp add: not_descending_def find_zip_tl_None not_le)
  also have "\<dots> \<longleftrightarrow> sorted_wrt (>) levels" by (rule successively_conv_sorted_wrt) (auto intro: transpI)
  finally show ?thesis .
qed

lemma sort_violation_None: "sort_violation records = None \<longleftrightarrow> sorted_wrt (<) (map sort_key records)"
proof -
  have "sort_violation records = None \<longleftrightarrow> successively (\<lambda>a b. sort_key a < sort_key b) records"
    by (simp add: sort_violation_def find_zip_tl_None not_le)
  also have "\<dots> \<longleftrightarrow> sorted_wrt (\<lambda>a b. sort_key a < sort_key b) records"
    by (rule successively_conv_sorted_wrt) (auto intro: transpI order.strict_trans)
  finally show ?thesis by (simp add: sorted_wrt_map)
qed

section \<open>What the metadata checks accept\<close>

definition chunk_kind :: "rws_variable_meta \<Rightarrow> u8" where
  "chunk_kind var = (if vm_kind var = ''surface2d'' then KIND_TILE2D else KIND_COLUMN3D)"

definition chunk_h :: "rws_variable_meta \<Rightarrow> nat" where
  "chunk_h var = (if vm_kind var = ''surface2d'' then TILE_Y else COL_Y)"

definition chunk_w :: "rws_variable_meta \<Rightarrow> nat" where
  "chunk_w var = (if vm_kind var = ''surface2d'' then TILE_X else COL_X)"

definition chunk_levels :: "rws_variable_meta \<Rightarrow> nat" where
  "chunk_levels var = (if vm_kind var = ''surface2d'' then 1 else length (vm_levels_hpa var))"

definition value_bytes :: "rws_variable_meta \<Rightarrow> nat" where
  "value_bytes var = (if vm_kind var = ''surface2d'' then 4 else 2)"

definition var_valid :: "nat \<Rightarrow> rws_variable_meta \<Rightarrow> bool" where
  "var_valid cells var \<longleftrightarrow>
     (if vm_kind var = ''surface2d'' then vm_codec var = CODEC_2D \<and> vm_levels_hpa var = []
      else vm_kind var = ''pressure3d'' \<and> vm_codec var = CODEC_3D \<and> vm_levels_hpa var \<noteq> [] \<and>
        length (vm_levels_hpa var) \<le> MAX_PRESSURE_LEVELS \<and> sorted_wrt (>) (vm_levels_hpa var) \<and>
        length (vm_levels_hpa var) * cells \<le> MAX_VOLUME_ELEMENTS)"

text \<open>The chunk grid of a variable and the number of its chunks.\<close>

definition chunks_y :: "rws_hour_meta \<Rightarrow> rws_variable_meta \<Rightarrow> nat" where
  "chunks_y meta var = div_ceil (hm_ny meta) (chunk_h var)"

definition chunks_x :: "rws_hour_meta \<Rightarrow> rws_variable_meta \<Rightarrow> nat" where
  "chunks_x meta var = div_ceil (hm_nx meta) (chunk_w var)"

definition meta_valid :: "rws_hour_meta \<Rightarrow> bool" where
  "meta_valid meta \<longleftrightarrow>
     (\<exists>t. validate_time_schema meta = Inr t) \<and> 0 < hm_nx meta \<and> 0 < hm_ny meta \<and>
     hm_nx meta * hm_ny meta \<le> MAX_GRID_CELLS \<and>
     hm_chunking meta = \<lparr>ck_tile_y = TILE_Y, ck_tile_x = TILE_X, ck_col_y = COL_Y, ck_col_x = COL_X\<rparr> \<and>
     distinct (map vm_id (hm_variables meta)) \<and> distinct (map vm_name (hm_variables meta)) \<and>
     (\<forall>var \<in> set (hm_variables meta). var_valid (hm_nx meta * hm_ny meta) var)"

definition expected_records :: "rws_hour_meta \<Rightarrow> nat" where
  "expected_records meta = sum_list (map (\<lambda>var. chunks_y meta var * chunks_x meta var) (hm_variables meta))"

lemma variable_records_eq_Inr:
  assumes "cells \<le> MAX_GRID_CELLS"
  shows "variable_records cells sc cc var = Inr n \<longleftrightarrow>
    var_valid cells var \<and> n = (if vm_kind var = ''surface2d'' then sc else cc)"
proof -
  have "length (vm_levels_hpa var) * cells < usize_bound" if "length (vm_levels_hpa var) * cells \<le> MAX_VOLUME_ELEMENTS"
    using that by (simp add: MAX_VOLUME_ELEMENTS_def usize_bound_def)
  then show ?thesis
    by (auto simp: variable_records_def var_valid_def Let_def not_descending_None r_eq_Inr usize_checked_mul_eq_Some
        split: if_splits)
qed

lemma variable_step_eq_Inr:
  assumes "cells \<le> MAX_GRID_CELLS" and "sc < 2 ^ 64" and "cc < 2 ^ 64"
    and n: "n = (if vm_kind var = ''surface2d'' then sc else cc)"
  shows "variable_step cells sc cc var (e, ids, names) = Inr st \<longleftrightarrow>
    vm_id var \<notin> ids \<and> vm_name var \<notin> names \<and> var_valid cells var \<and>
    (\<exists>e1. unat e1 = unat e + n \<and> st = (e1, insert (vm_id var) ids, insert (vm_name var) names))"
proof -
  have u: "unat (of_nat n :: u64) = n" using assms by (simp add: unat_of_nat)
  have r: "variable_records cells sc cc var = Inr k \<longleftrightarrow> var_valid cells var \<and> k = n" for k
    unfolding n by (rule variable_records_eq_Inr [OF assms(1)])
  show ?thesis
  proof (cases "vm_id var \<in> ids \<or> vm_name var \<in> names")
    case False
    then show ?thesis
      by (simp add: variable_step_def r_bind_eq_Inr ok_or_eq_Inr u64_checked_add_eq_Some r u) blast
  qed (auto simp: variable_step_def)
qed

lemma variable_fold_eq_Inr:
  assumes "cells \<le> MAX_GRID_CELLS" and "sc < 2 ^ 64" and "cc < 2 ^ 64"
    and n: "\<And>var. n var = (if vm_kind var = ''surface2d'' then sc else cc)"
  shows "(\<exists>ids' names'. r_fold (variable_step cells sc cc) vars (e, ids, names) = Inr (e', ids', names')) \<longleftrightarrow>
    distinct (map vm_id vars) \<and> ids \<inter> vm_id ` set vars = {} \<and>
    distinct (map vm_name vars) \<and> names \<inter> vm_name ` set vars = {} \<and>
    (\<forall>var \<in> set vars. var_valid cells var) \<and> unat e' = unat e + sum_list (map n vars)"
proof (induction vars arbitrary: e ids names)
  case Nil
  show ?case by (auto simp: word_unat_eq_iff)
next
  case (Cons var vars)
  define S where "S = sum_list (map n vars)"
  have "(\<exists>ids' names'. r_fold (variable_step cells sc cc) (var # vars) (e, ids, names) = Inr (e', ids', names')) \<longleftrightarrow>
      vm_id var \<notin> ids \<and> vm_name var \<notin> names \<and> var_valid cells var \<and>
      (\<exists>e1. unat e1 = unat e + n var \<and>
        (\<exists>ids' names'. r_fold (variable_step cells sc cc) vars
          (e1, insert (vm_id var) ids, insert (vm_name var) names) = Inr (e', ids', names')))"
    by (simp add: r_bind_eq_Inr variable_step_eq_Inr [OF assms(1-3) n]) blast
  also have "\<dots> \<longleftrightarrow> vm_id var \<notin> ids \<and> vm_name var \<notin> names \<and> var_valid cells var \<and>
      distinct (map vm_id vars) \<and> insert (vm_id var) ids \<inter> vm_id ` set vars = {} \<and>
      distinct (map vm_name vars) \<and> insert (vm_name var) names \<inter> vm_name ` set vars = {} \<and>
      (\<forall>var \<in> set vars. var_valid cells var) \<and>
      (\<exists>e1 :: u64. unat e1 = unat e + n var \<and> unat e' = unat e1 + S)"
    by (auto simp: Cons.IH S_def)
  also have "(\<exists>e1 :: u64. unat e1 = unat e + n var \<and> unat e' = unat e1 + S) \<longleftrightarrow> unat e' = unat e + (n var + S)"
  proof
    assume e': "unat e' = unat e + (n var + S)"
    then have "unat e + n var < 2 ^ 64" using unat_bounds(4) [of e'] by simp
    then have "unat (of_nat (unat e + n var) :: u64) = unat e + n var" by (simp only: unat_of_nat) simp
    with e' show "\<exists>e1 :: u64. unat e1 = unat e + n var \<and> unat e' = unat e1 + S"
      by (intro exI [of _ "of_nat (unat e + n var)"]) linarith
  qed auto
  finally show ?case by (auto simp: S_def)
qed

lemma div_ceil_mult_bound:
  assumes "0 < n" "0 < m" and "0 < h" "0 < w"
  shows "div_ceil n h * div_ceil m w \<le> m * n"
  using mult_le_mono [OF div_ceil_le [OF assms(3), of n] div_ceil_le [OF assms(4), of m]] by (simp add: mult.commute)

lemma chunk_hw_pos [simp]: "0 < chunk_h var" "0 < chunk_w var"
  by (simp_all add: chunk_h_def chunk_w_def geometry_consts)

lemma chunk_count_cases:
  "chunks_y meta var * chunks_x meta var =
    (if vm_kind var = ''surface2d'' then div_ceil (hm_ny meta) TILE_Y * div_ceil (hm_nx meta) TILE_X
     else div_ceil (hm_ny meta) COL_Y * div_ceil (hm_nx meta) COL_X)"
  by (simp add: chunks_y_def chunks_x_def chunk_h_def chunk_w_def)

text \<open>The check accepts exactly the valid metadata whose geometry fits the index.\<close>

lemma validate_hour_meta_eq_Inr:
  "validate_hour_meta meta header = Inr () \<longleftrightarrow>
     meta_valid meta \<and> length (hm_variables meta) \<le> 65536 \<and>
     expected_records meta \<le> unat MAX_INDEX_RECORDS \<and> unat (hd_index_count header) = expected_records meta"
proof (cases "(\<exists>t. validate_time_schema meta = Inr t) \<and> 0 < hm_nx meta \<and> 0 < hm_ny meta \<and>
    hm_nx meta * hm_ny meta \<le> MAX_GRID_CELLS \<and>
    hm_chunking meta = \<lparr>ck_tile_y = TILE_Y, ck_tile_x = TILE_X, ck_col_y = COL_Y, ck_col_x = COL_X\<rparr> \<and>
    length (hm_variables meta) \<le> 65536")
  case ok: True
  let ?cells = "hm_nx meta * hm_ny meta"
  let ?sc = "div_ceil (hm_ny meta) TILE_Y * div_ceil (hm_nx meta) TILE_X"
  let ?cc = "div_ceil (hm_ny meta) COL_Y * div_ceil (hm_nx meta) COL_X"
  have "?sc \<le> ?cells" "?cc \<le> ?cells"
    using ok by (auto intro!: div_ceil_mult_bound simp: geometry_consts)
  then have b: "?cells < usize_bound" "?sc < usize_bound" "?cc < usize_bound"
    using ok grid_cells_usize [of ?cells] by linarith+
  note fold = variable_fold_eq_Inr [where sc = ?sc and cc = ?cc and n = "\<lambda>var. chunks_y meta var * chunks_x meta var"
      and vars = "hm_variables meta" and e = 0 and ids = "{}" and names = "{}",
      OF conjunct1 [OF conjunct2 [OF conjunct2 [OF conjunct2 [OF ok]]]] b(2,3) [unfolded usize_bound_def] chunk_count_cases]
  have "validate_hour_meta meta header = Inr () \<longleftrightarrow>
      (\<exists>e ids names. r_fold (variable_step ?cells ?sc ?cc) (hm_variables meta) (0, {}, {}) = Inr (e, ids, names) \<and>
        e \<le> MAX_INDEX_RECORDS \<and> hd_index_count header = e)"
  proof -
    obtain t where t: "validate_time_schema meta = Inr t" using ok by blast
    have m: "usize_checked_mul (hm_nx meta) (hm_ny meta) = Some ?cells"
        "usize_checked_mul (div_ceil (hm_ny meta) TILE_Y) (div_ceil (hm_nx meta) TILE_X) = Some ?sc"
        "usize_checked_mul (div_ceil (hm_ny meta) COL_Y) (div_ceil (hm_nx meta) COL_X) = Some ?cc"
      using b by (simp_all add: usize_checked_mul_eq_Some)
    have "validate_hour_meta meta header =
        r_bind (r_fold (variable_step ?cells ?sc ?cc) (hm_variables meta) (0, {}, {}))
          (\<lambda>(e, _, _). if e > MAX_INDEX_RECORDS then Inl (Meta ''metadata requires too many chunk records'')
            else if hd_index_count header \<noteq> e
            then Inl (Format ''chunk index count does not match metadata geometry'') else Inr ())"
      using ok by (simp add: validate_hour_meta_def t m)
    then show ?thesis
      by (auto simp: r_bind_eq_Inr split: if_splits)
  qed
  also have "\<dots> \<longleftrightarrow> meta_valid meta \<and> hd_index_count header \<le> MAX_INDEX_RECORDS \<and>
      unat (hd_index_count header) = expected_records meta"
    using ok fold [of "hd_index_count header"] by (auto simp: meta_valid_def expected_records_def)
  finally show ?thesis
    using ok by (auto simp: word_le_nat_alt)
next
  case False
  then show ?thesis
    by (auto simp: validate_hour_meta_def meta_valid_def r_bind_eq_Inr ok_or_eq_Inr bind_eq_Some_conv
        usize_checked_mul_eq_Some split: if_splits sum.splits)
qed

lemma ucast_u32_unat [simp]: "unat (ucast (w :: u32) :: u64) = unat w"
  using unat_bounds(3) [of w] by (simp add: unsigned_ucast_eq take_bit_nat_eq_self)

text \<open>The header checks, in terms of the lengths.\<close>

definition bounds_valid :: "rws_header \<Rightarrow> u64 \<Rightarrow> bool" where
  "bounds_valid header file_len \<longleftrightarrow> 64 \<le> unat file_len \<and> unat file_len \<le> 2 ^ 36 \<and>
     unat (hd_meta_len header) \<le> 2 ^ 24 \<and> unat (hd_index_count header) \<le> 2 ^ 23 \<and>
     hd_payload_offset header \<le> file_len"

lemma max_index_records: "unat MAX_INDEX_RECORDS = 2 ^ 23"
  by (simp add: MAX_INDEX_RECORDS_def INDEX_RECORD_LEN_def unat_div)

lemma validate_header_bounds_eq_Inr: "validate_header_bounds header file_len = Inr () \<longleftrightarrow> bounds_valid header file_len"
proof -
  have "validate_header_bounds header file_len = Inr () \<longleftrightarrow>
      \<not> unat file_len < 64 \<and> \<not> unat MAX_HOUR_FILE_LEN < unat file_len \<and>
      \<not> unat MAX_HOUR_META_LEN < unat (hd_meta_len header) \<and>
      \<not> unat MAX_INDEX_RECORDS < unat (hd_index_count header) \<and> \<not> file_len < hd_payload_offset header"
    by (auto simp: validate_header_bounds_def word_less_nat_alt HEADER_LEN_def split: if_splits)
  also have "\<dots> \<longleftrightarrow> bounds_valid header file_len"
    unfolding max_index_records
    by (simp add: bounds_valid_def ceiling_consts not_less linorder_not_less conj_ac)
  finally show ?thesis .
qed

lemma header_within_file:
  assumes "parse_header data = Inr header" and "bounds_valid header (of_nat (length data))"
  shows "64 + unat (hd_meta_len header) + 64 * unat (hd_index_count header) \<le> length data"
proof -
  have "unat (hd_payload_offset header) \<le> unat (of_nat (length data) :: u64)"
    using assms(2) by (simp add: bounds_valid_def word_le_nat_alt)
  also have "\<dots> \<le> length data" by (simp add: unat_of_nat)
  finally show ?thesis using parse_header_InrD(2) [OF assms(1)] by (simp add: header_layout_def)
qed

lemma parse_and_validate_eq_Inr:
  "parse_and_validate_hour from_json data = Inr (header, meta) \<longleftrightarrow>
     parse_header data = Inr header \<and> bounds_valid header (of_nat (length data)) \<and>
     from_json (subslice 64 (64 + unat (hd_meta_len header)) data) = Some meta \<and>
     validate_hour_meta meta header = Inr ()"
proof -
  have "r_slice HEADER_LEN (unat (hd_index_offset header)) data
      = Inr (subslice 64 (64 + unat (hd_meta_len header)) data)"
    if p: "parse_header data = Inr header" and b: "bounds_valid header (of_nat (length data))"
    using header_within_file [OF p b] parse_header_InrD(2) [OF p]
    by (simp add: header_layout_def r_slice_def subslice_ok_def HEADER_LEN_def)
  then show ?thesis
    by (auto simp: parse_and_validate_hour_def Let_def r_bind_eq_Inr ok_or_eq_Inr validate_header_bounds_eq_Inr
        parse_hour_meta_def)
qed

section \<open>No panic while opening\<close>

lemma not_panics_if:
  "(b \<Longrightarrow> \<not> panics x) \<Longrightarrow> (\<not> b \<Longrightarrow> \<not> panics y) \<Longrightarrow> \<not> panics (if b then x else y)"
  by simp

lemma not_panics_case_prod:
  "(\<And>a b. p = (a, b) \<Longrightarrow> \<not> panics (f a b)) \<Longrightarrow> \<not> panics (case p of (a, b) \<Rightarrow> f a b)"
  by (cases p) simp

lemma not_panics_case_option:
  "(x = None \<Longrightarrow> \<not> panics f) \<Longrightarrow> (\<And>a. x = Some a \<Longrightarrow> \<not> panics (g a)) \<Longrightarrow>
    \<not> panics (case x of None \<Rightarrow> f | Some a \<Rightarrow> g a)"
  by (cases x) simp_all

lemma not_panics_case_sum:
  "(\<And>e. x = Inl e \<Longrightarrow> \<not> panics (f e)) \<Longrightarrow> (\<And>a. x = Inr a \<Longrightarrow> \<not> panics (g a)) \<Longrightarrow>
    \<not> panics (case x of Inl e \<Rightarrow> f e | Inr a \<Rightarrow> g a)"
  by (cases x) simp_all

lemmas not_panics_intros = not_panics_bind not_panics_ok_or not_panics_if not_panics_case_prod
  not_panics_case_option not_panics_case_sum not_panics_r_map not_panics_r_fold

lemma not_panics_header_bounds: "\<not> panics (validate_header_bounds header file_len)"
  by (simp add: validate_header_bounds_def)

lemma not_panics_variable_step: "\<not> panics (variable_step cells sc cc var st)"
  unfolding variable_step_def variable_records_def Let_def by (intro not_panics_intros) simp_all

lemma not_panics_hour_meta: "\<not> panics (validate_hour_meta meta header)"
  unfolding validate_hour_meta_def by (intro not_panics_intros not_panics_variable_step) simp_all

lemma not_panics_parse_hour_meta: "\<not> panics (parse_hour_meta from_json bytes)"
  unfolding parse_hour_meta_def by (intro not_panics_intros) simp

lemma not_panics_parse_and_validate: "\<not> panics (parse_and_validate_hour from_json data)"
  unfolding parse_and_validate_hour_def Let_def
proof (intro not_panics_intros not_panics_parse_header not_panics_header_bounds not_panics_parse_hour_meta
    not_panics_hour_meta not_panics_r_slice)
  fix header u meta_end
  assume p: "parse_header data = Inr header" and b: "validate_header_bounds header (of_nat (length data)) = Inr u"
    and m: "ok_or (usize_try_from (hd_index_offset header)) (Format ''hour meta end'') = Inr meta_end"
  then show "subslice_ok HEADER_LEN meta_end data"
    using header_within_file [OF p] parse_header_InrD(2) [OF p]
    by (simp add: validate_header_bounds_eq_Inr subslice_ok_def HEADER_LEN_def header_layout_def)
qed simp_all

section \<open>What the record checks accept\<close>

lemma variable_map_eq_Some:
  assumes "distinct (map vm_id vars)"
  shows "variable_map vars i = Some var \<longleftrightarrow> var \<in> set vars \<and> vm_id var = i"
proof -
  have "fold (\<lambda>var m. m(vm_id var \<mapsto> var)) vars m i = Some var \<longleftrightarrow>
      var \<in> set vars \<and> vm_id var = i \<or> i \<notin> vm_id ` set vars \<and> m i = Some var" for m
    using assms
  proof (induction vars arbitrary: m)
    case (Cons v vars)
    then show ?case by (auto simp: image_iff)
  qed simp
  then show ?thesis by (simp add: variable_map_def)
qed

lemma chunk_layout_valid:
  "var_valid cells var \<Longrightarrow>
    chunk_layout var = Inr (chunk_kind var, chunk_h var, chunk_w var, chunk_levels var, value_bytes var)"
  by (simp add: var_valid_def chunk_layout_def chunk_kind_def chunk_h_def chunk_w_def chunk_levels_def
      value_bytes_def split: if_splits)

text \<open>The clipped extent of a chunk, and the number of its values.\<close>

definition chunk_rows :: "rws_hour_meta \<Rightarrow> rws_variable_meta \<Rightarrow> nat \<Rightarrow> nat" where
  "chunk_rows meta var ty = min (hm_ny meta - ty * chunk_h var) (chunk_h var)"

definition chunk_cols :: "rws_hour_meta \<Rightarrow> rws_variable_meta \<Rightarrow> nat \<Rightarrow> nat" where
  "chunk_cols meta var tx = min (hm_nx meta - tx * chunk_w var) (chunk_w var)"

definition chunk_values :: "rws_hour_meta \<Rightarrow> rws_variable_meta \<Rightarrow> nat \<Rightarrow> nat \<Rightarrow> nat" where
  "chunk_values meta var ty tx = chunk_rows meta var ty * chunk_cols meta var tx * chunk_levels var"

definition payload_free :: "chunk_record \<Rightarrow> bool" where
  "payload_free r \<longleftrightarrow> cr_flags r AND FLAG_EMPTY \<noteq> 0 \<or>
     cr_flags r AND FLAG_CONSTANT \<noteq> 0 \<and> cr_flags r AND FLAG_HAS_MISSING = 0"

definition record_valid :: "rws_hour_meta \<Rightarrow> rws_header \<Rightarrow> u64 \<Rightarrow> rws_variable_meta \<Rightarrow> chunk_record \<Rightarrow> bool" where
  "record_valid meta header file_len var r \<longleftrightarrow>
     cr_kind r = chunk_kind var \<and> cr_flags r AND NOT (FLAG_EMPTY OR FLAG_CONSTANT OR FLAG_HAS_MISSING) = 0 \<and>
     unat (cr_tile_y r) < chunks_y meta var \<and> unat (cr_tile_x r) < chunks_x meta var \<and>
     (let n = chunk_values meta var (unat (cr_tile_y r)) (unat (cr_tile_x r)) in
       unat (cr_valid_count r) \<le> n \<and>
       (if payload_free r then cr_len r = 0 \<and> cr_raw_len r = 0
        else cr_len r \<noteq> 0 \<and> unat (cr_raw_len r) = n * value_bytes var \<and>
          unat (cr_len r) \<le> n * value_bytes var + 2 ^ 20 \<and>
          hd_payload_offset header \<le> cr_offset r \<and> unat (cr_offset r) + unat (cr_len r) \<le> unat file_len))"

lemma chunk_values_bound:
  assumes "var_valid cells var"
  shows "chunk_rows meta var ty * chunk_cols meta var tx \<le> 2 ^ 16"
    and "chunk_values meta var ty tx * value_bytes var \<le> 2 ^ 21"
proof -
  have rc: "chunk_rows meta var ty \<le> chunk_h var" "chunk_cols meta var tx \<le> chunk_w var"
    by (simp_all add: chunk_rows_def chunk_cols_def)
  then have p: "chunk_rows meta var ty * chunk_cols meta var tx \<le> chunk_h var * chunk_w var" by (rule mult_le_mono)
  then show "chunk_rows meta var ty * chunk_cols meta var tx \<le> 2 ^ 16"
    by (rule order_trans) (simp add: chunk_h_def chunk_w_def geometry_consts)
  have "chunk_levels var * value_bytes var * (chunk_h var * chunk_w var) \<le> 2 ^ 21"
    using assms by (auto simp: var_valid_def chunk_h_def chunk_w_def geometry_consts chunk_levels_def value_bytes_def
        MAX_PRESSURE_LEVELS_def)
  then have "chunk_levels var * value_bytes var * (chunk_rows meta var ty * chunk_cols meta var tx) \<le> 2 ^ 21"
    by (rule order_trans [OF mult_le_mono [OF order_refl p]])
  then show "chunk_values meta var ty tx * value_bytes var \<le> 2 ^ 21"
    by (simp only: chunk_values_def ac_simps)
qed

lemma meta_valid_grid:
  assumes "meta_valid meta"
  shows "hm_ny meta < usize_bound" "hm_nx meta < usize_bound" "hm_nx meta * hm_ny meta < usize_bound"
proof -
  have m: "hm_nx meta * hm_ny meta \<le> MAX_GRID_CELLS" "0 < hm_nx meta" "0 < hm_ny meta"
    using assms by (simp_all add: meta_valid_def)
  then have "hm_ny meta \<le> hm_nx meta * hm_ny meta" "hm_nx meta \<le> hm_nx meta * hm_ny meta" by simp_all
  with m show "hm_ny meta < usize_bound" "hm_nx meta < usize_bound" "hm_nx meta * hm_ny meta < usize_bound"
    using grid_cells_usize [of "hm_nx meta * hm_ny meta"] by linarith+
qed

lemma validate_payload_eq_Inr:
  assumes "n \<le> 2 ^ 21"
  shows "validate_payload r n header file_len = Inr () \<longleftrightarrow>
    cr_len r \<noteq> 0 \<and> unat (cr_raw_len r) = n \<and> unat (cr_len r) \<le> n + 2 ^ 20 \<and>
    hd_payload_offset header \<le> cr_offset r \<and> unat (cr_offset r) + unat (cr_len r) \<le> unat file_len"
proof -
  define m :: u64 where "m = of_nat (n + 2 ^ 20)"
  have m: "unat m = n + 2 ^ 20" using assms unfolding m_def by (simp only: unat_of_nat) simp
  have add: "u64_checked_add (of_nat n) MAX_CHUNK_COMP_OVERHEAD = Some m"
    using assms by (simp add: u64_checked_add_eq_Some m MAX_CHUNK_COMP_OVERHEAD_def unat_of_nat)
  have "validate_payload r n header file_len = Inr () \<longleftrightarrow>
    cr_len r \<noteq> 0 \<and> unat (cr_raw_len r) = n \<and> unat (cr_len r) \<le> n + 2 ^ 20 \<and>
    hd_payload_offset header \<le> cr_offset r \<and>
    (\<exists>stop. unat stop = unat (cr_offset r) + unat (cr_len r) \<and> stop \<le> file_len)"
    unfolding validate_payload_def add
    using m by (auto simp: r_eq_Inr u64_checked_add_eq_Some word_less_nat_alt word_le_nat_alt not_less
        split: if_splits)
  also have "(\<exists>stop. unat stop = unat (cr_offset r) + unat (cr_len r) \<and> stop \<le> file_len) \<longleftrightarrow>
      unat (cr_offset r) + unat (cr_len r) \<le> unat file_len"
  proof
    assume le: "unat (cr_offset r) + unat (cr_len r) \<le> unat file_len"
    define w :: u64 where "w = of_nat (unat (cr_offset r) + unat (cr_len r))"
    have "unat w = unat (cr_offset r) + unat (cr_len r)"
      using le unat_bounds(4) [of file_len] unfolding w_def by (simp only: unat_of_nat) simp
    with le show "\<exists>stop. unat stop = unat (cr_offset r) + unat (cr_len r) \<and> stop \<le> file_len"
      by (intro exI [of _ w]) (simp add: word_le_nat_alt)
  qed (auto simp: word_le_nat_alt)
  finally show ?thesis .
qed

lemma validate_chunk_record_eq_Inr:
  assumes meta: "meta_valid meta"
  shows "validate_chunk_record r meta header file_len (variable_map (hm_variables meta)) = Inr () \<longleftrightarrow>
    (\<exists>var \<in> set (hm_variables meta). vm_id var = cr_var_id r \<and> record_valid meta header file_len var r)"
proof (cases "variable_map (hm_variables meta) (cr_var_id r)")
  case None
  then have "\<not> (\<exists>var \<in> set (hm_variables meta). vm_id var = cr_var_id r)"
    using variable_map_eq_Some [of "hm_variables meta" "cr_var_id r"] meta by (auto simp: meta_valid_def)
  with None show ?thesis by (auto simp: validate_chunk_record_def)
next
  case (Some var)
  have d: "distinct (map vm_id (hm_variables meta))" using meta by (simp add: meta_valid_def)
  have v: "var \<in> set (hm_variables meta)" "vm_id var = cr_var_id r"
    using Some variable_map_eq_Some [OF d] by auto
  have uniq: "var' = var" if "var' \<in> set (hm_variables meta)" "vm_id var' = cr_var_id r" for var'
    using variable_map_eq_Some [OF d, of "cr_var_id r" var'] that Some by simp
  have valid: "var_valid (hm_nx meta * hm_ny meta) var" using meta v by (simp add: meta_valid_def)
  define ty tx where "ty = unat (cr_tile_y r)" and "tx = unat (cr_tile_x r)"
  have "validate_chunk_record r meta header file_len (variable_map (hm_variables meta)) = Inr () \<longleftrightarrow>
      record_valid meta header file_len var r"
  proof (cases "cr_kind r = chunk_kind var \<and>
      cr_flags r AND NOT (FLAG_EMPTY OR FLAG_CONSTANT OR FLAG_HAS_MISSING) = 0 \<and>
      ty < chunks_y meta var \<and> tx < chunks_x meta var")
    case True
    have "ty * chunk_h var < hm_ny meta" "tx * chunk_w var < hm_nx meta"
      using True by (simp_all add: chunks_y_def chunks_x_def less_div_ceil_iff)
    then have mul: "usize_checked_mul ty (chunk_h var) = Some (ty * chunk_h var)"
        "usize_checked_mul tx (chunk_w var) = Some (tx * chunk_w var)"
      using meta_valid_grid [OF meta] by (simp_all add: usize_checked_mul_eq_Some)
    note bound = chunk_values_bound [OF valid, of meta ty tx]
    have "value_bytes var \<ge> 1" by (simp add: value_bytes_def)
    then have n: "chunk_values meta var ty tx \<le> 2 ^ 21"
      using bound(2) mult_le_mono2 [of 1 "value_bytes var" "chunk_values meta var ty tx"] by linarith
    have cnt: "Option.bind (usize_checked_mul (chunk_rows meta var ty) (chunk_cols meta var tx))
          (\<lambda>count. usize_checked_mul count (chunk_levels var)) = Some (chunk_values meta var ty tx)"
      using bound(1) n by (simp add: usize_checked_mul_def chunk_values_def usize_bound_def)
    have raw: "usize_checked_mul (chunk_values meta var ty tx) (value_bytes var)
        = Some (chunk_values meta var ty tx * value_bytes var)"
      using bound(2) by (simp add: usize_checked_mul_def usize_bound_def)
    have "validate_chunk_record r meta header file_len (variable_map (hm_variables meta)) =
       r_bind (if payload_free r
           then (if cr_len r \<noteq> 0 \<or> cr_raw_len r \<noteq> 0
                 then Inl (Format ''empty/constant chunk must have len=raw_len=0'') else Inr ())
           else validate_payload r (chunk_values meta var ty tx * value_bytes var) header file_len) (\<lambda>_.
        if unat (cr_valid_count r) > chunk_values meta var ty tx
        then Inl (Format ''valid_count exceeds chunk value count'') else Inr ())"
      using True mul cnt raw
      by (simp add: validate_chunk_record_def Some chunk_layout_valid [OF valid] Let_def payload_free_def
          chunks_y_def chunks_x_def ty_def tx_def chunk_rows_def chunk_cols_def not_le)
    then show ?thesis
      using True validate_payload_eq_Inr [OF bound(2)]
      by (auto simp: r_bind_eq_Inr record_valid_def Let_def ty_def tx_def not_less split: if_splits)
  next
    case False
    then show ?thesis
      by (auto simp: validate_chunk_record_def Some chunk_layout_valid [OF valid] Let_def record_valid_def
          ty_def tx_def chunks_y_def chunks_x_def split: if_splits)
  qed
  with v uniq show ?thesis by blast
qed

end
