(* ===== verification/Rw_Lookup.thy ===== *)
theory Rw_Lookup
  imports Rw_Open_Facts
begin

text \<open>
  Looking up variables and chunk records in an open hour file
  (\<^verbatim>\<open>rw-store/src/reader.rs\<close>), and what a successful open guarantees for them: the
  index holds exactly one record for every chunk of every variable, so a lookup of a
  chunk inside the grid always succeeds.
\<close>

section \<open>Operations\<close>

definition lookup :: "hour_reader \<Rightarrow> string \<Rightarrow> rws_variable_meta rw_result" where
  "lookup rd name = ok_or (find_variable rd name) (UnknownVariable name)"

definition lookup_2d :: "hour_reader \<Rightarrow> string \<Rightarrow> rws_variable_meta rw_result" where
  "lookup_2d rd name = r_bind (lookup rd name) (\<lambda>var.
     if vm_kind var \<noteq> ''surface2d'' then Inl (Format ''variable has kind, expected surface2d'') else Inr var)"

definition lookup_3d :: "hour_reader \<Rightarrow> string \<Rightarrow> rws_variable_meta rw_result" where
  "lookup_3d rd name = r_bind (lookup rd name) (\<lambda>var.
     if vm_kind var \<noteq> ''pressure3d'' then Inl (Format ''variable has kind, expected pressure3d'') else Inr var)"

text \<open>\<open>slice::binary_search_by_key\<close> of the standard library: halving of the candidate range.\<close>

function bsearch_loop :: "(nat \<Rightarrow> 'k::linorder) \<Rightarrow> 'k \<Rightarrow> nat \<Rightarrow> nat \<Rightarrow> nat" where
  "bsearch_loop key k sz base =
     (if sz > 1
      then let half = sz div 2; mid = base + half
           in bsearch_loop key k (sz - half) (if key mid > k then base else mid)
      else base)"
  by pat_completeness auto
termination
  by (relation "measure (\<lambda>(_, _, sz, _). sz)") auto

declare bsearch_loop.simps [simp del]

definition binary_search_by_key :: "'a list \<Rightarrow> 'k::linorder \<Rightarrow> ('a \<Rightarrow> 'k) \<Rightarrow> nat option" where
  "binary_search_by_key xs k key =
     (if xs = [] then None
      else let base = bsearch_loop (\<lambda>i. key (xs ! i)) k (length xs) 0
           in if key (xs ! base) = k then Some base else None)"

definition find_chunk_record :: "hour_reader \<Rightarrow> rws_variable_meta \<Rightarrow> u8 \<Rightarrow> nat \<Rightarrow> nat \<Rightarrow> chunk_record rw_result" where
  "find_chunk_record rd var kind ty tx =
     r_bind (ok_or (hr_var_ranges rd (vm_id var)) (Format ''variable has no chunk index entries'')) (\<lambda>(a, b).
     r_bind (r_slice a b (hr_records rd)) (\<lambda>chunk_slice.
     let key = (vm_id var, kind, of_nat ty, of_nat tx)
     in r_bind (ok_or (binary_search_by_key chunk_slice key sort_key) (Format ''missing chunk record'')) (\<lambda>position.
        r_nth chunk_slice position)))"

section \<open>Binary search\<close>

lemma bsearch_loop_finds:
  assumes "\<And>a b. a < b \<Longrightarrow> b < n \<Longrightarrow> key a < key b" and "base + sz \<le> n" and "base \<le> i" and "i < base + sz"
  shows "bsearch_loop key (key i) sz base = i"
  using assms(2-4)
proof (induction sz arbitrary: base rule: less_induct)
  case (less sz)
  show ?case
  proof (cases "sz > 1")
    case True
    define half where "half = sz div 2"
    have half: "0 < half" "half < sz" using True by (simp_all add: half_def)
    define base' where "base' = (if key (base + half) > key i then base else base + half)"
    have range: "base' \<le> i" "i < base' + (sz - half)" "base' + (sz - half) \<le> n"
    proof -
      show "base' \<le> i"
        using less.prems half assms(1) [of i "base + half"] by (auto simp: base'_def not_less) (metis not_less)
      have "i < base + half" if "key (base + half) > key i"
        using that less.prems half assms(1) [of "base + half" i] by (cases "base + half" i rule: linorder_cases) auto
      moreover have "half \<le> sz - half" by (simp add: half_def)
      ultimately show "i < base' + (sz - half)" "base' + (sz - half) \<le> n"
        using less.prems half by (auto simp: base'_def)
    qed
    have "bsearch_loop key (key i) sz base = bsearch_loop key (key i) (sz - half) base'"
      using True by (subst bsearch_loop.simps) (simp add: half_def base'_def Let_def)
    also have "\<dots> = i"
      using half range by (intro less.IH) simp_all
    finally show ?thesis .
  next
    case False
    then show ?thesis using less.prems by (subst bsearch_loop.simps) simp
  qed
qed

lemma bsearch_loop_range: "0 < sz \<Longrightarrow> bsearch_loop key k sz base < base + sz"
proof (induction key k sz base rule: bsearch_loop.induct)
  case (1 key k sz base)
  show ?case
  proof (cases "sz > 1")
    case True
    let ?half = "sz div 2"
    have "0 < ?half" "?half < sz" using True by simp_all
    with 1(1) [OF True refl refl] True show ?thesis
      by (subst bsearch_loop.simps) (auto simp: Let_def split: if_splits)
  qed (use 1 in \<open>subst bsearch_loop.simps, simp\<close>)
qed

text \<open>On strictly increasing keys the search finds the element with the key, if there is one.\<close>

lemma binary_search_by_key_correct:
  assumes "sorted_wrt (<) (map key xs)"
  shows "binary_search_by_key xs k key = Some i \<longleftrightarrow> i < length xs \<and> key (xs ! i) = k"
proof
  have mono: "key (xs ! a) < key (xs ! b)" if "a < b" "b < length xs" for a b
    using assms that by (simp add: sorted_wrt_iff_nth_less)
  assume i: "i < length xs \<and> key (xs ! i) = k"
  then have "bsearch_loop (\<lambda>i. key (xs ! i)) k (length xs) 0 = i"
    using bsearch_loop_finds [of "length xs" "\<lambda>i. key (xs ! i)" 0 "length xs" i] mono by auto
  with i show "binary_search_by_key xs k key = Some i"
    by (auto simp: binary_search_by_key_def Let_def)
next
  assume "binary_search_by_key xs k key = Some i"
  then show "i < length xs \<and> key (xs ! i) = k"
    using bsearch_loop_range [of "length xs" "\<lambda>i. key (xs ! i)" k 0]
    by (auto simp: binary_search_by_key_def Let_def split: if_splits)
qed

section \<open>Per-variable ranges\<close>

text \<open>A range map is right when each id maps to exactly the positions of its records.\<close>

definition ranges_ok :: "chunk_record list \<Rightarrow> nat \<Rightarrow> (u16 \<rightharpoonup> nat \<times> nat) \<Rightarrow> bool" where
  "ranges_ok rs n m \<longleftrightarrow>
     (\<forall>v. m v = None \<longleftrightarrow> (\<forall>j<n. cr_var_id (rs ! j) \<noteq> v)) \<and>
     (\<forall>v a b. m v = Some (a, b) \<longrightarrow> a < b \<and> b \<le> n \<and> (\<forall>j<n. a \<le> j \<and> j < b \<longleftrightarrow> cr_var_id (rs ! j) = v))"

lemma ranges_ok_extend:
  assumes ok: "ranges_ok rs a m" and "a < b" and run: "\<forall>j. a \<le> j \<and> j < b \<longrightarrow> v = cr_var_id (rs ! j)"
    and new: "\<forall>j<a. cr_var_id (rs ! j) \<noteq> v"
  shows "ranges_ok rs b (m(v \<mapsto> (a, b)))"
  unfolding ranges_ok_def
proof (intro conjI allI impI)
  fix w
  have "(\<forall>j<b. cr_var_id (rs ! j) \<noteq> w) \<longleftrightarrow> w \<noteq> v \<and> (\<forall>j<a. cr_var_id (rs ! j) \<noteq> w)"
    using assms(2) run by (metis less_trans not_less order_refl)
  then show "(m(v \<mapsto> (a, b))) w = None \<longleftrightarrow> (\<forall>j<b. cr_var_id (rs ! j) \<noteq> w)"
    using ok by (auto simp: ranges_ok_def)
next
  fix w c d assume w: "(m(v \<mapsto> (a, b))) w = Some (c, d)"
  have cd: "c < d \<and> d \<le> b \<and> (\<forall>j<b. (c \<le> j \<and> j < d) = (cr_var_id (rs ! j) = w))"
  proof (cases "w = v")
    case True
    then show ?thesis using w assms(2) run new by auto (metis not_less)
  next
    case False
    with w ok have *: "c < d" "d \<le> a" "\<forall>j<a. (c \<le> j \<and> j < d) = (cr_var_id (rs ! j) = w)"
      by (auto simp: ranges_ok_def)
    have "(c \<le> j \<and> j < d) = (cr_var_id (rs ! j) = w)" if "j < b" for j
      using *(1,2) *(3) [rule_format, of j] run [rule_format, of j] that False by (cases "j < a") auto
    with * assms(2) show ?thesis by auto
  qed
  then show "c < d" "d \<le> b" by simp_all
  fix j assume "j < b"
  with cd show "(c \<le> j \<and> j < d) = (cr_var_id (rs ! j) = w)" by simp
qed

text \<open>The loop invariant: the current run is open, smaller ids are closed.\<close>

definition range_inv :: "chunk_record list \<Rightarrow> nat \<Rightarrow> nat \<times> (u16 \<rightharpoonup> nat \<times> nat) \<Rightarrow> bool" where
  "range_inv rs i st \<longleftrightarrow> (case st of (a, m) \<Rightarrow> a < i \<and> a \<le> length rs \<and> ranges_ok rs a m \<and>
     (i > length rs \<longrightarrow> a = length rs) \<and>
     (\<forall>j. a \<le> j \<and> j < i \<and> i \<le> length rs \<longrightarrow> cr_var_id (rs ! a) = cr_var_id (rs ! j)) \<and>
     (a < length rs \<longrightarrow> (\<forall>j<a. cr_var_id (rs ! j) < cr_var_id (rs ! a))))"

lemma range_step_inv:
  assumes mono: "\<And>a b. a < b \<Longrightarrow> b < length rs \<Longrightarrow> cr_var_id (rs ! a) \<le> cr_var_id (rs ! b)"
    and i: "1 \<le> i" "i < length rs + 1" and inv: "range_inv rs i st"
  shows "\<exists>st'. range_step rs i st = Inr st' \<and> range_inv rs (Suc i) st'"
proof -
  obtain a m where st: "st = (a, m)" by (cases st)
  have a: "a < i" "ranges_ok rs a m" "\<forall>j. a \<le> j \<and> j < i \<longrightarrow> cr_var_id (rs ! a) = cr_var_id (rs ! j)"
      "\<forall>j<a. cr_var_id (rs ! j) < cr_var_id (rs ! a)"
    using inv i by (auto simp: range_inv_def st)
  have al: "a < length rs" using a(1) i by simp
  have close: "ranges_ok rs i (m(cr_var_id (rs ! a) \<mapsto> (a, i)))"
    using a by (intro ranges_ok_extend) auto
  show ?thesis
  proof (cases "i = length rs \<or> cr_var_id (rs ! i) \<noteq> cr_var_id (rs ! a)")
    case True
    have "cr_var_id (rs ! j) < cr_var_id (rs ! i)" if "i < length rs" "j < i" for j
    proof -
      have "cr_var_id (rs ! a) < cr_var_id (rs ! i)"
        using mono [of a i] True that a(1) by (simp add: order.strict_iff_order)
      moreover have "cr_var_id (rs ! j) \<le> cr_var_id (rs ! a)"
        using a(3) [rule_format, of j] a(4) [rule_format, of j] that(2) by (cases "j < a") simp_all
      ultimately show ?thesis by simp
    qed
    then have "range_inv rs (Suc i) (i, m(cr_var_id (rs ! a) \<mapsto> (a, i)))"
      using close i by (auto simp: range_inv_def less_Suc_eq)
    moreover have "range_step rs i st = Inr (i, m(cr_var_id (rs ! a) \<mapsto> (a, i)))"
      using True al i by (auto simp: range_step_def st r_nth_def)
    ultimately show ?thesis by blast
  next
    case False
    then have "range_step rs i st = Inr (a, m)"
      using al i by (auto simp: range_step_def st r_nth_def)
    moreover have "range_inv rs (Suc i) (a, m)"
      using a al i False by (auto simp: range_inv_def less_Suc_eq)
    ultimately show ?thesis by blast
  qed
qed

lemma build_ranges_ok:
  assumes "sorted_wrt (<) (map sort_key rs)"
  shows "\<exists>m. build_ranges rs = Inr m \<and> ranges_ok rs (length rs) m"
proof (cases "rs = []")
  case True
  then show ?thesis by (simp add: build_ranges_def ranges_ok_def)
next
  case False
  have mono: "cr_var_id (rs ! a) \<le> cr_var_id (rs ! b)" if "a < b" "b < length rs" for a b
  proof -
    have "sort_key (rs ! a) < sort_key (rs ! b)" using assms that by (simp add: sorted_wrt_iff_nth_less)
    then show ?thesis by (auto simp: sort_key_def)
  qed
  have "range_inv rs 1 (0, Map.empty)"
    using False by (auto simp: range_inv_def ranges_ok_def)
  then have "\<exists>st. r_fold (range_step rs) [1..<length rs + 1] (0, Map.empty) = Inr st \<and> range_inv rs (length rs + 1) st"
    using False by (intro r_fold_upt range_step_inv mono) (auto simp: Suc_le_eq)
  then show ?thesis
    using False by (auto simp: build_ranges_def range_inv_def)
qed

section \<open>The index is complete\<close>

text \<open>A validated index of a file of \<open>file_len\<close> bytes.\<close>

definition index_ok :: "rws_hour_meta \<Rightarrow> rws_header \<Rightarrow> u64 \<Rightarrow> chunk_record list \<Rightarrow> bool" where
  "index_ok meta header file_len rs \<longleftrightarrow>
     meta_valid meta \<and> sorted_wrt (<) (map sort_key rs) \<and> length rs = expected_records meta \<and>
     (\<forall>r \<in> set rs. \<exists>var \<in> set (hm_variables meta). vm_id var = cr_var_id r \<and> record_valid meta header file_len var r)"

lemma sorted_key_inj: "sorted_wrt (<) (map key xs) \<Longrightarrow> distinct xs \<and> inj_on key (set xs)" for key :: "'a \<Rightarrow> 'b::linorder"
  using strict_sorted_iff [of "map key xs"] by (simp add: distinct_map)

lemma record_var:
  assumes "index_ok meta header file_len rs" and "r \<in> set rs"
    and "var \<in> set (hm_variables meta)" and "vm_id var = cr_var_id r"
  shows "record_valid meta header file_len var r"
proof -
  have "distinct (map vm_id (hm_variables meta))" using assms(1) by (simp add: index_ok_def meta_valid_def)
  then have "inj_on vm_id (set (hm_variables meta))" by (simp add: distinct_map)
  moreover obtain v where "v \<in> set (hm_variables meta)" "vm_id v = cr_var_id r" "record_valid meta header file_len v r"
    using assms(1,2) unfolding index_ok_def by blast
  ultimately show ?thesis using assms(3,4) by (metis inj_onD)
qed

lemma record_eqI:
  assumes "index_ok meta header file_len rs" and "r \<in> set rs" and "r' \<in> set rs" and "cr_var_id r = cr_var_id r'"
    and "cr_tile_y r = cr_tile_y r'" and "cr_tile_x r = cr_tile_x r'"
  shows "r = r'"
proof -
  obtain var where v: "var \<in> set (hm_variables meta)" "vm_id var = cr_var_id r"
    using assms(1,2) by (auto simp: index_ok_def)
  then have "cr_kind r = chunk_kind var" "cr_kind r' = chunk_kind var"
    using record_var [OF assms(1,2)] record_var [OF assms(1,3)] assms(4) by (simp_all add: record_valid_def)
  then have "sort_key r = sort_key r'" using assms(4-6) by (simp add: sort_key_def)
  with assms(1-3) sorted_key_inj [of sort_key rs] show ?thesis by (auto simp: index_ok_def dest: inj_onD)
qed

text \<open>Every record belongs to a chunk, no two to the same, and there are as many as chunks.\<close>

lemma index_covers:
  assumes ix: "index_ok meta header file_len rs"
    and var: "var \<in> set (hm_variables meta)" and ty: "ty < chunks_y meta var" and tx: "tx < chunks_x meta var"
  obtains r where "r \<in> set rs" "cr_var_id r = vm_id var" "unat (cr_tile_y r) = ty" "unat (cr_tile_x r) = tx"
proof -
  let ?vars = "hm_variables meta"
  define K where "K = (SIGMA var : set ?vars. {..<chunks_y meta var} \<times> {..<chunks_x meta var})"
  define g where "g r = (the (variable_map ?vars (cr_var_id r)), unat (cr_tile_y r), unat (cr_tile_x r))" for r :: chunk_record
  have d: "distinct (map vm_id ?vars)" using ix by (simp add: index_ok_def meta_valid_def)
  have dv: "distinct ?vars" using d by (simp add: distinct_map)
  have rv: "variable_map ?vars (cr_var_id r) = Some v" if "v \<in> set ?vars" "vm_id v = cr_var_id r" for r v
    using variable_map_eq_Some [OF d] that by simp
  have sub: "g ` set rs \<subseteq> K"
  proof (rule image_subsetI)
    fix r assume "r \<in> set rs"
    then obtain v where v: "v \<in> set ?vars" "vm_id v = cr_var_id r" "record_valid meta header file_len v r"
      using ix unfolding index_ok_def by blast
    then show "g r \<in> K" using rv [OF v(1,2)] by (simp add: g_def K_def record_valid_def)
  qed
  have inj: "inj_on g (set rs)"
  proof (rule inj_onI)
    fix r r' assume r: "r \<in> set rs" "r' \<in> set rs" "g r = g r'"
    obtain v v' where v: "v \<in> set ?vars" "vm_id v = cr_var_id r" "v' \<in> set ?vars" "vm_id v' = cr_var_id r'"
      using ix r(1,2) unfolding index_ok_def by blast
    have "v = v'" using r(3) rv [OF v(1,2)] rv [OF v(3,4)] by (simp add: g_def)
    then have "cr_var_id r = cr_var_id r'" using v by simp
    moreover have "cr_tile_y r = cr_tile_y r'" "cr_tile_x r = cr_tile_x r'" using r(3) by (simp_all add: g_def word_unat_eq_iff)
    ultimately show "r = r'" by (rule record_eqI [OF ix r(1,2)])
  qed
  have "card (g ` set rs) = length rs"
    using inj sorted_key_inj [of sort_key rs] ix by (simp add: card_image distinct_card index_ok_def)
  also have "\<dots> = (\<Sum>v \<leftarrow> ?vars. chunks_y meta v * chunks_x meta v)" using ix by (simp add: index_ok_def expected_records_def)
  also have "\<dots> = (\<Sum>v \<in> set ?vars. chunks_y meta v * chunks_x meta v)" using dv by (rule sum_list_distinct_conv_sum_set)
  also have "\<dots> = card K" by (simp add: K_def card_SigmaI card_cartesian_product)
  finally have "g ` set rs = K"
    using sub by (intro card_subset_eq) (simp_all add: K_def)
  moreover have "(var, ty, tx) \<in> K" using var ty tx by (simp add: K_def)
  ultimately obtain r where r: "r \<in> set rs" "g r = (var, ty, tx)" by (metis imageE)
  obtain v where "v \<in> set ?vars" "vm_id v = cr_var_id r" using ix r(1) unfolding index_ok_def by blast
  with rv [OF this] r show thesis by (intro that [of r]) (auto simp: g_def)
qed

text \<open>What an open reader relies on.\<close>

definition reader_ok :: "rws_header \<Rightarrow> hour_reader \<Rightarrow> bool" where
  "reader_ok header rd \<longleftrightarrow> header_layout header \<and>
     index_ok (hr_meta rd) header (of_nat (length (as_slice (hr_bytes rd)))) (hr_records rd) \<and>
     ranges_ok (hr_records rd) (length (hr_records rd)) (hr_var_ranges rd)"

lemma reader_range:
  assumes ok: "reader_ok header rd" and var: "var \<in> set (hm_variables (hr_meta rd))"
  obtains a b where "hr_var_ranges rd (vm_id var) = Some (a, b)" "a < b" "b \<le> length (hr_records rd)"
    "\<forall>j < length (hr_records rd). a \<le> j \<and> j < b \<longleftrightarrow> cr_var_id (hr_records rd ! j) = vm_id var"
proof -
  have ix: "index_ok (hr_meta rd) header (of_nat (length (as_slice (hr_bytes rd)))) (hr_records rd)"
    and rg: "ranges_ok (hr_records rd) (length (hr_records rd)) (hr_var_ranges rd)"
    using ok by (simp_all add: reader_ok_def)
  have "0 < chunks_y (hr_meta rd) var" "0 < chunks_x (hr_meta rd) var"
    using ix by (simp_all add: index_ok_def meta_valid_def chunks_y_def chunks_x_def div_ceil_pos)
  then obtain r where "r \<in> set (hr_records rd)" "cr_var_id r = vm_id var"
    using index_covers [OF ix var, of 0 0] by blast
  then obtain j where "j < length (hr_records rd)" "cr_var_id (hr_records rd ! j) = vm_id var"
    by (metis in_set_conv_nth)
  with rg have "hr_var_ranges rd (vm_id var) \<noteq> None" by (auto simp: ranges_ok_def)
  then obtain a b where ab: "hr_var_ranges rd (vm_id var) = Some (a, b)" by (cases "hr_var_ranges rd (vm_id var)") auto
  with rg show thesis
    unfolding ranges_ok_def by (intro that [of a b]) blast+
qed

text \<open>A lookup of any chunk inside the grid finds its record.\<close>

lemma find_chunk_record_ok:
  assumes ok: "reader_ok header rd" and var: "var \<in> set (hm_variables (hr_meta rd))"
    and ty: "ty < chunks_y (hr_meta rd) var" and tx: "tx < chunks_x (hr_meta rd) var"
  obtains r where "find_chunk_record rd var (chunk_kind var) ty tx = Inr r" "r \<in> set (hr_records rd)"
    "cr_var_id r = vm_id var" "unat (cr_tile_y r) = ty" "unat (cr_tile_x r) = tx"
    "record_valid (hr_meta rd) header (of_nat (length (as_slice (hr_bytes rd)))) var r"
proof -
  have ix: "index_ok (hr_meta rd) header (of_nat (length (as_slice (hr_bytes rd)))) (hr_records rd)"
    using ok by (simp add: reader_ok_def)
  obtain r where r: "r \<in> set (hr_records rd)" "cr_var_id r = vm_id var" "unat (cr_tile_y r) = ty" "unat (cr_tile_x r) = tx"
    using index_covers [OF ix var ty tx] .
  obtain a b where ab: "hr_var_ranges rd (vm_id var) = Some (a, b)" "a < b" "b \<le> length (hr_records rd)"
    and run: "\<forall>j < length (hr_records rd). a \<le> j \<and> j < b \<longleftrightarrow> cr_var_id (hr_records rd ! j) = vm_id var"
    using reader_range [OF ok var] .
  obtain j where j: "j < length (hr_records rd)" "hr_records rd ! j = r" using r(1) by (metis in_set_conv_nth)
  have jr: "a \<le> j" "j < b" using run [rule_format, of j] r(2) j by simp_all
  let ?xs = "subslice a b (hr_records rd)"
  let ?key = "(vm_id var, chunk_kind var, of_nat ty, of_nat tx) :: u16 \<times> u8 \<times> u32 \<times> u32"
  have valid: "record_valid (hr_meta rd) header (of_nat (length (as_slice (hr_bytes rd)))) var r"
    using record_var [OF ix r(1) var] r(2) by simp
  have "cr_tile_y r = of_nat ty" "cr_tile_x r = of_nat tx" using r(3,4) by auto
  then have key: "sort_key r = ?key" using valid r(2) by (simp add: sort_key_def record_valid_def)
  have "sorted_wrt (<) (map sort_key ?xs)"
    using ix by (simp add: index_ok_def subslice_def take_map [symmetric] drop_map [symmetric] sorted_wrt_take sorted_wrt_drop)
  moreover have "j - a < length ?xs" "?xs ! (j - a) = r" using ab jr j by (simp_all add: nth_slice)
  ultimately have "binary_search_by_key ?xs ?key sort_key = Some (j - a)"
    using key by (simp add: binary_search_by_key_correct)
  then have "find_chunk_record rd var (chunk_kind var) ty tx = Inr r"
    using ab \<open>j - a < length ?xs\<close> \<open>?xs ! (j - a) = r\<close>
    by (simp add: find_chunk_record_def r_slice_def subslice_ok_def r_nth_def)
  then show thesis using r valid by (rule that)
qed

lemma find_variable_Some:
  assumes "find_variable rd name = Some var"
  shows "var \<in> set (hm_variables (hr_meta rd))" "vm_name var = name"
  using assms by (auto simp: find_variable_def find_Some_iff)

lemma lookup_2d_Inr:
  "lookup_2d rd name = Inr var \<longleftrightarrow> find_variable rd name = Some var \<and> vm_kind var = ''surface2d''"
  by (auto simp: lookup_2d_def lookup_def r_bind_eq_Inr ok_or_eq_Inr split: if_splits)

lemma lookup_3d_Inr:
  "lookup_3d rd name = Inr var \<longleftrightarrow> find_variable rd name = Some var \<and> vm_kind var = ''pressure3d''"
  by (auto simp: lookup_3d_def lookup_def r_bind_eq_Inr ok_or_eq_Inr split: if_splits)

section \<open>Opening a file\<close>

lemma open_bytes_not_panics: "\<not> panics (open_bytes from_json path)"
  unfolding open_bytes_def read_file_to_ram_def read_exact_at_def Let_def
  by (intro not_panics_intros not_panics_parse_header not_panics_header_bounds not_panics_parse_hour_meta
      not_panics_hour_meta) simp_all

text \<open>The index loop stays inside the file and yields validated records.\<close>

lemma read_record_eq_Inr:
  assumes p: "parse_header data = Inr header" and b: "bounds_valid header (of_nat (length data))"
    and m: "meta_valid meta" and i: "i < unat (hd_index_count header)"
  shows "read_record data (unat (hd_index_offset header)) meta header (variable_map (hm_variables meta)) i =
      r_bind (validate_chunk_record (unpack_record (subslice (unat (hd_index_offset header) + i * 64)
          (unat (hd_index_offset header) + i * 64 + 64) data)) meta header (of_nat (length data))
          (variable_map (hm_variables meta)))
        (\<lambda>_. Inr (unpack_record (subslice (unat (hd_index_offset header) + i * 64)
          (unat (hd_index_offset header) + i * 64 + 64) data)))"
proof -
  have off: "unat (hd_index_offset header) = 64 + unat (hd_meta_len header)"
    using parse_header_InrD(2) [OF p] by (simp add: header_layout_def)
  have fit: "unat (hd_index_offset header) + i * 64 + 64 \<le> length data"
    using header_within_file [OF p b] off i by simp
  have small: "unat (hd_index_offset header) + i * 64 + 64 < usize_bound"
    using b i unat_bounds(4) [of "hd_payload_offset header"] parse_header_InrD(2) [OF p]
    by (simp add: header_layout_def usize_bound_def)
  then have start: "Option.bind (usize_checked_mul i 64) (\<lambda>off. usize_checked_add (unat (hd_index_offset header)) off)
      = Some (unat (hd_index_offset header) + i * 64)"
    by (simp add: usize_checked_mul_def usize_checked_add_def)
  have stop: "usize_checked_add (unat (hd_index_offset header) + i * 64) 64 = Some (unat (hd_index_offset header) + i * 64 + 64)"
    using small by (simp add: usize_checked_add_def)
  have "r_slice (unat (hd_index_offset header) + i * 64) (unat (hd_index_offset header) + i * 64 + 64) data =
      Inr (subslice (unat (hd_index_offset header) + i * 64) (unat (hd_index_offset header) + i * 64 + 64) data)"
    using fit by (simp add: r_slice_def subslice_ok_def)
  moreover have "unpack (subslice (unat (hd_index_offset header) + i * 64) (unat (hd_index_offset header) + i * 64 + 64) data)
      = Inr (unpack_record (subslice (unat (hd_index_offset header) + i * 64) (unat (hd_index_offset header) + i * 64 + 64) data))"
    using fit by (simp add: unpack_record_def unpack_def)
  ultimately show ?thesis
    using start stop by (simp add: read_record_def INDEX_RECORD_LEN_def)
qed

lemma not_panics_validate_chunk_record: "\<not> panics (validate_chunk_record r meta header file_len variables)"
  unfolding validate_chunk_record_def validate_payload_def chunk_layout_def Let_def
  by (intro not_panics_intros) simp_all

text \<open>What an opened file amounts to, once its bytes are fixed.\<close>

definition open_data :: "json_parser \<Rightarrow> u8 list \<Rightarrow> (rws_hour_meta \<times> chunk_record list \<times> (u16 \<rightharpoonup> nat \<times> nat)) rw_result" where
  "open_data from_json data =
     r_bind (parse_and_validate_hour from_json data) (\<lambda>(header, meta).
     r_bind (r_map (read_record data (unat (hd_index_offset header)) meta header (variable_map (hm_variables meta)))
              [0..<unat (hd_index_count header)]) (\<lambda>records.
     if sort_violation records \<noteq> None then Inl (Format ''chunk index sort order violated'')
     else r_bind (build_ranges records) (\<lambda>ranges. Inr (meta, records, ranges))))"

lemma open_eq:
  "open_with_tile_cache_bytes from_json path cap =
     r_bind (open_bytes from_json path) (\<lambda>(bytes, source).
     r_bind (open_data from_json (as_slice bytes)) (\<lambda>(meta, records, ranges).
       Inr \<lparr>hr_bytes = bytes, hr_source = source, hr_meta = meta, hr_records = records,
            hr_var_ranges = ranges, hr_tile_cache = cache_new cap\<rparr>))"
proof (cases "open_bytes from_json path")
  case (Inr bs)
  obtain bytes source where bs: "bs = (bytes, source)" by (cases bs)
  show ?thesis
  proof (cases "parse_and_validate_hour from_json (as_slice bytes)")
    case (Inr hm)
    obtain header meta where hm: "hm = (header, meta)" by (cases hm)
    let ?rs = "r_map (read_record (as_slice bytes) (unat (hd_index_offset header)) meta header
        (variable_map (hm_variables meta))) [0..<unat (hd_index_count header)]"
    show ?thesis
    proof (cases ?rs)
      case rs: (Inr rs)
      show ?thesis
        using \<open>open_bytes from_json path = Inr bs\<close> Inr
        by (cases "build_ranges rs") (simp_all add: open_with_tile_cache_bytes_def open_data_def bs hm rs Let_def)
    qed (use \<open>open_bytes from_json path = Inr bs\<close> Inr in
        \<open>simp add: open_with_tile_cache_bytes_def open_data_def bs hm Let_def\<close>)
  qed (use Inr in \<open>simp add: open_with_tile_cache_bytes_def open_data_def bs Let_def\<close>)
qed (simp add: open_with_tile_cache_bytes_def)

lemma open_data_not_panics: "\<not> panics (open_data from_json data)"
  unfolding open_data_def
proof (intro not_panics_intros not_panics_parse_and_validate)
  fix hm header meta i
  assume hm: "parse_and_validate_hour from_json data = Inr hm" "hm = (header, meta)"
    and i: "i \<in> set [0..<unat (hd_index_count header)]"
  then have h: "parse_header data = Inr header" "bounds_valid header (of_nat (length data))" "meta_valid meta"
    by (simp_all add: parse_and_validate_eq_Inr validate_hour_meta_eq_Inr)
  show "\<not> panics (read_record data (unat (hd_index_offset header)) meta header (variable_map (hm_variables meta)) i)"
    using i by (subst read_record_eq_Inr [OF h]) (simp, intro not_panics_intros not_panics_validate_chunk_record, simp)
next
  fix records assume "\<not> sort_violation records \<noteq> None"
  then obtain m where "build_ranges records = Inr m" using build_ranges_ok sort_violation_None by blast
  then show "\<not> panics (build_ranges records)" by simp
qed simp_all

lemma open_data_ok:
  assumes "open_data from_json data = Inr (meta, records, ranges)"
  obtains header where "parse_header data = Inr header" "bounds_valid header (of_nat (length data))"
    "index_ok meta header (of_nat (length data)) records" "ranges_ok records (length records) ranges"
proof -
  obtain header where hm: "parse_and_validate_hour from_json data = Inr (header, meta)"
    and rs: "r_map (read_record data (unat (hd_index_offset header)) meta header (variable_map (hm_variables meta)))
        [0..<unat (hd_index_count header)] = Inr records"
    and sorted: "sort_violation records = None" and ranges: "build_ranges records = Inr ranges"
    using assms unfolding open_data_def by (auto simp: r_bind_eq_Inr split: if_splits option.splits) (metis not_None_eq surj_pair)
  have h: "parse_header data = Inr header" "bounds_valid header (of_nat (length data))" "meta_valid meta"
      "unat (hd_index_count header) = expected_records meta"
    using hm by (simp_all add: parse_and_validate_eq_Inr validate_hour_meta_eq_Inr)
  have "\<exists>var \<in> set (hm_variables meta). vm_id var = cr_var_id r \<and> record_valid meta header (of_nat (length data)) var r"
    if r: "r \<in> set records" for r
  proof -
    obtain i where "i < unat (hd_index_count header)"
        "read_record data (unat (hd_index_offset header)) meta header (variable_map (hm_variables meta)) i = Inr r"
      using r rs by (auto simp: r_map_eq_Inr list_all2_conv_all_nth in_set_conv_nth)
    then show ?thesis
      using read_record_eq_Inr [OF h(1-3)] validate_chunk_record_eq_Inr [OF h(3)] by (auto simp: r_bind_eq_Inr)
  qed
  moreover have "length records = expected_records meta" using r_map_length [OF rs] h(4) by simp
  moreover have "sorted_wrt (<) (map sort_key records)" using sorted by (simp add: sort_violation_None)
  moreover obtain m where "build_ranges records = Inr m" "ranges_ok records (length records) m"
    using build_ranges_ok calculation(3) by blast
  ultimately show thesis using h(1-3) ranges by (intro that [of header]) (auto simp: index_ok_def)
qed

lemma open_reader_ok:
  assumes "open_with_tile_cache_bytes from_json path cap = Inr rd"
  obtains header where "reader_ok header rd" "hr_tile_cache rd = cache_new cap"
    "parse_header (as_slice (hr_bytes rd)) = Inr header"
proof -
  obtain bytes source meta records ranges where rd:
      "open_data from_json (as_slice bytes) = Inr (meta, records, ranges)"
      "rd = \<lparr>hr_bytes = bytes, hr_source = source, hr_meta = meta, hr_records = records,
            hr_var_ranges = ranges, hr_tile_cache = cache_new cap\<rparr>"
    using assms by (auto simp: open_eq r_bind_eq_Inr)
  from open_data_ok [OF rd(1)] show thesis
    using parse_header_InrD(2) by (metis that reader_ok_def rd(2) hour_reader.select_convs)
qed

section \<open>Files that open\<close>

text \<open>The bytes of a file with the given metadata section, index and payload.\<close>

definition hour_file :: "u8 list \<Rightarrow> chunk_record list \<Rightarrow> u8 list \<Rightarrow> u8 list" where
  "hour_file meta_bytes rs payload =
     pack_header (for_layout (of_nat (length meta_bytes)) (of_nat (length rs))) @
     meta_bytes @ concat (map pack_record rs) @ payload"

lemma length_hour_file: "length (hour_file mb rs payload) = 64 + length mb + 64 * length rs + length payload"
  by (simp add: hour_file_def recc.enc_array_length)

lemma hour_file_opens:
  assumes h: "h = for_layout (of_nat (length mb)) (of_nat (length rs))"
    and mb: "length mb \<le> 2 ^ 24" and len: "length (hour_file mb rs payload) \<le> 2 ^ 36"
    and json: "from_json mb = Some meta" and vars: "length (hm_variables meta) \<le> 65536"
    and ix: "index_ok meta h (of_nat (length (hour_file mb rs payload))) rs"
    and cnt: "length rs \<le> 2 ^ 23"
  shows "\<exists>ranges. open_data from_json (hour_file mb rs payload) = Inr (meta, rs, ranges) \<and>
    ranges_ok rs (length rs) ranges"
proof -
  let ?data = "hour_file mb rs payload"
  have u: "unat (of_nat (length mb) :: u32) = length mb" "unat (of_nat (length rs) :: u64) = length rs"
      "unat (of_nat (length ?data) :: u64) = length ?data"
    using mb cnt len by (simp_all add: unat_of_nat)
  have hl: "header_layout h"
    unfolding h using mb cnt u by (intro for_layout_header_layout) simp
  have flds: "hd_meta_len h = of_nat (length mb)" "hd_index_count h = of_nat (length rs)"
    by (simp_all add: h for_layout_def Let_def)
  have p: "parse_header ?data = Inr h"
    using parse_pack_header [OF hl] by (simp add: hour_file_def h)
  have lens: "unat (hd_index_offset h) = 64 + length mb" "unat (hd_payload_offset h) = 64 + length mb + 64 * length rs"
    using hl u flds by (simp_all add: header_layout_def)
  have b: "bounds_valid h (of_nat (length ?data))"
    using u mb cnt len lens flds by (simp add: bounds_valid_def word_le_nat_alt length_hour_file)
  have m: "meta_valid meta" using ix by (simp add: index_ok_def)
  have "subslice 64 (64 + length mb) ?data = mb"
    using slice_middle [of "pack_header h" mb] by (simp add: hour_file_def h)
  then have pv: "parse_and_validate_hour from_json ?data = Inr (h, meta)"
    using p b json u(1,2) flds vars m ix cnt
    by (simp add: parse_and_validate_eq_Inr validate_hour_meta_eq_Inr max_index_records index_ok_def)
  have rec: "read_record ?data (unat (hd_index_offset h)) meta h (variable_map (hm_variables meta)) i = Inr (rs ! i)"
    if i: "i < length rs" for i
  proof -
    have "subslice (64 + length mb + i * 64) (64 + length mb + i * 64 + 64) ?data = pack_record (rs ! i)"
    proof -
      have "?data = (pack_header h @ mb) @ concat (map pack_record rs) @ payload" by (simp add: hour_file_def h)
      then have "subslice (64 + length mb + i * 64) (64 + length mb + i * 64 + 64) ?data =
          subslice (i * 64) (i * 64 + 64) (concat (map pack_record rs) @ payload)"
        using slice_append_right [of "pack_header h @ mb" "i * 64" "i * 64 + 64"] by (simp add: add.assoc)
      also have "\<dots> = pack_record (rs ! i)"
        using i recc.slice_enc_array [of i rs]
        by (subst slice_append_left) (simp_all add: recc.enc_array_length mult.commute)
      finally show ?thesis .
    qed
    moreover have "unpack_record (pack_record (rs ! i)) = rs ! i"
      using unpack_pack [of "rs ! i" "[]"] by (simp add: unpack_record_def)
    moreover have "validate_chunk_record (rs ! i) meta h (of_nat (length ?data)) (variable_map (hm_variables meta)) = Inr ()"
      using ix i by (simp add: validate_chunk_record_eq_Inr [OF m] index_ok_def)
    ultimately show ?thesis
      using read_record_eq_Inr [OF p b m, of i] i u flds lens by simp
  qed
  have "r_map (read_record ?data (unat (hd_index_offset h)) meta h (variable_map (hm_variables meta)))
      [0..<unat (hd_index_count h)] = Inr (map (\<lambda>i. rs ! i) [0..<unat (hd_index_count h)])"
    using rec u(2) flds by (intro r_map_Inr) simp
  then have "r_map (read_record ?data (unat (hd_index_offset h)) meta h (variable_map (hm_variables meta)))
      [0..<unat (hd_index_count h)] = Inr rs"
    using u(2) flds by (simp add: map_nth)
  moreover have "sorted_wrt (<) (map sort_key rs)" using ix by (simp add: index_ok_def)
  moreover from this obtain ranges where "build_ranges rs = Inr ranges" "ranges_ok rs (length rs) ranges"
    using build_ranges_ok by blast
  ultimately show ?thesis
    using pv sort_violation_None [of rs] by (simp add: open_data_def)
qed

text \<open>A one-cell file with one surface variable whose single tile is empty.\<close>

definition sample_variable :: rws_variable_meta where
  "sample_variable = \<lparr>vm_id = 7, vm_name = ''t2m'', vm_units = ''K'', vm_kind = ''surface2d'',
     vm_codec = CODEC_2D, vm_levels_hpa = [], vm_selector = JNull\<rparr>"

definition sample_meta :: rws_hour_meta where
  "sample_meta = \<lparr>hm_schema = SCHEMA_HOUR, hm_model = ''hrrr'', hm_run = ''20260101_00z'', hm_forecast_hour = 0,
     hm_lead_seconds = None, hm_valid_unix = None, hm_nx = 1, hm_ny = 1, hm_grid_hash = [],
     hm_variables = [sample_variable],
     hm_chunking = \<lparr>ck_tile_y = TILE_Y, ck_tile_x = TILE_X, ck_col_y = COL_Y, ck_col_x = COL_X\<rparr>,
     hm_writer = \<lparr>wi_name = [], wi_version = [], wi_build = []\<rparr>\<rparr>"

definition sample_empty_record :: chunk_record where
  "sample_empty_record = \<lparr>cr_var_id = 7, cr_kind = KIND_TILE2D, cr_flags = FLAG_EMPTY, cr_tile_y = 0, cr_tile_x = 0,
     cr_offset = 128, cr_len = 0, cr_raw_len = 0, cr_center = 0x7FC00000, cr_scale = 0,
     cr_min = 0x7FC00000, cr_max = 0x7FC00000, cr_valid_count = 0\<rparr>"

definition sample_file :: opened_file where
  "sample_file = \<lparr>fl_handle = 1, fl_len = 128, fl_preflight = hour_file [] [sample_empty_record] [],
     fl_map = Some (hour_file [] [sample_empty_record] []), fl_reread = []\<rparr>"

lemma sample_meta_valid: "meta_valid sample_meta" "expected_records sample_meta = 1"
  by (simp_all add: meta_valid_def sample_meta_def sample_variable_def validate_time_schema_def var_valid_def
      MAX_GRID_CELLS_def expected_records_def chunks_y_def chunks_x_def chunk_h_def chunk_w_def geometry_consts div_ceil_def)

lemma sample_index_ok: "index_ok sample_meta (for_layout 0 1) 128 [sample_empty_record]"
  using sample_meta_valid
  by (simp add: index_ok_def record_valid_def sample_meta_def sample_variable_def sample_empty_record_def chunk_kind_def
      chunks_y_def chunks_x_def chunk_h_def chunk_w_def geometry_consts div_ceil_def payload_free_def flag_consts
      KIND_TILE2D_def Let_def)

lemma sample_opens:
  "\<exists>rd. open_with_tile_cache_bytes (\<lambda>_. Some sample_meta) (Some sample_file) 0 = Inr rd \<and>
     hr_meta rd = sample_meta \<and> hr_records rd = [sample_empty_record]"
proof -
  let ?json = "\<lambda>_. Some sample_meta"
  let ?data = "hour_file [] [sample_empty_record] []"
  have len: "length ?data = 128" by (simp add: length_hour_file)
  obtain ranges where od: "open_data ?json ?data = Inr (sample_meta, [sample_empty_record], ranges)"
    using hour_file_opens [of "for_layout 0 1" "[]" "[sample_empty_record]" "[]" ?json sample_meta]
      sample_index_ok by (auto simp: len sample_meta_def)
  then obtain header where hm: "parse_and_validate_hour ?json ?data = Inr (header, sample_meta)"
    by (auto simp: open_data_def r_bind_eq_Inr split: if_splits)
  then have h: "parse_header ?data = Inr header" "bounds_valid header 128" "validate_hour_meta sample_meta header = Inr ()"
    using len by (simp_all add: parse_and_validate_eq_Inr)
  have "header = for_layout 0 1"
    using h(1) parse_pack_header [OF for_layout_header_layout [of 0 1]] by (simp add: hour_file_def)
  then have ml: "hd_meta_len header = 0" by (simp add: for_layout_def Let_def)
  have "read_exact_at 0 HEADER_LEN ?data = Inr (pack_header (for_layout 0 1))"
    by (simp add: read_exact_at_def HEADER_LEN_def hour_file_def subslice_def)
  moreover have "parse_header (pack_header (for_layout 0 1)) = Inr header"
    using parse_pack_header [OF for_layout_header_layout [of 0 1], of "[]"] \<open>header = _\<close> by simp
  moreover have "read_exact_at HEADER_LEN 0 ?data = Inr []"
    by (simp add: read_exact_at_def HEADER_LEN_def len subslice_def)
  moreover have "validate_header_bounds header 128 = Inr ()"
    using h(2) by (simp add: validate_header_bounds_eq_Inr)
  ultimately have ob: "open_bytes ?json (Some sample_file) = Inr (Mmap ?data, 1)"
    using h ml by (simp add: open_bytes_def sample_file_def HEADER_LEN_def MAX_HOUR_FILE_LEN_def parse_hour_meta_def)
  show ?thesis unfolding open_eq ob using od by simp
qed

section \<open>Properties\<close>

text \<open>C9. Opening an hour file never panics: for every file content (also one that
  changes between the preflight reads, the memory map and the second read), every
  metadata the JSON parser may return and every cache size, \<open>open\<close> returns a reader
  or an error value. No slice, index or arithmetic of the validation is out of range.\<close>

theorem open_never_panics:
  "\<not> panics (open_with_tile_cache_bytes from_json path cap) \<and> \<not> panics (open_hour from_json path)"
proof -
  have "\<not> panics (open_with_tile_cache_bytes from_json path cap)" for cap
    unfolding open_eq by (intro not_panics_intros open_bytes_not_panics open_data_not_panics) simp
  then show ?thesis by (simp add: open_hour_def)
qed

text \<open>C10. The index of an opened file is complete and its lookup is correct: for
  every variable and every chunk of the grid, \<open>chunk_record\<close> finds a record, the one
  record of the index with that variable and chunk position; it has the kind of the
  variable, and its payload, when it has one, lies inside the file.\<close>

theorem open_index_complete:
  assumes "open_with_tile_cache_bytes from_json path cap = Inr rd"
    and "var \<in> set (hm_variables (hr_meta rd))"
    and "ty < div_ceil (hm_ny (hr_meta rd)) (chunk_h var)" and "tx < div_ceil (hm_nx (hr_meta rd)) (chunk_w var)"
  shows "\<exists>r. find_chunk_record rd var (chunk_kind var) ty tx = Inr r \<and> cr_kind r = chunk_kind var \<and>
    (cr_len r \<noteq> 0 \<longrightarrow> unat (cr_offset r) + unat (cr_len r) \<le> length (as_slice (hr_bytes rd))) \<and>
    {r' \<in> set (hr_records rd). cr_var_id r' = vm_id var \<and> unat (cr_tile_y r') = ty \<and> unat (cr_tile_x r') = tx} = {r}"
proof -
  obtain header where ok: "reader_ok header rd" using open_reader_ok [OF assms(1)] by blast
  then have ix: "index_ok (hr_meta rd) header (of_nat (length (as_slice (hr_bytes rd)))) (hr_records rd)"
    by (simp add: reader_ok_def)
  obtain r where r: "find_chunk_record rd var (chunk_kind var) ty tx = Inr r" "r \<in> set (hr_records rd)"
      "cr_var_id r = vm_id var" "unat (cr_tile_y r) = ty" "unat (cr_tile_x r) = tx"
      "record_valid (hr_meta rd) header (of_nat (length (as_slice (hr_bytes rd)))) var r"
    using find_chunk_record_ok [OF ok assms(2)] assms(3,4) by (auto simp: chunks_y_def chunks_x_def)
  have uniq: "r' = r" if "r' \<in> set (hr_records rd)" "cr_var_id r' = vm_id var" "unat (cr_tile_y r') = ty" "unat (cr_tile_x r') = tx" for r'
    using record_eqI [OF ix that(1) r(2)] that r by (simp add: word_unat_eq_iff)
  moreover have "unat (cr_offset r) + unat (cr_len r) \<le> length (as_slice (hr_bytes rd))" if "cr_len r \<noteq> 0"
  proof -
    have "unat (cr_offset r) + unat (cr_len r) \<le> unat (of_nat (length (as_slice (hr_bytes rd))) :: u64)"
      using r(6) that by (auto simp: record_valid_def Let_def split: if_splits)
    also have "\<dots> \<le> length (as_slice (hr_bytes rd))" by (simp add: unat_of_nat)
    finally show ?thesis .
  qed
  moreover have "{r' \<in> set (hr_records rd). cr_var_id r' = vm_id var \<and> unat (cr_tile_y r') = ty \<and> unat (cr_tile_x r') = tx} = {r}"
    using uniq r(2-5) by blast
  moreover have "cr_kind r = chunk_kind var" using r(6) by (simp add: record_valid_def)
  ultimately show ?thesis using r(1) by blast
qed

theorem open_index_complete_witness:
  "\<exists>rd. open_with_tile_cache_bytes (\<lambda>_. Some sample_meta) (Some sample_file) 0 = Inr rd \<and>
     find_chunk_record rd sample_variable KIND_TILE2D 0 0 = Inr sample_empty_record"
proof -
  obtain rd where rd: "open_with_tile_cache_bytes (\<lambda>_. Some sample_meta) (Some sample_file) 0 = Inr rd"
      "hr_meta rd = sample_meta" "hr_records rd = [sample_empty_record]"
    using sample_opens by blast
  have "sample_variable \<in> set (hm_variables (hr_meta rd))"
      "0 < div_ceil (hm_ny (hr_meta rd)) (chunk_h sample_variable)" "0 < div_ceil (hm_nx (hr_meta rd)) (chunk_w sample_variable)"
    by (simp_all add: rd(2) sample_meta_def div_ceil_pos)
  then obtain r where r: "find_chunk_record rd sample_variable (chunk_kind sample_variable) 0 0 = Inr r"
      "{r' \<in> set (hr_records rd). cr_var_id r' = vm_id sample_variable \<and> unat (cr_tile_y r') = 0 \<and> unat (cr_tile_x r') = 0} = {r}"
    using open_index_complete [OF rd(1)] by blast
  have "r \<in> set (hr_records rd)" using equalityD2 [OF r(2)] by blast
  then have "r = sample_empty_record" by (simp add: rd(3))
  then show ?thesis using rd(1) r(1) by (simp add: chunk_kind_def sample_variable_def)
qed

end
