(* ===== verification/Rw_Tiling.thy ===== *)
theory Rw_Tiling
  imports Rw_Open_Facts
begin

text \<open>
  Tilings of an axis into equal steps with a clipped last one, and buffers filled piece
  by piece. The locale \<open>axis_tiling\<close> is the interface between the chunk geometry and
  the readers and the writer; it is interpreted for the two axes of the 256x256 surface
  tiles and of the 16x16 column chunks.
\<close>

section \<open>One axis\<close>

locale axis_tiling =
  fixes step :: nat
  assumes step_pos: "0 < step"
begin

text \<open>The clipped extent of piece \<open>k\<close> of an axis of \<open>n\<close> positions.\<close>

definition extent :: "nat \<Rightarrow> nat \<Rightarrow> nat" where
  "extent n k = min (n - k * step) step"

lemma piece_of: "i < n \<Longrightarrow> i div step < div_ceil n step"
  using div_less_div_ceil [OF step_pos] .

lemma offset_of: "i < n \<Longrightarrow> i mod step < extent n (i div step)"
proof -
  assume "i < n"
  then have "i mod step < n - i div step * step"
    using div_mult_mod_eq [of i step] by linarith
  then show ?thesis using step_pos by (simp add: extent_def)
qed

lemma inside: "j < extent n k \<Longrightarrow> k * step + j < n"
  unfolding extent_def by linarith

lemma piece_inside: "j < extent n k \<Longrightarrow> (k * step + j) div step = k" "j < extent n k \<Longrightarrow> (k * step + j) mod step = j"
  by (simp_all add: extent_def)

lemma extent_le: "extent n k \<le> step" "k * step + extent n k \<le> n \<or> extent n k = 0"
  by (auto simp: extent_def min_def)

lemma extent_end: "k < div_ceil n step \<Longrightarrow> k * step + extent n k = min (k * step + step) n"
  using step_pos by (auto simp: less_div_ceil_iff extent_def)

lemma extent_pos: "k < div_ceil n step \<Longrightarrow> 0 < extent n k"
  using step_pos by (auto simp: less_div_ceil_iff extent_def)

text \<open>The extents add up to the axis.\<close>

lemma sum_extent: "(\<Sum>k < div_ceil n step. extent n k) = n"
proof -
  have "(\<Sum>k < m. extent n k) = min (m * step) n" for m
    by (induction m) (auto simp: extent_def min_def)
  moreover have "n \<le> div_ceil n step * step"
    using div_ceil_le_iff [OF step_pos, of n "div_ceil n step"] by simp
  ultimately show ?thesis by (simp add: min_absorb2)
qed

end

interpretation tile_y: axis_tiling TILE_Y by unfold_locales (simp add: geometry_consts)
interpretation tile_x: axis_tiling TILE_X by unfold_locales (simp add: geometry_consts)
interpretation col_y: axis_tiling COL_Y by unfold_locales (simp add: geometry_consts)
interpretation col_x: axis_tiling COL_X by unfold_locales (simp add: geometry_consts)

section \<open>Filling a buffer\<close>

text \<open>\<open>dst[a..b].copy_from_slice(src)\<close> and \<open>dst[i] = v\<close>, which panic out of range.\<close>

definition r_copy :: "nat \<Rightarrow> nat \<Rightarrow> 'a list \<Rightarrow> 'a list \<Rightarrow> 'a list rw_result" where
  "r_copy a b src dst =
     (if a \<le> b \<and> b \<le> length dst \<and> length src = b - a then Inr (take a dst @ src @ drop b dst)
      else Inl (Panicked ''copy_from_slice''))"

definition r_set :: "nat \<Rightarrow> 'a \<Rightarrow> 'a list \<Rightarrow> 'a list rw_result" where
  "r_set i v dst = (if i < length dst then Inr (dst[i := v]) else Inl (Panicked ''index''))"

text \<open>A buffer of length \<open>n\<close> agrees with a target on a set of positions.\<close>

definition filled :: "nat \<Rightarrow> (nat \<Rightarrow> 'a) \<Rightarrow> nat set \<Rightarrow> 'a list \<Rightarrow> bool" where
  "filled n F S v \<longleftrightarrow> length v = n \<and> (\<forall>i \<in> S. i < n \<longrightarrow> v ! i = F i)"

lemma filled_start: "filled n F {} (replicate n x)"
  by (simp add: filled_def)

lemma filled_all: "filled n F S v \<Longrightarrow> {..<n} \<subseteq> S \<Longrightarrow> v = map F [0..<n]"
  by (rule nth_equalityI) (auto simp: filled_def)

lemma filled_mono: "filled n F S v \<Longrightarrow> T \<subseteq> S \<Longrightarrow> filled n F T v"
  by (auto simp: filled_def)

lemma filled_copy:
  assumes "filled n F S v" and "a \<le> b" and "b \<le> n" and "length src = b - a" and "\<And>j. j < b - a \<Longrightarrow> src ! j = F (a + j)"
  shows "\<exists>v'. r_copy a b src v = Inr v' \<and> filled n F (S \<union> {a..<b}) v'"
proof -
  let ?v = "take a v @ src @ drop b v"
  have len: "length v = n" using assms(1) by (simp add: filled_def)
  have "?v ! i = F i" if "i \<in> S \<union> {a..<b}" "i < n" for i
  proof -
    consider "i < a" | "a \<le> i" "i < b" | "b \<le> i" by linarith
    then show ?thesis
    proof cases
      case 1
      then show ?thesis using that assms(1,2,3) len by (simp add: nth_append filled_def)
    next
      case 2
      then have "i - a < length src" using assms(4) by linarith
      with 2 have "?v ! i = src ! (i - a)" using len assms(2-4) by (simp add: nth_append)
      also have "\<dots> = F (a + (i - a))" using 2 by (intro assms(5)) simp
      finally show ?thesis using 2 by simp
    next
      case 3
      then have "\<not> i - a < length src" using assms(2,4) by linarith
      with 3 have "?v ! i = v ! i" using len assms(2-4) by (simp add: nth_append)
      with 3 that assms(1) show ?thesis by (simp add: filled_def)
    qed
  qed
  then have "filled n F (S \<union> {a..<b}) ?v" using len assms(2-4) by (simp add: filled_def)
  then show ?thesis using len assms(2-4) by (simp add: r_copy_def)
qed

lemma filled_set:
  assumes "filled n F S v" and "i < n" and "x = F i"
  shows "\<exists>v'. r_set i x v = Inr v' \<and> filled n F (insert i S) v'"
  using assms by (auto simp: r_set_def filled_def nth_list_update)

text \<open>A fold whose steps each fill their part fills the union.\<close>

lemma filled_fold:
  assumes "filled n F S v"
    and "\<And>x S v. x \<in> set xs \<Longrightarrow> filled n F S v \<Longrightarrow> \<exists>v'. f x v = Inr v' \<and> filled n F (S \<union> C x) v'"
  shows "\<exists>v'. r_fold f xs v = Inr v' \<and> filled n F (S \<union> (\<Union>x \<in> set xs. C x)) v'"
  using assms
proof (induction xs arbitrary: S v)
  case (Cons x xs)
  obtain v1 where v1: "f x v = Inr v1" "filled n F (S \<union> C x) v1" using Cons.prems(2) [of x S v] Cons.prems(1) by auto
  obtain v2 where "r_fold f xs v1 = Inr v2" "filled n F (S \<union> C x \<union> (\<Union>x \<in> set xs. C x)) v2"
    using Cons.IH [OF v1(2)] Cons.prems(2) by auto
  with v1 show ?case by (simp add: Un_assoc)
qed simp

text \<open>Positions of a row-major plane.\<close>

lemma plane_index_less: "y < ny \<Longrightarrow> x < nx \<Longrightarrow> y * nx + x < ny * (nx :: nat)"
proof -
  assume "y < ny" "x < nx"
  then have "y * nx + x < (y + 1) * nx" by simp
  also have "\<dots> \<le> ny * nx" using \<open>y < ny\<close> by (intro mult_le_mono1) simp
  finally show ?thesis .
qed

lemma plane_index_div_mod: "x < nx \<Longrightarrow> (y * nx + x) div nx = y" "x < nx \<Longrightarrow> (y * nx + x) mod nx = (x :: nat)"
  by simp_all

lemma plane_index_split: "i < ny * nx \<Longrightarrow> i div nx < ny \<and> i mod nx < nx \<and> i = i div nx * nx + i mod (nx :: nat)"
  by (cases "nx = 0") (simp_all add: less_mult_imp_div_less)

end
