(* ===== verification/Rw_Read2D.thy ===== *)
theory Rw_Read2D
  imports Rw_Lookup Rw_Tiling Rw_Codec
begin

text \<open>
  Reading surface fields of an open hour file (\<^verbatim>\<open>rw-store/src/reader.rs\<close>): payload
  slices, decompression, tile decoding with and without the cache, and the full, tile,
  point, window and statistics reads.

  The zstd stream decoder is the field \<open>re_zstd\<close> of the read environment: for a
  compressed chunk, the bytes the stream delivers and whether it then ends without an
  error. \<open>re_reserve\<close> is the outcome of the cache's allocation of one entry. Reads that
  go through the cache return the reader with its new cache. Allocation of result
  buffers is assumed to succeed; \<open>usize\<close> sums and products that the code does not check
  are exact because an opened grid has fewer than \<open>2 ^ 60\<close> cells.
\<close>

unbundle bit_operations_syntax

section \<open>Payloads\<close>

record read_env =
  re_zstd :: "u8 list \<Rightarrow> u8 list \<times> bool"
  re_reserve :: "tile_cache_key \<Rightarrow> bool"

text \<open>
  \<open>read_exact\<close> of the expected length, then one more read that must report the end.
\<close>

definition decompress_chunk :: "read_env \<Rightarrow> u8 list \<Rightarrow> nat \<Rightarrow> u8 list rw_result" where
  "decompress_chunk env compressed raw_len =
     (let (out, ended) = re_zstd env compressed
      in if length out < raw_len then Inl (Chunk ''zstd decode failed'')
         else if length out > raw_len then Inl (Chunk ''decompressed beyond the expected bytes'')
         else if \<not> ended then Inl (Chunk ''zstd decode failed'')
         else Inr out)"

definition payload_slice :: "hour_reader \<Rightarrow> chunk_record \<Rightarrow> u8 list rw_result" where
  "payload_slice rd record =
     (let data = as_slice (hr_bytes rd)
      in r_bind (ok_or (u64_checked_add (cr_offset record) (ucast (cr_len record)))
             (Format ''payload range overflows'')) (\<lambda>stop.
         if stop > of_nat (length data) then Inl (Format ''payload range exceeds file length'')
         else r_slice (unat (cr_offset record)) (unat stop) data))"

definition tile_dims :: "hour_reader \<Rightarrow> nat \<Rightarrow> nat \<Rightarrow> nat \<times> nat" where
  "tile_dims rd ty tx =
     (min (hm_ny (hr_meta rd) - ty * TILE_Y) TILE_Y, min (hm_nx (hr_meta rd) - tx * TILE_X) TILE_X)"

definition decode_tile :: "read_env \<Rightarrow> hour_reader \<Rightarrow> chunk_record \<Rightarrow> nat \<Rightarrow> f32 list rw_result" where
  "decode_tile env rd record value_count =
     (if cr_flags record AND FLAG_EMPTY \<noteq> 0 then Inr (replicate value_count f32_NAN)
      else if cr_flags record AND FLAG_CONSTANT \<noteq> 0 \<and> cr_len record = 0
      then Inr (replicate value_count (cr_center record))
      else r_bind (payload_slice rd record) (\<lambda>compressed.
           r_bind (ok_or (usize_checked_mul value_count 4) (Chunk ''value count overflows'')) (\<lambda>expected_len.
           if unat (cr_raw_len record) \<noteq> expected_len then Inl (Chunk ''raw_len does not match f32 values'')
           else r_bind (decompress_chunk env compressed expected_len) (\<lambda>raw.
                Inr (map u32_of_le (chunks_exact 4 raw))))))"

section \<open>Reads with the cache\<close>

type_synonym 'a reads = "hour_reader \<Rightarrow> 'a rw_result \<times> hour_reader"

definition s_bind :: "'a reads \<Rightarrow> ('a \<Rightarrow> 'b reads) \<Rightarrow> 'b reads" where
  "s_bind m f rd = (case m rd of (Inl e, rd') \<Rightarrow> (Inl e, rd') | (Inr x, rd') \<Rightarrow> f x rd')"

definition s_lift :: "'a rw_result \<Rightarrow> 'a reads" where
  "s_lift r rd = (r, rd)"

fun s_map :: "('a \<Rightarrow> 'b reads) \<Rightarrow> 'a list \<Rightarrow> 'b list reads" where
  "s_map f [] = s_lift (Inr [])"
| "s_map f (x # xs) = s_bind (f x) (\<lambda>y. s_bind (s_map f xs) (\<lambda>ys. s_lift (Inr (y # ys))))"

definition tile_key :: "rws_variable_meta \<Rightarrow> chunk_record \<Rightarrow> tile_cache_key" where
  "tile_key var record = \<lparr>tk_kind = cr_kind record, tk_var_id = vm_id var,
     tk_tile_y = cr_tile_y record, tk_tile_x = cr_tile_x record\<rparr>"

definition decode_tile_cached :: "read_env \<Rightarrow> rws_variable_meta \<Rightarrow> chunk_record \<Rightarrow> nat \<Rightarrow> f32 list reads" where
  "decode_tile_cached env var record value_count rd =
     (let key = tile_key var record
      in case cache_get key (hr_tile_cache rd) of
           (Some tile, c) \<Rightarrow> (Inr tile, rd\<lparr>hr_tile_cache := c\<rparr>)
         | (None, c) \<Rightarrow>
             (case decode_tile env rd record value_count of
                Inl e \<Rightarrow> (Inl e, rd\<lparr>hr_tile_cache := c\<rparr>)
              | Inr decoded \<Rightarrow>
                  (let (tile, c') = cache_insert (re_reserve env key) key decoded c
                   in (Inr tile, rd\<lparr>hr_tile_cache := c'\<rparr>))))"

definition tile_cache_statistics :: "hour_reader \<Rightarrow> tile_cache_stats" where
  "tile_cache_statistics rd = cache_stats (hr_tile_cache rd)"

definition clear_tile_cache :: "hour_reader \<Rightarrow> hour_reader" where
  "clear_tile_cache rd = rd\<lparr>hr_tile_cache := cache_clear (hr_tile_cache rd)\<rparr>"

section \<open>Tiles\<close>

record tile_geometry_2d =
  tg_tile_y :: nat
  tg_tile_x :: nat
  tg_x0 :: nat
  tg_y0 :: nat
  tg_nx :: nat
  tg_ny :: nat

definition tile_cell_count :: "tile_geometry_2d \<Rightarrow> nat" where
  "tile_cell_count g = tg_nx g * tg_ny g"

datatype tile_data_2d = Tile_Empty | Tile_Constant f32 | Tile_Dense "f32 list"

record tile_2d =
  t2_geometry :: tile_geometry_2d
  t2_data :: tile_data_2d

definition tile_get :: "tile_2d \<Rightarrow> nat \<Rightarrow> nat \<Rightarrow> f32 option" where
  "tile_get t row column =
     (if row \<ge> tg_ny (t2_geometry t) \<or> column \<ge> tg_nx (t2_geometry t) then None
      else let index = row * tg_nx (t2_geometry t) + column
           in case t2_data t of
                Tile_Empty \<Rightarrow> Some f32_NAN
              | Tile_Constant value \<Rightarrow> Some value
              | Tile_Dense values \<Rightarrow> (if index < length values then Some (values ! index) else None))"

record tiles_2d_iter =
  ti_grid_nx :: nat
  ti_grid_ny :: nat
  ti_tiles_x :: nat
  ti_tiles_y :: nat
  ti_next :: nat
  ti_tile_count :: nat

definition tiles_next :: "tiles_2d_iter \<Rightarrow> (tile_geometry_2d \<times> tiles_2d_iter) option" where
  "tiles_next it =
     (if ti_next it = ti_tile_count it then None
      else let ordinal = ti_next it;
               tile_y = ordinal div ti_tiles_x it; tile_x = ordinal mod ti_tiles_x it;
               y0 = tile_y * TILE_Y; x0 = tile_x * TILE_X
           in Some (\<lparr>tg_tile_y = tile_y, tg_tile_x = tile_x, tg_x0 = x0, tg_y0 = y0,
                     tg_nx = min (ti_grid_nx it - x0) TILE_X, tg_ny = min (ti_grid_ny it - y0) TILE_Y\<rparr>,
                   it\<lparr>ti_next := ordinal + 1\<rparr>))"

definition tiles_size_hint :: "tiles_2d_iter \<Rightarrow> nat" where
  "tiles_size_hint it = ti_tile_count it - ti_next it"

definition tiles_2d_for_var :: "hour_reader \<Rightarrow> rws_variable_meta \<Rightarrow> tiles_2d_iter rw_result" where
  "tiles_2d_for_var rd var =
     (let tiles_y = div_ceil (hm_ny (hr_meta rd)) TILE_Y; tiles_x = div_ceil (hm_nx (hr_meta rd)) TILE_X
      in r_bind (ok_or (usize_checked_mul tiles_y tiles_x) (Format ''tile count overflows usize'')) (\<lambda>tile_count.
         r_bind (ok_or (hr_var_ranges rd (vm_id var)) (Format ''variable has no chunk index entries'')) (\<lambda>(a, b).
         if b - a \<noteq> tile_count then Inl (Format ''variable has chunk index records, expected'')
         else Inr \<lparr>ti_grid_nx = hm_nx (hr_meta rd), ti_grid_ny = hm_ny (hr_meta rd),
                   ti_tiles_x = tiles_x, ti_tiles_y = tiles_y, ti_next = 0, ti_tile_count = tile_count\<rparr>)))"

definition tiles_2d :: "hour_reader \<Rightarrow> string \<Rightarrow> tiles_2d_iter rw_result" where
  "tiles_2d rd name = r_bind (lookup_2d rd name) (tiles_2d_for_var rd)"

definition tile_geometry :: "hour_reader \<Rightarrow> nat \<Rightarrow> nat \<Rightarrow> tile_geometry_2d rw_result" where
  "tile_geometry rd tile_y tile_x =
     (let tiles_y = div_ceil (hm_ny (hr_meta rd)) TILE_Y; tiles_x = div_ceil (hm_nx (hr_meta rd)) TILE_X
      in if tile_y \<ge> tiles_y \<or> tile_x \<ge> tiles_x then Inl (Format ''tile is outside tile grid'')
         else r_bind (ok_or (usize_checked_mul tile_y TILE_Y) (Format ''tile y offset overflows'')) (\<lambda>y0.
              r_bind (ok_or (usize_checked_mul tile_x TILE_X) (Format ''tile x offset overflows'')) (\<lambda>x0.
                Inr \<lparr>tg_tile_y = tile_y, tg_tile_x = tile_x, tg_x0 = x0, tg_y0 = y0,
                     tg_nx = min (hm_nx (hr_meta rd) - x0) TILE_X, tg_ny = min (hm_ny (hr_meta rd) - y0) TILE_Y\<rparr>)))"

definition read_tile_2d_for_var :: "read_env \<Rightarrow> rws_variable_meta \<Rightarrow> tile_geometry_2d \<Rightarrow> tile_2d reads" where
  "read_tile_2d_for_var env var geometry rd =
     s_bind (s_lift (find_chunk_record rd var KIND_TILE2D (tg_tile_y geometry) (tg_tile_x geometry))) (\<lambda>record.
     s_bind (if cr_flags record AND FLAG_EMPTY \<noteq> 0 then s_lift (Inr Tile_Empty)
             else if cr_flags record AND FLAG_CONSTANT \<noteq> 0 \<and> cr_len record = 0
             then s_lift (Inr (Tile_Constant (cr_center record)))
             else s_bind (decode_tile_cached env var record (tile_cell_count geometry)) (\<lambda>values.
                    s_lift (Inr (Tile_Dense values)))) (\<lambda>data.
     s_lift (Inr \<lparr>t2_geometry = geometry, t2_data = data\<rparr>))) rd"

definition read_tile_2d :: "read_env \<Rightarrow> string \<Rightarrow> nat \<Rightarrow> nat \<Rightarrow> tile_2d reads" where
  "read_tile_2d env name tile_y tile_x rd =
     s_bind (s_lift (lookup_2d rd name)) (\<lambda>var.
     s_bind (s_lift (tile_geometry rd tile_y tile_x)) (\<lambda>geometry.
       read_tile_2d_for_var env var geometry)) rd"

text \<open>
  The visiting loop. The visitor is a fallible step on a state of its own. \<open>None\<close> would
  mean that the loop does not end.
\<close>

partial_function (option) visit_loop ::
    "read_env \<Rightarrow> rws_variable_meta \<Rightarrow> (tile_2d \<Rightarrow> 's \<Rightarrow> 's rw_result) \<Rightarrow> tiles_2d_iter \<Rightarrow> 's \<Rightarrow> hour_reader
      \<Rightarrow> ('s rw_result \<times> hour_reader) option" where
  "visit_loop env var visitor it s rd =
     (case tiles_next it of
        None \<Rightarrow> Some (Inr s, rd)
      | Some (geometry, it') \<Rightarrow>
          (case read_tile_2d_for_var env var geometry rd of
             (Inl e, rd') \<Rightarrow> Some (Inl e, rd')
           | (Inr tile, rd') \<Rightarrow>
               (case visitor tile s of
                  Inl e \<Rightarrow> Some (Inl e, rd')
                | Inr s' \<Rightarrow> visit_loop env var visitor it' s' rd')))"

definition visit_tiles_2d :: "read_env \<Rightarrow> string \<Rightarrow> (tile_2d \<Rightarrow> 's \<Rightarrow> 's rw_result) \<Rightarrow> 's \<Rightarrow> hour_reader
    \<Rightarrow> ('s rw_result \<times> hour_reader) option" where
  "visit_tiles_2d env name visitor s rd =
     (case lookup_2d rd name of
        Inl e \<Rightarrow> Some (Inl e, rd)
      | Inr var \<Rightarrow> (case tiles_2d_for_var rd var of
            Inl e \<Rightarrow> Some (Inl e, rd)
          | Inr tiles \<Rightarrow> visit_loop env var visitor tiles s rd))"

section \<open>Full, point and window reads\<close>

text \<open>Placing a decoded tile into the full field, row by row.\<close>

definition place_tile :: "hour_reader \<Rightarrow> nat \<times> nat \<times> f32 list \<Rightarrow> f32 list \<Rightarrow> f32 list rw_result" where
  "place_tile rd job values =
     (case job of (ty, tx, tile) \<Rightarrow>
       let (rows, cols) = tile_dims rd ty tx; y0 = ty * TILE_Y; x0 = tx * TILE_X
       in r_fold (\<lambda>row values.
            let out = (y0 + row) * hm_nx (hr_meta rd) + x0
            in r_bind (r_slice (row * cols) ((row + 1) * cols) tile) (\<lambda>src. r_copy out (out + cols) src values))
          [0..<rows] values)"

definition read_full_2d :: "read_env \<Rightarrow> hour_reader \<Rightarrow> string \<Rightarrow> f32 list rw_result" where
  "read_full_2d env rd name =
     r_bind (lookup_2d rd name) (\<lambda>var.
     let nx = hm_nx (hr_meta rd); ny = hm_ny (hr_meta rd);
         tiles_y = div_ceil ny TILE_Y; tiles_x = div_ceil nx TILE_X
     in r_bind (ok_or (usize_checked_mul tiles_y tiles_x) (Format ''tile count overflows usize'')) (\<lambda>_.
        r_bind (r_map (\<lambda>(ty, tx). r_bind (find_chunk_record rd var KIND_TILE2D ty tx) (\<lambda>record. Inr (ty, tx, record)))
                 (List.product [0..<tiles_y] [0..<tiles_x])) (\<lambda>jobs.
        r_bind (r_map (\<lambda>(ty, tx, record).
                   let (rows, cols) = tile_dims rd ty tx
                   in r_bind (decode_tile env rd record (rows * cols)) (\<lambda>tile. Inr (ty, tx, tile))) jobs) (\<lambda>decoded.
        r_bind (ok_or (usize_checked_mul ny nx) (Format ''grid cell count overflows usize'')) (\<lambda>cells.
          r_fold (place_tile rd) decoded (replicate cells f32_NAN))))))"

definition read_point_2d :: "read_env \<Rightarrow> string \<Rightarrow> nat \<Rightarrow> nat \<Rightarrow> f32 reads" where
  "read_point_2d env name ix iy rd =
     s_bind (s_lift (lookup_2d rd name)) (\<lambda>var.
     let nx = hm_nx (hr_meta rd); ny = hm_ny (hr_meta rd)
     in if ix \<ge> nx \<or> iy \<ge> ny then s_lift (Inl (Format ''point out of bounds for grid''))
        else let ty = iy div TILE_Y; tx = ix div TILE_X
             in s_bind (s_lift (find_chunk_record rd var KIND_TILE2D ty tx)) (\<lambda>record.
                if cr_flags record AND FLAG_EMPTY \<noteq> 0 then s_lift (Inr f32_NAN)
                else if cr_flags record AND FLAG_CONSTANT \<noteq> 0 \<and> cr_len record = 0
                then s_lift (Inr (cr_center record))
                else let (rows, cols) = tile_dims rd ty tx
                     in s_bind (decode_tile_cached env var record (rows * cols)) (\<lambda>tile.
                        let row = iy - ty * TILE_Y; col = ix - tx * TILE_X
                        in s_bind (s_lift (ok_or (Option.bind (usize_checked_mul row cols)
                               (\<lambda>start. usize_checked_add start col)) (Format ''point offset overflows''))) (\<lambda>offset.
                           s_lift (if offset < length tile then Inr (tile ! offset)
                                   else Inl (Format ''point offset exceeds decoded tile'')))))) rd"

record window_2d =
  w2_x0 :: nat
  w2_y0 :: nat
  w2_nx :: nat
  w2_ny :: nat
  w2_values :: "f32 list"

text \<open>Placing one tile of a window: the rows of its intersection with the window.\<close>

definition place_window_tile :: "hour_reader \<Rightarrow> nat \<Rightarrow> nat \<Rightarrow> nat \<Rightarrow> nat
    \<Rightarrow> (nat \<times> nat \<times> chunk_record) \<times> f32 list option \<Rightarrow> f32 list \<Rightarrow> f32 list rw_result" where
  "place_window_tile rd x0 y0 x1 y1 job values =
     (case job of ((ty, tx, record), tile) \<Rightarrow>
       let (rows, cols) = tile_dims rd ty tx;
           ty0 = ty * TILE_Y; tx0 = tx * TILE_X; wnx = x1 - x0;
           gy0 = max ty0 y0; gy1 = min (ty0 + rows) y1; gx0 = max tx0 x0; gx1 = min (tx0 + cols) x1
       in case tile of
            None \<Rightarrow>
              (if cr_flags record AND FLAG_EMPTY \<noteq> 0 then Inr values
               else r_fold (\<lambda>gy values.
                      let out = (gy - y0) * wnx
                      in r_copy (out + (gx0 - x0)) (out + (gx1 - x0)) (replicate (gx1 - gx0) (cr_center record)) values)
                    [gy0..<gy1] values)
          | Some tile \<Rightarrow>
              r_fold (\<lambda>gy values.
                let src = (gy - ty0) * cols; out = (gy - y0) * wnx
                in r_bind (r_slice (src + (gx0 - tx0)) (src + (gx1 - tx0)) tile) (\<lambda>row.
                   r_copy (out + (gx0 - x0)) (out + (gx1 - x0)) row values))
              [gy0..<gy1] values)"

definition read_window_2d :: "read_env \<Rightarrow> string \<Rightarrow> nat \<Rightarrow> nat \<Rightarrow> nat \<Rightarrow> nat \<Rightarrow> window_2d reads" where
  "read_window_2d env name x0 y0 x1' y1' rd =
     s_bind (s_lift (lookup_2d rd name)) (\<lambda>var.
     let nx = hm_nx (hr_meta rd); ny = hm_ny (hr_meta rd); x1 = min x1' nx; y1 = min y1' ny
     in if x0 \<ge> x1 \<or> y0 \<ge> y1 then s_lift (Inl (Format ''window is empty after clamping''))
        else let wnx = x1 - x0; wny = y1 - y0
             in if wnx = 1 \<and> wny = 1
                then s_bind (read_point_2d env name x0 y0) (\<lambda>value.
                     s_lift (Inr \<lparr>w2_x0 = x0, w2_y0 = y0, w2_nx = 1, w2_ny = 1, w2_values = [value]\<rparr>))
                else
                  s_bind (s_lift (ok_or (usize_checked_mul wny wnx) (Format ''window size overflows usize''))) (\<lambda>window_cells.
                  let first_ty = y0 div TILE_Y; last_ty = (y1 - 1) div TILE_Y;
                      first_tx = x0 div TILE_X; last_tx = (x1 - 1) div TILE_X
                  in s_bind (s_lift (ok_or (usize_checked_mul (last_ty - first_ty + 1) (last_tx - first_tx + 1))
                         (Format ''window tile count overflows''))) (\<lambda>_.
                     s_bind (s_lift (r_map (\<lambda>(ty, tx).
                           r_bind (find_chunk_record rd var KIND_TILE2D ty tx) (\<lambda>record. Inr (ty, tx, record)))
                         (List.product [first_ty..<last_ty + 1] [first_tx..<last_tx + 1]))) (\<lambda>jobs.
                     s_bind (s_map (\<lambda>(ty, tx, record).
                           if cr_flags record AND FLAG_EMPTY \<noteq> 0 \<or>
                              cr_flags record AND FLAG_CONSTANT \<noteq> 0 \<and> cr_len record = 0
                           then s_lift (Inr None)
                           else let (rows, cols) = tile_dims rd ty tx
                                in s_bind (decode_tile_cached env var record (rows * cols)) (\<lambda>tile. s_lift (Inr (Some tile))))
                         jobs) (\<lambda>decoded.
                     s_bind (s_lift (r_fold (place_window_tile rd x0 y0 x1 y1) (zip jobs decoded)
                         (replicate window_cells f32_NAN))) (\<lambda>values.
                     s_lift (Inr \<lparr>w2_x0 = x0, w2_y0 = y0, w2_nx = wnx, w2_ny = wny, w2_values = values\<rparr>))))))) rd"

section \<open>Statistics from the index\<close>

record field_stats_2d =
  fs_finite_min :: "f32 option"
  fs_finite_max :: "f32 option"
  fs_finite_count :: u64
  fs_missing_count :: u64

text \<open>One tile of \<open>stats_2d\<close>; the state is the running minimum, maximum and count.\<close>

definition stats_step :: "hour_reader \<Rightarrow> rws_variable_meta \<Rightarrow> nat \<times> nat
    \<Rightarrow> f32 option \<times> f32 option \<times> u64 \<Rightarrow> (f32 option \<times> f32 option \<times> u64) rw_result" where
  "stats_step rd var pos st =
     (case pos of (ty, tx) \<Rightarrow> case st of (finite_min, finite_max, finite_count) \<Rightarrow>
       r_bind (find_chunk_record rd var KIND_TILE2D ty tx) (\<lambda>record.
       let (rows, cols) = tile_dims rd ty tx
       in r_bind (ok_or (usize_checked_mul rows cols) (Format ''tile cell count overflows usize'')) (\<lambda>tile_count.
          let valid_count = unat (cr_valid_count record);
              is_empty = cr_flags record AND FLAG_EMPTY \<noteq> 0;
              has_missing = cr_flags record AND FLAG_HAS_MISSING \<noteq> 0;
              is_constant = cr_flags record AND FLAG_CONSTANT \<noteq> 0
          in if valid_count > tile_count then Inl (Format ''valid_count exceeds tile cell count'')
             else if is_empty then
               (if valid_count \<noteq> 0 \<or> \<not> f32_is_nan (cr_min record) \<or> \<not> f32_is_nan (cr_max record)
                then Inl (Format ''inconsistent EMPTY statistics'') else Inr st)
             else if valid_count = 0 then Inl (Format ''zero valid values without EMPTY'')
             else if \<not> f32_is_finite (cr_min record) \<or> \<not> f32_is_finite (cr_max record) \<or> f32_lt (cr_max record) (cr_min record)
             then Inl (Format ''invalid finite range'')
             else if has_missing \<noteq> (valid_count < tile_count) then Inl (Format ''HAS_MISSING flag is inconsistent'')
             else if is_constant \<and> (\<not> f32_is_finite (cr_center record) \<or> \<not> f32_eq (cr_min record) (cr_center record) \<or>
                       \<not> f32_eq (cr_max record) (cr_center record))
             then Inl (Format ''inconsistent CONSTANT statistics'')
             else
               r_bind (ok_or (u64_checked_add finite_count (ucast (cr_valid_count record)))
                   (Format ''finite value count overflows u64'')) (\<lambda>count.
               Inr (Some (case finite_min of None \<Rightarrow> cr_min record | Some v \<Rightarrow> f32_min v (cr_min record)),
                    Some (case finite_max of None \<Rightarrow> cr_max record | Some v \<Rightarrow> f32_max v (cr_max record)),
                    count)))))"

definition stats_2d :: "hour_reader \<Rightarrow> string \<Rightarrow> field_stats_2d rw_result" where
  "stats_2d rd name =
     r_bind (lookup_2d rd name) (\<lambda>var.
     let tiles_y = div_ceil (hm_ny (hr_meta rd)) TILE_Y; tiles_x = div_ceil (hm_nx (hr_meta rd)) TILE_X
     in r_bind (ok_or (usize_checked_mul tiles_y tiles_x) (Format ''tile count overflows usize'')) (\<lambda>expected_records.
        r_bind (ok_or (hr_var_ranges rd (vm_id var)) (Format ''variable has no chunk index entries'')) (\<lambda>(a, b).
        if b - a \<noteq> expected_records then Inl (Format ''variable has chunk index records, expected'')
        else r_bind (r_fold (stats_step rd var) (List.product [0..<tiles_y] [0..<tiles_x]) (None, None, 0))
               (\<lambda>(finite_min, finite_max, finite_count).
             r_bind (ok_or (usize_checked_mul (hm_nx (hr_meta rd)) (hm_ny (hr_meta rd)))
                 (Format ''grid cell count overflows usize'')) (\<lambda>total_count.
             if total_count < unat finite_count then Inl (Format ''finite value count exceeds grid cell count'')
             else Inr \<lparr>fs_finite_min = finite_min, fs_finite_max = finite_max, fs_finite_count = finite_count,
                       fs_missing_count = of_nat total_count - finite_count\<rparr>)))))"

end
