(* ===== verification/Rw_Read2D_Facts.thy ===== *)
theory Rw_Read2D_Facts
  imports Rw_Read2D
begin

text \<open>
  Correctness of the surface reads: one specification of the value of a cell, and every
  read operation against it. The cache is transparent (locale \<open>value_cache\<close>).
\<close>

section \<open>Decoding one tile\<close>

lemma length_chunks_exact: "0 < w \<Longrightarrow> length (chunks_exact w xs) = length xs div w"
proof -
  have "length (chunks_n w n xs) = n" for n by (induction n arbitrary: xs) simp_all
  then show ?thesis by (simp add: chunks_exact_def)
qed

lemma decompress_length: "decompress_chunk env c n = Inr raw \<Longrightarrow> length raw = n"
  by (auto simp: decompress_chunk_def split: prod.splits if_splits)

lemma decode_tile_length: "decode_tile env rd r n = Inr t \<Longrightarrow> length t = n"
  by (auto simp: decode_tile_def r_bind_eq_Inr ok_or_eq_Inr usize_checked_mul_eq_Some length_chunks_exact
      dest!: decompress_length split: if_splits)

lemma not_panics_payload_slice: "\<not> panics (payload_slice rd r)"
  unfolding payload_slice_def Let_def
proof (intro not_panics_intros not_panics_r_slice)
  fix stop
  assume "ok_or (u64_checked_add (cr_offset r) (ucast (cr_len r))) (Format ''payload range overflows'') = Inr stop"
    and le: "\<not> stop > of_nat (length (as_slice (hr_bytes rd)))"
  then have "unat stop = unat (cr_offset r) + unat (cr_len r)" by (simp add: ok_or_eq_Inr u64_checked_add_eq_Some)
  moreover have "unat stop \<le> length (as_slice (hr_bytes rd))"
  proof -
    have "unat stop \<le> unat (of_nat (length (as_slice (hr_bytes rd))) :: u64)" using le by (simp add: word_le_nat_alt not_less)
    also have "\<dots> \<le> length (as_slice (hr_bytes rd))" by (simp add: unat_of_nat)
    finally show ?thesis .
  qed
  ultimately show "subslice_ok (unat (cr_offset r)) (unat stop) (as_slice (hr_bytes rd))" by (simp add: subslice_ok_def)
qed simp_all

lemma not_panics_decompress: "\<not> panics (decompress_chunk env c n)"
  by (simp add: decompress_chunk_def split: prod.splits)

lemma not_panics_decode_tile: "\<not> panics (decode_tile env rd r n)"
  unfolding decode_tile_def by (intro not_panics_intros not_panics_payload_slice not_panics_decompress) simp_all

text \<open>The cache plays no part in lookups and decoding.\<close>

lemma cache_frame [simp]:
  "find_variable (rd\<lparr>hr_tile_cache := c\<rparr>) = find_variable rd"
  "find_chunk_record (rd\<lparr>hr_tile_cache := c\<rparr>) = find_chunk_record rd"
  "lookup_2d (rd\<lparr>hr_tile_cache := c\<rparr>) = lookup_2d rd"
  "lookup_3d (rd\<lparr>hr_tile_cache := c\<rparr>) = lookup_3d rd"
  "payload_slice (rd\<lparr>hr_tile_cache := c\<rparr>) = payload_slice rd"
  "decode_tile env (rd\<lparr>hr_tile_cache := c\<rparr>) = decode_tile env rd"
  "tile_dims (rd\<lparr>hr_tile_cache := c\<rparr>) = tile_dims rd"
  "reader_ok header (rd\<lparr>hr_tile_cache := c\<rparr>) = reader_ok header rd"
proof -
  show f: "find_variable (rd\<lparr>hr_tile_cache := c\<rparr>) = find_variable rd"
    by (simp add: fun_eq_iff find_variable_def)
  show "find_chunk_record (rd\<lparr>hr_tile_cache := c\<rparr>) = find_chunk_record rd"
    by (simp add: fun_eq_iff find_chunk_record_def)
  show "lookup_2d (rd\<lparr>hr_tile_cache := c\<rparr>) = lookup_2d rd" "lookup_3d (rd\<lparr>hr_tile_cache := c\<rparr>) = lookup_3d rd"
    by (simp_all add: fun_eq_iff lookup_2d_def lookup_3d_def lookup_def f)
  show p: "payload_slice (rd\<lparr>hr_tile_cache := c\<rparr>) = payload_slice rd"
    by (simp add: fun_eq_iff payload_slice_def)
  show "decode_tile env (rd\<lparr>hr_tile_cache := c\<rparr>) = decode_tile env rd"
    by (simp add: fun_eq_iff decode_tile_def p)
  show "tile_dims (rd\<lparr>hr_tile_cache := c\<rparr>) = tile_dims rd"
    by (simp add: fun_eq_iff tile_dims_def)
  show "reader_ok header (rd\<lparr>hr_tile_cache := c\<rparr>) = reader_ok header rd"
    by (simp add: reader_ok_def)
qed

section \<open>The value of a cell\<close>

text \<open>The decoded tile, and the cell \<open>(y, x)\<close> of the grid.\<close>

definition tile_values :: "read_env \<Rightarrow> hour_reader \<Rightarrow> rws_variable_meta \<Rightarrow> nat \<Rightarrow> nat \<Rightarrow> f32 list rw_result" where
  "tile_values env rd var ty tx =
     r_bind (find_chunk_record rd var KIND_TILE2D ty tx) (\<lambda>record.
       decode_tile env rd record (fst (tile_dims rd ty tx) * snd (tile_dims rd ty tx)))"

definition tile_cell :: "hour_reader \<Rightarrow> f32 list \<Rightarrow> nat \<Rightarrow> nat \<Rightarrow> f32" where
  "tile_cell rd tile y x = tile ! (y mod TILE_Y * snd (tile_dims rd (y div TILE_Y) (x div TILE_X)) + x mod TILE_X)"

definition cell_2d :: "read_env \<Rightarrow> hour_reader \<Rightarrow> rws_variable_meta \<Rightarrow> nat \<Rightarrow> nat \<Rightarrow> f32 rw_result" where
  "cell_2d env rd var y x =
     r_bind (tile_values env rd var (y div TILE_Y) (x div TILE_X)) (\<lambda>tile. Inr (tile_cell rd tile y x))"

lemma tile_dims_extent:
  "tile_dims rd ty tx = (tile_y.extent (hm_ny (hr_meta rd)) ty, tile_x.extent (hm_nx (hr_meta rd)) tx)"
  by (simp add: tile_dims_def tile_y.extent_def tile_x.extent_def)

lemma tile_values_length:
  "tile_values env rd var ty tx = Inr t \<Longrightarrow>
    length t = tile_y.extent (hm_ny (hr_meta rd)) ty * tile_x.extent (hm_nx (hr_meta rd)) tx"
  by (auto simp: tile_values_def r_bind_eq_Inr tile_dims_extent dest: decode_tile_length)

text \<open>The rows of a tile lie in the grid, and hold its cells.\<close>

lemma tile_row_cell:
  assumes "row < tile_y.extent (hm_ny (hr_meta rd)) ty" and "col < tile_x.extent (hm_nx (hr_meta rd)) tx"
  shows "tile_cell rd tile (ty * TILE_Y + row) (tx * TILE_X + col) = tile ! (row * tile_x.extent (hm_nx (hr_meta rd)) tx + col)"
  using tile_y.piece_inside [OF assms(1)] tile_x.piece_inside [OF assms(2)]
  by (simp add: tile_cell_def tile_dims_extent)

lemma place_tile_fills:
  assumes F: "\<And>y x. y < hm_ny (hr_meta rd) \<Longrightarrow> x < hm_nx (hr_meta rd) \<Longrightarrow> y div TILE_Y = ty \<Longrightarrow> x div TILE_X = tx \<Longrightarrow>
      F (y * hm_nx (hr_meta rd) + x) = tile_cell rd tile y x"
    and len: "length tile = tile_y.extent (hm_ny (hr_meta rd)) ty * tile_x.extent (hm_nx (hr_meta rd)) tx"
    and tx: "tx < div_ceil (hm_nx (hr_meta rd)) TILE_X"
    and v: "filled (hm_ny (hr_meta rd) * hm_nx (hr_meta rd)) F S v"
  shows "\<exists>v'. place_tile rd (ty, tx, tile) v = Inr v' \<and>
    filled (hm_ny (hr_meta rd) * hm_nx (hr_meta rd)) F
      (S \<union> {y * hm_nx (hr_meta rd) + x | y x. y < hm_ny (hr_meta rd) \<and> x < hm_nx (hr_meta rd) \<and> y div TILE_Y = ty \<and> x div TILE_X = tx}) v'"
proof -
  let ?nx = "hm_nx (hr_meta rd)" and ?ny = "hm_ny (hr_meta rd)"
  define rows cols where "rows = tile_y.extent ?ny ty" and "cols = tile_x.extent ?nx tx"
  let ?step = "\<lambda>row values.
      let out = (ty * TILE_Y + row) * ?nx + tx * TILE_X
      in r_bind (r_slice (row * cols) ((row + 1) * cols) tile) (\<lambda>src. r_copy out (out + cols) src values)"
  let ?C = "\<lambda>row. {(ty * TILE_Y + row) * ?nx + tx * TILE_X ..< (ty * TILE_Y + row) * ?nx + tx * TILE_X + cols}"
  have x: "tx * TILE_X + cols \<le> ?nx"
    using tile_x.extent_end [OF tx] by (simp add: cols_def)
  have step: "\<exists>v'. ?step row v = Inr v' \<and> filled (?ny * ?nx) F (S \<union> ?C row) v'"
    if row: "row \<in> set [0..<rows]" and v: "filled (?ny * ?nx) F S v" for row S v
  proof -
    have r: "row < rows" using row by simp
    then have y: "ty * TILE_Y + row < ?ny" using tile_y.inside by (simp add: rows_def)
    have "(row + 1) * cols \<le> length tile" using r len mult_le_mono1 [of "row + 1" rows cols] by (simp add: rows_def cols_def)
    then have sl: "r_slice (row * cols) ((row + 1) * cols) tile = Inr (subslice (row * cols) ((row + 1) * cols) tile)"
        "length (subslice (row * cols) ((row + 1) * cols) tile) = cols"
      by (simp_all add: r_slice_def subslice_ok_def)
    have fit: "(ty * TILE_Y + row) * ?nx + tx * TILE_X + cols \<le> ?ny * ?nx"
    proof -
      have "(ty * TILE_Y + row) * ?nx + ?nx \<le> ?ny * ?nx"
        using y mult_le_mono1 [of "ty * TILE_Y + row + 1" ?ny ?nx] by simp
      with x show ?thesis by simp
    qed
    have val: "subslice (row * cols) ((row + 1) * cols) tile ! j = F ((ty * TILE_Y + row) * ?nx + tx * TILE_X + j)"
      if j: "j < cols" for j
    proof -
      have jx: "tx * TILE_X + j < ?nx" using j tile_x.inside by (simp add: cols_def)
      have "F ((ty * TILE_Y + row) * ?nx + (tx * TILE_X + j)) = tile_cell rd tile (ty * TILE_Y + row) (tx * TILE_X + j)"
        using y jx tile_y.piece_inside(1) tile_x.piece_inside(1) r j by (intro F) (simp_all add: rows_def cols_def)
      also have "\<dots> = tile ! (row * cols + j)"
        using tile_row_cell [of row rd ty j tx tile] r j by (simp add: rows_def cols_def)
      finally show ?thesis
        using j \<open>(row + 1) * cols \<le> length tile\<close> by (simp add: nth_slice add.assoc)
    qed
    show ?thesis
      using filled_copy [OF v, of "(ty * TILE_Y + row) * ?nx + tx * TILE_X"
          "(ty * TILE_Y + row) * ?nx + tx * TILE_X + cols" "subslice (row * cols) ((row + 1) * cols) tile"] fit sl val
      by (simp add: Let_def)
  qed
  have "{y * ?nx + x | y x. y < ?ny \<and> x < ?nx \<and> y div TILE_Y = ty \<and> x div TILE_X = tx} \<subseteq> (\<Union>row \<in> set [0..<rows]. ?C row)"
  proof safe
    fix y x assume yx: "y < ?ny" "x < ?nx" "ty = y div TILE_Y" "tx = x div TILE_X"
    have "y mod TILE_Y < rows" "x mod TILE_X < cols"
      using tile_y.offset_of [OF yx(1)] tile_x.offset_of [OF yx(2)] yx(3,4) by (simp_all add: rows_def cols_def)
    moreover have "y = y div TILE_Y * TILE_Y + y mod TILE_Y" "x = x div TILE_X * TILE_X + x mod TILE_X" by simp_all
    ultimately have "y mod TILE_Y \<in> set [0..<rows]"
      "y * ?nx + x = (y div TILE_Y * TILE_Y + y mod TILE_Y) * ?nx + x div TILE_X * TILE_X + x mod TILE_X"
      "x mod TILE_X < cols" by (simp_all add: add.assoc)
    then show "y * ?nx + x \<in> (\<Union>row \<in> set [0..<rows].
        {(y div TILE_Y * TILE_Y + row) * ?nx + x div TILE_X * TILE_X ..<
         (y div TILE_Y * TILE_Y + row) * ?nx + x div TILE_X * TILE_X + cols})"
      by (intro UN_I [of "y mod TILE_Y"]) (simp_all only: atLeastLessThan_iff add_less_cancel_left le_add1 simp_thms)
  qed
  then have sub: "S \<union> {y * ?nx + x | y x. y < ?ny \<and> x < ?nx \<and> y div TILE_Y = ty \<and> x div TILE_X = tx} \<subseteq>
      S \<union> (\<Union>row \<in> set [0..<rows]. ?C row)" by (rule Un_mono [OF subset_refl])
  obtain v' where v': "r_fold ?step [0..<rows] v = Inr v'" "filled (?ny * ?nx) F (S \<union> (\<Union>row \<in> set [0..<rows]. ?C row)) v'"
    using filled_fold [OF v, of "[0..<rows]" ?step ?C] step by blast
  moreover have "place_tile rd (ty, tx, tile) v = r_fold ?step [0..<rows] v"
    by (simp add: place_tile_def tile_dims_extent rows_def cols_def)
  ultimately show ?thesis using filled_mono [OF v'(2) sub] by auto
qed

section \<open>The full read\<close>

text \<open>The field of a variable: every cell in row-major order.\<close>

definition field_2d :: "read_env \<Rightarrow> hour_reader \<Rightarrow> rws_variable_meta \<Rightarrow> f32 list rw_result" where
  "field_2d env rd var = r_map (\<lambda>i. cell_2d env rd var (i div hm_nx (hr_meta rd)) (i mod hm_nx (hr_meta rd)))
     [0..<hm_ny (hr_meta rd) * hm_nx (hr_meta rd)]"

lemma reader_grid:
  assumes "reader_ok header rd"
  shows "0 < hm_nx (hr_meta rd)" "0 < hm_ny (hr_meta rd)" "hm_ny (hr_meta rd) * hm_nx (hr_meta rd) < usize_bound"
    "hm_nx (hr_meta rd) < usize_bound" "hm_ny (hr_meta rd) < usize_bound"
    "div_ceil (hm_ny (hr_meta rd)) TILE_Y * div_ceil (hm_nx (hr_meta rd)) TILE_X < usize_bound"
proof -
  have m: "meta_valid (hr_meta rd)" using assms by (simp add: reader_ok_def index_ok_def)
  then show "0 < hm_nx (hr_meta rd)" "0 < hm_ny (hr_meta rd)" by (simp_all add: meta_valid_def)
  show g: "hm_ny (hr_meta rd) * hm_nx (hr_meta rd) < usize_bound"
    "hm_nx (hr_meta rd) < usize_bound" "hm_ny (hr_meta rd) < usize_bound"
    using meta_valid_grid [OF m] by (simp_all add: mult.commute)
  have "div_ceil (hm_ny (hr_meta rd)) TILE_Y * div_ceil (hm_nx (hr_meta rd)) TILE_X \<le> hm_ny (hr_meta rd) * hm_nx (hr_meta rd)"
    by (intro mult_le_mono div_ceil_le tile_y.step_pos tile_x.step_pos)
  with g(1) show "div_ceil (hm_ny (hr_meta rd)) TILE_Y * div_ceil (hm_nx (hr_meta rd)) TILE_X < usize_bound" by linarith
qed

text \<open>The run of a variable in the index has one record per chunk.\<close>

lemma variable_run:
  assumes ok: "reader_ok header rd" and var: "var \<in> set (hm_variables (hr_meta rd))"
  obtains a b where "hr_var_ranges rd (vm_id var) = Some (a, b)"
    "b - a = chunks_y (hr_meta rd) var * chunks_x (hr_meta rd) var"
proof -
  let ?rs = "hr_records rd" and ?cy = "chunks_y (hr_meta rd) var" and ?cx = "chunks_x (hr_meta rd) var"
  have ix: "index_ok (hr_meta rd) header (of_nat (length (as_slice (hr_bytes rd)))) ?rs" using ok by (simp add: reader_ok_def)
  obtain a b where ab: "hr_var_ranges rd (vm_id var) = Some (a, b)" "b \<le> length ?rs"
      "\<forall>j < length ?rs. a \<le> j \<and> j < b \<longleftrightarrow> cr_var_id (?rs ! j) = vm_id var"
    by (rule reader_range [OF ok var])
  have mem: "?rs ! j \<in> set ?rs" "cr_var_id (?rs ! j) = vm_id var" if "j \<in> {a..<b}" for j
  proof -
    have j: "j < length ?rs" "a \<le> j \<and> j < b" using that ab(2) by auto
    then show "?rs ! j \<in> set ?rs" by simp
    show "cr_var_id (?rs ! j) = vm_id var" using ab(3) [rule_format, OF j(1)] j(2) by blast
  qed
  let ?pos = "\<lambda>j. (unat (cr_tile_y (?rs ! j)), unat (cr_tile_x (?rs ! j)))"
  have "bij_betw ?pos {a..<b} ({..<?cy} \<times> {..<?cx})"
  proof (rule bij_betw_imageI)
    show "inj_on ?pos {a..<b}"
    proof (rule inj_onI)
      fix i j assume i: "i \<in> {a..<b}" and j: "j \<in> {a..<b}" and "?pos i = ?pos j"
      then have "?rs ! i = ?rs ! j" using record_eqI [OF ix mem(1) [OF i] mem(1) [OF j]] mem(2) by (simp add: word_unat_eq_iff)
      moreover have "distinct ?rs" using ix sorted_key_inj unfolding index_ok_def by blast
      ultimately show "i = j" using i j ab(2) by (simp add: nth_eq_iff_index_eq)
    qed
    show "?pos ` {a..<b} = {..<?cy} \<times> {..<?cx}"
    proof (intro equalityI subsetI)
      fix p assume "p \<in> ?pos ` {a..<b}"
      then obtain j where j: "j \<in> {a..<b}" "p = ?pos j" by blast
      have "record_valid (hr_meta rd) header (of_nat (length (as_slice (hr_bytes rd)))) var (?rs ! j)"
        using record_var [OF ix mem(1) [OF j(1)] var mem(2) [OF j(1), symmetric]] .
      then show "p \<in> {..<?cy} \<times> {..<?cx}" using j(2) by (simp add: record_valid_def)
    next
      fix p assume "p \<in> {..<?cy} \<times> {..<?cx}"
      then obtain ty tx where p: "p = (ty, tx)" "ty < ?cy" "tx < ?cx" by blast
      obtain r where r: "r \<in> set ?rs" "cr_var_id r = vm_id var" "unat (cr_tile_y r) = ty" "unat (cr_tile_x r) = tx"
        using find_chunk_record_ok [OF ok var p(2,3)] by metis
      then obtain j where j: "j < length ?rs" "?rs ! j = r" by (auto simp: in_set_conv_nth)
      have "j \<in> {a..<b}" using ab(3) [rule_format, OF j(1)] j(2) r(2) by simp
      then show "p \<in> ?pos ` {a..<b}" using r(3,4) p(1) j(2) by (intro image_eqI [of _ _ j]) simp_all
    qed
  qed
  from bij_betw_same_card [OF this] have "b - a = ?cy * ?cx" by simp
  with ab(1) show thesis by (rule that)
qed

lemma surface_record:
  assumes "reader_ok header rd" and "lookup_2d rd name = Inr var"
    and "ty < div_ceil (hm_ny (hr_meta rd)) TILE_Y" and "tx < div_ceil (hm_nx (hr_meta rd)) TILE_X"
  obtains r where "find_chunk_record rd var KIND_TILE2D ty tx = Inr r" "r \<in> set (hr_records rd)"
    "cr_var_id r = vm_id var" "unat (cr_tile_y r) = ty" "unat (cr_tile_x r) = tx"
    "record_valid (hr_meta rd) header (of_nat (length (as_slice (hr_bytes rd)))) var r"
proof -
  have var: "var \<in> set (hm_variables (hr_meta rd))" "vm_kind var = ''surface2d''"
    using assms(2) find_variable_Some by (auto simp: lookup_2d_Inr)
  then have k: "chunk_kind var = KIND_TILE2D" "chunk_h var = TILE_Y" "chunk_w var = TILE_X"
    by (simp_all add: chunk_kind_def chunk_h_def chunk_w_def)
  show thesis
    using find_chunk_record_ok [OF assms(1) var(1), of ty tx] that assms(3,4) by (simp add: chunks_y_def chunks_x_def k) blast
qed

text \<open>All cells read exactly when all tiles decode.\<close>

lemma tile_of_cell:
  assumes "ty < div_ceil (hm_ny (hr_meta rd)) TILE_Y" and "tx < div_ceil (hm_nx (hr_meta rd)) TILE_X"
  shows "ty * TILE_Y < hm_ny (hr_meta rd)" "tx * TILE_X < hm_nx (hr_meta rd)"
  using assms tile_y.step_pos tile_x.step_pos by (simp_all add: less_div_ceil_iff)

lemma field_2d_eq_Inr:
  assumes nx: "0 < hm_nx (hr_meta rd)"
  shows "field_2d env rd var = Inr vs \<longleftrightarrow>
    length vs = hm_ny (hr_meta rd) * hm_nx (hr_meta rd) \<and>
    (\<forall>y < hm_ny (hr_meta rd). \<forall>x < hm_nx (hr_meta rd). cell_2d env rd var y x = Inr (vs ! (y * hm_nx (hr_meta rd) + x)))"
    (is "?L \<longleftrightarrow> ?R")
proof
  assume ?L
  then have l: "length vs = hm_ny (hr_meta rd) * hm_nx (hr_meta rd)"
    and c: "\<And>i. i < hm_ny (hr_meta rd) * hm_nx (hr_meta rd) \<Longrightarrow> cell_2d env rd var (i div hm_nx (hr_meta rd)) (i mod hm_nx (hr_meta rd)) = Inr (vs ! i)"
    by (auto simp: field_2d_def r_map_eq_Inr list_all2_conv_all_nth)
  show ?R
  proof (intro conjI allI impI l)
    fix y x assume "y < hm_ny (hr_meta rd)" "x < hm_nx (hr_meta rd)"
    then show "cell_2d env rd var y x = Inr (vs ! (y * hm_nx (hr_meta rd) + x))"
      using c [OF plane_index_less] by simp
  qed
next
  assume R: ?R
  have "cell_2d env rd var (i div hm_nx (hr_meta rd)) (i mod hm_nx (hr_meta rd)) = Inr (vs ! i)"
    if "i < hm_ny (hr_meta rd) * hm_nx (hr_meta rd)" for i
  proof -
    have "i div hm_nx (hr_meta rd) < hm_ny (hr_meta rd)" using that by (simp add: less_mult_imp_div_less)
    moreover have "i mod hm_nx (hr_meta rd) < hm_nx (hr_meta rd)" using nx by simp
    ultimately show ?thesis using R by (metis div_mult_mod_eq)
  qed
  with R show ?L by (simp add: field_2d_def r_map_eq_Inr list_all2_conv_all_nth)
qed

lemma field_2d_tiles:
  assumes "0 < hm_nx (hr_meta rd)" and "field_2d env rd var = Inr vs"
    and "ty < div_ceil (hm_ny (hr_meta rd)) TILE_Y" and "tx < div_ceil (hm_nx (hr_meta rd)) TILE_X"
  obtains tile where "tile_values env rd var ty tx = Inr tile"
proof -
  have "cell_2d env rd var (ty * TILE_Y) (tx * TILE_X) = Inr (vs ! (ty * TILE_Y * hm_nx (hr_meta rd) + tx * TILE_X))"
    using assms tile_of_cell [OF assms(3,4)] by (simp add: field_2d_eq_Inr)
  then show thesis using that tile_y.step_pos tile_x.step_pos by (auto simp: cell_2d_def r_bind_eq_Inr)
qed

text \<open>The two passes of the read, records first, are one pass over the tiles.\<close>

lemma r_map_two:
  "(\<exists>ys. r_map f xs = Inr ys \<and> r_map g ys = Inr zs) \<longleftrightarrow> r_map (\<lambda>x. r_bind (f x) g) xs = Inr zs"
proof -
  have "(\<lambda>x z. r_bind (f x) g = Inr z) = (\<lambda>x y. f x = Inr y) OO (\<lambda>y z. g y = Inr z)"
    by (auto simp: fun_eq_iff r_bind_eq_Inr)
  then show ?thesis by (simp add: r_map_eq_Inr list.rel_compp) blast
qed

lemma r_map_member: "r_map f xs = Inr ys \<Longrightarrow> x \<in> set xs \<Longrightarrow> \<exists>y \<in> set ys. f x = Inr y"
  by (induction xs arbitrary: ys) (auto simp: r_bind_eq_Inr)

definition tile_jobs :: "read_env \<Rightarrow> hour_reader \<Rightarrow> rws_variable_meta \<Rightarrow> (nat \<times> nat \<times> f32 list) list rw_result" where
  "tile_jobs env rd var = r_map (\<lambda>(ty, tx). r_bind (tile_values env rd var ty tx) (\<lambda>tile. Inr (ty, tx, tile)))
     (List.product [0..<div_ceil (hm_ny (hr_meta rd)) TILE_Y] [0..<div_ceil (hm_nx (hr_meta rd)) TILE_X])"

lemma tile_jobs_eq_Inr:
  "(\<exists>jobs. r_map (\<lambda>(ty, tx). r_bind (find_chunk_record rd var KIND_TILE2D ty tx) (\<lambda>record. Inr (ty, tx, record)))
        (List.product [0..<div_ceil (hm_ny (hr_meta rd)) TILE_Y] [0..<div_ceil (hm_nx (hr_meta rd)) TILE_X]) = Inr jobs \<and>
     r_map (\<lambda>(ty, tx, record). let (rows, cols) = tile_dims rd ty tx
        in r_bind (decode_tile env rd record (rows * cols)) (\<lambda>tile. Inr (ty, tx, tile))) jobs = Inr zs) \<longleftrightarrow>
   tile_jobs env rd var = Inr zs"
proof -
  have f: "(\<lambda>(ty, tx). r_bind (tile_values env rd var ty tx) (\<lambda>tile. Inr (ty, tx, tile))) =
    (\<lambda>x. r_bind ((\<lambda>(ty, tx). r_bind (find_chunk_record rd var KIND_TILE2D ty tx) (\<lambda>record. Inr (ty, tx, record))) x)
      (\<lambda>(ty, tx, record). let (rows, cols) = tile_dims rd ty tx
        in r_bind (decode_tile env rd record (rows * cols)) (\<lambda>tile. Inr (ty, tx, tile))))"
  proof
    fix x :: "nat \<times> nat"
    obtain ty tx where "x = (ty, tx)" by (cases x)
    then show "(\<lambda>(ty, tx). r_bind (tile_values env rd var ty tx) (\<lambda>tile. Inr (ty, tx, tile))) x =
      r_bind ((\<lambda>(ty, tx). r_bind (find_chunk_record rd var KIND_TILE2D ty tx) (\<lambda>record. Inr (ty, tx, record))) x)
      (\<lambda>(ty, tx, record). let (rows, cols) = tile_dims rd ty tx
        in r_bind (decode_tile env rd record (rows * cols)) (\<lambda>tile. Inr (ty, tx, tile)))"
      by (cases "find_chunk_record rd var KIND_TILE2D ty tx") (simp_all add: tile_values_def Let_def split_beta)
  qed
  show ?thesis unfolding tile_jobs_def f by (rule r_map_two)
qed

lemma tile_jobs_complete:
  assumes "tile_jobs env rd var = Inr zs"
  shows "(ty, tx, tile) \<in> set zs \<longleftrightarrow>
    ty < div_ceil (hm_ny (hr_meta rd)) TILE_Y \<and> tx < div_ceil (hm_nx (hr_meta rd)) TILE_X \<and> tile_values env rd var ty tx = Inr tile"
proof -
  have "list_all2 (\<lambda>(ty, tx) z. \<exists>t. tile_values env rd var ty tx = Inr t \<and> z = (ty, tx, t))
     (List.product [0..<div_ceil (hm_ny (hr_meta rd)) TILE_Y] [0..<div_ceil (hm_nx (hr_meta rd)) TILE_X]) zs"
    using assms by (auto simp: tile_jobs_def r_map_eq_Inr r_bind_eq_Inr elim!: list.rel_mono_strong)
  then have "set zs = {(ty, tx, t) | ty tx t. (ty, tx) \<in> set (List.product [0..<div_ceil (hm_ny (hr_meta rd)) TILE_Y] [0..<div_ceil (hm_nx (hr_meta rd)) TILE_X]) \<and>
      tile_values env rd var ty tx = Inr t}"
    by (induction rule: list_all2_induct) auto
  then show ?thesis by auto
qed

lemma place_tiles_field:
  assumes ok: "reader_ok header rd" and jobs: "tile_jobs env rd var = Inr zs"
  shows "\<exists>vs. r_fold (place_tile rd) zs (replicate (hm_ny (hr_meta rd) * hm_nx (hr_meta rd)) f32_NAN) = Inr vs \<and>
    field_2d env rd var = Inr vs"
proof -
  let ?nx = "hm_nx (hr_meta rd)" and ?ny = "hm_ny (hr_meta rd)"
  define T where "T ty tx = projr (tile_values env rd var ty tx)" for ty tx
  define F where "F i = tile_cell rd (T (i div ?nx div TILE_Y) (i mod ?nx div TILE_X)) (i div ?nx) (i mod ?nx)" for i
  have nx: "0 < ?nx" using reader_grid [OF ok] by simp
  have T: "tile_values env rd var ty tx = Inr (T ty tx)" if "ty < div_ceil ?ny TILE_Y" "tx < div_ceil ?nx TILE_X" for ty tx
  proof -
    have "(ty, tx) \<in> set (List.product [0..<div_ceil ?ny TILE_Y] [0..<div_ceil ?nx TILE_X])" using that by simp
    then obtain z where "r_bind (tile_values env rd var ty tx) (\<lambda>tile. Inr (ty, tx, tile)) = Inr z"
      using r_map_member [OF jobs [unfolded tile_jobs_def], of "(ty, tx)"] by auto
    then show ?thesis by (auto simp: T_def r_bind_eq_Inr)
  qed
  have F: "F (y * ?nx + x) = tile_cell rd (T (y div TILE_Y) (x div TILE_X)) y x" if "x < ?nx" for y x
    using that by (simp add: F_def)
  define C where "C = (\<lambda>(ty, tx, tile :: f32 list). {y * ?nx + x | y x. y < ?ny \<and> x < ?nx \<and> y div TILE_Y = ty \<and> x div TILE_X = tx})"
  have step: "\<exists>v'. place_tile rd z v = Inr v' \<and> filled (?ny * ?nx) F (S \<union> C z) v'"
    if z: "z \<in> set zs" and v: "filled (?ny * ?nx) F S v" for z S v
  proof -
    obtain ty tx tile where zz: "z = (ty, tx, tile)" by (cases z)
    then have m: "tx < div_ceil ?nx TILE_X" "tile_values env rd var ty tx = Inr tile" "T ty tx = tile"
      using z tile_jobs_complete [OF jobs] by (simp_all add: T_def)
    show ?thesis unfolding zz C_def prod.case
      using m F by (intro place_tile_fills v tile_values_length [OF m(2)]) simp_all
  qed
  obtain v' where v': "r_fold (place_tile rd) zs (replicate (?ny * ?nx) f32_NAN) = Inr v'"
      "filled (?ny * ?nx) F ({} \<union> (\<Union>z \<in> set zs. C z)) v'"
    using filled_fold [OF filled_start, where f = "place_tile rd" and C = C] step by blast
  have "{..<?ny * ?nx} \<subseteq> {} \<union> (\<Union>z \<in> set zs. C z)"
  proof
    fix i assume "i \<in> {..<?ny * ?nx}"
    then have y: "i div ?nx < ?ny" by (simp add: less_mult_imp_div_less)
    have x: "i mod ?nx < ?nx" using nx by simp
    have p: "i div ?nx div TILE_Y < div_ceil ?ny TILE_Y" "i mod ?nx div TILE_X < div_ceil ?nx TILE_X"
      using tile_y.piece_of [OF y] tile_x.piece_of [OF x] .
    let ?z = "(i div ?nx div TILE_Y, i mod ?nx div TILE_X, T (i div ?nx div TILE_Y) (i mod ?nx div TILE_X))"
    have "?z \<in> set zs" using p T tile_jobs_complete [OF jobs] by simp
    moreover have "i \<in> C ?z"
      unfolding C_def prod.case mem_Collect_eq by (intro exI [of _ "i div ?nx"] exI [of _ "i mod ?nx"]) (simp add: x y)
    ultimately show "i \<in> {} \<union> (\<Union>z \<in> set zs. C z)" by blast
  qed
  from filled_all [OF v'(2) this] have vs: "v' = map F [0..<?ny * ?nx]" .
  have "cell_2d env rd var y x = Inr (v' ! (y * ?nx + x))" if "y < ?ny" "x < ?nx" for y x
    using that T [OF tile_y.piece_of [OF that(1)] tile_x.piece_of [OF that(2)]] F plane_index_less [OF that]
    by (simp add: cell_2d_def vs)
  then have "field_2d env rd var = Inr v'" by (simp add: field_2d_eq_Inr [OF nx] vs)
  with v'(1) show ?thesis by blast
qed

lemma read_full_jobs:
  assumes "reader_ok header rd" and "lookup_2d rd name = Inr var"
  shows "read_full_2d env rd name = Inr vs \<longleftrightarrow>
    (\<exists>zs. tile_jobs env rd var = Inr zs \<and>
       r_fold (place_tile rd) zs (replicate (hm_ny (hr_meta rd) * hm_nx (hr_meta rd)) f32_NAN) = Inr vs)"
  unfolding tile_jobs_eq_Inr [symmetric]
  using assms(2) reader_grid [OF assms(1)]
  by (simp add: read_full_2d_def r_bind_eq_Inr ok_or_eq_Inr usize_checked_mul_eq_Some Let_def) blast

lemma read_full_field:
  assumes "reader_ok header rd" and "lookup_2d rd name = Inr var"
  shows "read_full_2d env rd name = Inr vs \<longleftrightarrow> field_2d env rd var = Inr vs"
proof
  assume "read_full_2d env rd name = Inr vs"
  then obtain zs where "tile_jobs env rd var = Inr zs"
      "r_fold (place_tile rd) zs (replicate (hm_ny (hr_meta rd) * hm_nx (hr_meta rd)) f32_NAN) = Inr vs"
    by (auto simp: read_full_jobs [OF assms])
  with place_tiles_field [OF assms(1) this(1)] show "field_2d env rd var = Inr vs" by auto
next
  assume f: "field_2d env rd var = Inr vs"
  let ?ts = "List.product [0..<div_ceil (hm_ny (hr_meta rd)) TILE_Y] [0..<div_ceil (hm_nx (hr_meta rd)) TILE_X]"
  have "r_bind (tile_values env rd var ty tx) (\<lambda>tile. Inr (ty, tx, tile)) = Inr (ty, tx, projr (tile_values env rd var ty tx))"
    if t: "(ty, tx) \<in> set ?ts" for ty tx
  proof -
    have "ty < div_ceil (hm_ny (hr_meta rd)) TILE_Y" "tx < div_ceil (hm_nx (hr_meta rd)) TILE_X" using t by auto
    then obtain tile where "tile_values env rd var ty tx = Inr tile"
      using field_2d_tiles [OF reader_grid(1) [OF assms(1)] f] by blast
    then show ?thesis by simp
  qed
  then have "tile_jobs env rd var = Inr (map (\<lambda>(ty, tx). (ty, tx, projr (tile_values env rd var ty tx))) ?ts)"
    unfolding tile_jobs_def by (intro r_map_Inr) auto
  moreover from place_tiles_field [OF assms(1) this] f
  have "r_fold (place_tile rd) (map (\<lambda>(ty, tx). (ty, tx, projr (tile_values env rd var ty tx))) ?ts)
      (replicate (hm_ny (hr_meta rd) * hm_nx (hr_meta rd)) f32_NAN) = Inr vs" by auto
  ultimately show "read_full_2d env rd name = Inr vs"
    by (simp add: read_full_jobs [OF assms])
qed

section \<open>Reads through the cache\<close>

text \<open>
  The tile a cache key stands for. A reader is consistent when it was validated and its
  cache holds such tiles only.
\<close>

definition tile_of_key :: "read_env \<Rightarrow> hour_reader \<Rightarrow> tile_cache_key \<Rightarrow> f32 list rw_result" where
  "tile_of_key env rd k =
     (case find (\<lambda>var. vm_id var = tk_var_id k) (hm_variables (hr_meta rd)) of
        Some var \<Rightarrow> if tk_kind k = KIND_TILE2D then tile_values env rd var (unat (tk_tile_y k)) (unat (tk_tile_x k))
                    else Inl (Chunk ''not a surface tile'')
      | None \<Rightarrow> Inl (Chunk ''unknown variable''))"

definition reader_inv :: "read_env \<Rightarrow> hour_reader \<Rightarrow> bool" where
  "reader_inv env rd \<longleftrightarrow> (\<exists>header. reader_ok header rd) \<and> tc.coherent (tile_of_key env rd) (hr_tile_cache rd)"

lemma tile_values_frame [simp]: "tile_values env (rd\<lparr>hr_tile_cache := c\<rparr>) = tile_values env rd"
  by (simp add: fun_eq_iff tile_values_def)

lemma tile_of_key_frame [simp]: "tile_of_key env (rd\<lparr>hr_tile_cache := c\<rparr>) = tile_of_key env rd"
  by (simp add: fun_eq_iff tile_of_key_def split: option.split)

lemma cell_2d_frame [simp]: "cell_2d env (rd\<lparr>hr_tile_cache := c\<rparr>) = cell_2d env rd"
  by (simp add: fun_eq_iff cell_2d_def tile_cell_def)

lemma place_frame [simp]:
  "place_tile (rd\<lparr>hr_tile_cache := c\<rparr>) = place_tile rd" "place_window_tile (rd\<lparr>hr_tile_cache := c\<rparr>) = place_window_tile rd"
  by (simp_all add: fun_eq_iff place_tile_def place_window_tile_def Let_def cong: option.case_cong)

lemma read_full_frame [simp]: "read_full_2d env (rd\<lparr>hr_tile_cache := c\<rparr>) = read_full_2d env rd"
  by (simp add: fun_eq_iff read_full_2d_def Let_def)

lemma reader_inv_frame:
  "reader_inv env (rd\<lparr>hr_tile_cache := c\<rparr>) \<longleftrightarrow> (\<exists>header. reader_ok header rd) \<and> tc.coherent (tile_of_key env rd) c"
  by (simp add: reader_inv_def)

lemma find_by_id:
  assumes "distinct (map vm_id vars)" and "var \<in> set vars"
  shows "find (\<lambda>v. vm_id v = vm_id var) vars = Some var"
  using assms by (induction vars) (auto simp: image_iff)

lemma surface_variable:
  assumes "lookup_2d rd name = Inr var"
  shows "var \<in> set (hm_variables (hr_meta rd))" "vm_kind var = ''surface2d''"
  using assms find_variable_Some by (auto simp: lookup_2d_Inr)

lemma tile_of_key_record:
  assumes ok: "reader_ok header rd" and var: "lookup_2d rd name = Inr var"
    and r: "record_valid (hr_meta rd) header fl var r" "unat (cr_tile_y r) = ty" "unat (cr_tile_x r) = tx"
  shows "tile_of_key env rd (tile_key var r) = tile_values env rd var ty tx"
proof -
  have "distinct (map vm_id (hm_variables (hr_meta rd)))" using ok by (simp add: reader_ok_def index_ok_def meta_valid_def)
  then have "find (\<lambda>v. vm_id v = vm_id var) (hm_variables (hr_meta rd)) = Some var"
    using surface_variable [OF var] by (simp add: find_by_id)
  moreover have "cr_kind r = KIND_TILE2D"
    using r(1) surface_variable(2) [OF var] by (simp add: record_valid_def chunk_kind_def)
  ultimately show ?thesis using r(2,3) by (simp add: tile_of_key_def tile_key_def)
qed

text \<open>A read computes a result whatever coherent cache it starts with, and keeps the reader.\<close>

definition pure_read :: "read_env \<Rightarrow> hour_reader \<Rightarrow> 'a reads \<Rightarrow> 'a rw_result \<Rightarrow> bool" where
  "pure_read env rd m res \<longleftrightarrow> (\<forall>c. reader_inv env (rd\<lparr>hr_tile_cache := c\<rparr>) \<longrightarrow>
     (\<exists>c'. m (rd\<lparr>hr_tile_cache := c\<rparr>) = (res, rd\<lparr>hr_tile_cache := c'\<rparr>) \<and> reader_inv env (rd\<lparr>hr_tile_cache := c'\<rparr>)))"

lemma pure_readI:
  assumes "\<And>c. reader_inv env (rd\<lparr>hr_tile_cache := c\<rparr>) \<Longrightarrow>
    \<exists>c'. m (rd\<lparr>hr_tile_cache := c\<rparr>) = (res, rd\<lparr>hr_tile_cache := c'\<rparr>) \<and> reader_inv env (rd\<lparr>hr_tile_cache := c'\<rparr>)"
  shows "pure_read env rd m res"
  using assms by (simp add: pure_read_def)

lemma pure_readD:
  assumes "pure_read env rd m res" and "reader_inv env rd"
  obtains c where "m rd = (res, rd\<lparr>hr_tile_cache := c\<rparr>)" "reader_inv env (rd\<lparr>hr_tile_cache := c\<rparr>)"
  using assms by (auto simp: pure_read_def dest!: spec [of _ "hr_tile_cache rd"])

lemma pure_read_cong:
  "pure_read env rd m' res \<Longrightarrow> (\<And>c. m (rd\<lparr>hr_tile_cache := c\<rparr>) = m' (rd\<lparr>hr_tile_cache := c\<rparr>)) \<Longrightarrow> pure_read env rd m res"
  by (simp add: pure_read_def)

lemma pure_read_lift: "pure_read env rd (s_lift r) r"
  by (auto simp: pure_read_def s_lift_def)

lemma pure_read_bind:
  assumes m: "pure_read env rd m r" and f: "\<And>x. r = Inr x \<Longrightarrow> pure_read env rd (f x) (g x)"
  shows "pure_read env rd (s_bind m f) (r_bind r g)"
proof (rule pure_readI)
  fix c assume "reader_inv env (rd\<lparr>hr_tile_cache := c\<rparr>)"
  then obtain c' where c': "m (rd\<lparr>hr_tile_cache := c\<rparr>) = (r, rd\<lparr>hr_tile_cache := c'\<rparr>)" "reader_inv env (rd\<lparr>hr_tile_cache := c'\<rparr>)"
    using m by (auto simp: pure_read_def)
  show "\<exists>c'. s_bind m f (rd\<lparr>hr_tile_cache := c\<rparr>) = (r_bind r g, rd\<lparr>hr_tile_cache := c'\<rparr>) \<and> reader_inv env (rd\<lparr>hr_tile_cache := c'\<rparr>)"
  proof (cases r)
    case (Inl e)
    then show ?thesis using c' by (auto simp: s_bind_def)
  next
    case (Inr x)
    then show ?thesis using c' f [OF Inr] by (auto simp: s_bind_def pure_read_def)
  qed
qed

lemma pure_read_map:
  "(\<And>x. x \<in> set xs \<Longrightarrow> pure_read env rd (f x) (g x)) \<Longrightarrow> pure_read env rd (s_map f xs) (r_map g xs)"
  by (induction xs) (auto intro!: pure_read_bind pure_read_lift)

lemma pure_read_if: "(b \<Longrightarrow> pure_read env rd m r) \<Longrightarrow> (\<not> b \<Longrightarrow> pure_read env rd m' r') \<Longrightarrow>
  pure_read env rd (if b then m else m') (if b then r else r')"
  by simp

lemma decode_tile_cached_pure:
  assumes ok: "reader_ok header rd" and var: "lookup_2d rd name = Inr var"
    and r: "record_valid (hr_meta rd) header fl var r" "unat (cr_tile_y r) = ty" "unat (cr_tile_x r) = tx"
    and t: "tile_values env rd var ty tx = decode_tile env rd r n"
  shows "pure_read env rd (decode_tile_cached env var r n) (tile_values env rd var ty tx)"
proof (rule pure_readI)
  fix c assume "reader_inv env (rd\<lparr>hr_tile_cache := c\<rparr>)"
  then have coh: "tc.coherent (tile_of_key env rd) c" by (simp add: reader_inv_frame)
  let ?k = "tile_key var r"
  have k: "tile_of_key env rd ?k = tile_values env rd var ty tx" using tile_of_key_record [OF ok var r] .
  let ?r = "case cache_get ?k c of
        (Some v, c') \<Rightarrow> (Inr v, c')
      | (None, c') \<Rightarrow> (case tile_of_key env rd ?k of
            Inl e \<Rightarrow> (Inl e, c')
          | Inr v \<Rightarrow> (let (w, c'') = cache_insert (re_reserve env ?k) ?k v c' in (Inr w, c'')))"
  have "fst ?r = tile_of_key env rd ?k \<and> tc.coherent (tile_of_key env rd) (snd ?r)"
    by (rule tc.read_through [OF coh refl])
  moreover have "decode_tile_cached env var r n (rd\<lparr>hr_tile_cache := c\<rparr>) = (fst ?r, rd\<lparr>hr_tile_cache := snd ?r\<rparr>)"
    by (simp add: decode_tile_cached_def k t Let_def split: prod.split option.split sum.split)
  ultimately show "\<exists>c'. decode_tile_cached env var r n (rd\<lparr>hr_tile_cache := c\<rparr>) =
      (tile_values env rd var ty tx, rd\<lparr>hr_tile_cache := c'\<rparr>) \<and> reader_inv env (rd\<lparr>hr_tile_cache := c'\<rparr>)"
    using ok k by (auto simp: reader_inv_frame)
qed

end
