(* ===== verification/Rw_Read2D_Reads.thy ===== *)
theory Rw_Read2D_Reads
  imports Rw_Read2D_Facts
begin

text \<open>
  Point, tile and window reads through the cache against the cells of the field, the
  visiting loop, and the properties of the surface reads.
\<close>

unbundle bit_operations_syntax

section \<open>Point reads\<close>

lemma s_bind_lift [simp]: "s_bind (s_lift (Inr x)) f = f x" "s_bind (s_lift (Inl e)) f = s_lift (Inl e)"
  by (simp_all add: fun_eq_iff s_bind_def s_lift_def)

lemma cell_offset:
  assumes "y < hm_ny (hr_meta rd)" and "x < hm_nx (hr_meta rd)"
  shows "y mod TILE_Y * snd (tile_dims rd (y div TILE_Y) (x div TILE_X)) + x mod TILE_X <
    fst (tile_dims rd (y div TILE_Y) (x div TILE_X)) * snd (tile_dims rd (y div TILE_Y) (x div TILE_X))"
  using plane_index_less [OF tile_y.offset_of [OF assms(1)] tile_x.offset_of [OF assms(2)]]
  by (simp add: tile_dims_extent)

lemma tile_area_bound: "fst (tile_dims rd ty tx) * snd (tile_dims rd ty tx) < usize_bound"
proof -
  have "fst (tile_dims rd ty tx) * snd (tile_dims rd ty tx) \<le> TILE_Y * TILE_X"
    by (intro mult_le_mono) (simp_all add: tile_dims_def)
  then show ?thesis by (simp add: geometry_consts usize_bound_def)
qed

text \<open>The shortcuts for tiles without payload agree with decoding.\<close>

definition tile_shortcut :: "chunk_record \<Rightarrow> f32 option" where
  "tile_shortcut r = (if cr_flags r AND FLAG_EMPTY \<noteq> 0 then Some f32_NAN
     else if cr_flags r AND FLAG_CONSTANT \<noteq> 0 \<and> cr_len r = 0 then Some (cr_center r) else None)"

lemma decode_tile_shortcut:
  "tile_shortcut r = Some v \<Longrightarrow> decode_tile env rd r n = Inr (replicate n v)"
  by (auto simp: tile_shortcut_def decode_tile_def split: if_splits)

lemma read_point_pure:
  assumes ok: "reader_ok header rd"
  shows "pure_read env rd (read_point_2d env name ix iy)
    (r_bind (lookup_2d rd name) (\<lambda>var.
      if ix \<ge> hm_nx (hr_meta rd) \<or> iy \<ge> hm_ny (hr_meta rd) then Inl (Format ''point out of bounds for grid'')
      else cell_2d env rd var iy ix))"
proof (cases "lookup_2d rd name")
  case (Inl e)
  show ?thesis by (rule pure_read_cong [OF pure_read_lift]) (simp add: Inl read_point_2d_def)
next
  case (Inr var)
  show ?thesis
  proof (cases "ix \<ge> hm_nx (hr_meta rd) \<or> iy \<ge> hm_ny (hr_meta rd)")
    case True
    then show ?thesis
      by (intro pure_read_cong [OF pure_read_lift]) (simp add: Inr read_point_2d_def)
  next
    case False
    then have b: "iy < hm_ny (hr_meta rd)" "ix < hm_nx (hr_meta rd)" by simp_all
    define ty tx n where "ty = iy div TILE_Y" and "tx = ix div TILE_X"
      and "n = fst (tile_dims rd ty tx) * snd (tile_dims rd ty tx)"
    obtain r where r: "find_chunk_record rd var KIND_TILE2D ty tx = Inr r" "unat (cr_tile_y r) = ty" "unat (cr_tile_x r) = tx"
        "record_valid (hr_meta rd) header (of_nat (length (as_slice (hr_bytes rd)))) var r"
      using surface_record [OF ok Inr tile_y.piece_of [OF b(1)] tile_x.piece_of [OF b(2)]] by (auto simp: ty_def tx_def)
    have t: "tile_values env rd var ty tx = decode_tile env rd r n"
      using r(1) by (simp add: tile_values_def n_def)
    have off: "iy mod TILE_Y * snd (tile_dims rd ty tx) + ix mod TILE_X < n"
      using cell_offset [OF b] by (simp add: ty_def tx_def n_def)
    show ?thesis
    proof (cases "tile_shortcut r")
      case (Some v)
      then have "cell_2d env rd var iy ix = Inr v"
        using t off by (simp add: cell_2d_def tile_cell_def decode_tile_shortcut ty_def tx_def)
      then show ?thesis
        using Some b Inr r(1)
        by (intro pure_read_cong [OF pure_read_lift])
          (auto simp: read_point_2d_def tile_shortcut_def ty_def tx_def Let_def split: if_splits)
    next
      case None
      let ?rest = "\<lambda>tile. s_bind (s_lift (ok_or (Option.bind (usize_checked_mul (iy - ty * TILE_Y) (snd (tile_dims rd ty tx)))
             (\<lambda>start. usize_checked_add start (ix - tx * TILE_X))) (Format ''point offset overflows''))) (\<lambda>offset.
           s_lift (if offset < length tile then Inr (tile ! offset) else Inl (Format ''point offset exceeds decoded tile'')))"
      have m: "iy - ty * TILE_Y = iy mod TILE_Y" "ix - tx * TILE_X = ix mod TILE_X"
        by (simp_all add: ty_def tx_def minus_div_mult_eq_mod)
      have u: "usize_checked_mul (iy mod TILE_Y) (snd (tile_dims rd ty tx)) = Some (iy mod TILE_Y * snd (tile_dims rd ty tx))"
          "usize_checked_add (iy mod TILE_Y * snd (tile_dims rd ty tx)) (ix mod TILE_X) =
            Some (iy mod TILE_Y * snd (tile_dims rd ty tx) + ix mod TILE_X)"
        using off tile_area_bound [of rd ty tx] by (simp_all add: usize_checked_mul_eq_Some usize_checked_add_eq_Some n_def)
      have rest: "pure_read env rd (?rest tile) (Inr (tile_cell rd tile iy ix))"
        if "tile_values env rd var ty tx = Inr tile" for tile
      proof -
        have "length tile = n" using that t by (simp add: decode_tile_length)
        moreover have "tile_cell rd tile iy ix = tile ! (iy mod TILE_Y * snd (tile_dims rd ty tx) + ix mod TILE_X)"
          by (simp add: tile_cell_def ty_def tx_def)
        ultimately show ?thesis
          using off by (intro pure_read_cong [OF pure_read_lift])
            (simp add: m u ok_or_def)
      qed
      have "pure_read env rd (s_bind (decode_tile_cached env var r n) ?rest) (cell_2d env rd var iy ix)"
        unfolding cell_2d_def ty_def [symmetric] tx_def [symmetric]
        by (intro pure_read_bind decode_tile_cached_pure [OF ok Inr r(4,2,3) t] rest)
      then have "pure_read env rd (read_point_2d env name ix iy) (cell_2d env rd var iy ix)"
        by (rule pure_read_cong)
          (use None b Inr r(1) in \<open>auto simp: read_point_2d_def tile_shortcut_def
             ty_def tx_def n_def Let_def split_beta split: if_splits\<close>)
      then show ?thesis using b Inr by simp
    qed
  qed
qed

section \<open>Window reads\<close>

text \<open>Copying the rows of a rectangle of the window into the buffer.\<close>

lemma window_rows:
  assumes v: "filled ((y1 - y0) * (x1 - x0)) F S v"
    and gx: "x0 \<le> gx0" "gx0 \<le> gx1" "gx1 \<le> x1" and gy: "y0 \<le> gy0" "gy1 \<le> y1"
    and row: "\<And>y. gy0 \<le> y \<Longrightarrow> y < gy1 \<Longrightarrow> row y = Inr (src y) \<and> length (src y) = gx1 - gx0 \<and>
        (\<forall>j < gx1 - gx0. src y ! j = F ((y - y0) * (x1 - x0) + (gx0 + j - x0)))"
  shows "\<exists>v'. r_fold (\<lambda>y values. r_bind (row y) (\<lambda>src.
        r_copy ((y - y0) * (x1 - x0) + (gx0 - x0)) ((y - y0) * (x1 - x0) + (gx1 - x0)) src values)) [gy0..<gy1] v = Inr v' \<and>
      filled ((y1 - y0) * (x1 - x0)) F
        (S \<union> (\<Union>y \<in> set [gy0..<gy1]. {(y - y0) * (x1 - x0) + (gx0 - x0) ..< (y - y0) * (x1 - x0) + (gx1 - x0)})) v'"
proof (rule filled_fold [OF v])
  fix y S v assume y: "y \<in> set [gy0..<gy1]" and v: "filled ((y1 - y0) * (x1 - x0)) F S v"
  let ?a = "(y - y0) * (x1 - x0) + (gx0 - x0)" and ?b = "(y - y0) * (x1 - x0) + (gx1 - x0)"
  have r: "row y = Inr (src y)" "length (src y) = gx1 - gx0"
      "\<And>j. j < gx1 - gx0 \<Longrightarrow> src y ! j = F ((y - y0) * (x1 - x0) + (gx0 + j - x0))"
    using row [of y] y by simp_all
  have "(y - y0) * (x1 - x0) + (x1 - x0) \<le> (y1 - y0) * (x1 - x0)"
    using mult_le_mono1 [of "y - y0 + 1" "y1 - y0" "x1 - x0"] y gy by (auto simp only: set_upt atLeastLessThan_iff add_mult_distrib mult_1)
  moreover have "gx1 - x0 \<le> x1 - x0" using gx by linarith
  ultimately have b: "?b \<le> (y1 - y0) * (x1 - x0)" by linarith
  have "?b - ?a = gx1 - gx0" using gx by simp
  moreover have "?a + j = (y - y0) * (x1 - x0) + (gx0 + j - x0)" for j using gx by simp
  ultimately show "\<exists>v'. r_bind (row y) (\<lambda>src. r_copy ?a ?b src v) = Inr v' \<and> filled ((y1 - y0) * (x1 - x0)) F (S \<union> {?a..<?b}) v'"
    using filled_copy [OF v _ b, of ?a "src y"] r gx by simp
qed

definition window_part :: "nat \<Rightarrow> nat \<Rightarrow> nat \<Rightarrow> nat \<Rightarrow> nat \<Rightarrow> nat \<Rightarrow> nat set" where
  "window_part x0 y0 x1 y1 ty tx =
     {(y - y0) * (x1 - x0) + (x - x0) | y x. y0 \<le> y \<and> y < y1 \<and> x0 \<le> x \<and> x < x1 \<and> y div TILE_Y = ty \<and> x div TILE_X = tx}"

text \<open>The part of a window in a tile, as rows.\<close>

lemma div_tile_bounds: "0 < (b::nat) \<Longrightarrow> z div b = t \<longleftrightarrow> t * b \<le> z \<and> z < t * b + b"
proof -
  assume b: "0 < b"
  have "z = z div b * b + z mod b" by simp
  moreover have "z mod b < b" using b by simp
  ultimately show ?thesis
    by (metis b add.commute div_nat_eqI le_add1 mult.commute mult_Suc nat_add_left_cancel_less)
qed

lemma window_part_rows:
  assumes "x1 \<le> nx" and "y1 \<le> ny" and g: "gy0 = max (ty * TILE_Y) y0" "gy1 = min (ty * TILE_Y + tile_y.extent ny ty) y1"
    "gx0 = max (tx * TILE_X) x0" "gx1 = min (tx * TILE_X + tile_x.extent nx tx) x1"
  shows "window_part x0 y0 x1 y1 ty tx \<subseteq>
    (\<Union>y \<in> set [gy0..<gy1]. {(y - y0) * (x1 - x0) + (gx0 - x0) ..< (y - y0) * (x1 - x0) + (gx1 - x0)})"
proof
  fix i assume "i \<in> window_part x0 y0 x1 y1 ty tx"
  then obtain y x where i: "i = (y - y0) * (x1 - x0) + (x - x0)" and y: "y0 \<le> y" "y < y1" "y div TILE_Y = ty"
      and x: "x0 \<le> x" "x < x1" "x div TILE_X = tx" by (auto simp: window_part_def)
  have "gy0 \<le> y" "y < gy1"
    using y assms(2) tile_y.step_pos by (auto simp: g tile_y.extent_def div_tile_bounds)
  moreover have "gx0 \<le> x" "x < gx1"
    using x assms(1) tile_x.step_pos by (auto simp: g tile_x.extent_def div_tile_bounds)
  moreover have "gx0 - x0 \<le> x - x0" "x - x0 < gx1 - x0" using calculation x by linarith+
  ultimately show "i \<in> (\<Union>y \<in> set [gy0..<gy1]. {(y - y0) * (x1 - x0) + (gx0 - x0) ..< (y - y0) * (x1 - x0) + (gx1 - x0)})"
    unfolding i by (intro UN_I [of y]) (simp_all only: set_upt atLeastLessThan_iff add_less_cancel_left add_le_cancel_left simp_thms)
qed

lemma place_window_tile_fills:
  assumes b: "x1 \<le> hm_nx (hr_meta rd)" "y1 \<le> hm_ny (hr_meta rd)" "x0 < x1" "y0 < y1"
    and t: "y0 div TILE_Y \<le> ty" "ty \<le> (y1 - 1) div TILE_Y" "x0 div TILE_X \<le> tx" "tx \<le> (x1 - 1) div TILE_X"
    and F: "\<And>y x. y0 \<le> y \<Longrightarrow> y < y1 \<Longrightarrow> x0 \<le> x \<Longrightarrow> x < x1 \<Longrightarrow> y div TILE_Y = ty \<Longrightarrow> x div TILE_X = tx \<Longrightarrow>
      F ((y - y0) * (x1 - x0) + (x - x0)) = tile_cell rd values y x"
    and len: "length values = fst (tile_dims rd ty tx) * snd (tile_dims rd ty tx)"
    and tile: "case tile of Some vs \<Rightarrow> vs = values
      | None \<Rightarrow> cr_flags r AND FLAG_EMPTY = 0 \<and> values = replicate (fst (tile_dims rd ty tx) * snd (tile_dims rd ty tx)) (cr_center r)"
    and v: "filled ((y1 - y0) * (x1 - x0)) F S v"
  shows "\<exists>v'. place_window_tile rd x0 y0 x1 y1 ((ty, tx, r), tile) v = Inr v' \<and>
    filled ((y1 - y0) * (x1 - x0)) F (S \<union> window_part x0 y0 x1 y1 ty tx) v'"
proof -
  define rows cols where "rows = fst (tile_dims rd ty tx)" and "cols = snd (tile_dims rd ty tx)"
  define gy0 gy1 gx0 gx1 where g: "gy0 = max (ty * TILE_Y) y0" "gy1 = min (ty * TILE_Y + rows) y1"
    "gx0 = max (tx * TILE_X) x0" "gx1 = min (tx * TILE_X + cols) x1"
  have e: "rows = tile_y.extent (hm_ny (hr_meta rd)) ty" "cols = tile_x.extent (hm_nx (hr_meta rd)) tx"
    by (simp_all add: rows_def cols_def tile_dims_extent)
  have "tx * TILE_X < x1" "x0 < tx * TILE_X + TILE_X"
    using t(3,4) b(3) less_eq_div_iff_mult_less_eq [OF tile_x.step_pos, of tx "x1 - 1"]
      div_less_iff_less_mult [OF tile_x.step_pos, of x0 "tx + 1"] by simp_all
  then have gx: "x0 \<le> gx0" "gx0 \<le> gx1" "gx1 \<le> x1" "gx0 = x0 \<or> gx0 = tx * TILE_X"
    using b(1,3) by (auto simp: g e tile_x.extent_def)
  have gy: "y0 \<le> gy0" "gy1 \<le> y1" by (simp_all add: g)
  define row where "row y = (case tile of
       Some tile \<Rightarrow> r_slice ((y - ty * TILE_Y) * cols + (gx0 - tx * TILE_X)) ((y - ty * TILE_Y) * cols + (gx1 - tx * TILE_X)) tile
     | None \<Rightarrow> Inr (replicate (gx1 - gx0) (cr_center r)))" for y
  define src where "src y = subslice ((y - ty * TILE_Y) * cols + (gx0 - tx * TILE_X)) ((y - ty * TILE_Y) * cols + (gx1 - tx * TILE_X)) values" for y
  have R: "row y = Inr (src y) \<and> length (src y) = gx1 - gx0 \<and>
        (\<forall>j < gx1 - gx0. src y ! j = F ((y - y0) * (x1 - x0) + (gx0 + j - x0)))"
    if y: "gy0 \<le> y" "y < gy1" for y
  proof -
    have ry: "ty * TILE_Y \<le> y" "y - ty * TILE_Y < rows" "y0 \<le> y" "y < y1" using y by (auto simp: g)
    have gc: "gx0 - tx * TILE_X \<le> gx1 - tx * TILE_X" "gx1 - tx * TILE_X \<le> cols" "tx * TILE_X \<le> gx0"
      using gx(2) by (auto simp: g)
    define base where "base = (y - ty * TILE_Y) * cols"
    have "base + cols \<le> rows * cols" using ry(2) mult_le_mono1 [of "y - ty * TILE_Y + 1" rows cols] by (simp add: base_def)
    then have fit: "base + (gx1 - tx * TILE_X) \<le> length values" using gc(2) len by (simp add: rows_def cols_def)
    have l: "length (src y) = gx1 - gx0" using fit gc by (simp add: src_def base_def [symmetric])
    have nth: "src y ! j = values ! (base + (gx0 + j - tx * TILE_X))" if "j < gx1 - gx0" for j
      using that fit gc by (simp add: src_def base_def [symmetric] nth_slice add.assoc)
    have "row y = Inr (src y)"
      using tile fit gc l
      by (cases tile) (auto simp: row_def src_def base_def [symmetric] r_slice_def subslice_ok_def intro!: nth_equalityI simp: nth_slice)
    moreover have "src y ! j = F ((y - y0) * (x1 - x0) + (gx0 + j - x0))" if j: "j < gx1 - gx0" for j
    proof -
      have c: "gx0 + j - tx * TILE_X < cols" using j gc by linarith
      have x: "tx * TILE_X + (gx0 + j - tx * TILE_X) = gx0 + j" "ty * TILE_Y + (y - ty * TILE_Y) = y" using gc ry by simp_all
      have "(gx0 + j) div TILE_X = tx" "y div TILE_Y = ty"
        using tile_x.piece_inside(1) [OF c [unfolded e]] tile_y.piece_inside(1) [OF ry(2) [unfolded e]] by (simp_all only: x)
      then have "F ((y - y0) * (x1 - x0) + (gx0 + j - x0)) = tile_cell rd values y (gx0 + j)"
        using ry gx j by (intro F) auto
      also have "\<dots> = values ! (base + (gx0 + j - tx * TILE_X))"
        using tile_row_cell [OF ry(2) [unfolded e] c [unfolded e], of "values"] by (simp only: x e base_def)
      finally show ?thesis using nth [OF j] by simp
    qed
    ultimately show ?thesis using l by blast
  qed
  have "r_fold (\<lambda>y values. r_bind (row y) (\<lambda>src.
        r_copy ((y - y0) * (x1 - x0) + (gx0 - x0)) ((y - y0) * (x1 - x0) + (gx1 - x0)) src values)) [gy0..<gy1] v =
     place_window_tile rd x0 y0 x1 y1 ((ty, tx, r), tile) v"
    using tile by (cases tile) (simp_all add: place_window_tile_def Let_def split_beta row_def g rows_def cols_def)
  moreover obtain v' where v': "r_fold (\<lambda>y values. r_bind (row y) (\<lambda>src.
        r_copy ((y - y0) * (x1 - x0) + (gx0 - x0)) ((y - y0) * (x1 - x0) + (gx1 - x0)) src values)) [gy0..<gy1] v = Inr v'"
      "filled ((y1 - y0) * (x1 - x0)) F
        (S \<union> (\<Union>y \<in> set [gy0..<gy1]. {(y - y0) * (x1 - x0) + (gx0 - x0) ..< (y - y0) * (x1 - x0) + (gx1 - x0)})) v'"
    using window_rows [OF v gx(1-3) gy R] by blast
  moreover have "filled ((y1 - y0) * (x1 - x0)) F (S \<union> window_part x0 y0 x1 y1 ty tx) v'"
    by (rule filled_mono [OF v'(2) Un_mono [OF subset_refl window_part_rows [OF b(1,2) g [unfolded e]]]])
  ultimately show ?thesis by (intro exI [of _ v']) simp
qed

text \<open>The decoded tiles of a window, and what the window must contain.\<close>

definition window_decode :: "read_env \<Rightarrow> hour_reader \<Rightarrow> rws_variable_meta \<Rightarrow> nat \<times> nat \<times> chunk_record \<Rightarrow> f32 list option rw_result" where
  "window_decode env rd var = (\<lambda>(ty, tx, r). if tile_shortcut r \<noteq> None then Inr None
     else r_bind (tile_values env rd var ty tx) (\<lambda>tile. Inr (Some tile)))"

definition window_of :: "read_env \<Rightarrow> hour_reader \<Rightarrow> rws_variable_meta \<Rightarrow> nat \<Rightarrow> nat \<Rightarrow> nat \<Rightarrow> nat \<Rightarrow> window_2d \<Rightarrow> bool" where
  "window_of env rd var x0 y0 x1 y1 w \<longleftrightarrow>
     w = \<lparr>w2_x0 = x0, w2_y0 = y0, w2_nx = x1 - x0, w2_ny = y1 - y0, w2_values = w2_values w\<rparr> \<and>
     length (w2_values w) = (y1 - y0) * (x1 - x0) \<and>
     (\<forall>y x. y0 \<le> y \<and> y < y1 \<and> x0 \<le> x \<and> x < x1 \<longrightarrow>
        cell_2d env rd var y x = Inr (w2_values w ! ((y - y0) * (x1 - x0) + (x - x0))))"

lemma r_map_zip:
  assumes "r_map f xs = Inr ys"
  shows "(x, y) \<in> set (zip xs ys) \<Longrightarrow> x \<in> set xs \<and> f x = Inr y" "x \<in> set xs \<Longrightarrow> \<exists>y. (x, y) \<in> set (zip xs ys)"
proof -
  have l: "length xs = length ys" "\<forall>(x, y) \<in> set (zip xs ys). f x = Inr y"
    using assms by (simp_all add: r_map_eq_Inr list_all2_iff)
  then show "(x, y) \<in> set (zip xs ys) \<Longrightarrow> x \<in> set xs \<and> f x = Inr y" by (auto dest: set_zip_leftD)
  show "x \<in> set xs \<Longrightarrow> \<exists>y. (x, y) \<in> set (zip xs ys)" using in_set_impl_in_set_zip1 [OF l(1)] by metis
qed

lemma window_cell_of_tile:
  assumes "0 < b" and "z0 < z1" and "z0 div b \<le> t" and "t \<le> (z1 - 1) div b"
  shows "\<exists>z. z0 \<le> z \<and> z < z1 \<and> z div b = (t::nat)"
proof (intro exI conjI)
  have "t * b \<le> z1 - 1" "z0 < t * b + b"
    using assms less_eq_div_iff_mult_less_eq [OF assms(1), of t "z1 - 1"] div_less_iff_less_mult [OF assms(1), of z0 "t + 1"] by simp_all
  then show "z0 \<le> max (t * b) z0" "max (t * b) z0 < z1" "max (t * b) z0 div b = t"
    using assms(1,2) by (auto simp: div_tile_bounds)
qed

text \<open>The tiles of the window and their records.\<close>

definition window_tiles :: "nat \<Rightarrow> nat \<Rightarrow> nat \<Rightarrow> nat \<Rightarrow> (nat \<times> nat) list" where
  "window_tiles x0 y0 x1 y1 =
     List.product [y0 div TILE_Y..<(y1 - 1) div TILE_Y + 1] [x0 div TILE_X..<(x1 - 1) div TILE_X + 1]"

definition window_records :: "hour_reader \<Rightarrow> rws_variable_meta \<Rightarrow> (nat \<times> nat) list \<Rightarrow> (nat \<times> nat \<times> chunk_record) list" where
  "window_records rd var = map (\<lambda>(ty, tx). (ty, tx, projr (find_chunk_record rd var KIND_TILE2D ty tx)))"

lemma window_tile_valid:
  assumes "x0 < x1" "x1 \<le> hm_nx (hr_meta rd)" "y0 < y1" "y1 \<le> hm_ny (hr_meta rd)" and "(ty, tx) \<in> set (window_tiles x0 y0 x1 y1)"
  shows "ty < div_ceil (hm_ny (hr_meta rd)) TILE_Y" "tx < div_ceil (hm_nx (hr_meta rd)) TILE_X"
    "y0 div TILE_Y \<le> ty" "ty \<le> (y1 - 1) div TILE_Y" "x0 div TILE_X \<le> tx" "tx \<le> (x1 - 1) div TILE_X"
proof -
  show t: "y0 div TILE_Y \<le> ty" "ty \<le> (y1 - 1) div TILE_Y" "x0 div TILE_X \<le> tx" "tx \<le> (x1 - 1) div TILE_X"
    using assms(5) by (auto simp: window_tiles_def less_Suc_eq_le)
  show "ty < div_ceil (hm_ny (hr_meta rd)) TILE_Y" "tx < div_ceil (hm_nx (hr_meta rd)) TILE_X"
    using t assms(1-4) tile_y.piece_of [of "y1 - 1" "hm_ny (hr_meta rd)"] tile_x.piece_of [of "x1 - 1" "hm_nx (hr_meta rd)"] by linarith+
qed

lemma window_record:
  assumes "reader_ok header rd" and "lookup_2d rd name = Inr var"
    and "x0 < x1" "x1 \<le> hm_nx (hr_meta rd)" "y0 < y1" "y1 \<le> hm_ny (hr_meta rd)"
    and "(ty, tx, r) \<in> set (window_records rd var (window_tiles x0 y0 x1 y1))"
  shows "find_chunk_record rd var KIND_TILE2D ty tx = Inr r" "unat (cr_tile_y r) = ty" "unat (cr_tile_x r) = tx"
    "record_valid (hr_meta rd) header (of_nat (length (as_slice (hr_bytes rd)))) var r"
    "tile_values env rd var ty tx = decode_tile env rd r (fst (tile_dims rd ty tx) * snd (tile_dims rd ty tx))"
    "(ty, tx) \<in> set (window_tiles x0 y0 x1 y1)"
proof -
  show m: "(ty, tx) \<in> set (window_tiles x0 y0 x1 y1)" using assms(7) by (auto simp: window_records_def)
  obtain r' where r': "find_chunk_record rd var KIND_TILE2D ty tx = Inr r'" "unat (cr_tile_y r') = ty" "unat (cr_tile_x r') = tx"
      "record_valid (hr_meta rd) header (of_nat (length (as_slice (hr_bytes rd)))) var r'"
    using surface_record [OF assms(1,2) window_tile_valid(1,2) [OF assms(3-6) m]] by metis
  then have "r' = r" using assms(7) by (auto simp: window_records_def)
  with r' show "find_chunk_record rd var KIND_TILE2D ty tx = Inr r" "unat (cr_tile_y r) = ty" "unat (cr_tile_x r) = tx"
    "record_valid (hr_meta rd) header (of_nat (length (as_slice (hr_bytes rd)))) var r"
    "tile_values env rd var ty tx = decode_tile env rd r (fst (tile_dims rd ty tx) * snd (tile_dims rd ty tx))"
    by (simp_all add: tile_values_def)
qed

text \<open>Once the tiles of a window are decoded, placing them gives the window.\<close>

lemma place_window_field:
  assumes ok: "reader_ok header rd" and var: "lookup_2d rd name = Inr var"
    and b: "x0 < x1" "x1 \<le> hm_nx (hr_meta rd)" "y0 < y1" "y1 \<le> hm_ny (hr_meta rd)"
    and dec: "r_map (window_decode env rd var) (window_records rd var (window_tiles x0 y0 x1 y1)) = Inr decoded"
  shows "\<exists>vs. r_fold (place_window_tile rd x0 y0 x1 y1) (zip (window_records rd var (window_tiles x0 y0 x1 y1)) decoded)
      (replicate ((y1 - y0) * (x1 - x0)) f32_NAN) = Inr vs \<and>
    window_of env rd var x0 y0 x1 y1 \<lparr>w2_x0 = x0, w2_y0 = y0, w2_nx = x1 - x0, w2_ny = y1 - y0, w2_values = vs\<rparr>"
proof -
  let ?jobs = "window_records rd var (window_tiles x0 y0 x1 y1)" and ?n = "(y1 - y0) * (x1 - x0)"
  define T where "T ty tx = projr (tile_values env rd var ty tx)" for ty tx
  define cell where "cell y x = tile_cell rd (T (y div TILE_Y) (x div TILE_X)) y x" for y x
  define F where "F i = cell (y0 + i div (x1 - x0)) (x0 + i mod (x1 - x0))" for i
  have F: "F ((y - y0) * (x1 - x0) + (x - x0)) = cell y x" if "y0 \<le> y" "x0 \<le> x" "x < x1" for y x
  proof -
    have "x - x0 < x1 - x0" using that by linarith
    then have "((y - y0) * (x1 - x0) + (x - x0)) div (x1 - x0) = y - y0" "((y - y0) * (x1 - x0) + (x - x0)) mod (x1 - x0) = x - x0"
      by simp_all
    then show ?thesis using that by (simp add: F_def)
  qed
  have T: "tile_values env rd var ty tx = Inr (T ty tx)" if j: "(ty, tx, r) \<in> set ?jobs" for ty tx r
  proof -
    obtain d where d: "window_decode env rd var (ty, tx, r) = Inr d" using r_map_member [OF dec j] by blast
    show ?thesis
    proof (cases "tile_shortcut r")
      case None
      then show ?thesis using d by (auto simp: window_decode_def r_bind_eq_Inr T_def)
    next
      case (Some v)
      then show ?thesis using window_record(5) [OF ok var b j] by (simp add: decode_tile_shortcut T_def)
    qed
  qed
  define C where "C = (\<lambda>((ty, tx, r :: chunk_record), d :: f32 list option). if cr_flags r AND FLAG_EMPTY \<noteq> 0 then {} else window_part x0 y0 x1 y1 ty tx)"
  have step: "\<exists>v'. place_window_tile rd x0 y0 x1 y1 z v = Inr v' \<and> filled ?n F (S \<union> C z) v'"
    if z: "z \<in> set (zip ?jobs decoded)" and v: "filled ?n F S v" for z S v
  proof -
    obtain ty tx r d where zz: "z = ((ty, tx, r), d)" by (metis prod.exhaust)
    have j: "(ty, tx, r) \<in> set ?jobs" "window_decode env rd var (ty, tx, r) = Inr d"
      using r_map_zip(1) [OF dec] z zz by blast+
    note w = window_record [OF ok var b j(1)]
    show ?thesis
    proof (cases "cr_flags r AND FLAG_EMPTY = 0")
      case False
      then have "d = None" using j(2) by (simp add: window_decode_def tile_shortcut_def)
      then show ?thesis using False v by (simp add: zz C_def place_window_tile_def Let_def split_beta)
    next
      case True
      have t: "case d of Some vs \<Rightarrow> vs = T ty tx | None \<Rightarrow> cr_flags r AND FLAG_EMPTY = 0 \<and>
          T ty tx = replicate (fst (tile_dims rd ty tx) * snd (tile_dims rd ty tx)) (cr_center r)"
        using j(2) True w(5) T [OF j(1)]
        by (cases "tile_shortcut r") (auto simp: window_decode_def r_bind_eq_Inr tile_shortcut_def decode_tile_def split: if_splits)
      have l: "length (T ty tx) = fst (tile_dims rd ty tx) * snd (tile_dims rd ty tx)"
        using tile_values_length [OF T [OF j(1)]] by (simp add: tile_dims_extent)
      show ?thesis
        using place_window_tile_fills [OF b(2,4,1,3) window_tile_valid(3-6) [OF b w(6)] _ l t v] True F
        by (simp add: zz C_def cell_def)
    qed
  qed
  have start: "filled ?n F {i. F i = f32_NAN} (replicate ?n f32_NAN)" by (simp add: filled_def)
  obtain vs where vs: "r_fold (place_window_tile rd x0 y0 x1 y1) (zip ?jobs decoded) (replicate ?n f32_NAN) = Inr vs"
      "filled ?n F ({i. F i = f32_NAN} \<union> (\<Union>z \<in> set (zip ?jobs decoded). C z)) vs"
    using filled_fold [OF start, where f = "place_window_tile rd x0 y0 x1 y1" and C = C] step by blast
  have "cell_2d env rd var y x = Inr (vs ! ((y - y0) * (x1 - x0) + (x - x0)))"
    if yx: "y0 \<le> y" "y < y1" "x0 \<le> x" "x < x1" for y x
  proof -
    define ty tx where "ty = y div TILE_Y" and "tx = x div TILE_X"
    have "y \<le> y1 - 1" "x \<le> x1 - 1" using yx by linarith+
    then have "(ty, tx) \<in> set (window_tiles x0 y0 x1 y1)"
      using yx div_le_mono [of y "y1 - 1" TILE_Y] div_le_mono [of x "x1 - 1" TILE_X]
      by (simp add: window_tiles_def ty_def tx_def less_Suc_eq_le div_le_mono del: upt_Suc)
    then obtain r where j: "(ty, tx, r) \<in> set ?jobs" unfolding window_records_def by force
    then obtain d where d: "((ty, tx, r), d) \<in> set (zip ?jobs decoded)" using r_map_zip(2) [OF dec] by blast
    let ?i = "(y - y0) * (x1 - x0) + (x - x0)"
    have "?i \<in> {i. F i = f32_NAN} \<union> (\<Union>z \<in> set (zip ?jobs decoded). C z)"
    proof (cases "cr_flags r AND FLAG_EMPTY = 0")
      case False
      then have "T ty tx = replicate (fst (tile_dims rd ty tx) * snd (tile_dims rd ty tx)) f32_NAN"
        using window_record(5) [OF ok var b j] T [OF j] by (simp add: decode_tile_def)
      then have "F ?i = f32_NAN"
        using F [of y x] yx b cell_offset [of y rd x] by (simp add: cell_def tile_cell_def ty_def tx_def)
      then show ?thesis by blast
    next
      case True
      have "?i \<in> window_part x0 y0 x1 y1 ty tx"
        unfolding window_part_def mem_Collect_eq using yx by (intro exI [of _ y] exI [of _ x]) (simp add: ty_def tx_def)
      with True have "?i \<in> C ((ty, tx, r), d)" by (simp add: C_def)
      with d show ?thesis by blast
    qed
    moreover have "?i < ?n" using plane_index_less [of "y - y0" "y1 - y0" "x - x0" "x1 - x0"] yx by linarith
    ultimately have "vs ! ?i = F ?i" using vs(2) by (simp add: filled_def)
    then show ?thesis using F [of y x] yx T [OF j] by (simp add: cell_2d_def cell_def ty_def tx_def)
  qed
  with vs show ?thesis by (simp add: window_of_def filled_def)
qed

lemma not_panics_tile_values:
  assumes "reader_ok header rd" and "lookup_2d rd name = Inr var"
    and "ty < div_ceil (hm_ny (hr_meta rd)) TILE_Y" and "tx < div_ceil (hm_nx (hr_meta rd)) TILE_X"
  shows "\<not> panics (tile_values env rd var ty tx)"
proof -
  obtain r where "find_chunk_record rd var KIND_TILE2D ty tx = Inr r" by (rule surface_record [OF assms])
  then show ?thesis by (simp add: tile_values_def not_panics_decode_tile)
qed

lemma window_decodes:
  assumes ok: "reader_ok header rd" and var: "lookup_2d rd name = Inr var"
    and b: "x0 < x1" "x1 \<le> hm_nx (hr_meta rd)" "y0 < y1" "y1 \<le> hm_ny (hr_meta rd)"
    and w: "window_of env rd var x0 y0 x1 y1 w" and j: "job \<in> set (window_records rd var (window_tiles x0 y0 x1 y1))"
  shows "\<exists>d. window_decode env rd var job = Inr d"
proof -
  obtain ty tx r where job: "job = (ty, tx, r)" by (cases job)
  note v = window_tile_valid [OF b window_record(6) [OF ok var b j [unfolded job]]]
  obtain y x where "y0 \<le> y" "y < y1" "y div TILE_Y = ty" "x0 \<le> x" "x < x1" "x div TILE_X = tx"
    using window_cell_of_tile [OF tile_y.step_pos b(3) v(3,4)] window_cell_of_tile [OF tile_x.step_pos b(1) v(5,6)] by blast
  then obtain t where "tile_values env rd var ty tx = Inr t" using w by (auto simp: window_of_def cell_2d_def r_bind_eq_Inr)
  then show ?thesis by (simp add: job window_decode_def)
qed

definition window_result :: "read_env \<Rightarrow> hour_reader \<Rightarrow> rws_variable_meta \<Rightarrow> nat \<Rightarrow> nat \<Rightarrow> nat \<Rightarrow> nat \<Rightarrow> window_2d rw_result" where
  "window_result env rd var x0 y0 x1 y1 =
     (let jobs = window_records rd var (window_tiles x0 y0 x1 y1)
      in r_bind (r_map (window_decode env rd var) jobs) (\<lambda>decoded.
         r_bind (r_fold (place_window_tile rd x0 y0 x1 y1) (zip jobs decoded) (replicate ((y1 - y0) * (x1 - x0)) f32_NAN)) (\<lambda>vs.
         Inr \<lparr>w2_x0 = x0, w2_y0 = y0, w2_nx = x1 - x0, w2_ny = y1 - y0, w2_values = vs\<rparr>)))"

lemma window_of_unique:
  assumes "window_of env rd var x0 y0 x1 y1 w" and "window_of env rd var x0 y0 x1 y1 w'" and "x0 < x1"
  shows "w = w'"
proof -
  have "w2_values w = w2_values w'"
  proof (rule nth_equalityI)
    fix i assume "i < length (w2_values w)"
    then have i: "i < (y1 - y0) * (x1 - x0)" using assms(1) by (simp add: window_of_def)
    define y x where "y = y0 + i div (x1 - x0)" and "x = x0 + i mod (x1 - x0)"
    have "i div (x1 - x0) < y1 - y0" "i mod (x1 - x0) < x1 - x0" using i assms(3) by (simp_all add: less_mult_imp_div_less)
    then have yx: "y0 \<le> y \<and> y < y1 \<and> x0 \<le> x \<and> x < x1" unfolding y_def x_def by linarith
    moreover have "(y - y0) * (x1 - x0) + (x - x0) = i" unfolding y_def x_def add_diff_cancel_left' by (rule div_mult_mod_eq)
    ultimately show "w2_values w ! i = w2_values w' ! i" using assms(1,2) unfolding window_of_def by (metis Inr_inject)
  qed (use assms in \<open>simp add: window_of_def\<close>)
  moreover obtain a b c d e a' b' c' d' e' where "w = \<lparr>w2_x0 = a, w2_y0 = b, w2_nx = c, w2_ny = d, w2_values = e\<rparr>"
      "w' = \<lparr>w2_x0 = a', w2_y0 = b', w2_nx = c', w2_ny = d', w2_values = e'\<rparr>"
    by (cases w, cases w') blast
  ultimately show ?thesis using assms(1,2) by (simp add: window_of_def)
qed

lemma window_result_correct:
  assumes ok: "reader_ok header rd" and var: "lookup_2d rd name = Inr var"
    and b: "x0 < x1" "x1 \<le> hm_nx (hr_meta rd)" "y0 < y1" "y1 \<le> hm_ny (hr_meta rd)"
  shows "window_result env rd var x0 y0 x1 y1 = Inr w \<longleftrightarrow> window_of env rd var x0 y0 x1 y1 w"
    and "\<not> panics (window_result env rd var x0 y0 x1 y1)"
proof -
  let ?jobs = "window_records rd var (window_tiles x0 y0 x1 y1)"
  let ?fold = "\<lambda>decoded. r_fold (place_window_tile rd x0 y0 x1 y1) (zip ?jobs decoded) (replicate ((y1 - y0) * (x1 - x0)) f32_NAN)"
  have place: "\<exists>vs. ?fold decoded = Inr vs \<and>
      window_of env rd var x0 y0 x1 y1 \<lparr>w2_x0 = x0, w2_y0 = y0, w2_nx = x1 - x0, w2_ny = y1 - y0, w2_values = vs\<rparr>"
    if "r_map (window_decode env rd var) ?jobs = Inr decoded" for decoded
    by (rule place_window_field [OF ok var b that])
  have forward: "window_of env rd var x0 y0 x1 y1 w" if "window_result env rd var x0 y0 x1 y1 = Inr w" for w
    using that place by (auto simp: window_result_def Let_def r_bind_eq_Inr)
  show "window_result env rd var x0 y0 x1 y1 = Inr w \<longleftrightarrow> window_of env rd var x0 y0 x1 y1 w"
  proof
    assume w: "window_of env rd var x0 y0 x1 y1 w"
    have m: "r_map (window_decode env rd var) ?jobs = Inr (map (\<lambda>x. projr (window_decode env rd var x)) ?jobs)"
      by (rule r_map_Inr) (use window_decodes [OF ok var b w] in fastforce)
    obtain w' where w': "window_result env rd var x0 y0 x1 y1 = Inr w'"
      using place [OF m] by (auto simp: window_result_def Let_def m)
    then show "window_result env rd var x0 y0 x1 y1 = Inr w"
      using window_of_unique [OF forward [OF w'] w b(1)] by simp
  qed (rule forward)
  have dec: "\<not> panics (window_decode env rd var job)" if j: "job \<in> set ?jobs" for job
  proof -
    obtain ty tx r where job: "job = (ty, tx, r)" by (cases job)
    note v = window_tile_valid [OF b window_record(6) [OF ok var b j [unfolded job]]]
    show ?thesis unfolding window_decode_def job prod.case
      by (intro not_panics_intros not_panics_tile_values [OF ok var v(1,2)]) simp_all
  qed
  show "\<not> panics (window_result env rd var x0 y0 x1 y1)"
  proof (cases "r_map (window_decode env rd var) ?jobs")
    case (Inl e)
    moreover have "\<not> panics (r_map (window_decode env rd var) ?jobs)" using not_panics_r_map dec by blast
    ultimately show ?thesis by (simp add: window_result_def Let_def panics_def)
  next
    case (Inr decoded)
    then show ?thesis using place [OF Inr] by (auto simp: window_result_def Let_def)
  qed
qed

end
