(* ===== verification/Rw_Surface.thy ===== *)
theory Rw_Surface
  imports Rw_Read2D_Reads
begin

text \<open>
  The surface reads as a whole: window and tile reads, the visiting loop, the states an
  open reader goes through, interleaved reads of several threads, and the properties of
  the surface part of the reader.
\<close>

unbundle bit_operations_syntax

section \<open>Window reads\<close>

lemma window_records_found:
  assumes "reader_ok header rd" and "lookup_2d rd name = Inr var"
    and "x0 < x1" "x1 \<le> hm_nx (hr_meta rd)" "y0 < y1" "y1 \<le> hm_ny (hr_meta rd)"
  shows "r_map (\<lambda>(ty, tx). r_bind (find_chunk_record rd var KIND_TILE2D ty tx) (\<lambda>record. Inr (ty, tx, record)))
      (window_tiles x0 y0 x1 y1) = Inr (window_records rd var (window_tiles x0 y0 x1 y1))"
proof -
  have "find_chunk_record rd var KIND_TILE2D ty tx = Inr (projr (find_chunk_record rd var KIND_TILE2D ty tx))"
    if "(ty, tx) \<in> set (window_tiles x0 y0 x1 y1)" for ty tx
    by (rule surface_record [OF assms(1,2) window_tile_valid(1,2) [OF assms(3-6) that]]) simp
  then show ?thesis unfolding window_records_def by (intro r_map_Inr) (auto simp: r_bind_eq_Inr)
qed

text \<open>The sizes the code checks for overflow are those of parts of the grid.\<close>

lemma window_sizes:
  assumes "reader_ok header rd" and b: "x0 < x1" "x1 \<le> hm_nx (hr_meta rd)" "y0 < y1" "y1 \<le> hm_ny (hr_meta rd)"
  shows "usize_checked_mul (y1 - y0) (x1 - x0) = Some ((y1 - y0) * (x1 - x0))"
    "\<exists>n. usize_checked_mul ((y1 - 1) div TILE_Y - y0 div TILE_Y + 1) ((x1 - 1) div TILE_X - x0 div TILE_X + 1) = Some n"
proof -
  have "(y1 - y0) * (x1 - x0) \<le> hm_ny (hr_meta rd) * hm_nx (hr_meta rd)" using b by (intro mult_le_mono) auto
  with reader_grid(3) [OF assms(1)] show "usize_checked_mul (y1 - y0) (x1 - x0) = Some ((y1 - y0) * (x1 - x0))"
    by (simp add: usize_checked_mul_eq_Some)
  have "(y1 - 1) div TILE_Y - y0 div TILE_Y + 1 \<le> div_ceil (hm_ny (hr_meta rd)) TILE_Y"
    using b tile_y.piece_of [of "y1 - 1" "hm_ny (hr_meta rd)"] by linarith
  moreover have "(x1 - 1) div TILE_X - x0 div TILE_X + 1 \<le> div_ceil (hm_nx (hr_meta rd)) TILE_X"
    using b tile_x.piece_of [of "x1 - 1" "hm_nx (hr_meta rd)"] by linarith
  ultimately have "((y1 - 1) div TILE_Y - y0 div TILE_Y + 1) * ((x1 - 1) div TILE_X - x0 div TILE_X + 1) \<le>
      div_ceil (hm_ny (hr_meta rd)) TILE_Y * div_ceil (hm_nx (hr_meta rd)) TILE_X" by (rule mult_le_mono)
  with reader_grid(6) [OF assms(1)]
  show "\<exists>n. usize_checked_mul ((y1 - 1) div TILE_Y - y0 div TILE_Y + 1) ((x1 - 1) div TILE_X - x0 div TILE_X + 1) = Some n"
    by (auto simp: usize_checked_mul_eq_Some)
qed

lemma read_window_dense:
  assumes ok: "reader_ok header rd" and var: "lookup_2d rd name = Inr var"
    and x: "x1 = min x1' (hm_nx (hr_meta rd))" and y: "y1 = min y1' (hm_ny (hr_meta rd))"
    and b: "x0 < x1" "y0 < y1" and big: "\<not> (x1 - x0 = 1 \<and> y1 - y0 = 1)"
  shows "pure_read env rd (read_window_2d env name x0 y0 x1' y1') (window_result env rd var x0 y0 x1 y1)"
proof -
  have bb: "x0 < x1" "x1 \<le> hm_nx (hr_meta rd)" "y0 < y1" "y1 \<le> hm_ny (hr_meta rd)" using b x y by simp_all
  let ?jobs = "window_records rd var (window_tiles x0 y0 x1 y1)"
  let ?decode = "\<lambda>(ty, tx, record).
      if cr_flags record AND FLAG_EMPTY \<noteq> 0 \<or> cr_flags record AND FLAG_CONSTANT \<noteq> 0 \<and> cr_len record = 0
      then s_lift (Inr None)
      else let (rows, cols) = tile_dims rd ty tx
           in s_bind (decode_tile_cached env var record (rows * cols)) (\<lambda>tile. s_lift (Inr (Some tile)))"
  have dec: "pure_read env rd (?decode job) (window_decode env rd var job)" if j: "job \<in> set ?jobs" for job
  proof -
    obtain ty tx r where job: "job = (ty, tx, r)" by (cases job)
    note w = window_record [OF ok var bb j [unfolded job]]
    show ?thesis
    proof (cases "tile_shortcut r")
      case None
      then show ?thesis
        by (auto simp: job window_decode_def tile_shortcut_def Let_def split_beta split: if_splits
            intro!: pure_read_bind pure_read_lift decode_tile_cached_pure [OF ok var w(4,2,3,5)])
    next
      case (Some v)
      then show ?thesis
        by (auto simp: job window_decode_def tile_shortcut_def split: if_splits intro: pure_read_lift)
    qed
  qed
  obtain n where n: "usize_checked_mul ((y1 - 1) div TILE_Y - y0 div TILE_Y + 1) ((x1 - 1) div TILE_X - x0 div TILE_X + 1) = Some n"
    using window_sizes(2) [OF ok bb] by blast
  have "pure_read env rd (s_bind (s_map ?decode ?jobs) (\<lambda>decoded.
          s_bind (s_lift (r_fold (place_window_tile rd x0 y0 x1 y1) (zip ?jobs decoded) (replicate ((y1 - y0) * (x1 - x0)) f32_NAN))) (\<lambda>vs.
          s_lift (Inr \<lparr>w2_x0 = x0, w2_y0 = y0, w2_nx = x1 - x0, w2_ny = y1 - y0, w2_values = vs\<rparr>))))
      (window_result env rd var x0 y0 x1 y1)"
    unfolding window_result_def Let_def [of ?jobs] by (intro pure_read_bind pure_read_map pure_read_lift dec)
  then show ?thesis
    by (rule pure_read_cong)
      (use window_records_found [OF ok var bb] window_sizes(1) [OF ok bb] n var b big in
        \<open>auto simp: read_window_2d_def Let_def x [symmetric] y [symmetric] ok_or_def window_tiles_def cong: if_cong simp del: upt_Suc\<close>)
qed

lemma read_window_pure:
  assumes ok: "reader_ok header rd" and var: "lookup_2d rd name = Inr var"
    and x: "x1 = min x1' (hm_nx (hr_meta rd))" and y: "y1 = min y1' (hm_ny (hr_meta rd))"
    and b: "x0 < x1" "y0 < y1"
  shows "\<exists>res. pure_read env rd (read_window_2d env name x0 y0 x1' y1') res \<and>
    (\<forall>w. res = Inr w \<longleftrightarrow> window_of env rd var x0 y0 x1 y1 w) \<and> \<not> panics res"
proof (cases "x1 - x0 = 1 \<and> y1 - y0 = 1")
  case True
  let ?res = "r_bind (cell_2d env rd var y0 x0) (\<lambda>v. Inr \<lparr>w2_x0 = x0, w2_y0 = y0, w2_nx = 1, w2_ny = 1, w2_values = [v]\<rparr>)"
  have in_grid: "x0 < hm_nx (hr_meta rd)" "y0 < hm_ny (hr_meta rd)" using b x y by simp_all
  have "pure_read env rd (read_point_2d env name x0 y0) (cell_2d env rd var y0 x0)"
    using read_point_pure [OF ok, of env name x0 y0] var in_grid by simp
  then have "pure_read env rd (s_bind (read_point_2d env name x0 y0) (\<lambda>v.
      s_lift (Inr \<lparr>w2_x0 = x0, w2_y0 = y0, w2_nx = 1, w2_ny = 1, w2_values = [v]\<rparr>))) ?res"
    by (intro pure_read_bind pure_read_lift)
  then have "pure_read env rd (read_window_2d env name x0 y0 x1' y1') ?res"
    by (rule pure_read_cong) (use True var b in \<open>simp add: read_window_2d_def Let_def x [symmetric] y [symmetric]\<close>)
  moreover have "?res = Inr w \<longleftrightarrow> window_of env rd var x0 y0 x1 y1 w" for w
  proof -
    have "x1 = x0 + 1" "y1 = y0 + 1" using True b by auto
    then show ?thesis
      by (cases w) (auto simp: window_of_def r_bind_eq_Inr length_Suc_conv less_Suc_eq_le)
  qed
  moreover have "\<not> panics ?res"
  proof -
    have "\<not> panics (tile_values env rd var (y0 div TILE_Y) (x0 div TILE_X))"
      by (intro not_panics_tile_values [OF ok var] tile_y.piece_of tile_x.piece_of in_grid)
    then show ?thesis unfolding cell_2d_def by (intro not_panics_intros) simp_all
  qed
  ultimately show ?thesis by blast
next
  case False
  have bb: "x0 < x1" "x1 \<le> hm_nx (hr_meta rd)" "y0 < y1" "y1 \<le> hm_ny (hr_meta rd)" using b x y by simp_all
  show ?thesis
    using read_window_dense [OF ok var x y b False] window_result_correct [OF ok var bb] by blast
qed

section \<open>Tile reads\<close>

definition tile_geom :: "hour_reader \<Rightarrow> nat \<Rightarrow> nat \<Rightarrow> tile_geometry_2d" where
  "tile_geom rd ty tx = \<lparr>tg_tile_y = ty, tg_tile_x = tx, tg_x0 = tx * TILE_X, tg_y0 = ty * TILE_Y,
     tg_nx = snd (tile_dims rd ty tx), tg_ny = fst (tile_dims rd ty tx)\<rparr>"

text \<open>The tile a read returns, from the record and the decoded values.\<close>

definition surface_tile :: "read_env \<Rightarrow> hour_reader \<Rightarrow> rws_variable_meta \<Rightarrow> nat \<Rightarrow> nat \<Rightarrow> tile_2d rw_result" where
  "surface_tile env rd var ty tx =
     r_bind (find_chunk_record rd var KIND_TILE2D ty tx) (\<lambda>r.
     r_bind (tile_values env rd var ty tx) (\<lambda>vals.
     Inr \<lparr>t2_geometry = tile_geom rd ty tx, t2_data =
       (if cr_flags r AND FLAG_EMPTY \<noteq> 0 then Tile_Empty
        else if cr_flags r AND FLAG_CONSTANT \<noteq> 0 \<and> cr_len r = 0 then Tile_Constant (cr_center r) else Tile_Dense vals)\<rparr>))"

lemma surface_tile_frame [simp]: "surface_tile env (rd\<lparr>hr_tile_cache := c\<rparr>) = surface_tile env rd"
  by (simp add: fun_eq_iff surface_tile_def tile_geom_def)

lemma read_tile_for_var_pure:
  assumes ok: "reader_ok header rd" and var: "lookup_2d rd name = Inr var"
    and t: "ty < div_ceil (hm_ny (hr_meta rd)) TILE_Y" "tx < div_ceil (hm_nx (hr_meta rd)) TILE_X"
  shows "pure_read env rd (read_tile_2d_for_var env var (tile_geom rd ty tx)) (surface_tile env rd var ty tx)"
proof -
  obtain r where r: "find_chunk_record rd var KIND_TILE2D ty tx = Inr r" "unat (cr_tile_y r) = ty" "unat (cr_tile_x r) = tx"
      "record_valid (hr_meta rd) header (of_nat (length (as_slice (hr_bytes rd)))) var r"
    using surface_record [OF ok var t] by metis
  have n: "tile_cell_count (tile_geom rd ty tx) = fst (tile_dims rd ty tx) * snd (tile_dims rd ty tx)"
    by (simp add: tile_cell_count_def tile_geom_def)
  have tv: "tile_values env rd var ty tx = decode_tile env rd r (tile_cell_count (tile_geom rd ty tx))"
    using r(1) by (simp add: tile_values_def n)
  show ?thesis
  proof (cases "tile_shortcut r")
    case None
    have "pure_read env rd
        (s_bind (decode_tile_cached env var r (tile_cell_count (tile_geom rd ty tx))) (\<lambda>vals.
          s_lift (Inr \<lparr>t2_geometry = tile_geom rd ty tx, t2_data = Tile_Dense vals\<rparr>)))
        (surface_tile env rd var ty tx)"
      using None r(1) unfolding surface_tile_def
      by (auto simp: tile_shortcut_def split: if_splits
          intro!: pure_read_bind pure_read_lift decode_tile_cached_pure [OF ok var r(4,2,3) tv])
    then show ?thesis
      by (rule pure_read_cong) (use None r(1) in \<open>auto simp: read_tile_2d_for_var_def tile_geom_def tile_shortcut_def
          s_bind_def s_lift_def split: if_splits prod.splits sum.splits\<close>)
  next
    case (Some v)
    show ?thesis
      by (rule pure_read_cong [OF pure_read_lift])
        (use Some r(1) tv in \<open>auto simp: read_tile_2d_for_var_def surface_tile_def tile_geom_def decode_tile_shortcut
          tile_shortcut_def split: if_splits\<close>)
  qed
qed

lemma read_tile_pure:
  assumes ok: "reader_ok header rd" and var: "lookup_2d rd name = Inr var"
    and t: "ty < div_ceil (hm_ny (hr_meta rd)) TILE_Y" "tx < div_ceil (hm_nx (hr_meta rd)) TILE_X"
  shows "pure_read env rd (read_tile_2d env name ty tx) (surface_tile env rd var ty tx)"
proof -
  have "ty * TILE_Y < hm_ny (hr_meta rd)" "tx * TILE_X < hm_nx (hr_meta rd)" using tile_of_cell [OF t] .
  then have "tile_geometry rd ty tx = Inr (tile_geom rd ty tx)"
    using t reader_grid(4,5) [OF ok]
    by (simp add: tile_geometry_def tile_geom_def tile_dims_def ok_or_def usize_checked_mul_def)
  moreover have "tile_geometry (rd\<lparr>hr_tile_cache := c\<rparr>) = tile_geometry rd" for c by (simp add: fun_eq_iff tile_geometry_def)
  ultimately show ?thesis
    by (intro pure_read_cong [OF read_tile_for_var_pure [OF ok var t]]) (simp add: read_tile_2d_def var)
qed

text \<open>Reading a tile by position gives the cells of the field.\<close>

lemma surface_tile_get:
  assumes "surface_tile env rd var ty tx = Inr t"
  shows "t2_geometry t = tile_geom rd ty tx"
    and "row < tg_ny (t2_geometry t) \<Longrightarrow> col < tg_nx (t2_geometry t) \<Longrightarrow>
      \<exists>v. tile_get t row col = Some v \<and> cell_2d env rd var (ty * TILE_Y + row) (tx * TILE_X + col) = Inr v"
proof -
  obtain r vals where r: "find_chunk_record rd var KIND_TILE2D ty tx = Inr r" and vals: "tile_values env rd var ty tx = Inr vals"
      and t: "t = \<lparr>t2_geometry = tile_geom rd ty tx, t2_data =
       (if cr_flags r AND FLAG_EMPTY \<noteq> 0 then Tile_Empty
        else if cr_flags r AND FLAG_CONSTANT \<noteq> 0 \<and> cr_len r = 0 then Tile_Constant (cr_center r) else Tile_Dense vals)\<rparr>"
    using assms by (auto simp: surface_tile_def r_bind_eq_Inr)
  then show g: "t2_geometry t = tile_geom rd ty tx" by simp
  assume "row < tg_ny (t2_geometry t)" "col < tg_nx (t2_geometry t)"
  then have b: "row < tile_y.extent (hm_ny (hr_meta rd)) ty" "col < tile_x.extent (hm_nx (hr_meta rd)) tx"
    by (simp_all add: g tile_geom_def tile_dims_extent)
  define n where "n = fst (tile_dims rd ty tx) * snd (tile_dims rd ty tx)"
  let ?i = "row * snd (tile_dims rd ty tx) + col"
  have i: "?i < n" using plane_index_less [OF b] by (simp add: n_def tile_dims_extent)
  have cell: "cell_2d env rd var (ty * TILE_Y + row) (tx * TILE_X + col) = Inr (vals ! ?i)"
    using tile_y.piece_inside(1) [OF b(1)] tile_x.piece_inside(1) [OF b(2)] tile_row_cell [OF b, of vals] vals
    by (simp add: cell_2d_def tile_dims_extent)
  have d: "decode_tile env rd r n = Inr vals" using r vals by (simp add: tile_values_def n_def)
  have "tile_get t row col = Some (vals ! ?i)"
  proof (cases "tile_shortcut r")
    case None
    then show ?thesis using b i decode_tile_length [OF d]
      by (auto simp: t tile_get_def tile_geom_def tile_shortcut_def tile_dims_extent split: if_splits)
  next
    case (Some v)
    then have "vals = replicate n v" using d by (simp add: decode_tile_shortcut)
    then show ?thesis using Some b i
      by (auto simp: t tile_get_def tile_geom_def tile_shortcut_def tile_dims_extent split: if_splits)
  qed
  with cell show "\<exists>v. tile_get t row col = Some v \<and> cell_2d env rd var (ty * TILE_Y + row) (tx * TILE_X + col) = Inr v"
    by blast
qed

section \<open>Visiting the tiles\<close>

definition tile_iter :: "hour_reader \<Rightarrow> nat \<Rightarrow> tiles_2d_iter" where
  "tile_iter rd k =
     (let tiles_y = div_ceil (hm_ny (hr_meta rd)) TILE_Y; tiles_x = div_ceil (hm_nx (hr_meta rd)) TILE_X
      in \<lparr>ti_grid_nx = hm_nx (hr_meta rd), ti_grid_ny = hm_ny (hr_meta rd), ti_tiles_x = tiles_x, ti_tiles_y = tiles_y,
          ti_next = k, ti_tile_count = tiles_y * tiles_x\<rparr>)"

lemma tiles_for_var:
  assumes ok: "reader_ok header rd" and var: "lookup_2d rd name = Inr var"
  shows "tiles_2d_for_var rd var = Inr (tile_iter rd 0)"
proof -
  note v = surface_variable [OF var]
  obtain a b where "hr_var_ranges rd (vm_id var) = Some (a, b)"
      "b - a = chunks_y (hr_meta rd) var * chunks_x (hr_meta rd) var"
    by (rule variable_run [OF ok v(1)])
  then show ?thesis
    using reader_grid(6) [OF ok] v(2)
    by (simp add: tiles_2d_for_var_def tile_iter_def Let_def ok_or_def usize_checked_mul_def chunk_count_cases)
qed

lemma tiles_next_iter:
  assumes "k < div_ceil (hm_ny (hr_meta rd)) TILE_Y * div_ceil (hm_nx (hr_meta rd)) TILE_X"
  shows "tiles_next (tile_iter rd k) =
    Some (tile_geom rd (k div div_ceil (hm_nx (hr_meta rd)) TILE_X) (k mod div_ceil (hm_nx (hr_meta rd)) TILE_X), tile_iter rd (Suc k))"
  using assms by (simp add: tiles_next_def tile_iter_def tile_geom_def tile_dims_def Let_def)

text \<open>Row-major order as ordinals.\<close>

lemma product_upt: "List.product [0..<m] [0..<n] = map (\<lambda>k. (k div n, k mod n)) [0..<m * n]"
proof (induction m)
  case (Suc m)
  have "List.product (xs @ ys) zs = List.product xs zs @ List.product ys zs" for xs ys :: "nat list" and zs :: "nat list"
    by (induction xs) simp_all
  moreover have "[0..<Suc m * n] = [0..<m * n] @ map (\<lambda>k. k + m * n) [0..<n]"
    using upt_add_eq_append [of 0 "m * n" n] by (simp add: map_add_upt add.commute)
  ultimately show ?case using Suc by simp
qed simp

lemma visit_loop_returns:
  assumes ok: "reader_ok header rd" and var: "lookup_2d rd name = Inr var"
    and n: "n = div_ceil (hm_ny (hr_meta rd)) TILE_Y * div_ceil (hm_nx (hr_meta rd)) TILE_X" and tx: "w = div_ceil (hm_nx (hr_meta rd)) TILE_X"
  shows "k \<le> n \<Longrightarrow> reader_inv env (rd\<lparr>hr_tile_cache := c\<rparr>) \<Longrightarrow>
    \<exists>c'. visit_loop env var visitor (tile_iter rd k) s (rd\<lparr>hr_tile_cache := c\<rparr>) =
      Some (r_fold (\<lambda>j s. r_bind (surface_tile env rd var (j div w) (j mod w)) (\<lambda>t. visitor t s)) [k..<n] s, rd\<lparr>hr_tile_cache := c'\<rparr>) \<and>
      reader_inv env (rd\<lparr>hr_tile_cache := c'\<rparr>)"
proof (induction "n - k" arbitrary: k s c)
  case 0
  then have "tiles_next (tile_iter rd k) = None" by (simp add: tiles_next_def tile_iter_def n Let_def)
  with 0 show ?case by (subst visit_loop.simps) auto
next
  case (Suc m)
  then have k: "k < n" by simp
  have "k div w < div_ceil (hm_ny (hr_meta rd)) TILE_Y" "k mod w < div_ceil (hm_nx (hr_meta rd)) TILE_X"
    using k unfolding n tx by (simp_all add: less_mult_imp_div_less) (metis gr_zeroI mod_less_divisor mult_0_right not_less_zero)
  from read_tile_for_var_pure [OF ok var this] obtain c1 where
    c1: "read_tile_2d_for_var env var (tile_geom rd (k div w) (k mod w)) (rd\<lparr>hr_tile_cache := c\<rparr>) =
        (surface_tile env rd var (k div w) (k mod w), rd\<lparr>hr_tile_cache := c1\<rparr>)" "reader_inv env (rd\<lparr>hr_tile_cache := c1\<rparr>)"
    using Suc.prems(2) unfolding pure_read_def by blast
  have nx: "tiles_next (tile_iter rd k) = Some (tile_geom rd (k div w) (k mod w), tile_iter rd (Suc k))"
    using tiles_next_iter [of k rd] k by (simp add: n tx)
  have up: "[k..<n] = k # [Suc k..<n]" using k by (rule upt_conv_Cons)
  show ?case
  proof (cases "r_bind (surface_tile env rd var (k div w) (k mod w)) (\<lambda>t. visitor t s)")
    case (Inl e)
    then show ?thesis
      using c1 by (subst visit_loop.simps) (auto simp: nx up split: sum.splits)
  next
    case (Inr s')
    then obtain t where t: "surface_tile env rd var (k div w) (k mod w) = Inr t" "visitor t s = Inr s'"
      by (auto simp: r_bind_eq_Inr)
    have "m = n - Suc k" "Suc k \<le> n" using Suc.hyps(2) k by simp_all
    from Suc.hyps(1) [OF this c1(2), of s'] t c1(1) show ?thesis
      by (subst visit_loop.simps) (simp add: nx up)
  qed
qed

lemma visit_tiles_result:
  assumes inv: "reader_inv env rd" and var: "lookup_2d rd name = Inr var"
  shows "\<exists>c. visit_tiles_2d env name visitor s rd =
      Some (r_fold (\<lambda>(ty, tx) s. r_bind (surface_tile env rd var ty tx) (\<lambda>t. visitor t s))
        (List.product [0..<div_ceil (hm_ny (hr_meta rd)) TILE_Y] [0..<div_ceil (hm_nx (hr_meta rd)) TILE_X]) s, rd\<lparr>hr_tile_cache := c\<rparr>) \<and>
      reader_inv env (rd\<lparr>hr_tile_cache := c\<rparr>)"
proof -
  obtain header where ok: "reader_ok header rd" using inv by (auto simp: reader_inv_def)
  have fold_map: "r_fold f (map g xs) = r_fold (\<lambda>x. f (g x)) xs" for f g xs by (induction xs) (rule ext, simp)+
  have "reader_inv env (rd\<lparr>hr_tile_cache := hr_tile_cache rd\<rparr>)" using inv by simp
  from visit_loop_returns [OF ok var refl refl le0 this, of visitor s] show ?thesis
    by (simp add: visit_tiles_2d_def var tiles_for_var [OF ok var] product_upt fold_map)
qed

end
