(* ===== verification/Rw_Stored.thy ===== *)
theory Rw_Stored
  imports Rw_Lookup
begin

text \<open>
  Well-formed files open: a file at rest whose sections satisfy the index invariant is
  accepted by \<open>open_with_tile_cache_bytes\<close> and gives back its metadata and index. A
  small dense file serves as a concrete input.
\<close>

section \<open>Files at rest\<close>

definition stored_file :: "nat \<Rightarrow> u8 list \<Rightarrow> opened_file" where
  "stored_file handle data = \<lparr>fl_handle = handle, fl_len = of_nat (length data), fl_preflight = data,
     fl_map = Some data, fl_reread = data\<rparr>"

lemma stored_file_opens:
  assumes h: "h = for_layout (of_nat (length mb)) (of_nat (length rs))"
    and mb: "length mb \<le> 2 ^ 24" and len: "length (hour_file mb rs payload) \<le> 2 ^ 36"
    and json: "from_json mb = Some meta" and vars: "length (hm_variables meta) \<le> 65536"
    and ix: "index_ok meta h (of_nat (length (hour_file mb rs payload))) rs"
    and cnt: "length rs \<le> 2 ^ 23"
  shows "\<exists>ranges. ranges_ok rs (length rs) ranges \<and>
    open_with_tile_cache_bytes from_json (Some (stored_file handle (hour_file mb rs payload))) cap =
      Inr \<lparr>hr_bytes = Mmap (hour_file mb rs payload), hr_source = handle, hr_meta = meta, hr_records = rs,
           hr_var_ranges = ranges, hr_tile_cache = cache_new cap\<rparr>"
proof -
  let ?data = "hour_file mb rs payload"
  obtain ranges where od: "open_data from_json ?data = Inr (meta, rs, ranges)" and ranges: "ranges_ok rs (length rs) ranges"
    using hour_file_opens [where from_json = from_json, OF assms] by blast
  from od obtain header where pv: "parse_and_validate_hour from_json ?data = Inr (header, meta)"
    by (auto simp: open_data_def r_bind_eq_Inr split: if_splits)
  then have p: "parse_header ?data = Inr header" "bounds_valid header (of_nat (length ?data))"
      "from_json (subslice 64 (64 + unat (hd_meta_len header)) ?data) = Some meta" "validate_hour_meta meta header = Inr ()"
    by (simp_all add: parse_and_validate_eq_Inr)
  have hl: "header_layout h"
  proof -
    have "length mb < 2 ^ 32" "length rs < 2 ^ 64" using mb cnt by simp_all
    then show ?thesis unfolding h using mb cnt by (intro for_layout_header_layout) (simp add: unat_of_nat)
  qed
  have "parse_header ?data = Inr h" using parse_pack_header [OF hl] by (simp add: hour_file_def h)
  with p(1) have hh: "header = h" by simp
  have ml: "unat (hd_meta_len h) = length mb" using mb by (simp add: h for_layout_def Let_def unat_of_nat)
  have u: "unat (of_nat (length ?data) :: u64) = length ?data" using len by (simp add: unat_of_nat)
  have "read_exact_at 0 HEADER_LEN ?data = Inr (pack_header h)"
    by (simp add: read_exact_at_def HEADER_LEN_def hour_file_def subslice_def h)
  moreover have "parse_header (pack_header h) = Inr h" using parse_pack_header [OF hl, of "[]"] by simp
  moreover have "read_exact_at HEADER_LEN (unat (hd_meta_len h)) ?data = Inr (subslice 64 (64 + unat (hd_meta_len h)) ?data)"
    using ml by (simp add: read_exact_at_def HEADER_LEN_def length_hour_file)
  moreover have "validate_header_bounds h (of_nat (length ?data)) = Inr ()"
    using p(2) hh by (simp add: validate_header_bounds_eq_Inr)
  moreover have "\<not> (of_nat (length ?data) :: u64) < of_nat HEADER_LEN" "\<not> (of_nat (length ?data) :: u64) > MAX_HOUR_FILE_LEN"
    using u len by (simp_all add: word_less_nat_alt HEADER_LEN_def MAX_HOUR_FILE_LEN_def length_hour_file)
  ultimately have "open_bytes from_json (Some (stored_file handle ?data)) = Inr (Mmap ?data, handle)"
    using p(3,4) hh by (simp add: open_bytes_def stored_file_def parse_hour_meta_def ok_or_def Let_def)
  with od ranges show ?thesis by (auto simp: open_eq)
qed

section \<open>A small dense file\<close>

text \<open>
  A grid of one row and three columns with one surface variable, stored as one dense tile;
  the stand-in for the compressor keeps the bytes.
\<close>

definition dense_meta :: rws_hour_meta where
  "dense_meta = sample_meta\<lparr>hm_nx := 3\<rparr>"

definition dense_values :: "f32 list" where
  "dense_values = [0x3F800000, 0x40000000, 0x7FC00000]"

definition dense_record :: chunk_record where
  "dense_record = \<lparr>cr_var_id = 7, cr_kind = KIND_TILE2D, cr_flags = FLAG_HAS_MISSING, cr_tile_y = 0, cr_tile_x = 0,
     cr_offset = 128, cr_len = 12, cr_raw_len = 12, cr_center = 0, cr_scale = 0,
     cr_min = 0x3F800000, cr_max = 0x40000000, cr_valid_count = 2\<rparr>"

definition dense_file :: "u8 list" where
  "dense_file = hour_file [] [dense_record] (concat (map u32_to_le dense_values))"

lemma dense_meta_simps [simp]:
  "hm_nx dense_meta = 3" "hm_ny dense_meta = 1" "hm_variables dense_meta = [sample_variable]"
  "vm_kind sample_variable = ''surface2d''" "vm_id sample_variable = 7" "vm_name sample_variable = ''t2m''"
  by (simp_all add: dense_meta_def sample_meta_def sample_variable_def)

lemma dense_meta_valid: "meta_valid dense_meta" "expected_records dense_meta = 1"
  by (simp_all add: meta_valid_def dense_meta_def sample_meta_def sample_variable_def validate_time_schema_def var_valid_def
      MAX_GRID_CELLS_def expected_records_def chunks_y_def chunks_x_def chunk_h_def chunk_w_def geometry_consts div_ceil_def)

lemma length_dense_file: "length dense_file = 140"
  by (simp add: dense_file_def length_hour_file dense_values_def u32c.enc_length)

lemma dense_index_ok: "index_ok dense_meta (for_layout 0 1) 140 [dense_record]"
  using dense_meta_valid
  by (simp add: index_ok_def record_valid_def dense_record_def chunk_kind_def chunk_values_def chunk_rows_def chunk_cols_def
      chunks_y_def chunks_x_def chunk_h_def chunk_w_def chunk_levels_def value_bytes_def geometry_consts div_ceil_def
      payload_free_def flag_consts KIND_TILE2D_def Let_def for_layout_def HEADER_LEN_def INDEX_RECORD_LEN_def)

lemma dense_opens:
  obtains rd where "open_with_tile_cache_bytes (\<lambda>_. Some dense_meta) (Some (stored_file 1 dense_file)) 4096 = Inr rd"
    "hr_meta rd = dense_meta" "hr_records rd = [dense_record]" "hr_bytes rd = Mmap dense_file"
    "hr_var_ranges rd 7 = Some (0, 1)"
proof -
  have len: "length (hour_file [] [dense_record] (concat (map u32_to_le dense_values))) = 140"
    using length_dense_file by (simp add: dense_file_def)
  obtain ranges where r: "ranges_ok [dense_record] 1 ranges"
    "open_with_tile_cache_bytes (\<lambda>_. Some dense_meta) (Some (stored_file 1 dense_file)) 4096 =
      Inr \<lparr>hr_bytes = Mmap dense_file, hr_source = 1, hr_meta = dense_meta, hr_records = [dense_record],
           hr_var_ranges = ranges, hr_tile_cache = cache_new 4096\<rparr>"
    using stored_file_opens [of "for_layout 0 1" "[]" "[dense_record]" "concat (map u32_to_le dense_values)"
        "\<lambda>_. Some dense_meta" dense_meta 1 4096] dense_index_ok
    by (auto simp: len dense_file_def)
  obtain a b where "ranges 7 = Some (a, b)" using r(1) by (cases "ranges 7") (auto simp: ranges_ok_def dense_record_def)
  moreover from this have "a < b" "b \<le> 1" using r(1) by (auto simp: ranges_ok_def)
  ultimately show thesis using that [OF r(2)] by simp
qed

end
