(* ===== verification/Rw_Sessions.thy ===== *)
theory Rw_Sessions
  imports Rw_Surface Rw_Stored
begin

text \<open>
  The states an open reader goes through as callers use it, and several threads that
  decode tiles through one cache. The properties of the surface reads are stated for
  every state a session can reach.
\<close>

section \<open>Sessions\<close>

text \<open>
  The operations that change the reader. The visitor of a visit keeps the tiles it has
  seen and may stop at any of them.
\<close>

inductive reader_reach :: "read_env \<Rightarrow> hour_reader \<Rightarrow> hour_reader \<Rightarrow> bool" for env rd0 where
  start: "reader_reach env rd0 rd0"
| point: "reader_reach env rd0 rd \<Longrightarrow> reader_reach env rd0 (snd (read_point_2d env name ix iy rd))"
| window: "reader_reach env rd0 rd \<Longrightarrow> reader_reach env rd0 (snd (read_window_2d env name x0 y0 x1 y1 rd))"
| tile: "reader_reach env rd0 rd \<Longrightarrow> reader_reach env rd0 (snd (read_tile_2d env name ty tx rd))"
| visit: "reader_reach env rd0 rd \<Longrightarrow> visit_tiles_2d env name visitor (seen :: tile_2d list) rd = Some (r, rd') \<Longrightarrow>
    reader_reach env rd0 rd'"
| clear: "reader_reach env rd0 rd \<Longrightarrow> reader_reach env rd0 (clear_tile_cache rd)"

lemma coherent_empty: "cache_wf c \<Longrightarrow> dc_entries c = [] \<Longrightarrow> tc.coherent f c"
  by (simp add: tc.coherent_def cache_contents_def)

lemma opened_inv:
  assumes "open_with_tile_cache_bytes from_json path cap = Inr rd" and "cap < 2 ^ 64 - 1"
  shows "reader_inv env rd"
proof -
  obtain header where "reader_ok header rd" "hr_tile_cache rd = cache_new cap" using open_reader_ok [OF assms(1)] by blast
  then show ?thesis using new_wf [OF assms(2)] by (auto simp: reader_inv_def cache_new_def intro!: coherent_empty)
qed

text \<open>Every read is a computation that leaves the reader as it was, up to the cache.\<close>

lemma read_window_total:
  assumes ok: "reader_ok header rd"
  shows "\<exists>res. pure_read env rd (read_window_2d env name x0 y0 x1 y1) res \<and> \<not> panics res"
proof (cases "lookup_2d rd name")
  case (Inl e)
  moreover have "\<not> panics (lookup_2d rd name)"
    unfolding lookup_2d_def lookup_def by (intro not_panics_intros) simp_all
  ultimately have "\<not> panics (Inl e :: window_2d rw_result)" by (simp add: panics_def)
  moreover have "pure_read env rd (read_window_2d env name x0 y0 x1 y1) (Inl e)"
    by (rule pure_read_cong [OF pure_read_lift]) (simp add: read_window_2d_def Inl)
  ultimately show ?thesis by blast
next
  case (Inr var)
  show ?thesis
  proof (cases "x0 < min x1 (hm_nx (hr_meta rd)) \<and> y0 < min y1 (hm_ny (hr_meta rd))")
    case True
    then show ?thesis using read_window_pure [OF ok Inr refl refl] by blast
  next
    case False
    then have "pure_read env rd (read_window_2d env name x0 y0 x1 y1) (Inl (Format ''window is empty after clamping''))"
      by (intro pure_read_cong [OF pure_read_lift]) (auto simp: read_window_2d_def Inr Let_def)
    then show ?thesis by force
  qed
qed

lemma read_tile_total:
  assumes ok: "reader_ok header rd"
  shows "\<exists>res. pure_read env rd (read_tile_2d env name ty tx) res \<and> \<not> panics res"
proof (cases "lookup_2d rd name")
  case (Inl e)
  moreover have "\<not> panics (lookup_2d rd name)"
    unfolding lookup_2d_def lookup_def by (intro not_panics_intros) simp_all
  ultimately have "\<not> panics (Inl e :: tile_2d rw_result)" by (simp add: panics_def)
  moreover have "pure_read env rd (read_tile_2d env name ty tx) (Inl e)"
    by (rule pure_read_cong [OF pure_read_lift]) (simp add: read_tile_2d_def Inl)
  ultimately show ?thesis by blast
next
  case (Inr var)
  show ?thesis
  proof (cases "ty < div_ceil (hm_ny (hr_meta rd)) TILE_Y \<and> tx < div_ceil (hm_nx (hr_meta rd)) TILE_X")
    case True
    then have t: "ty < div_ceil (hm_ny (hr_meta rd)) TILE_Y" "tx < div_ceil (hm_nx (hr_meta rd)) TILE_X" by simp_all
    obtain r where "find_chunk_record rd var KIND_TILE2D ty tx = Inr r" by (rule surface_record [OF ok Inr t])
    then have "\<not> panics (surface_tile env rd var ty tx)"
      unfolding surface_tile_def by (intro not_panics_intros not_panics_tile_values [OF ok Inr t]) simp_all
    with read_tile_pure [OF ok Inr t] show ?thesis by blast
  next
    case False
    then have "pure_read env rd (read_tile_2d env name ty tx) (Inl (Format ''tile is outside tile grid''))"
      by (intro pure_read_cong [OF pure_read_lift]) (auto simp: read_tile_2d_def Inr tile_geometry_def Let_def)
    then show ?thesis by force
  qed
qed

lemma pure_read_step:
  assumes "pure_read env rd m res" and "reader_inv env rd \<and> (\<exists>c. rd = rd0\<lparr>hr_tile_cache := c\<rparr>)"
  shows "reader_inv env (snd (m rd)) \<and> (\<exists>c. snd (m rd) = rd0\<lparr>hr_tile_cache := c\<rparr>)"
proof -
  obtain c where c: "m rd = (res, rd\<lparr>hr_tile_cache := c\<rparr>)" "reader_inv env (rd\<lparr>hr_tile_cache := c\<rparr>)"
    using pure_readD [OF assms(1)] assms(2) by blast
  then show ?thesis using assms(2) by auto
qed

lemma reach_inv:
  assumes "reader_reach env rd0 rd" and "reader_inv env rd0"
  shows "reader_inv env rd \<and> (\<exists>c. rd = rd0\<lparr>hr_tile_cache := c\<rparr>)"
  using assms
proof (induction rule: reader_reach.induct)
  case start
  have "rd0 = rd0\<lparr>hr_tile_cache := hr_tile_cache rd0\<rparr>" by simp
  with start show ?case by blast
next
  case (point rd name ix iy)
  then obtain header where "reader_ok header rd" by (auto simp: reader_inv_def)
  from pure_read_step [OF read_point_pure [OF this]] point show ?case by blast
next
  case (window rd name x0 y0 x1 y1)
  then obtain header where "reader_ok header rd" by (auto simp: reader_inv_def)
  from read_window_total [OF this, of env name x0 y0 x1 y1] obtain res where
    "pure_read env rd (read_window_2d env name x0 y0 x1 y1) res" by blast
  from pure_read_step [OF this] window show ?case by blast
next
  case (tile rd name ty tx)
  then obtain header where "reader_ok header rd" by (auto simp: reader_inv_def)
  from read_tile_total [OF this, of env name ty tx] obtain res where "pure_read env rd (read_tile_2d env name ty tx) res" by blast
  from pure_read_step [OF this] tile show ?case by blast
next
  case (visit rd name visitor seen r rd')
  show ?case
  proof (cases "lookup_2d rd name")
    case (Inl e)
    then have "rd' = rd" using visit.hyps(2) by (simp add: visit_tiles_2d_def)
    with visit show ?thesis by blast
  next
    case (Inr var)
    from visit_tiles_result [OF _ Inr, of env visitor seen] visit show ?thesis by auto
  qed
next
  case (clear rd)
  then have "cache_wf (cache_clear (hr_tile_cache rd))" by (simp add: reader_inv_def tc.coherent_def clear_wf)
  then have "tc.coherent (tile_of_key env rd) (cache_clear (hr_tile_cache rd))"
    by (intro coherent_empty) (simp_all add: cache_clear_def cache_new_def)
  with clear show ?case by (auto simp: clear_tile_cache_def reader_inv_def)
qed

section \<open>Threads\<close>

text \<open>
  Parallel window reads and independent callers run \<open>decode_tile_cached\<close> on one reader.
  The mutex is held for the lookup and for the insertion, not while a tile is decoded, so
  the steps of several threads interleave between these.
\<close>

type_synonym tile_job = "rws_variable_meta \<times> chunk_record \<times> nat"

datatype tile_thread = Lookup_Cache | Decode_Tile | Insert_Tile "f32 list" | Finished "f32 list rw_result"

inductive thread_step :: "read_env \<Rightarrow> hour_reader \<Rightarrow> tile_job list \<Rightarrow>
    decoded_tile_cache \<times> tile_thread list \<Rightarrow> decoded_tile_cache \<times> tile_thread list \<Rightarrow> bool" for env rd jobs where
  hit: "i < length jobs \<Longrightarrow> jobs ! i = (var, r, n) \<Longrightarrow> ts ! i = Lookup_Cache \<Longrightarrow>
    cache_get (tile_key var r) c = (Some tile, c') \<Longrightarrow> thread_step env rd jobs (c, ts) (c', ts[i := Finished (Inr tile)])"
| miss: "i < length jobs \<Longrightarrow> jobs ! i = (var, r, n) \<Longrightarrow> ts ! i = Lookup_Cache \<Longrightarrow>
    cache_get (tile_key var r) c = (None, c') \<Longrightarrow> thread_step env rd jobs (c, ts) (c', ts[i := Decode_Tile])"
| decoded: "i < length jobs \<Longrightarrow> jobs ! i = (var, r, n) \<Longrightarrow> ts ! i = Decode_Tile \<Longrightarrow>
    decode_tile env rd r n = Inr vals \<Longrightarrow> thread_step env rd jobs (c, ts) (c, ts[i := Insert_Tile vals])"
| failed: "i < length jobs \<Longrightarrow> jobs ! i = (var, r, n) \<Longrightarrow> ts ! i = Decode_Tile \<Longrightarrow>
    decode_tile env rd r n = Inl e \<Longrightarrow> thread_step env rd jobs (c, ts) (c, ts[i := Finished (Inl e)])"
| inserted: "i < length jobs \<Longrightarrow> jobs ! i = (var, r, n) \<Longrightarrow> ts ! i = Insert_Tile vals \<Longrightarrow>
    cache_insert (re_reserve env (tile_key var r)) (tile_key var r) vals c = (tile, c') \<Longrightarrow>
    thread_step env rd jobs (c, ts) (c', ts[i := Finished (Inr tile)])"

inductive_cases thread_stepE: "thread_step env rd jobs (c, ts) s"

text \<open>A job as the readers make them: the record of a tile of a surface variable.\<close>

definition job_ok :: "hour_reader \<Rightarrow> tile_job \<Rightarrow> bool" where
  "job_ok rd = (\<lambda>(var, r, n). \<exists>name ty tx. lookup_2d rd name = Inr var \<and>
     ty < div_ceil (hm_ny (hr_meta rd)) TILE_Y \<and> tx < div_ceil (hm_nx (hr_meta rd)) TILE_X \<and>
     find_chunk_record rd var KIND_TILE2D ty tx = Inr r \<and> n = fst (tile_dims rd ty tx) * snd (tile_dims rd ty tx))"

definition job_result :: "read_env \<Rightarrow> hour_reader \<Rightarrow> tile_job \<Rightarrow> f32 list rw_result" where
  "job_result env rd = (\<lambda>(var, r, n). decode_tile env rd r n)"

lemma job_key:
  assumes "reader_ok header rd" and "job_ok rd (var, r, n)"
  shows "tile_of_key env rd (tile_key var r) = decode_tile env rd r n"
proof -
  obtain name ty tx where j: "lookup_2d rd name = Inr var" "ty < div_ceil (hm_ny (hr_meta rd)) TILE_Y"
      "tx < div_ceil (hm_nx (hr_meta rd)) TILE_X" "find_chunk_record rd var KIND_TILE2D ty tx = Inr r"
      "n = fst (tile_dims rd ty tx) * snd (tile_dims rd ty tx)"
    using assms(2) by (auto simp: job_ok_def)
  obtain r' where "find_chunk_record rd var KIND_TILE2D ty tx = Inr r'" "unat (cr_tile_y r') = ty" "unat (cr_tile_x r') = tx"
      "record_valid (hr_meta rd) header (of_nat (length (as_slice (hr_bytes rd)))) var r'"
    using surface_record [OF assms(1) j(1-3)] by metis
  with j tile_of_key_record [OF assms(1) j(1), of _ r' ty tx env] show ?thesis by (simp add: tile_values_def)
qed

definition thread_fine :: "f32 list rw_result \<Rightarrow> tile_thread \<Rightarrow> bool" where
  "thread_fine res t = (case t of Insert_Tile vals \<Rightarrow> res = Inr vals | Finished r \<Rightarrow> r = res | _ \<Rightarrow> True)"

definition threads_inv :: "read_env \<Rightarrow> hour_reader \<Rightarrow> tile_job list \<Rightarrow> decoded_tile_cache \<times> tile_thread list \<Rightarrow> bool" where
  "threads_inv env rd jobs = (\<lambda>(c, ts). tc.coherent (tile_of_key env rd) c \<and> length ts = length jobs \<and>
     (\<forall>i < length jobs. thread_fine (job_result env rd (jobs ! i)) (ts ! i)))"

fun thread_weight :: "tile_thread \<Rightarrow> nat" where
  "thread_weight Lookup_Cache = 3"
| "thread_weight Decode_Tile = 2"
| "thread_weight (Insert_Tile _) = 1"
| "thread_weight (Finished _) = 0"

lemma threads_update:
  assumes "threads_inv env rd jobs (c, ts)" and "i < length jobs" and "tc.coherent (tile_of_key env rd) c'"
    and "thread_fine (job_result env rd (jobs ! i)) t" and "thread_weight t < thread_weight (ts ! i)"
  shows "threads_inv env rd jobs (c', ts[i := t]) \<and> sum_list (map thread_weight (ts[i := t])) < sum_list (map thread_weight ts)"
proof -
  have "sum_list (map thread_weight ts) = sum_list (map thread_weight (take i ts)) + thread_weight (ts ! i) + sum_list (map thread_weight (drop (Suc i) ts))"
    "sum_list (map thread_weight (ts[i := t])) = sum_list (map thread_weight (take i ts)) + thread_weight t + sum_list (map thread_weight (drop (Suc i) ts))"
    if "i < length ts" using that
    by (simp_all add: upd_conv_take_nth_drop) (metis (no_types, lifting) add.assoc id_take_nth_drop list.simps(9) map_append sum_list.Cons sum_list.append)
  moreover have "i < length ts" using assms(1,2) by (simp add: threads_inv_def)
  ultimately show ?thesis using assms by (auto simp: threads_inv_def nth_list_update)
qed

lemma thread_step_inv:
  assumes ok: "reader_ok header rd" and jobs: "\<forall>j \<in> set jobs. job_ok rd j"
    and inv: "threads_inv env rd jobs s" and step: "thread_step env rd jobs s s'"
  shows "threads_inv env rd jobs s' \<and> sum_list (map thread_weight (snd s')) < sum_list (map thread_weight (snd s))"
proof -
  have key: "tile_of_key env rd (tile_key var r) = decode_tile env rd r n"
    if "i < length jobs" "jobs ! i = (var, r, n)" for i var r n
    using job_key [OF ok] jobs that by (metis nth_mem)
  have coh: "tc.coherent (tile_of_key env rd) (fst s)" using inv by (simp add: threads_inv_def split_beta)
  from step show ?thesis
  proof cases
    case (hit i var r n ts c tile c')
    then show ?thesis
      using threads_update [of env rd jobs c ts i c' "Finished (Inr tile)"] inv coh tc.coherent_hit [of "tile_of_key env rd" c] key
      by (simp add: thread_fine_def job_result_def) fastforce
  next
    case (miss i var r n ts c c')
    then show ?thesis
      using threads_update [of env rd jobs c ts i c' Decode_Tile] inv coh tc.coherent_miss [of "tile_of_key env rd" c]
      by (simp add: thread_fine_def)
  next
    case (decoded i var r n ts vals c)
    then show ?thesis
      using threads_update [of env rd jobs c ts i c "Insert_Tile vals"] inv coh by (simp add: thread_fine_def job_result_def)
  next
    case (failed i var r n ts e c)
    then show ?thesis
      using threads_update [of env rd jobs c ts i c "Finished (Inl e)"] inv coh by (simp add: thread_fine_def job_result_def)
  next
    case (inserted i var r n ts vals c tile c')
    then have v: "decode_tile env rd r n = Inr vals"
      using inv by (auto simp: threads_inv_def thread_fine_def job_result_def split: tile_thread.splits)
    have "tile = vals \<and> tc.coherent (tile_of_key env rd) c'"
      using tc.coherent_store [of "tile_of_key env rd" c "tile_key var r" vals _ tile c'] inserted coh
        key [OF inserted(3,4)] v by simp
    then show ?thesis
      using threads_update [of env rd jobs c ts i c' "Finished (Inr tile)"] inv inserted v
      by (simp add: thread_fine_def job_result_def)
  qed
qed

lemma threads_progress:
  assumes "threads_inv env rd jobs (c, ts)" and "i < length jobs" and "\<forall>r. ts ! i \<noteq> Finished r"
  shows "\<exists>s. thread_step env rd jobs (c, ts) s"
proof -
  obtain var r n where j: "jobs ! i = (var, r, n)" by (metis prod.exhaust)
  show ?thesis
  proof (cases "ts ! i")
    case Lookup_Cache
    then show ?thesis using hit [OF assms(2) j] miss [OF assms(2) j] by (metis option.exhaust prod.exhaust)
  next
    case Decode_Tile
    then show ?thesis using decoded [OF assms(2) j] failed [OF assms(2) j] by (cases "decode_tile env rd r n") blast+
  next
    case (Insert_Tile vals)
    then show ?thesis using inserted [OF assms(2) j] by (metis prod.exhaust)
  qed (use assms(3) in blast)
qed

lemma threads_run:
  assumes ok: "reader_ok header rd" and jobs: "\<forall>j \<in> set jobs. job_ok rd j"
  shows "threads_inv env rd jobs s \<Longrightarrow> (thread_step env rd jobs ^^ k) s s' \<Longrightarrow>
    threads_inv env rd jobs s' \<and> sum_list (map thread_weight (snd s')) + k \<le> sum_list (map thread_weight (snd s))"
proof (induction k arbitrary: s')
  case (Suc k)
  then obtain s1 where s1: "(thread_step env rd jobs ^^ k) s s1" "thread_step env rd jobs s1 s'" by auto
  from Suc.IH [OF Suc.prems(1) s1(1)] thread_step_inv [OF ok jobs _ s1(2)] show ?case by fastforce
qed auto

section \<open>A concrete session\<close>

definition dense_env :: read_env where
  "dense_env = \<lparr>re_zstd = (\<lambda>bs. (bs, True)), re_reserve = (\<lambda>_. True)\<rparr>"

lemma dense_reader:
  obtains rd where "open_with_tile_cache_bytes (\<lambda>_. Some dense_meta) (Some (stored_file 1 dense_file)) 4096 = Inr rd"
    "hr_meta rd = dense_meta" "lookup_2d rd ''t2m'' = Inr sample_variable"
    "find_chunk_record rd sample_variable KIND_TILE2D 0 0 = Inr dense_record"
    "decode_tile dense_env rd dense_record 3 = Inr dense_values"
    "read_full_2d dense_env rd ''t2m'' = Inr dense_values"
proof -
  obtain rd where rd: "open_with_tile_cache_bytes (\<lambda>_. Some dense_meta) (Some (stored_file 1 dense_file)) 4096 = Inr rd"
      "hr_meta rd = dense_meta" "hr_records rd = [dense_record]" "hr_bytes rd = Mmap dense_file" "hr_var_ranges rd 7 = Some (0, 1)"
    by (rule dense_opens)
  have l: "lookup_2d rd ''t2m'' = Inr sample_variable"
    by (simp add: lookup_2d_Inr find_variable_def rd)
  obtain header where ok: "reader_ok header rd" using open_reader_ok [OF rd(1)] by blast
  obtain r where r: "find_chunk_record rd sample_variable KIND_TILE2D 0 0 = Inr r" "r \<in> set (hr_records rd)"
    by (rule surface_record [OF ok l, of 0 0]) (simp_all add: rd div_ceil_pos geometry_consts)
  then have f: "find_chunk_record rd sample_variable KIND_TILE2D 0 0 = Inr dense_record" by (simp add: rd)
  have sub: "subslice 128 140 dense_file = concat (map u32_to_le dense_values)"
  proof -
    have "length (pack_header (for_layout 0 1) @ pack_record dense_record) = 128" by simp
    then show ?thesis
      using slice_append_right [of "pack_header (for_layout 0 1) @ pack_record dense_record" 0 12 "concat (map u32_to_le dense_values)"]
      by (simp add: dense_file_def hour_file_def subslice_def dense_values_def u32c.enc_length)
  qed
  then have "payload_slice rd dense_record = Inr (concat (map u32_to_le dense_values))"
    by (simp add: payload_slice_def rd length_dense_file dense_record_def ok_or_def u64_checked_add_def r_slice_def subslice_ok_def)
  then have d: "decode_tile dense_env rd dense_record 3 = Inr dense_values"
    using u32c.dec_array [of dense_values]
    by (simp add: decode_tile_def dense_record_def flag_consts usize_checked_mul_def usize_bound_def decompress_chunk_def
        dense_env_def u32c.enc_array_length dense_values_def ok_or_def)
  have td: "tile_dims rd 0 0 = (1, 3)" by (simp add: tile_dims_def rd geometry_consts)
  then have tv: "tile_values dense_env rd sample_variable 0 0 = Inr dense_values" by (simp add: tile_values_def f d)
  have "cell_2d dense_env rd sample_variable y x = Inr (dense_values ! x)" if "y < 1" "x < 3" for y x
    using that tv td by (simp add: cell_2d_def tile_cell_def geometry_consts)
  then have "field_2d dense_env rd sample_variable = Inr dense_values"
    by (simp add: field_2d_eq_Inr rd dense_values_def)
  then have "read_full_2d dense_env rd ''t2m'' = Inr dense_values"
    using read_full_field [OF ok l] by simp
  then show thesis using that rd(1,2) l f d by blast
qed

lemma dense_grid_tiles: "hr_meta rd = dense_meta \<Longrightarrow> div_ceil (hm_ny (hr_meta rd)) TILE_Y = 1 \<and> div_ceil (hm_nx (hr_meta rd)) TILE_X = 1"
  by (simp add: div_ceil_def geometry_consts)

section \<open>Properties\<close>

lemma read_full_not_panics:
  assumes ok: "reader_ok header rd"
  shows "\<not> panics (read_full_2d env rd name)"
proof (cases "lookup_2d rd name")
  case (Inl e)
  moreover have "\<not> panics (lookup_2d rd name)"
    unfolding lookup_2d_def lookup_def by (intro not_panics_intros) simp_all
  ultimately show ?thesis by (simp add: panics_def read_full_2d_def)
next
  case (Inr var)
  have find: "\<not> panics (find_chunk_record rd var KIND_TILE2D ty tx)"
    if t: "(ty, tx) \<in> set (List.product [0..<div_ceil (hm_ny (hr_meta rd)) TILE_Y] [0..<div_ceil (hm_nx (hr_meta rd)) TILE_X])" for ty tx
  proof -
    have "ty < div_ceil (hm_ny (hr_meta rd)) TILE_Y" "tx < div_ceil (hm_nx (hr_meta rd)) TILE_X" using t by auto
    then obtain r where "find_chunk_record rd var KIND_TILE2D ty tx = Inr r" by (rule surface_record [OF ok Inr])
    then show ?thesis by simp
  qed
  let ?ts = "List.product [0..<div_ceil (hm_ny (hr_meta rd)) TILE_Y] [0..<div_ceil (hm_nx (hr_meta rd)) TILE_X]"
  let ?find = "\<lambda>(ty, tx). r_bind (find_chunk_record rd var KIND_TILE2D ty tx) (\<lambda>record. Inr (ty, tx, record))"
  let ?decode = "\<lambda>(ty, tx, record). let (rows, cols) = tile_dims rd ty tx
      in r_bind (decode_tile env rd record (rows * cols)) (\<lambda>tile. Inr (ty, tx, tile))"
  have a: "\<not> panics (r_map ?find ?ts)"
  proof (rule not_panics_r_map)
    fix t assume t: "t \<in> set ?ts"
    show "\<not> panics (?find t)" using t by (intro not_panics_intros find) simp_all
  qed
  have b: "\<not> panics (r_map ?decode jobs)" for jobs
  proof (rule not_panics_r_map)
    fix j :: "nat \<times> nat \<times> chunk_record"
    show "\<not> panics (?decode j)"
      unfolding Let_def by (intro not_panics_intros not_panics_decode_tile) simp_all
  qed
  have full: "read_full_2d env rd name = r_bind (r_map ?find ?ts) (\<lambda>jobs. r_bind (r_map ?decode jobs) (\<lambda>decoded.
      r_fold (place_tile rd) decoded (replicate (hm_ny (hr_meta rd) * hm_nx (hr_meta rd)) f32_NAN)))"
    using reader_grid [OF ok] by (simp add: read_full_2d_def Inr Let_def ok_or_def usize_checked_mul_def)
  have c: "\<not> panics (r_fold (place_tile rd) decoded (replicate (hm_ny (hr_meta rd) * hm_nx (hr_meta rd)) f32_NAN))"
    if "r_map ?find ?ts = Inr jobs" "r_map ?decode jobs = Inr decoded" for jobs decoded
  proof -
    have "tile_jobs env rd var = Inr decoded" unfolding tile_jobs_eq_Inr [symmetric] using that by blast
    then show ?thesis using place_tiles_field [OF ok] by fastforce
  qed
  show ?thesis unfolding full by (intro not_panics_bind a b c)
qed

text \<open>C16. A full read returns the field. On an opened file and a surface variable,
  \<open>read_full_2d\<close> succeeds exactly when every tile of the variable can be decoded, and the
  result then has \<open>ny * nx\<close> values: position \<open>y * nx + x\<close> holds the value of the decoded
  tile \<open>(y div 256, x div 256)\<close> at row \<open>y mod 256\<close> and column \<open>x mod 256\<close> of that tile,
  whose width is clipped at the edge of the grid.\<close>

theorem read_full_2d_correct:
  assumes "open_with_tile_cache_bytes from_json path cap = Inr rd" and "lookup_2d rd name = Inr var"
  shows "read_full_2d env rd name = Inr vs \<longleftrightarrow>
    length vs = hm_ny (hr_meta rd) * hm_nx (hr_meta rd) \<and>
    (\<forall>y < hm_ny (hr_meta rd). \<forall>x < hm_nx (hr_meta rd). cell_2d env rd var y x = Inr (vs ! (y * hm_nx (hr_meta rd) + x)))"
proof -
  obtain header where ok: "reader_ok header rd" using open_reader_ok [OF assms(1)] by blast
  show ?thesis using read_full_field [OF ok assms(2)] field_2d_eq_Inr [OF reader_grid(1) [OF ok]] by blast
qed

theorem read_full_2d_correct_witness:
  "\<exists>rd. open_with_tile_cache_bytes (\<lambda>_. Some dense_meta) (Some (stored_file 1 dense_file)) 4096 = Inr rd \<and>
     cell_2d dense_env rd sample_variable 0 1 = Inr 0x40000000"
proof -
  obtain rd where rd: "open_with_tile_cache_bytes (\<lambda>_. Some dense_meta) (Some (stored_file 1 dense_file)) 4096 = Inr rd"
      "hr_meta rd = dense_meta" "lookup_2d rd ''t2m'' = Inr sample_variable" "read_full_2d dense_env rd ''t2m'' = Inr dense_values"
    by (rule dense_reader)
  have "cell_2d dense_env rd sample_variable 0 1 = Inr (dense_values ! 1)"
    using read_full_2d_correct [OF rd(1,3), of dense_env dense_values] rd(2,4) by simp
  with rd(1) show ?thesis by (auto simp: dense_values_def)
qed

end
