(* ===== verification/Rw_Surface_Props.thy ===== *)
theory Rw_Surface_Props
  imports Rw_Sessions
begin

text \<open>
  The properties of the surface reads that hold in every state of a session: all ways to
  read a cell agree, visits end, no read panics, and threads that share a cache finish
  with the results of decoding alone.
\<close>

lemma pure_read_fst: "pure_read env rd m res \<Longrightarrow> reader_inv env rd \<Longrightarrow> fst (m rd) = res"
  by (erule (1) pure_readD) simp

lemma reach_cells:
  assumes "open_with_tile_cache_bytes from_json path cap = Inr rd0" and "cap < 2 ^ 64 - 1" and "reader_reach env rd0 rd"
    and "read_full_2d env rd0 name = Inr vs"
  obtains header var where "reader_ok header rd" "reader_inv env rd" "hr_meta rd = hr_meta rd0" "lookup_2d rd name = Inr var"
    "\<forall>y < hm_ny (hr_meta rd0). \<forall>x < hm_nx (hr_meta rd0). cell_2d env rd var y x = Inr (vs ! (y * hm_nx (hr_meta rd0) + x))"
proof -
  obtain header where ok: "reader_ok header rd0" using open_reader_ok [OF assms(1)] by blast
  obtain var where var: "lookup_2d rd0 name = Inr var" using assms(4) by (auto simp: read_full_2d_def r_bind_eq_Inr)
  from reach_inv [OF assms(3) opened_inv [OF assms(1,2)]]
  obtain c where c: "reader_inv env rd" "rd = rd0\<lparr>hr_tile_cache := c\<rparr>" by blast
  have "cell_2d env rd var y x = Inr (vs ! (y * hm_nx (hr_meta rd0) + x))"
    if "y < hm_ny (hr_meta rd0)" "x < hm_nx (hr_meta rd0)" for y x
    using assms(4) that unfolding read_full_field [OF ok var] field_2d_eq_Inr [OF reader_grid(1) [OF ok]] by (simp add: c(2))
  then show thesis using that [of header var] ok var c by simp
qed

text \<open>C17. Point reads agree with the full read. In every state a session can reach from
  an opened file, reading one cell gives the value the full read has at that position,
  whatever the cache holds, evicted or refused to store.\<close>

theorem read_point_agrees:
  assumes "open_with_tile_cache_bytes from_json path cap = Inr rd0" and "cap < 2 ^ 64 - 1" and "reader_reach env rd0 rd"
    and "read_full_2d env rd0 name = Inr vs" and "iy < hm_ny (hr_meta rd0)" and "ix < hm_nx (hr_meta rd0)"
  shows "fst (read_point_2d env name ix iy rd) = Inr (vs ! (iy * hm_nx (hr_meta rd0) + ix))"
proof -
  obtain header var where r: "reader_ok header rd" "reader_inv env rd" "hr_meta rd = hr_meta rd0" "lookup_2d rd name = Inr var"
      "cell_2d env rd var iy ix = Inr (vs ! (iy * hm_nx (hr_meta rd0) + ix))"
    by (rule reach_cells [OF assms(1-4)]) (use assms(5,6) in simp)
  show ?thesis using pure_read_fst [OF read_point_pure [OF r(1)] r(2)] r(3-5) assms(5,6) by simp
qed

theorem read_point_agrees_witness:
  "\<exists>rd. open_with_tile_cache_bytes (\<lambda>_. Some dense_meta) (Some (stored_file 1 dense_file)) 4096 = Inr rd \<and>
     fst (read_point_2d dense_env ''t2m'' 1 0 (snd (read_point_2d dense_env ''t2m'' 0 0 rd))) = Inr 0x40000000"
proof -
  obtain rd where rd: "open_with_tile_cache_bytes (\<lambda>_. Some dense_meta) (Some (stored_file 1 dense_file)) 4096 = Inr rd"
      "hr_meta rd = dense_meta" "read_full_2d dense_env rd ''t2m'' = Inr dense_values"
    by (rule dense_reader)
  have "fst (read_point_2d dense_env ''t2m'' 1 0 (snd (read_point_2d dense_env ''t2m'' 0 0 rd))) = Inr (dense_values ! 1)"
    using read_point_agrees [OF rd(1) _ point [OF start] rd(3), of 0 1] by (simp add: rd(2))
  with rd(1) show ?thesis by (auto simp: dense_values_def)
qed

text \<open>C15. Window reads agree with the full read. In every reachable state, a window that
  is not empty after clamping comes back with the clamped size, and its cells are those of
  the full read at the same grid positions.\<close>

theorem read_window_agrees:
  assumes "open_with_tile_cache_bytes from_json path cap = Inr rd0" and "cap < 2 ^ 64 - 1" and "reader_reach env rd0 rd"
    and "read_full_2d env rd0 name = Inr vs"
    and "x1' = min x1 (hm_nx (hr_meta rd0))" and "y1' = min y1 (hm_ny (hr_meta rd0))" and "x0 < x1'" and "y0 < y1'"
  shows "\<exists>w. fst (read_window_2d env name x0 y0 x1 y1 rd) = Inr w \<and> w2_x0 w = x0 \<and> w2_y0 w = y0 \<and>
    w2_nx w = x1' - x0 \<and> w2_ny w = y1' - y0 \<and> length (w2_values w) = w2_ny w * w2_nx w \<and>
    (\<forall>row < w2_ny w. \<forall>col < w2_nx w.
       w2_values w ! (row * w2_nx w + col) = vs ! ((y0 + row) * hm_nx (hr_meta rd0) + (x0 + col)))"
proof -
  obtain header var where r: "reader_ok header rd" "reader_inv env rd" "hr_meta rd = hr_meta rd0" "lookup_2d rd name = Inr var"
      and cell: "\<forall>y < hm_ny (hr_meta rd0). \<forall>x < hm_nx (hr_meta rd0). cell_2d env rd var y x = Inr (vs ! (y * hm_nx (hr_meta rd0) + x))"
    by (rule reach_cells [OF assms(1-4)])
  obtain res where res: "pure_read env rd (read_window_2d env name x0 y0 x1 y1) res"
      "\<And>w. res = Inr w \<longleftrightarrow> window_of env rd var x0 y0 x1' y1' w"
    using read_window_pure [OF r(1,4), of x1' x1 y1' y1 x0 y0 env] assms(5-8) r(3) by auto
  define vals where "vals = map (\<lambda>i. vs ! ((y0 + i div (x1' - x0)) * hm_nx (hr_meta rd0) + (x0 + i mod (x1' - x0)))) [0..<(y1' - y0) * (x1' - x0)]"
  define w where "w = \<lparr>w2_x0 = x0, w2_y0 = y0, w2_nx = x1' - x0, w2_ny = y1' - y0, w2_values = vals\<rparr>"
  have nth: "vals ! (row * (x1' - x0) + col) = vs ! ((y0 + row) * hm_nx (hr_meta rd0) + (x0 + col))"
    if "row < y1' - y0" "col < x1' - x0" for row col
    using plane_index_less [OF that] that by (simp add: vals_def)
  have "window_of env rd var x0 y0 x1' y1' w"
    unfolding window_of_def
  proof (intro conjI allI impI)
    fix y x assume yx: "y0 \<le> y \<and> y < y1' \<and> x0 \<le> x \<and> x < x1'"
    then have "vals ! ((y - y0) * (x1' - x0) + (x - x0)) = vs ! (y * hm_nx (hr_meta rd0) + x)"
      using nth [of "y - y0" "x - x0"] by (simp add: diff_less_mono)
    then show "cell_2d env rd var y x = Inr (w2_values w ! ((y - y0) * (x1' - x0) + (x - x0)))"
      using cell [rule_format, of y x] yx assms(5,6) by (simp add: w_def)
  qed (simp_all add: w_def vals_def)
  then have "res = Inr w" using res(2) by simp
  with pure_read_fst [OF res(1) r(2)] have "fst (read_window_2d env name x0 y0 x1 y1 rd) = Inr w" by simp
  moreover have "length vals = (y1' - y0) * (x1' - x0)" by (simp add: vals_def)
  ultimately show ?thesis using nth by (intro exI [of _ w]) (simp add: w_def)
qed

theorem read_window_agrees_witness:
  "\<exists>rd w. open_with_tile_cache_bytes (\<lambda>_. Some dense_meta) (Some (stored_file 1 dense_file)) 4096 = Inr rd \<and>
     fst (read_window_2d dense_env ''t2m'' 1 0 9 9 rd) = Inr w \<and> w2_nx w = 2 \<and> w2_values w ! 0 = 0x40000000"
proof -
  obtain rd where rd: "open_with_tile_cache_bytes (\<lambda>_. Some dense_meta) (Some (stored_file 1 dense_file)) 4096 = Inr rd"
      "hr_meta rd = dense_meta" "read_full_2d dense_env rd ''t2m'' = Inr dense_values"
    by (rule dense_reader)
  obtain w where w: "fst (read_window_2d dense_env ''t2m'' 1 0 9 9 rd) = Inr w" "w2_nx w = 2" "w2_ny w = 1"
      "\<forall>row < w2_ny w. \<forall>col < w2_nx w. w2_values w ! (row * w2_nx w + col) = dense_values ! (row * 3 + (1 + col))"
    using read_window_agrees [OF rd(1) _ start rd(3), of 3 9 1 9 1 0] by (auto simp: rd(2))
  have "w2_values w ! 0 = dense_values ! 1" using w(4) [rule_format, of 0 0] w(2,3) by simp
  with rd(1) w(1,2) show ?thesis by (auto simp: dense_values_def)
qed

text \<open>C20. Tile reads agree with the full read. In every reachable state, reading a tile by
  its indices gives the clipped geometry of that tile, and the accessor returns for each
  row and column of it the value of the full read, also for tiles kept as empty or
  constant.\<close>

theorem read_tile_agrees:
  assumes "open_with_tile_cache_bytes from_json path cap = Inr rd0" and "cap < 2 ^ 64 - 1" and "reader_reach env rd0 rd"
    and "read_full_2d env rd0 name = Inr vs"
    and "ty < div_ceil (hm_ny (hr_meta rd0)) TILE_Y" and "tx < div_ceil (hm_nx (hr_meta rd0)) TILE_X"
  shows "\<exists>t. fst (read_tile_2d env name ty tx rd) = Inr t \<and>
    tg_ny (t2_geometry t) = min (hm_ny (hr_meta rd0) - ty * TILE_Y) TILE_Y \<and>
    tg_nx (t2_geometry t) = min (hm_nx (hr_meta rd0) - tx * TILE_X) TILE_X \<and>
    (\<forall>row < tg_ny (t2_geometry t). \<forall>col < tg_nx (t2_geometry t).
       tile_get t row col = Some (vs ! ((ty * TILE_Y + row) * hm_nx (hr_meta rd0) + (tx * TILE_X + col))))"
proof -
  obtain header var where r: "reader_ok header rd" "reader_inv env rd" "hr_meta rd = hr_meta rd0" "lookup_2d rd name = Inr var"
      and cell: "\<forall>y < hm_ny (hr_meta rd0). \<forall>x < hm_nx (hr_meta rd0). cell_2d env rd var y x = Inr (vs ! (y * hm_nx (hr_meta rd0) + x))"
    by (rule reach_cells [OF assms(1-4)])
  have t: "ty < div_ceil (hm_ny (hr_meta rd)) TILE_Y" "tx < div_ceil (hm_nx (hr_meta rd)) TILE_X" using assms(5,6) r(3) by simp_all
  obtain rec where "find_chunk_record rd var KIND_TILE2D ty tx = Inr rec" by (rule surface_record [OF r(1,4) t])
  moreover obtain vals where "tile_values env rd var ty tx = Inr vals"
    using cell [rule_format, OF tile_of_cell [OF t, unfolded r(3)]] tile_y.step_pos tile_x.step_pos
    by (auto simp: cell_2d_def r_bind_eq_Inr)
  ultimately obtain tile where st: "surface_tile env rd var ty tx = Inr tile" by (simp add: surface_tile_def)
  note g = surface_tile_get [OF st]
  have geo: "tg_ny (t2_geometry tile) = min (hm_ny (hr_meta rd0) - ty * TILE_Y) TILE_Y"
      "tg_nx (t2_geometry tile) = min (hm_nx (hr_meta rd0) - tx * TILE_X) TILE_X"
    by (simp_all add: g(1) tile_geom_def tile_dims_def r(3))
  have "tile_get tile row col = Some (vs ! ((ty * TILE_Y + row) * hm_nx (hr_meta rd0) + (tx * TILE_X + col)))"
    if rc: "row < tg_ny (t2_geometry tile)" "col < tg_nx (t2_geometry tile)" for row col
  proof -
    obtain v where v: "tile_get tile row col = Some v" "cell_2d env rd var (ty * TILE_Y + row) (tx * TILE_X + col) = Inr v"
      using g(2) [OF rc] by blast
    have "ty * TILE_Y + row < hm_ny (hr_meta rd0)" "tx * TILE_X + col < hm_nx (hr_meta rd0)"
      using rc unfolding geo by linarith+
    with cell v show ?thesis by simp
  qed
  with pure_read_fst [OF read_tile_pure [OF r(1,4) t] r(2)] st geo show ?thesis by auto
qed

theorem read_tile_agrees_witness:
  "\<exists>rd t. open_with_tile_cache_bytes (\<lambda>_. Some dense_meta) (Some (stored_file 1 dense_file)) 4096 = Inr rd \<and>
     fst (read_tile_2d dense_env ''t2m'' 0 0 rd) = Inr t \<and> tile_get t 0 1 = Some 0x40000000"
proof -
  obtain rd where rd: "open_with_tile_cache_bytes (\<lambda>_. Some dense_meta) (Some (stored_file 1 dense_file)) 4096 = Inr rd"
      "hr_meta rd = dense_meta" "read_full_2d dense_env rd ''t2m'' = Inr dense_values"
    by (rule dense_reader)
  obtain t where t: "fst (read_tile_2d dense_env ''t2m'' 0 0 rd) = Inr t" "tg_ny (t2_geometry t) = 1" "tg_nx (t2_geometry t) = 3"
      "\<forall>row < tg_ny (t2_geometry t). \<forall>col < tg_nx (t2_geometry t). tile_get t row col = Some (dense_values ! (row * 3 + col))"
    using read_tile_agrees [OF rd(1) _ start rd(3), of 0 0] dense_grid_tiles [OF rd(2)] by (auto simp: rd(2) geometry_consts)
  have "tile_get t 0 1 = Some (dense_values ! 1)" using t(4) [rule_format, of 0 1] t(2,3) by simp
  with rd(1) t(1) show ?thesis by (auto simp: dense_values_def)
qed

text \<open>C19. Visits end. In every reachable state, \<open>visit_tiles_2d\<close> on a surface variable
  returns; its outcome is that of reading the tiles one by one in row-major order and
  handing each to the visitor, stopping at the first error of either. The visitor is an
  arbitrary fallible step on an arbitrary state.\<close>

theorem visit_tiles_returns:
  assumes "open_with_tile_cache_bytes from_json path cap = Inr rd0" and "cap < 2 ^ 64 - 1" and "reader_reach env rd0 rd"
    and "lookup_2d rd0 name = Inr var"
  shows "\<exists>c. visit_tiles_2d env name visitor s rd =
    Some (r_fold (\<lambda>(ty, tx) s. r_bind (fst (read_tile_2d env name ty tx rd)) (\<lambda>t. visitor t s))
        (List.product [0..<div_ceil (hm_ny (hr_meta rd0)) TILE_Y] [0..<div_ceil (hm_nx (hr_meta rd0)) TILE_X]) s,
      rd\<lparr>hr_tile_cache := c\<rparr>)"
proof -
  from reach_inv [OF assms(3) opened_inv [OF assms(1,2)]]
  obtain c where c: "reader_inv env rd" "rd = rd0\<lparr>hr_tile_cache := c\<rparr>" by blast
  then obtain header where ok: "reader_ok header rd" by (auto simp: reader_inv_def)
  have var: "lookup_2d rd name = Inr var" and meta: "hr_meta rd = hr_meta rd0" using assms(4) c(2) by simp_all
  have cong: "r_fold f xs = r_fold g xs" if "\<forall>x \<in> set xs. f x = g x" for f g :: "nat \<times> nat \<Rightarrow> 'a \<Rightarrow> 'a rw_result" and xs
    using that by (induction xs) (rule ext, simp)+
  have "r_fold (\<lambda>(ty, tx) s. r_bind (fst (read_tile_2d env name ty tx rd)) (\<lambda>t. visitor t s))
        (List.product [0..<div_ceil (hm_ny (hr_meta rd)) TILE_Y] [0..<div_ceil (hm_nx (hr_meta rd)) TILE_X]) =
      r_fold (\<lambda>(ty, tx) s. r_bind (surface_tile env rd var ty tx) (\<lambda>t. visitor t s))
        (List.product [0..<div_ceil (hm_ny (hr_meta rd)) TILE_Y] [0..<div_ceil (hm_nx (hr_meta rd)) TILE_X])"
    using pure_read_fst [OF read_tile_pure [OF ok var] c(1)] by (intro cong) auto
  with visit_tiles_result [OF c(1) var, of visitor s] meta show ?thesis by auto
qed

theorem visit_tiles_returns_witness:
  "\<exists>rd rd'. open_with_tile_cache_bytes (\<lambda>_. Some dense_meta) (Some (stored_file 1 dense_file)) 4096 = Inr rd \<and>
     visit_tiles_2d dense_env ''t2m'' (\<lambda>t n. Inr (n + 1)) (0::nat) rd = Some (Inr 1, rd')"
proof -
  obtain rd where rd: "open_with_tile_cache_bytes (\<lambda>_. Some dense_meta) (Some (stored_file 1 dense_file)) 4096 = Inr rd"
      "hr_meta rd = dense_meta" "lookup_2d rd ''t2m'' = Inr sample_variable" "read_full_2d dense_env rd ''t2m'' = Inr dense_values"
    by (rule dense_reader)
  obtain header var where r: "reader_ok header rd" "reader_inv dense_env rd" "lookup_2d rd ''t2m'' = Inr var"
      and cell: "\<forall>y < hm_ny (hr_meta rd). \<forall>x < hm_nx (hr_meta rd). cell_2d dense_env rd var y x = Inr (dense_values ! (y * hm_nx (hr_meta rd) + x))"
    by (rule reach_cells [OF rd(1) _ start rd(4)]) simp_all
  have t: "0 < div_ceil (hm_ny (hr_meta rd)) TILE_Y" "0 < div_ceil (hm_nx (hr_meta rd)) TILE_X" using dense_grid_tiles [OF rd(2)] by simp_all
  have "cell_2d dense_env rd var 0 0 = Inr (dense_values ! 0)" using cell by (simp add: rd(2))
  then obtain vals where "tile_values dense_env rd var 0 0 = Inr vals" by (auto simp: cell_2d_def r_bind_eq_Inr)
  moreover obtain rec where "find_chunk_record rd var KIND_TILE2D 0 0 = Inr rec" by (rule surface_record [OF r(1,3) t])
  ultimately obtain tile where "fst (read_tile_2d dense_env ''t2m'' 0 0 rd) = Inr tile"
    using pure_read_fst [OF read_tile_pure [OF r(1,3) t] r(2)] by (simp add: surface_tile_def)
  then show ?thesis
    using visit_tiles_returns [OF rd(1) _ start rd(3), of dense_env "\<lambda>t n. Inr (n + 1)" "0::nat"] dense_grid_tiles [OF rd(2)] rd(1) by auto
qed

text \<open>C21. No surface read panics. In every state a session can reach from an opened file,
  the full, point, window and tile reads return a value or an error for every name and
  every coordinates; no index, slice or copy in them is out of range, whatever bytes the
  payloads have and whatever the decompressor makes of them.\<close>

theorem surface_reads_never_panic:
  assumes "open_with_tile_cache_bytes from_json path cap = Inr rd0" and "cap < 2 ^ 64 - 1" and "reader_reach env rd0 rd"
  shows "\<not> panics (read_full_2d env rd name) \<and> \<not> panics (fst (read_point_2d env name ix iy rd)) \<and>
    \<not> panics (fst (read_window_2d env name x0 y0 x1 y1 rd)) \<and> \<not> panics (fst (read_tile_2d env name ty tx rd))"
proof -
  from reach_inv [OF assms(3) opened_inv [OF assms(1,2)]] have inv: "reader_inv env rd" by blast
  then obtain header where ok: "reader_ok header rd" by (auto simp: reader_inv_def)
  obtain wres tres where w: "pure_read env rd (read_window_2d env name x0 y0 x1 y1) wres" "\<not> panics wres"
      and t: "pure_read env rd (read_tile_2d env name ty tx) tres" "\<not> panics tres"
    using read_window_total [OF ok] read_tile_total [OF ok] by metis
  have "\<not> panics (cell_2d env rd var iy ix)" if var: "lookup_2d rd name = Inr var" and b: "iy < hm_ny (hr_meta rd)" "ix < hm_nx (hr_meta rd)" for var
    unfolding cell_2d_def
    by (intro not_panics_bind not_panics_tile_values [OF ok var] tile_y.piece_of tile_x.piece_of b) simp
  moreover have "\<not> panics (lookup_2d rd name)"
    unfolding lookup_2d_def lookup_def by (intro not_panics_intros) simp_all
  ultimately have "\<not> panics (r_bind (lookup_2d rd name) (\<lambda>var.
      if ix \<ge> hm_nx (hr_meta rd) \<or> iy \<ge> hm_ny (hr_meta rd) then Inl (Format ''point out of bounds for grid'')
      else cell_2d env rd var iy ix))" by (intro not_panics_bind) simp_all
  with pure_read_fst [OF read_point_pure [OF ok] inv] pure_read_fst [OF w(1) inv] pure_read_fst [OF t(1) inv] w(2) t(2)
  show ?thesis using read_full_not_panics [OF ok] by metis
qed

theorem surface_reads_never_panic_witness:
  "\<exists>rd. open_with_tile_cache_bytes (\<lambda>_. Some dense_meta) (Some (stored_file 1 dense_file)) 4096 = Inr rd \<and>
     \<not> panics (fst (read_point_2d \<lparr>re_zstd = (\<lambda>_. ([], False)), re_reserve = (\<lambda>_. False)\<rparr> ''t2m'' 7 7 rd))"
proof -
  obtain rd where rd: "open_with_tile_cache_bytes (\<lambda>_. Some dense_meta) (Some (stored_file 1 dense_file)) 4096 = Inr rd"
    by (rule dense_reader)
  with surface_reads_never_panic [OF rd _ start] show ?thesis by auto
qed

text \<open>C18. Threads that decode tiles through one cache finish, with the right tiles. From
  any reachable state of the reader, let one thread per job run the cached decode, with the
  lookup and the insertion each atomic under the mutex and all steps interleaved in any
  way. A run has at most three steps per thread; it can only stop when every thread has
  finished; and every finished thread has the result of decoding its tile without a cache.\<close>

theorem concurrent_decodes_finish:
  assumes "open_with_tile_cache_bytes from_json path cap = Inr rd0" and "cap < 2 ^ 64 - 1" and "reader_reach env rd0 rd"
    and "\<forall>j \<in> set jobs. job_ok rd j"
    and "(thread_step env rd jobs ^^ k) (hr_tile_cache rd, replicate (length jobs) Lookup_Cache) (c, ts)"
  shows "k \<le> 3 * length jobs \<and>
    ((\<nexists>s. thread_step env rd jobs (c, ts) s) \<longrightarrow> (\<forall>i < length jobs. ts ! i = Finished (job_result env rd (jobs ! i)))) \<and>
    (\<forall>i < length jobs. \<forall>res. ts ! i = Finished res \<longrightarrow> res = job_result env rd (jobs ! i))"
proof -
  from reach_inv [OF assms(3) opened_inv [OF assms(1,2)]] have inv: "reader_inv env rd" by blast
  then obtain header where ok: "reader_ok header rd" by (auto simp: reader_inv_def)
  have init: "threads_inv env rd jobs (hr_tile_cache rd, replicate (length jobs) Lookup_Cache)"
    using inv by (simp add: threads_inv_def thread_fine_def reader_inv_def)
  note run = threads_run [OF ok assms(4) init assms(5)]
  have k: "k \<le> 3 * length jobs" using run by (simp add: map_replicate_const sum_list_replicate)
  have fin: "res = job_result env rd (jobs ! i)" if "i < length jobs" "ts ! i = Finished res" for i res
    using run that by (auto simp: threads_inv_def thread_fine_def split: tile_thread.splits)
  have "ts ! i = Finished (job_result env rd (jobs ! i))" if "\<nexists>s. thread_step env rd jobs (c, ts) s" "i < length jobs" for i
    using threads_progress [of env rd jobs c ts i] run that fin by blast
  with k fin show ?thesis by blast
qed

lemma relpowp_six: "r a b \<Longrightarrow> r b c \<Longrightarrow> r c d \<Longrightarrow> r d e \<Longrightarrow> r e f \<Longrightarrow> r f g \<Longrightarrow> (r ^^ 6) a g"
  by (simp add: eval_nat_numeral) blast

theorem concurrent_decodes_finish_witness:
  "\<exists>rd c. open_with_tile_cache_bytes (\<lambda>_. Some dense_meta) (Some (stored_file 1 dense_file)) 4096 = Inr rd \<and>
     (thread_step dense_env rd [(sample_variable, dense_record, 3), (sample_variable, dense_record, 3)] ^^ 6)
       (hr_tile_cache rd, [Lookup_Cache, Lookup_Cache]) (c, [Finished (Inr dense_values), Finished (Inr dense_values)])"
proof -
  let ?j = "(sample_variable, dense_record, 3::nat)" and ?k = "tile_key sample_variable dense_record"
  obtain rd where rd: "open_with_tile_cache_bytes (\<lambda>_. Some dense_meta) (Some (stored_file 1 dense_file)) 4096 = Inr rd"
      "hr_meta rd = dense_meta" "lookup_2d rd ''t2m'' = Inr sample_variable"
      "find_chunk_record rd sample_variable KIND_TILE2D 0 0 = Inr dense_record"
      "decode_tile dense_env rd dense_record 3 = Inr dense_values"
    by (rule dense_reader)
  let ?step = "thread_step dense_env rd [?j, ?j]"
  have "dc_entries (hr_tile_cache rd) = []" using open_reader_ok [OF rd(1)] by (metis cache_new_def decoded_tile_cache.select_convs(8))
  then obtain c1 c2 where g: "cache_get ?k (hr_tile_cache rd) = (None, c1)" "cache_get ?k c1 = (None, c2)"
    by (simp add: cache_get_def next_stamp_def Let_def)
  obtain t3 c3 t4 c4 where ins: "cache_insert (re_reserve dense_env ?k) ?k dense_values c2 = (t3, c3)"
      "cache_insert (re_reserve dense_env ?k) ?k dense_values c3 = (t4, c4)"
    by (meson prod.exhaust)
  have "?step (hr_tile_cache rd, [Lookup_Cache, Lookup_Cache]) (c1, [Decode_Tile, Lookup_Cache])"
    using miss [where i = 0 and jobs = "[?j, ?j]" and ts = "[Lookup_Cache, Lookup_Cache]", OF _ _ _ g(1)] by simp
  moreover have "?step (c1, [Decode_Tile, Lookup_Cache]) (c2, [Decode_Tile, Decode_Tile])"
    using miss [where i = 1 and jobs = "[?j, ?j]" and ts = "[Decode_Tile, Lookup_Cache]", OF _ _ _ g(2)] by simp
  moreover have "?step (c2, [Decode_Tile, Decode_Tile]) (c2, [Insert_Tile dense_values, Decode_Tile])"
    using decoded [where i = 0 and jobs = "[?j, ?j]" and ts = "[Decode_Tile, Decode_Tile]", OF _ _ _ rd(5)] by simp
  moreover have "?step (c2, [Insert_Tile dense_values, Decode_Tile]) (c2, [Insert_Tile dense_values, Insert_Tile dense_values])"
    using decoded [where i = 1 and jobs = "[?j, ?j]" and ts = "[Insert_Tile dense_values, Decode_Tile]", OF _ _ _ rd(5)] by simp
  moreover have "?step (c2, [Insert_Tile dense_values, Insert_Tile dense_values]) (c3, [Finished (Inr t3), Insert_Tile dense_values])"
    using inserted [where i = 0 and jobs = "[?j, ?j]" and ts = "[Insert_Tile dense_values, Insert_Tile dense_values]", OF _ _ _ ins(1)] by simp
  moreover have "?step (c3, [Finished (Inr t3), Insert_Tile dense_values]) (c4, [Finished (Inr t3), Finished (Inr t4)])"
    using inserted [where i = 1 and jobs = "[?j, ?j]" and ts = "[Finished (Inr t3), Insert_Tile dense_values]", OF _ _ _ ins(2)] by simp
  ultimately have run: "(?step ^^ 6) (hr_tile_cache rd, [Lookup_Cache, Lookup_Cache]) (c4, [Finished (Inr t3), Finished (Inr t4)])"
    by (rule relpowp_six)
  have "job_ok rd ?j" unfolding job_ok_def prod.case
    by (intro exI [of _ "''t2m''"] exI [of _ 0]) (simp add: rd tile_dims_def div_ceil_pos geometry_consts)
  then have "\<forall>i < length [?j, ?j]. \<forall>res. [Finished (Inr t3), Finished (Inr t4)] ! i = Finished res \<longrightarrow> res = job_result dense_env rd ([?j, ?j] ! i)"
    using concurrent_decodes_finish [OF rd(1) _ start, where env = dense_env and jobs = "[?j, ?j]" and k = 6 and c = c4 and ts = "[Finished (Inr t3), Finished (Inr t4)]"] run
    by simp
  then have "t3 = dense_values" "t4 = dense_values" by (simp_all add: job_result_def rd All_less_Suc)
  with rd(1) run show ?thesis by blast
qed

end
