(* ===== verification/Rw_Read3D.thy ===== *)
theory Rw_Read3D
  imports Rw_Read2D
begin

text \<open>
  Reading pressure volumes of an open hour file (\<^verbatim>\<open>rw-store/src/reader.rs\<close>): column
  chunks, full volumes, single levels, chunk planes for one or several selected levels,
  and interpolated profiles. These reads do not use the tile cache.
\<close>

unbundle bit_operations_syntax

section \<open>Column chunks\<close>

definition col_chunk_dims :: "hour_reader \<Rightarrow> nat \<Rightarrow> nat \<Rightarrow> nat \<times> nat" where
  "col_chunk_dims rd cy cx =
     (min (hm_ny (hr_meta rd) - cy * COL_Y) COL_Y, min (hm_nx (hr_meta rd) - cx * COL_X) COL_X)"

definition decode_column_chunk :: "read_env \<Rightarrow> hour_reader \<Rightarrow> chunk_record \<Rightarrow> nat \<Rightarrow> f32 list rw_result" where
  "decode_column_chunk env rd record value_count =
     (if cr_flags record AND FLAG_EMPTY \<noteq> 0 then Inr (replicate value_count f32_NAN)
      else if cr_flags record AND FLAG_CONSTANT \<noteq> 0 \<and> cr_len record = 0
      then Inr (replicate value_count (cr_center record))
      else r_bind (payload_slice rd record) (\<lambda>compressed.
           r_bind (decompress_chunk env compressed (unat (cr_raw_len record))) (\<lambda>raw.
           decode_affine_i16 (cr_flags record) (cr_center record) (cr_scale record) raw value_count)))"

definition read_column_3d :: "read_env \<Rightarrow> hour_reader \<Rightarrow> string \<Rightarrow> nat \<Rightarrow> nat \<Rightarrow> f32 list rw_result" where
  "read_column_3d env rd name ix iy =
     r_bind (lookup_3d rd name) (\<lambda>var.
     if ix \<ge> hm_nx (hr_meta rd) \<or> iy \<ge> hm_ny (hr_meta rd) then Inl (Format ''column out of bounds for grid'')
     else let levels = length (vm_levels_hpa var); cy = iy div COL_Y; cx = ix div COL_X
          in r_bind (find_chunk_record rd var KIND_COLUMN3D cy cx) (\<lambda>record.
             let (rows, cols) = col_chunk_dims rd cy cx
             in r_bind (decode_column_chunk env rd record (rows * cols * levels)) (\<lambda>chunk.
                let start = (iy mod COL_Y * cols + ix mod COL_X) * levels
                in r_bind (r_slice start (start + levels) chunk) (\<lambda>values.
                   r_copy 0 levels values (replicate levels f32_NAN)))))"

text \<open>Scattering a chunk into the level-major volume.\<close>

definition scatter_chunk :: "hour_reader \<Rightarrow> nat \<Rightarrow> nat \<Rightarrow> nat \<Rightarrow> f32 list \<Rightarrow> f32 list \<Rightarrow> f32 list rw_result" where
  "scatter_chunk rd levels cy cx chunk volume =
     (let (rows, cols) = col_chunk_dims rd cy cx; ny = hm_ny (hr_meta rd); nx = hm_nx (hr_meta rd);
          y0 = cy * COL_Y; x0 = cx * COL_X
      in r_fold (\<lambda>gy_local volume.
           let gy = y0 + gy_local
           in r_fold (\<lambda>gx_local volume.
                let gx = x0 + gx_local; chunk_base = (gy_local * cols + gx_local) * levels
                in r_fold (\<lambda>lvl volume.
                     r_bind (r_nth chunk (chunk_base + lvl)) (\<lambda>v. r_set (lvl * ny * nx + gy * nx + gx) v volume))
                   [0..<levels] volume)
              [0..<cols] volume)
         [0..<rows] volume)"

definition read_full_3d :: "read_env \<Rightarrow> hour_reader \<Rightarrow> string \<Rightarrow> f32 list rw_result" where
  "read_full_3d env rd name =
     r_bind (lookup_3d rd name) (\<lambda>var.
     let nx = hm_nx (hr_meta rd); ny = hm_ny (hr_meta rd); levels = length (vm_levels_hpa var)
     in r_bind (ok_or (Option.bind (usize_checked_mul levels ny) (\<lambda>n. usize_checked_mul n nx))
            (Format ''volume size overflows usize'')) (\<lambda>total.
        r_fold (\<lambda>(cy, cx) volume.
            r_bind (find_chunk_record rd var KIND_COLUMN3D cy cx) (\<lambda>record.
            let (rows, cols) = col_chunk_dims rd cy cx
            in r_bind (decode_column_chunk env rd record (rows * cols * levels)) (\<lambda>chunk.
               scatter_chunk rd levels cy cx chunk volume)))
          (List.product [0..<div_ceil ny COL_Y] [0..<div_ceil nx COL_X]) (replicate total f32_NAN)))"

section \<open>One level\<close>

fun position :: "('a \<Rightarrow> bool) \<Rightarrow> 'a list \<Rightarrow> nat option" where
  "position p [] = None"
| "position p (x # xs) = (if p x then Some 0 else map_option Suc (position p xs))"

definition pressure_level_index :: "rws_variable_meta \<Rightarrow> u16 \<Rightarrow> nat rw_result" where
  "pressure_level_index var level_hpa =
     ok_or (position (\<lambda>level. level = level_hpa) (vm_levels_hpa var)) (Meta ''variable has no such level'')"

definition scatter_level :: "hour_reader \<Rightarrow> nat \<Rightarrow> nat \<Rightarrow> nat \<Rightarrow> nat \<Rightarrow> f32 list \<Rightarrow> f32 list \<Rightarrow> f32 list rw_result" where
  "scatter_level rd levels level_index cy cx chunk plane =
     (let (rows, cols) = col_chunk_dims rd cy cx; y0 = cy * COL_Y; x0 = cx * COL_X
      in r_fold (\<lambda>gy_local plane.
           let gy = y0 + gy_local
           in r_fold (\<lambda>gx_local plane.
                let gx = x0 + gx_local; column = (gy_local * cols + gx_local) * levels
                in r_bind (r_nth chunk (column + level_index)) (\<lambda>v. r_set (gy * hm_nx (hr_meta rd) + gx) v plane))
              [0..<cols] plane)
         [0..<rows] plane)"

definition read_level_3d :: "read_env \<Rightarrow> hour_reader \<Rightarrow> string \<Rightarrow> u16 \<Rightarrow> f32 list rw_result" where
  "read_level_3d env rd name level_hpa =
     r_bind (lookup_3d rd name) (\<lambda>var.
     r_bind (pressure_level_index var level_hpa) (\<lambda>level_index.
     let nx = hm_nx (hr_meta rd); ny = hm_ny (hr_meta rd)
     in r_bind (ok_or (usize_checked_mul nx ny) (Format ''plane size overflows usize'')) (\<lambda>cells.
        let levels = length (vm_levels_hpa var)
        in r_fold (\<lambda>(cy, cx) plane.
             r_bind (find_chunk_record rd var KIND_COLUMN3D cy cx) (\<lambda>record.
             let (rows, cols) = col_chunk_dims rd cy cx
             in r_bind (decode_column_chunk env rd record (rows * cols * levels)) (\<lambda>chunk.
                scatter_level rd levels level_index cy cx chunk plane)))
           (List.product [0..<div_ceil ny COL_Y] [0..<div_ceil nx COL_X]) (replicate cells f32_NAN))))"

section \<open>Chunk planes\<close>

record pressure_chunk_geometry =
  pg_chunk_y :: nat
  pg_chunk_x :: nat
  pg_x0 :: nat
  pg_y0 :: nat
  pg_width :: nat
  pg_height :: nat
  pg_level_hpa :: u16

definition pressure_cell_count :: "pressure_chunk_geometry \<Rightarrow> nat" where
  "pressure_cell_count g = pg_width g * pg_height g"

datatype pressure_chunk_data = Pressure_Empty | Pressure_Constant f32 | Pressure_Dense "f32 list"

record pressure_chunk =
  pc_geometry :: pressure_chunk_geometry
  pc_data :: pressure_chunk_data

definition pressure_get :: "pressure_chunk \<Rightarrow> nat \<Rightarrow> nat \<Rightarrow> f32 option" where
  "pressure_get c row column =
     (if row \<ge> pg_height (pc_geometry c) \<or> column \<ge> pg_width (pc_geometry c) then None
      else let index = row * pg_width (pc_geometry c) + column
           in case pc_data c of
                Pressure_Empty \<Rightarrow> Some f32_NAN
              | Pressure_Constant value \<Rightarrow> Some value
              | Pressure_Dense values \<Rightarrow> (if index < length values then Some (values ! index) else None))"

record selected_chunk_geometry =
  sg_chunk_y :: nat
  sg_chunk_x :: nat
  sg_x0 :: nat
  sg_y0 :: nat
  sg_width :: nat
  sg_height :: nat

definition selected_cell_count :: "selected_chunk_geometry \<Rightarrow> nat" where
  "selected_cell_count g = sg_width g * sg_height g"

datatype selected_chunk_data = Selected_Empty | Selected_Constant f32 | Selected_Dense "f32 list"

datatype selected_plane = Plane_Empty | Plane_Constant f32 | Plane_Dense "f32 list"

record selected_chunk =
  sc_geometry :: selected_chunk_geometry
  sc_levels_hpa :: "u16 list"
  sc_data :: selected_chunk_data

definition selected_value_count :: "selected_chunk \<Rightarrow> nat" where
  "selected_value_count c = selected_cell_count (sc_geometry c) * length (sc_levels_hpa c)"

definition chunk_plane :: "selected_chunk \<Rightarrow> nat \<Rightarrow> selected_plane option rw_result" where
  "chunk_plane c selected_level_index =
     (if selected_level_index \<ge> length (sc_levels_hpa c) then Inr None
      else case sc_data c of
             Selected_Empty \<Rightarrow> Inr (Some Plane_Empty)
           | Selected_Constant value \<Rightarrow> Inr (Some (Plane_Constant value))
           | Selected_Dense values \<Rightarrow>
               (let start = selected_level_index * selected_cell_count (sc_geometry c)
                in r_bind (r_slice start (start + selected_cell_count (sc_geometry c)) values) (\<lambda>plane.
                   Inr (Some (Plane_Dense plane)))))"

definition selected_get :: "selected_chunk \<Rightarrow> nat \<Rightarrow> nat \<Rightarrow> nat \<Rightarrow> f32 option" where
  "selected_get c selected_level_index row column =
     (if selected_level_index \<ge> length (sc_levels_hpa c) \<or> row \<ge> sg_height (sc_geometry c) \<or>
         column \<ge> sg_width (sc_geometry c) then None
      else let plane_index = row * sg_width (sc_geometry c) + column;
               index = selected_level_index * selected_cell_count (sc_geometry c) + plane_index
           in case sc_data c of
                Selected_Empty \<Rightarrow> Some f32_NAN
              | Selected_Constant value \<Rightarrow> Some value
              | Selected_Dense values \<Rightarrow> (if index < length values then Some (values ! index) else None))"

section \<open>Enumerating chunks\<close>

record selected_chunks_iter =
  si_grid_nx :: nat
  si_grid_ny :: nat
  si_chunks_x :: nat
  si_chunks_y :: nat
  si_levels_hpa :: "u16 list"
  si_next :: nat
  si_chunk_count :: nat

definition selected_next :: "selected_chunks_iter \<Rightarrow> (selected_chunk_geometry \<times> selected_chunks_iter) option" where
  "selected_next it =
     (if si_next it = si_chunk_count it then None
      else let ordinal = si_next it;
               chunk_y = ordinal div si_chunks_x it; chunk_x = ordinal mod si_chunks_x it;
               y0 = chunk_y * COL_Y; x0 = chunk_x * COL_X
           in Some (\<lparr>sg_chunk_y = chunk_y, sg_chunk_x = chunk_x, sg_x0 = x0, sg_y0 = y0,
                     sg_width = min (si_grid_nx it - x0) COL_X, sg_height = min (si_grid_ny it - y0) COL_Y\<rparr>,
                   it\<lparr>si_next := ordinal + 1\<rparr>))"

definition selected_size_hint :: "selected_chunks_iter \<Rightarrow> nat" where
  "selected_size_hint it = si_chunk_count it - si_next it"

record pressure_chunks_iter =
  pi_grid_nx :: nat
  pi_grid_ny :: nat
  pi_chunks_x :: nat
  pi_chunks_y :: nat
  pi_level_hpa :: u16
  pi_next :: nat
  pi_chunk_count :: nat

definition pressure_next :: "pressure_chunks_iter \<Rightarrow> (pressure_chunk_geometry \<times> pressure_chunks_iter) option" where
  "pressure_next it =
     (if pi_next it = pi_chunk_count it then None
      else let ordinal = pi_next it;
               chunk_y = ordinal div pi_chunks_x it; chunk_x = ordinal mod pi_chunks_x it;
               y0 = chunk_y * COL_Y; x0 = chunk_x * COL_X
           in Some (\<lparr>pg_chunk_y = chunk_y, pg_chunk_x = chunk_x, pg_x0 = x0, pg_y0 = y0,
                     pg_width = min (pi_grid_nx it - x0) COL_X, pg_height = min (pi_grid_ny it - y0) COL_Y,
                     pg_level_hpa = pi_level_hpa it\<rparr>,
                   it\<lparr>pi_next := ordinal + 1\<rparr>))"

definition pressure_size_hint :: "pressure_chunks_iter \<Rightarrow> nat" where
  "pressure_size_hint it = pi_chunk_count it - pi_next it"

definition pressure_level_chunks_3d_for_var :: "hour_reader \<Rightarrow> rws_variable_meta \<Rightarrow> u16 \<Rightarrow> pressure_chunks_iter rw_result" where
  "pressure_level_chunks_3d_for_var rd var level_hpa =
     (let chunks_y = div_ceil (hm_ny (hr_meta rd)) COL_Y; chunks_x = div_ceil (hm_nx (hr_meta rd)) COL_X
      in r_bind (ok_or (usize_checked_mul chunks_y chunks_x) (Format ''column chunk count overflows usize'')) (\<lambda>chunk_count.
         r_bind (ok_or (hr_var_ranges rd (vm_id var)) (Format ''variable has no chunk index entries'')) (\<lambda>(a, b).
         if b - a \<noteq> chunk_count then Inl (Format ''variable has chunk index records, expected'')
         else Inr \<lparr>pi_grid_nx = hm_nx (hr_meta rd), pi_grid_ny = hm_ny (hr_meta rd), pi_chunks_x = chunks_x,
                   pi_chunks_y = chunks_y, pi_level_hpa = level_hpa, pi_next = 0, pi_chunk_count = chunk_count\<rparr>)))"

definition pressure_level_chunks_3d :: "hour_reader \<Rightarrow> string \<Rightarrow> u16 \<Rightarrow> pressure_chunks_iter rw_result" where
  "pressure_level_chunks_3d rd name level_hpa =
     r_bind (lookup_3d rd name) (\<lambda>var.
     r_bind (pressure_level_index var level_hpa) (\<lambda>_. pressure_level_chunks_3d_for_var rd var level_hpa))"

text \<open>The selection of levels: not empty, within the ceiling, no duplicates, all present.\<close>

fun has_duplicate :: "u16 list \<Rightarrow> u16 set \<Rightarrow> bool" where
  "has_duplicate [] seen = False"
| "has_duplicate (l # ls) seen = (l \<in> seen \<or> has_duplicate ls (insert l seen))"

definition selected_pressure_level_indices :: "rws_variable_meta \<Rightarrow> u16 list \<Rightarrow> nat list rw_result" where
  "selected_pressure_level_indices var levels_hpa =
     (if levels_hpa = [] then Inl (Format ''selected pressure levels must not be empty'')
      else if length levels_hpa > MAX_PRESSURE_LEVELS then Inl (Format ''selected pressure level count exceeds limit'')
      else if has_duplicate levels_hpa {} then Inl (Format ''selected pressure level is duplicated'')
      else r_map (pressure_level_index var) levels_hpa)"

definition selected_pressure_level_chunks_3d_for_var ::
    "hour_reader \<Rightarrow> rws_variable_meta \<Rightarrow> u16 list \<Rightarrow> selected_chunks_iter rw_result" where
  "selected_pressure_level_chunks_3d_for_var rd var levels_hpa =
     r_bind (r_nth levels_hpa 0) (\<lambda>first.
     r_bind (pressure_level_chunks_3d_for_var rd var first) (\<lambda>chunks.
     Inr \<lparr>si_grid_nx = pi_grid_nx chunks, si_grid_ny = pi_grid_ny chunks, si_chunks_x = pi_chunks_x chunks,
          si_chunks_y = pi_chunks_y chunks, si_levels_hpa = levels_hpa, si_next = 0, si_chunk_count = pi_chunk_count chunks\<rparr>))"

definition selected_pressure_level_chunks_3d :: "hour_reader \<Rightarrow> string \<Rightarrow> u16 list \<Rightarrow> selected_chunks_iter rw_result" where
  "selected_pressure_level_chunks_3d rd name levels_hpa =
     r_bind (lookup_3d rd name) (\<lambda>var.
     r_bind (selected_pressure_level_indices var levels_hpa) (\<lambda>_. selected_pressure_level_chunks_3d_for_var rd var levels_hpa))"

definition pressure_level_chunk_geometry_3d :: "hour_reader \<Rightarrow> u16 \<Rightarrow> nat \<Rightarrow> nat \<Rightarrow> pressure_chunk_geometry rw_result" where
  "pressure_level_chunk_geometry_3d rd level_hpa chunk_y chunk_x =
     (let chunks_y = div_ceil (hm_ny (hr_meta rd)) COL_Y; chunks_x = div_ceil (hm_nx (hr_meta rd)) COL_X
      in if chunk_y \<ge> chunks_y \<or> chunk_x \<ge> chunks_x then Inl (Format ''column chunk is outside chunk grid'')
         else r_bind (ok_or (usize_checked_mul chunk_y COL_Y) (Format ''column chunk y offset overflows'')) (\<lambda>y0.
              r_bind (ok_or (usize_checked_mul chunk_x COL_X) (Format ''column chunk x offset overflows'')) (\<lambda>x0.
              Inr \<lparr>pg_chunk_y = chunk_y, pg_chunk_x = chunk_x, pg_x0 = x0, pg_y0 = y0,
                   pg_width = min (hm_nx (hr_meta rd) - x0) COL_X, pg_height = min (hm_ny (hr_meta rd) - y0) COL_Y,
                   pg_level_hpa = level_hpa\<rparr>)))"

definition selected_pressure_level_chunk_geometry_3d :: "hour_reader \<Rightarrow> nat \<Rightarrow> nat \<Rightarrow> selected_chunk_geometry rw_result" where
  "selected_pressure_level_chunk_geometry_3d rd chunk_y chunk_x =
     (let chunks_y = div_ceil (hm_ny (hr_meta rd)) COL_Y; chunks_x = div_ceil (hm_nx (hr_meta rd)) COL_X
      in if chunk_y \<ge> chunks_y \<or> chunk_x \<ge> chunks_x then Inl (Format ''column chunk is outside chunk grid'')
         else r_bind (ok_or (usize_checked_mul chunk_y COL_Y) (Format ''column chunk y offset overflows'')) (\<lambda>y0.
              r_bind (ok_or (usize_checked_mul chunk_x COL_X) (Format ''column chunk x offset overflows'')) (\<lambda>x0.
              Inr \<lparr>sg_chunk_y = chunk_y, sg_chunk_x = chunk_x, sg_x0 = x0, sg_y0 = y0,
                   sg_width = min (hm_nx (hr_meta rd) - x0) COL_X, sg_height = min (hm_ny (hr_meta rd) - y0) COL_Y\<rparr>)))"

section \<open>Reading chunk planes\<close>

text \<open>
  One selected plane, decoded cell by cell from the decompressed \<open>[cell][level]\<close> words.
\<close>

definition fill_plane :: "chunk_record \<Rightarrow> nat \<Rightarrow> nat \<Rightarrow> u8 list \<Rightarrow> nat \<times> nat \<Rightarrow> f32 list \<Rightarrow> f32 list rw_result" where
  "fill_plane record cell_count all_level_count raw job selected =
     (case job of (selected_index, source_level_index) \<Rightarrow>
       r_bind (r_slice (selected_index * cell_count) ((selected_index + 1) * cell_count) selected) (\<lambda>_.
       r_fold (\<lambda>cell selected.
           let raw_byte_index = (cell * all_level_count + source_level_index) * 2
           in r_bind (r_nth raw raw_byte_index) (\<lambda>b0.
              r_bind (r_nth raw (raw_byte_index + 1)) (\<lambda>b1.
              r_set (selected_index * cell_count + cell)
                (dequantize (cr_flags record) (cr_center record) (cr_scale record) (u16_of_le [b0, b1])) selected)))
         [0..<cell_count] selected))"

definition read_selected_chunk_data :: "read_env \<Rightarrow> hour_reader \<Rightarrow> rws_variable_meta \<Rightarrow> nat list \<Rightarrow> selected_chunk_geometry
    \<Rightarrow> selected_chunk_data rw_result" where
  "read_selected_chunk_data env rd var selected_level_indices geometry =
     r_bind (find_chunk_record rd var KIND_COLUMN3D (sg_chunk_y geometry) (sg_chunk_x geometry)) (\<lambda>record.
     if cr_flags record AND FLAG_EMPTY \<noteq> 0 then Inr Selected_Empty
     else if cr_flags record AND FLAG_CONSTANT \<noteq> 0 \<and> cr_len record = 0 then Inr (Selected_Constant (cr_center record))
     else
       let all_level_count = length (vm_levels_hpa var); cells = selected_cell_count geometry
       in r_bind (ok_or (usize_checked_mul cells all_level_count) (Format ''column chunk value count overflows usize'')) (\<lambda>all_value_count.
          r_bind (ok_or (usize_checked_mul all_value_count 2) (Chunk ''column chunk raw byte count overflows usize'')) (\<lambda>expected_raw_len.
          if unat (cr_raw_len record) \<noteq> expected_raw_len then Inl (Chunk ''raw_len does not match i16 values'')
          else r_bind (payload_slice rd record) (\<lambda>compressed.
               r_bind (decompress_chunk env compressed (unat (cr_raw_len record))) (\<lambda>raw.
               r_bind (ok_or (usize_checked_mul cells (length selected_level_indices))
                   (Format ''selected column chunk value count overflows usize'')) (\<lambda>value_count.
               r_bind (r_fold (fill_plane record cells all_level_count raw) (enumerate 0 selected_level_indices)
                   (replicate value_count f32_NAN)) (\<lambda>selected.
               Inr (Selected_Dense selected))))))))"

definition read_pressure_chunk_for_var :: "read_env \<Rightarrow> hour_reader \<Rightarrow> rws_variable_meta \<Rightarrow> nat \<Rightarrow> pressure_chunk_geometry
    \<Rightarrow> pressure_chunk rw_result" where
  "read_pressure_chunk_for_var env rd var level_index geometry =
     (let selected_geometry = \<lparr>sg_chunk_y = pg_chunk_y geometry, sg_chunk_x = pg_chunk_x geometry, sg_x0 = pg_x0 geometry,
            sg_y0 = pg_y0 geometry, sg_width = pg_width geometry, sg_height = pg_height geometry\<rparr>
      in r_bind (read_selected_chunk_data env rd var [level_index] selected_geometry) (\<lambda>selected_data.
         Inr \<lparr>pc_geometry = geometry, pc_data =
           (case selected_data of
              Selected_Empty \<Rightarrow> Pressure_Empty
            | Selected_Constant value \<Rightarrow> Pressure_Constant value
            | Selected_Dense values \<Rightarrow> Pressure_Dense values)\<rparr>))"

definition read_pressure_level_chunk_3d :: "read_env \<Rightarrow> hour_reader \<Rightarrow> string \<Rightarrow> u16 \<Rightarrow> nat \<Rightarrow> nat \<Rightarrow> pressure_chunk rw_result" where
  "read_pressure_level_chunk_3d env rd name level_hpa chunk_y chunk_x =
     r_bind (lookup_3d rd name) (\<lambda>var.
     r_bind (pressure_level_index var level_hpa) (\<lambda>level_index.
     r_bind (pressure_level_chunk_geometry_3d rd level_hpa chunk_y chunk_x) (\<lambda>geometry.
     read_pressure_chunk_for_var env rd var level_index geometry)))"

definition read_selected_pressure_level_chunk_3d :: "read_env \<Rightarrow> hour_reader \<Rightarrow> string \<Rightarrow> u16 list \<Rightarrow> nat \<Rightarrow> nat
    \<Rightarrow> selected_chunk rw_result" where
  "read_selected_pressure_level_chunk_3d env rd name levels_hpa chunk_y chunk_x =
     r_bind (lookup_3d rd name) (\<lambda>var.
     r_bind (selected_pressure_level_indices var levels_hpa) (\<lambda>level_indices.
     r_bind (selected_pressure_level_chunk_geometry_3d rd chunk_y chunk_x) (\<lambda>geometry.
     r_bind (read_selected_chunk_data env rd var level_indices geometry) (\<lambda>data.
     Inr \<lparr>sc_geometry = geometry, sc_levels_hpa = levels_hpa, sc_data = data\<rparr>))))"

section \<open>Visiting chunk planes\<close>

partial_function (option) visit_pressure_loop ::
    "read_env \<Rightarrow> hour_reader \<Rightarrow> rws_variable_meta \<Rightarrow> nat \<Rightarrow> (pressure_chunk \<Rightarrow> 's \<Rightarrow> 's rw_result)
      \<Rightarrow> pressure_chunks_iter \<Rightarrow> 's \<Rightarrow> 's rw_result option" where
  "visit_pressure_loop env rd var level_index visitor it s =
     (case pressure_next it of
        None \<Rightarrow> Some (Inr s)
      | Some (geometry, it') \<Rightarrow>
          (case read_pressure_chunk_for_var env rd var level_index geometry of
             Inl e \<Rightarrow> Some (Inl e)
           | Inr chunk \<Rightarrow>
               (case visitor chunk s of
                  Inl e \<Rightarrow> Some (Inl e)
                | Inr s' \<Rightarrow> visit_pressure_loop env rd var level_index visitor it' s')))"

definition visit_pressure_level_chunks_3d :: "read_env \<Rightarrow> hour_reader \<Rightarrow> string \<Rightarrow> u16 \<Rightarrow> (pressure_chunk \<Rightarrow> 's \<Rightarrow> 's rw_result)
    \<Rightarrow> 's \<Rightarrow> 's rw_result option" where
  "visit_pressure_level_chunks_3d env rd name level_hpa visitor s =
     (case r_bind (lookup_3d rd name) (\<lambda>var.
           r_bind (pressure_level_index var level_hpa) (\<lambda>level_index.
           r_bind (pressure_level_chunks_3d_for_var rd var level_hpa) (\<lambda>chunks. Inr (var, level_index, chunks)))) of
        Inl e \<Rightarrow> Some (Inl e)
      | Inr (var, level_index, chunks) \<Rightarrow> visit_pressure_loop env rd var level_index visitor chunks s)"

partial_function (option) visit_selected_loop ::
    "read_env \<Rightarrow> hour_reader \<Rightarrow> rws_variable_meta \<Rightarrow> nat list \<Rightarrow> u16 list \<Rightarrow> (selected_chunk \<Rightarrow> 's \<Rightarrow> 's rw_result)
      \<Rightarrow> selected_chunks_iter \<Rightarrow> 's \<Rightarrow> 's rw_result option" where
  "visit_selected_loop env rd var level_indices levels_hpa visitor it s =
     (case selected_next it of
        None \<Rightarrow> Some (Inr s)
      | Some (geometry, it') \<Rightarrow>
          (case read_selected_chunk_data env rd var level_indices geometry of
             Inl e \<Rightarrow> Some (Inl e)
           | Inr data \<Rightarrow>
               (case visitor \<lparr>sc_geometry = geometry, sc_levels_hpa = levels_hpa, sc_data = data\<rparr> s of
                  Inl e \<Rightarrow> Some (Inl e)
                | Inr s' \<Rightarrow> visit_selected_loop env rd var level_indices levels_hpa visitor it' s')))"

definition visit_selected_pressure_level_chunks_3d :: "read_env \<Rightarrow> hour_reader \<Rightarrow> string \<Rightarrow> u16 list
    \<Rightarrow> (selected_chunk \<Rightarrow> 's \<Rightarrow> 's rw_result) \<Rightarrow> 's \<Rightarrow> 's rw_result option" where
  "visit_selected_pressure_level_chunks_3d env rd name levels_hpa visitor s =
     (case r_bind (lookup_3d rd name) (\<lambda>var.
           r_bind (selected_pressure_level_indices var levels_hpa) (\<lambda>level_indices.
           r_bind (selected_pressure_level_chunks_3d_for_var rd var levels_hpa) (\<lambda>chunks. Inr (var, level_indices, chunks)))) of
        Inl e \<Rightarrow> Some (Inl e)
      | Inr (var, level_indices, chunks) \<Rightarrow> visit_selected_loop env rd var level_indices levels_hpa visitor chunks s)"

section \<open>Interpolated profiles\<close>

text \<open>The fractional coordinates are binary64 numbers.\<close>

definition f64_of_nat :: "nat \<Rightarrow> fnum" where
  "f64_of_nat n = f64_round (FFin False (of_nat n))"

definition f64_clamp :: "fnum \<Rightarrow> fnum \<Rightarrow> fnum \<Rightarrow> fnum" where
  "f64_clamp x lo hi = (let y = if num_lt x lo then lo else x in if num_lt hi y then hi else y)"

text \<open>\<open>floor() as usize\<close> and \<open>ceil() as usize\<close>.\<close>

fun floor_usize :: "fnum \<Rightarrow> nat" where
  "floor_usize FNaN = 0"
| "floor_usize (FInf s) = (if s then 0 else usize_bound - 1)"
| "floor_usize (FFin s m) = min (nat \<lfloor>signed s m\<rfloor>) (usize_bound - 1)"

fun ceil_usize :: "fnum \<Rightarrow> nat" where
  "ceil_usize FNaN = 0"
| "ceil_usize (FInf s) = (if s then 0 else usize_bound - 1)"
| "ceil_usize (FFin s m) = min (nat \<lceil>signed s m\<rceil>) (usize_bound - 1)"

fun num_is_finite :: "fnum \<Rightarrow> bool" where
  "num_is_finite (FFin s m) = True"
| "num_is_finite _ = False"

definition profile_corners :: "fnum \<Rightarrow> fnum \<Rightarrow> (nat \<times> nat \<times> f32) list" where
  "profile_corners fx fy =
     (let x0 = floor_usize fx; x1 = ceil_usize fx; y0 = floor_usize fy; y1 = ceil_usize fy;
          wx = f32_of_num (f64_sub fx (f64_of_nat x0)); wy = f32_of_num (f64_sub fy (f64_of_nat y0));
          one = 0x3F800000
      in [(x0, y0, f32_mul (f32_sub one wx) (f32_sub one wy)), (x1, y0, f32_mul wx (f32_sub one wy)),
          (x0, y1, f32_mul (f32_sub one wx) wy), (x1, y1, f32_mul wx wy)])"

text \<open>The chunks the corners touch, each decoded once.\<close>

definition load_corner :: "read_env \<Rightarrow> hour_reader \<Rightarrow> rws_variable_meta \<Rightarrow> nat \<times> nat \<times> f32
    \<Rightarrow> ((nat \<times> nat) \<times> f32 list) list \<Rightarrow> ((nat \<times> nat) \<times> f32 list) list rw_result" where
  "load_corner env rd var corner chunks =
     (case corner of (ix, iy, _) \<Rightarrow>
       let key = (iy div COL_Y, ix div COL_X)
       in if \<exists>(have, _) \<in> set chunks. have = key then Inr chunks
          else r_bind (find_chunk_record rd var KIND_COLUMN3D (fst key) (snd key)) (\<lambda>record.
               let (rows, cols) = col_chunk_dims rd (fst key) (snd key)
               in r_bind (decode_column_chunk env rd record (rows * cols * length (vm_levels_hpa var))) (\<lambda>decoded.
                  Inr (chunks @ [(key, decoded)]))))"

definition corner_column :: "hour_reader \<Rightarrow> nat \<Rightarrow> ((nat \<times> nat) \<times> f32 list) list \<Rightarrow> nat \<times> nat \<times> f32 \<Rightarrow> (f32 list \<times> f32) rw_result" where
  "corner_column rd levels chunks corner =
     (case corner of (ix, iy, weight) \<Rightarrow>
       let key = (iy div COL_Y, ix div COL_X); (_, cols) = col_chunk_dims rd (fst key) (snd key)
       in r_bind (ok_or (find (\<lambda>(have, _). have = key) chunks) (Panicked ''unwrap'')) (\<lambda>(_, chunk).
          let start = (iy mod COL_Y * cols + ix mod COL_X) * levels
          in r_bind (r_slice start (start + levels) chunk) (\<lambda>column. Inr (column, weight))))"

definition profile_value :: "nat \<Rightarrow> (f32 list \<times> f32) list \<Rightarrow> f32 rw_result" where
  "profile_value k columns =
     r_bind (r_fold (\<lambda>(column, weight) (weight_sum, value_sum).
         r_bind (r_nth column k) (\<lambda>value.
         Inr (if f32_is_finite value then (f32_add weight_sum weight, f32_add value_sum (f32_mul weight value))
              else (weight_sum, value_sum)))) columns (0, 0)) (\<lambda>(weight_sum, value_sum).
     Inr (if f32_lt 0 weight_sum then f32_div value_sum weight_sum else f32_NAN))"

definition read_profile_3d :: "read_env \<Rightarrow> hour_reader \<Rightarrow> string \<Rightarrow> fnum \<Rightarrow> fnum \<Rightarrow> f32 list rw_result" where
  "read_profile_3d env rd name fx fy =
     r_bind (lookup_3d rd name) (\<lambda>var.
     if \<not> num_is_finite fx \<or> \<not> num_is_finite fy then Inl (Format ''profile coordinates must be finite'')
     else let levels = length (vm_levels_hpa var);
              fx = f64_clamp fx (FFin False 0) (f64_of_nat (hm_nx (hr_meta rd) - 1));
              fy = f64_clamp fy (FFin False 0) (f64_of_nat (hm_ny (hr_meta rd) - 1));
              corners = profile_corners fx fy
          in r_bind (r_fold (load_corner env rd var) corners []) (\<lambda>chunks.
             r_bind (r_map (corner_column rd levels chunks) corners) (\<lambda>columns.
             r_map (\<lambda>k. profile_value k columns) [0..<levels])))"

end
