(* ===== verification/Rw_Read3D_Facts.thy ===== *)
theory Rw_Read3D_Facts
  imports Rw_Read3D Rw_Read2D_Facts
begin

text \<open>
  Correctness of the volume reads: one specification of the value of a cell at a level,
  and every way to read it against that.
\<close>

unbundle bit_operations_syntax

section \<open>Decoding one column chunk\<close>

lemma decode_affine_length: "decode_affine_i16 flags center scale payload n = Inr vs \<Longrightarrow> length vs = n"
  by (auto simp: decode_affine_i16_def length_chunks_exact split: if_splits)

lemma decode_column_length: "decode_column_chunk env rd r n = Inr vs \<Longrightarrow> length vs = n"
  by (auto simp: decode_column_chunk_def r_bind_eq_Inr dest: decode_affine_length split: if_splits)

lemma not_panics_decode_affine: "\<not> panics (decode_affine_i16 flags center scale payload n)"
  by (simp add: decode_affine_i16_def)

lemma not_panics_decode_column: "\<not> panics (decode_column_chunk env rd r n)"
  unfolding decode_column_chunk_def
  by (intro not_panics_intros not_panics_payload_slice not_panics_decompress not_panics_decode_affine) simp_all

lemma col_dims_extent:
  "col_chunk_dims rd cy cx = (col_y.extent (hm_ny (hr_meta rd)) cy, col_x.extent (hm_nx (hr_meta rd)) cx)"
  by (simp add: col_chunk_dims_def col_y.extent_def col_x.extent_def)

section \<open>The value of a cell at a level\<close>

definition levels_of :: "rws_variable_meta \<Rightarrow> nat" where
  "levels_of var = length (vm_levels_hpa var)"

definition column_values :: "read_env \<Rightarrow> hour_reader \<Rightarrow> rws_variable_meta \<Rightarrow> nat \<Rightarrow> nat \<Rightarrow> f32 list rw_result" where
  "column_values env rd var cy cx =
     r_bind (find_chunk_record rd var KIND_COLUMN3D cy cx) (\<lambda>record.
       decode_column_chunk env rd record (fst (col_chunk_dims rd cy cx) * snd (col_chunk_dims rd cy cx) * levels_of var))"

definition column_index :: "hour_reader \<Rightarrow> rws_variable_meta \<Rightarrow> nat \<Rightarrow> nat \<Rightarrow> nat" where
  "column_index rd var y x =
     (y mod COL_Y * snd (col_chunk_dims rd (y div COL_Y) (x div COL_X)) + x mod COL_X) * levels_of var"

definition cell_3d :: "read_env \<Rightarrow> hour_reader \<Rightarrow> rws_variable_meta \<Rightarrow> nat \<Rightarrow> nat \<Rightarrow> nat \<Rightarrow> f32 rw_result" where
  "cell_3d env rd var z y x =
     r_bind (column_values env rd var (y div COL_Y) (x div COL_X)) (\<lambda>chunk. Inr (chunk ! (column_index rd var y x + z)))"

lemma column_values_length:
  "column_values env rd var cy cx = Inr c \<Longrightarrow>
    length c = col_y.extent (hm_ny (hr_meta rd)) cy * col_x.extent (hm_nx (hr_meta rd)) cx * levels_of var"
  by (auto simp: column_values_def r_bind_eq_Inr col_dims_extent dest: decode_column_length)

lemma volume_variable:
  assumes "lookup_3d rd name = Inr var"
  shows "var \<in> set (hm_variables (hr_meta rd))" "vm_kind var = ''pressure3d''"
  using assms find_variable_Some by (auto simp: lookup_3d_Inr)

lemma volume_chunks:
  assumes "vm_kind var = ''pressure3d''"
  shows "chunk_kind var = KIND_COLUMN3D" "chunk_h var = COL_Y" "chunk_w var = COL_X" "chunk_levels var = levels_of var"
    "value_bytes var = 2" "chunks_y meta var = div_ceil (hm_ny meta) COL_Y" "chunks_x meta var = div_ceil (hm_nx meta) COL_X"
  using assms by (simp_all add: chunk_kind_def chunk_h_def chunk_w_def chunk_levels_def value_bytes_def chunks_y_def chunks_x_def
      levels_of_def)

lemma volume_record:
  assumes ok: "reader_ok header rd" and var: "lookup_3d rd name = Inr var"
    and t: "cy < div_ceil (hm_ny (hr_meta rd)) COL_Y" "cx < div_ceil (hm_nx (hr_meta rd)) COL_X"
  obtains r where "find_chunk_record rd var KIND_COLUMN3D cy cx = Inr r" "unat (cr_tile_y r) = cy" "unat (cr_tile_x r) = cx"
    "record_valid (hr_meta rd) header (of_nat (length (as_slice (hr_bytes rd)))) var r"
proof -
  note v = volume_variable [OF var] and k = volume_chunks [OF volume_variable(2) [OF var]]
  show thesis
    using find_chunk_record_ok [OF ok v(1), of cy cx] that t by (simp add: k) blast
qed

text \<open>The whole volume of an opened variable is addressable.\<close>

lemma volume_bound:
  assumes ok: "reader_ok header rd" and var: "lookup_3d rd name = Inr var"
  shows "levels_of var * (hm_ny (hr_meta rd) * hm_nx (hr_meta rd)) < usize_bound" "0 < levels_of var"
proof -
  have "meta_valid (hr_meta rd)" using ok by (simp add: reader_ok_def index_ok_def)
  then have "var_valid (hm_nx (hr_meta rd) * hm_ny (hr_meta rd)) var"
    using volume_variable [OF var] by (simp add: meta_valid_def)
  then have "levels_of var * (hm_nx (hr_meta rd) * hm_ny (hr_meta rd)) \<le> MAX_VOLUME_ELEMENTS" "0 < levels_of var"
    using volume_variable(2) [OF var] by (auto simp: var_valid_def levels_of_def)
  then show "levels_of var * (hm_ny (hr_meta rd) * hm_nx (hr_meta rd)) < usize_bound" "0 < levels_of var"
    by (simp_all add: MAX_VOLUME_ELEMENTS_def usize_bound_def mult.commute [of "hm_ny _"])
qed

section \<open>Filling a volume\<close>

lemma column_index_local:
  assumes "row < col_y.extent (hm_ny (hr_meta rd)) cy" and "col < col_x.extent (hm_nx (hr_meta rd)) cx"
  shows "column_index rd var (cy * COL_Y + row) (cx * COL_X + col) =
    (row * col_x.extent (hm_nx (hr_meta rd)) cx + col) * levels_of var"
  using col_y.piece_inside [OF assms(1)] col_x.piece_inside [OF assms(2)] by (simp add: column_index_def col_dims_extent)

lemma column_index_bound:
  assumes "row < rows" and "col < cols" and "z < levels"
  shows "(row * cols + col) * levels + z < rows * cols * (levels :: nat)"
  using plane_index_less [OF plane_index_less [OF assms(1,2)] assms(3)] .

text \<open>The cells of a chunk.\<close>

definition chunk_cells :: "hour_reader \<Rightarrow> nat \<Rightarrow> nat \<Rightarrow> (nat \<times> nat) set" where
  "chunk_cells rd cy cx = {(y, x). y < hm_ny (hr_meta rd) \<and> x < hm_nx (hr_meta rd) \<and> y div COL_Y = cy \<and> x div COL_X = cx}"

lemma chunk_cells_rows:
  "chunk_cells rd cy cx =
    (\<Union>row < col_y.extent (hm_ny (hr_meta rd)) cy. \<Union>col < col_x.extent (hm_nx (hr_meta rd)) cx. {(cy * COL_Y + row, cx * COL_X + col)})"
proof (intro equalityI subsetI)
  fix p assume "p \<in> chunk_cells rd cy cx"
  then obtain y x where p: "p = (y, x)" "y < hm_ny (hr_meta rd)" "x < hm_nx (hr_meta rd)" "cy = y div COL_Y" "cx = x div COL_X"
    by (auto simp: chunk_cells_def)
  then show "p \<in> (\<Union>row < col_y.extent (hm_ny (hr_meta rd)) cy. \<Union>col < col_x.extent (hm_nx (hr_meta rd)) cx. {(cy * COL_Y + row, cx * COL_X + col)})"
    using col_y.offset_of [OF p(2)] col_x.offset_of [OF p(3)]
    by (intro UN_I [of "y mod COL_Y"] UN_I [of "x mod COL_X"]) simp_all
next
  fix p assume "p \<in> (\<Union>row < col_y.extent (hm_ny (hr_meta rd)) cy. \<Union>col < col_x.extent (hm_nx (hr_meta rd)) cx. {(cy * COL_Y + row, cx * COL_X + col)})"
  then show "p \<in> chunk_cells rd cy cx"
    using col_y.inside col_x.inside col_y.piece_inside(1) col_x.piece_inside(1) by (auto simp: chunk_cells_def)
qed

text \<open>Filling the cells of a chunk, column by column.\<close>

lemma fill_cells:
  assumes v: "filled n F S v"
    and step: "\<And>row col S v. row < col_y.extent (hm_ny (hr_meta rd)) cy \<Longrightarrow> col < col_x.extent (hm_nx (hr_meta rd)) cx \<Longrightarrow>
      filled n F S v \<Longrightarrow> \<exists>v'. f row col v = Inr v' \<and> filled n F (S \<union> P (cy * COL_Y + row, cx * COL_X + col)) v'"
  shows "\<exists>v'. r_fold (\<lambda>row v. r_fold (\<lambda>col v. f row col v) [0..<snd (col_chunk_dims rd cy cx)] v)
      [0..<fst (col_chunk_dims rd cy cx)] v = Inr v' \<and> filled n F (S \<union> (\<Union>p \<in> chunk_cells rd cy cx. P p)) v'"
proof -
  have row: "\<exists>v'. r_fold (\<lambda>col v. f row col v) [0..<snd (col_chunk_dims rd cy cx)] v = Inr v' \<and>
      filled n F (S \<union> (\<Union>col \<in> set [0..<snd (col_chunk_dims rd cy cx)]. P (cy * COL_Y + row, cx * COL_X + col))) v'"
    if "row \<in> set [0..<fst (col_chunk_dims rd cy cx)]" "filled n F S v" for row S v
    using that by (intro filled_fold step) (simp_all add: col_dims_extent)
  have "(\<Union>p \<in> chunk_cells rd cy cx. P p) = (\<Union>row \<in> set [0..<fst (col_chunk_dims rd cy cx)].
      \<Union>col \<in> set [0..<snd (col_chunk_dims rd cy cx)]. P (cy * COL_Y + row, cx * COL_X + col))"
    unfolding chunk_cells_rows by (simp add: col_dims_extent lessThan_atLeast0)
  moreover have "\<exists>v'. r_fold (\<lambda>row v. r_fold (\<lambda>col v. f row col v) [0..<snd (col_chunk_dims rd cy cx)] v)
      [0..<fst (col_chunk_dims rd cy cx)] v = Inr v' \<and> filled n F (S \<union> (\<Union>row \<in> set [0..<fst (col_chunk_dims rd cy cx)].
      \<Union>col \<in> set [0..<snd (col_chunk_dims rd cy cx)]. P (cy * COL_Y + row, cx * COL_X + col))) v'"
    by (rule filled_fold [OF v]) (rule row)
  ultimately show ?thesis by simp
qed

lemma r_nth_less [simp]: "i < length xs \<Longrightarrow> r_nth xs i = Inr (xs ! i)"
  by (simp add: r_nth_def)

text \<open>The two scatter loops.\<close>

lemma scatter_chunk_fills:
  assumes F: "\<And>z y x. z < levels_of var \<Longrightarrow> (y, x) \<in> chunk_cells rd cy cx \<Longrightarrow>
      F (z * hm_ny (hr_meta rd) * hm_nx (hr_meta rd) + y * hm_nx (hr_meta rd) + x) = chunk ! (column_index rd var y x + z)"
    and len: "length chunk = col_y.extent (hm_ny (hr_meta rd)) cy * col_x.extent (hm_nx (hr_meta rd)) cx * levels_of var"
    and v: "filled (levels_of var * hm_ny (hr_meta rd) * hm_nx (hr_meta rd)) F S v"
  shows "\<exists>v'. scatter_chunk rd (levels_of var) cy cx chunk v = Inr v' \<and>
    filled (levels_of var * hm_ny (hr_meta rd) * hm_nx (hr_meta rd)) F
      (S \<union> (\<Union>(y, x) \<in> chunk_cells rd cy cx. \<Union>z < levels_of var. {z * hm_ny (hr_meta rd) * hm_nx (hr_meta rd) + y * hm_nx (hr_meta rd) + x})) v'"
proof -
  let ?nx = "hm_nx (hr_meta rd)" and ?ny = "hm_ny (hr_meta rd)" and ?n = "levels_of var * hm_ny (hr_meta rd) * hm_nx (hr_meta rd)"
  let ?pos = "\<lambda>(y, x). \<Union>z < levels_of var. {z * ?ny * ?nx + y * ?nx + x}"
  let ?f = "\<lambda>row col v. r_fold (\<lambda>z v. r_bind (r_nth chunk ((row * snd (col_chunk_dims rd cy cx) + col) * levels_of var + z))
      (\<lambda>w. r_set (z * ?ny * ?nx + (cy * COL_Y + row) * ?nx + (cx * COL_X + col)) w v)) [0..<levels_of var] v"
  have "\<exists>v'. ?f row col v = Inr v' \<and> filled ?n F (S \<union> ?pos (cy * COL_Y + row, cx * COL_X + col)) v'"
    if rc: "row < col_y.extent ?ny cy" "col < col_x.extent ?nx cx" and v: "filled ?n F S v" for row col S v
  proof -
    have c: "(cy * COL_Y + row, cx * COL_X + col) \<in> chunk_cells rd cy cx" using rc unfolding chunk_cells_rows by blast
    have yx: "cy * COL_Y + row < ?ny" "cx * COL_X + col < ?nx" using c by (simp_all add: chunk_cells_def)
    have "\<exists>v'. ?f row col v = Inr v' \<and>
        filled ?n F (S \<union> (\<Union>z \<in> set [0..<levels_of var]. {z * ?ny * ?nx + (cy * COL_Y + row) * ?nx + (cx * COL_X + col)})) v'"
    proof (rule filled_fold [OF v])
      fix z S v assume z: "z \<in> set [0..<levels_of var]" and v: "filled ?n F S v"
      let ?i = "z * ?ny * ?nx + (cy * COL_Y + row) * ?nx + (cx * COL_X + col)"
      have "z * ?ny + (cy * COL_Y + row) < levels_of var * ?ny" using plane_index_less [of z "levels_of var"] z yx by simp
      from plane_index_less [OF this yx(2)] have i: "?i < ?n" by (simp add: add_mult_distrib)
      have "r_nth chunk ((row * snd (col_chunk_dims rd cy cx) + col) * levels_of var + z) = Inr (F ?i)"
        using F [OF _ c, of z] z column_index_bound [OF rc, of z "levels_of var"] column_index_local [OF rc, of var] len
        by (simp add: col_dims_extent)
      then show "\<exists>v'. r_bind (r_nth chunk ((row * snd (col_chunk_dims rd cy cx) + col) * levels_of var + z))
          (\<lambda>w. r_set ?i w v) = Inr v' \<and> filled ?n F (S \<union> {?i}) v'"
        using filled_set [OF v i refl] by simp
    qed
    then show ?thesis by (simp add: lessThan_atLeast0)
  qed
  with fill_cells [OF v, where f = ?f and P = ?pos] show ?thesis
    by (simp add: scatter_chunk_def Let_def split_beta)
qed

lemma scatter_level_fills:
  assumes F: "\<And>y x. (y, x) \<in> chunk_cells rd cy cx \<Longrightarrow> F (y * hm_nx (hr_meta rd) + x) = chunk ! (column_index rd var y x + k)"
    and len: "length chunk = col_y.extent (hm_ny (hr_meta rd)) cy * col_x.extent (hm_nx (hr_meta rd)) cx * levels_of var"
    and k: "k < levels_of var" and v: "filled (hm_nx (hr_meta rd) * hm_ny (hr_meta rd)) F S v"
  shows "\<exists>v'. scatter_level rd (levels_of var) k cy cx chunk v = Inr v' \<and>
    filled (hm_nx (hr_meta rd) * hm_ny (hr_meta rd)) F
      (S \<union> (\<Union>(y, x) \<in> chunk_cells rd cy cx. {y * hm_nx (hr_meta rd) + x})) v'"
proof -
  let ?nx = "hm_nx (hr_meta rd)" and ?ny = "hm_ny (hr_meta rd)"
  let ?pos = "\<lambda>(y, x). {y * ?nx + x}"
  let ?f = "\<lambda>row col v. r_bind (r_nth chunk ((row * snd (col_chunk_dims rd cy cx) + col) * levels_of var + k))
      (\<lambda>w. r_set ((cy * COL_Y + row) * ?nx + (cx * COL_X + col)) w v)"
  have "\<exists>v'. ?f row col v = Inr v' \<and> filled (?nx * ?ny) F (S \<union> ?pos (cy * COL_Y + row, cx * COL_X + col)) v'"
    if rc: "row < col_y.extent ?ny cy" "col < col_x.extent ?nx cx" and v: "filled (?nx * ?ny) F S v" for row col S v
  proof -
    have c: "(cy * COL_Y + row, cx * COL_X + col) \<in> chunk_cells rd cy cx" using rc unfolding chunk_cells_rows by blast
    then have i: "(cy * COL_Y + row) * ?nx + (cx * COL_X + col) < ?nx * ?ny"
      using plane_index_less by (simp add: chunk_cells_def mult.commute [of ?nx ?ny])
    have "r_nth chunk ((row * snd (col_chunk_dims rd cy cx) + col) * levels_of var + k) = Inr (F ((cy * COL_Y + row) * ?nx + (cx * COL_X + col)))"
      using F [OF c] column_index_bound [OF rc k] column_index_local [OF rc, of var] len by (simp add: col_dims_extent)
    then show ?thesis using filled_set [OF v i refl] by simp
  qed
  with fill_cells [OF v, where f = ?f and P = ?pos] show ?thesis
    by (simp add: scatter_level_def Let_def split_beta)
qed

section \<open>The full volume\<close>

lemma r_bind_assoc: "r_bind (r_bind m f) g = r_bind m (\<lambda>x. r_bind (f x) g)"
  by (cases m) simp_all

lemma r_fold_member: "r_fold f xs s = Inr t \<Longrightarrow> x \<in> set xs \<Longrightarrow> \<exists>s s'. f x s = Inr s'"
  by (induction xs arbitrary: s) (auto simp: r_bind_eq_Inr)

definition chunk_grid :: "hour_reader \<Rightarrow> (nat \<times> nat) list" where
  "chunk_grid rd = List.product [0..<div_ceil (hm_ny (hr_meta rd)) COL_Y] [0..<div_ceil (hm_nx (hr_meta rd)) COL_X]"

definition chunk_fold :: "read_env \<Rightarrow> hour_reader \<Rightarrow> rws_variable_meta \<Rightarrow> (nat \<Rightarrow> nat \<Rightarrow> f32 list \<Rightarrow> f32 list \<Rightarrow> f32 list rw_result)
    \<Rightarrow> f32 list \<Rightarrow> f32 list rw_result" where
  "chunk_fold env rd var scatter =
     r_fold (\<lambda>(cy, cx) v. r_bind (column_values env rd var cy cx) (\<lambda>chunk. scatter cy cx chunk v)) (chunk_grid rd)"

lemma chunk_of_cell:
  assumes "y < hm_ny (hr_meta rd)" and "x < hm_nx (hr_meta rd)"
  shows "(y div COL_Y, x div COL_X) \<in> set (chunk_grid rd)" "(y, x) \<in> chunk_cells rd (y div COL_Y) (x div COL_X)"
  using assms col_y.piece_of col_x.piece_of by (simp_all add: chunk_grid_def chunk_cells_def)

lemma cell_of_chunk:
  assumes "(cy, cx) \<in> set (chunk_grid rd)"
  shows "(cy * COL_Y, cx * COL_X) \<in> chunk_cells rd cy cx"
  using assms col_y.step_pos col_x.step_pos by (auto simp: chunk_grid_def chunk_cells_def less_div_ceil_iff)

text \<open>A fold over the chunks whose steps fill the cells of their chunk fills everything.\<close>

lemma chunk_fold_fills:
  assumes cols: "\<And>cy cx. (cy, cx) \<in> set (chunk_grid rd) \<Longrightarrow> \<exists>c. column_values env rd var cy cx = Inr c"
    and step: "\<And>cy cx c S v. (cy, cx) \<in> set (chunk_grid rd) \<Longrightarrow> column_values env rd var cy cx = Inr c \<Longrightarrow> filled n F S v \<Longrightarrow>
      \<exists>v'. scatter cy cx c v = Inr v' \<and> filled n F (S \<union> (\<Union>p \<in> chunk_cells rd cy cx. P p)) v'"
    and all: "{..<n} \<subseteq> (\<Union>y < hm_ny (hr_meta rd). \<Union>x < hm_nx (hr_meta rd). P (y, x))"
  shows "chunk_fold env rd var scatter (replicate n a) = Inr (map F [0..<n])"
proof -
  let ?C = "\<lambda>(cy, cx). \<Union>p \<in> chunk_cells rd cy cx. P p"
  have "\<exists>v'. chunk_fold env rd var scatter (replicate n a) = Inr v' \<and> filled n F ({} \<union> (\<Union>c \<in> set (chunk_grid rd). ?C c)) v'"
    unfolding chunk_fold_def
  proof (rule filled_fold [OF filled_start])
    fix p S v assume p: "p \<in> set (chunk_grid rd)" and v: "filled n F S v"
    obtain cy cx where pp: "p = (cy, cx)" by (cases p)
    obtain c where c: "column_values env rd var cy cx = Inr c" using cols p pp by blast
    show "\<exists>v'. (case p of (cy, cx) \<Rightarrow> \<lambda>v. r_bind (column_values env rd var cy cx) (\<lambda>chunk. scatter cy cx chunk v)) v = Inr v' \<and>
        filled n F (S \<union> ?C p) v'"
      using step [OF p [unfolded pp] c v] by (simp add: pp c)
  qed
  then obtain v' where v': "chunk_fold env rd var scatter (replicate n a) = Inr v'" "filled n F (\<Union>c \<in> set (chunk_grid rd). ?C c) v'"
    by auto
  have "{..<n} \<subseteq> (\<Union>c \<in> set (chunk_grid rd). ?C c)"
  proof
    fix i assume "i \<in> {..<n}"
    then obtain y x where yx: "y < hm_ny (hr_meta rd)" "x < hm_nx (hr_meta rd)" "i \<in> P (y, x)" using all by blast
    then have "i \<in> ?C (y div COL_Y, x div COL_X)" using chunk_of_cell(2) by auto
    then show "i \<in> (\<Union>c \<in> set (chunk_grid rd). ?C c)" using chunk_of_cell(1) [OF yx(1,2)] by blast
  qed
  from filled_all [OF v'(2) this] v'(1) show ?thesis by simp
qed

lemma chunk_fold_columns:
  assumes "chunk_fold env rd var scatter v = Inr vs" and "(cy, cx) \<in> set (chunk_grid rd)"
  shows "\<exists>c. column_values env rd var cy cx = Inr c"
  using r_fold_member [OF assms(1) [unfolded chunk_fold_def] assms(2)] by (auto simp: r_bind_eq_Inr)

lemma read_full_3d_fold:
  assumes ok: "reader_ok header rd" and var: "lookup_3d rd name = Inr var"
  shows "read_full_3d env rd name = chunk_fold env rd var (scatter_chunk rd (levels_of var))
    (replicate (levels_of var * hm_ny (hr_meta rd) * hm_nx (hr_meta rd)) f32_NAN)"
proof -
  have b: "levels_of var * (hm_ny (hr_meta rd) * hm_nx (hr_meta rd)) < usize_bound" using volume_bound [OF ok var] by simp
  have "levels_of var * hm_ny (hr_meta rd) \<le> levels_of var * (hm_ny (hr_meta rd) * hm_nx (hr_meta rd))"
    using reader_grid(1) [OF ok] by simp
  with b have u: "levels_of var * hm_ny (hr_meta rd) < usize_bound" by linarith
  have f: "(\<lambda>(cy, cx) v. r_bind (column_values env rd var cy cx) (\<lambda>chunk. scatter_chunk rd (levels_of var) cy cx chunk v)) =
    (\<lambda>(cy, cx) v. r_bind (find_chunk_record rd var KIND_COLUMN3D cy cx) (\<lambda>record.
       let (rows, cols) = col_chunk_dims rd cy cx
       in r_bind (decode_column_chunk env rd record (rows * cols * levels_of var)) (\<lambda>chunk.
          scatter_chunk rd (levels_of var) cy cx chunk v)))"
    by (auto simp: fun_eq_iff column_values_def Let_def split_beta r_bind_assoc)
  show ?thesis
    using u b by (simp add: read_full_3d_def var levels_of_def [symmetric] usize_checked_mul_def chunk_fold_def chunk_grid_def f mult.assoc Let_def)
qed

lemma volume_position:
  assumes "y < (ny :: nat)" and "x < nx"
  shows "(z * ny * nx + y * nx + x) div nx div ny = z" "(z * ny * nx + y * nx + x) div nx mod ny = y"
    "(z * ny * nx + y * nx + x) mod nx = x"
proof -
  have e: "z * ny * nx + y * nx + x = (z * ny + y) * nx + x" by (simp add: add_mult_distrib)
  have "((z * ny + y) * nx + x) div nx = z * ny + y" "((z * ny + y) * nx + x) mod nx = x" using assms by simp_all
  then show "(z * ny * nx + y * nx + x) div nx div ny = z" "(z * ny * nx + y * nx + x) div nx mod ny = y"
    "(z * ny * nx + y * nx + x) mod nx = x" using assms by (simp_all only: e) simp_all
qed

lemma volume_position_less:
  assumes "z < (levels :: nat)" and "y < ny" and "x < nx"
  shows "z * ny * nx + y * nx + x < levels * ny * nx"
  using plane_index_less [OF plane_index_less [OF assms(1,2)] assms(3)] by (simp add: add_mult_distrib)

lemma volume_position_split:
  assumes "i < levels * ny * (nx :: nat)"
  shows "i = i div nx div ny * ny * nx + i div nx mod ny * nx + i mod nx" "i div nx div ny < levels" "i div nx mod ny < ny" "i mod nx < nx"
proof -
  have pos: "0 < nx" "0 < ny" using assms by (metis gr0I mult_0_right not_less0, metis gr0I mult_0 mult_0_right not_less0)
  then show "i div nx mod ny < ny" "i mod nx < nx" by simp_all
  show "i = i div nx div ny * ny * nx + i div nx mod ny * nx + i mod nx"
    by (metis add_mult_distrib div_mult_mod_eq)
  show "i div nx div ny < levels" using assms by (simp add: less_mult_imp_div_less mult.assoc [symmetric])
qed

text \<open>The value of each position of the volume, once the columns are decoded.\<close>

definition volume_value :: "read_env \<Rightarrow> hour_reader \<Rightarrow> rws_variable_meta \<Rightarrow> nat \<Rightarrow> nat \<Rightarrow> nat \<Rightarrow> f32" where
  "volume_value env rd var z y x = projr (cell_3d env rd var z y x)"

lemma volume_value_column:
  "column_values env rd var (y div COL_Y) (x div COL_X) = Inr c \<Longrightarrow>
    cell_3d env rd var z y x = Inr (volume_value env rd var z y x) \<and> volume_value env rd var z y x = c ! (column_index rd var y x + z)"
  by (simp add: volume_value_def cell_3d_def)

lemma read_full_3d_columns:
  assumes ok: "reader_ok header rd" and var: "lookup_3d rd name = Inr var"
    and cols: "\<And>cy cx. (cy, cx) \<in> set (chunk_grid rd) \<Longrightarrow> \<exists>c. column_values env rd var cy cx = Inr c"
  shows "read_full_3d env rd name = Inr (map (\<lambda>i. volume_value env rd var (i div hm_nx (hr_meta rd) div hm_ny (hr_meta rd))
      (i div hm_nx (hr_meta rd) mod hm_ny (hr_meta rd)) (i mod hm_nx (hr_meta rd)))
    [0..<levels_of var * hm_ny (hr_meta rd) * hm_nx (hr_meta rd)])"
  unfolding read_full_3d_fold [OF ok var]
proof (rule chunk_fold_fills [where P = "\<lambda>(y, x). \<Union>z < levels_of var. {z * hm_ny (hr_meta rd) * hm_nx (hr_meta rd) + y * hm_nx (hr_meta rd) + x}"])
  let ?nx = "hm_nx (hr_meta rd)" and ?ny = "hm_ny (hr_meta rd)"
  fix cy cx c S v assume c: "column_values env rd var cy cx = Inr c"
    and v: "filled (levels_of var * ?ny * ?nx) (\<lambda>i. volume_value env rd var (i div ?nx div ?ny) (i div ?nx mod ?ny) (i mod ?nx)) S v"
  show "\<exists>v'. scatter_chunk rd (levels_of var) cy cx c v = Inr v' \<and>
      filled (levels_of var * ?ny * ?nx) (\<lambda>i. volume_value env rd var (i div ?nx div ?ny) (i div ?nx mod ?ny) (i mod ?nx))
        (S \<union> (\<Union>p \<in> chunk_cells rd cy cx. case p of (y, x) \<Rightarrow> \<Union>z < levels_of var. {z * ?ny * ?nx + y * ?nx + x})) v'"
  proof (rule scatter_chunk_fills [OF _ column_values_length [OF c] v])
    fix z y x assume "(y, x) \<in> chunk_cells rd cy cx"
    then have "y < ?ny" "x < ?nx" "column_values env rd var (y div COL_Y) (x div COL_X) = Inr c" using c by (simp_all add: chunk_cells_def)
    then show "volume_value env rd var ((z * ?ny * ?nx + y * ?nx + x) div ?nx div ?ny) ((z * ?ny * ?nx + y * ?nx + x) div ?nx mod ?ny)
        ((z * ?ny * ?nx + y * ?nx + x) mod ?nx) = c ! (column_index rd var y x + z)"
      by (simp add: volume_position volume_value_column)
  qed
next
  let ?nx = "hm_nx (hr_meta rd)" and ?ny = "hm_ny (hr_meta rd)"
  show "{..<levels_of var * ?ny * ?nx} \<subseteq> (\<Union>y < ?ny. \<Union>x < ?nx. case (y, x) of (y, x) \<Rightarrow> \<Union>z < levels_of var. {z * ?ny * ?nx + y * ?nx + x})"
  proof
    fix i assume "i \<in> {..<levels_of var * ?ny * ?nx}"
    then show "i \<in> (\<Union>y < ?ny. \<Union>x < ?nx. case (y, x) of (y, x) \<Rightarrow> \<Union>z < levels_of var. {z * ?ny * ?nx + y * ?nx + x})"
      using volume_position_split [of i "levels_of var" ?ny ?nx] by (auto intro!: bexI)
  qed
qed (use cols in blast)

lemma read_full_3d_correct:
  assumes ok: "reader_ok header rd" and var: "lookup_3d rd name = Inr var"
  shows "read_full_3d env rd name = Inr vs \<longleftrightarrow>
    length vs = levels_of var * hm_ny (hr_meta rd) * hm_nx (hr_meta rd) \<and>
    (\<forall>z < levels_of var. \<forall>y < hm_ny (hr_meta rd). \<forall>x < hm_nx (hr_meta rd).
       cell_3d env rd var z y x = Inr (vs ! (z * hm_ny (hr_meta rd) * hm_nx (hr_meta rd) + y * hm_nx (hr_meta rd) + x)))"
    (is "?L \<longleftrightarrow> ?R")
proof -
  let ?nx = "hm_nx (hr_meta rd)" and ?ny = "hm_ny (hr_meta rd)"
  let ?vs = "map (\<lambda>i. volume_value env rd var (i div ?nx div ?ny) (i div ?nx mod ?ny) (i mod ?nx)) [0..<levels_of var * ?ny * ?nx]"
  have full: "cell_3d env rd var z y x = Inr (?vs ! (z * ?ny * ?nx + y * ?nx + x))"
    if cols: "\<And>cy cx. (cy, cx) \<in> set (chunk_grid rd) \<Longrightarrow> \<exists>c. column_values env rd var cy cx = Inr c"
      and b: "z < levels_of var" "y < ?ny" "x < ?nx" for z y x
    using volume_value_column cols [OF chunk_of_cell(1) [OF b(2,3)]] volume_position_less [OF b] volume_position [OF b(2,3)] by auto
  show ?thesis
  proof
    assume L: ?L
    then have cols: "\<And>cy cx. (cy, cx) \<in> set (chunk_grid rd) \<Longrightarrow> \<exists>c. column_values env rd var cy cx = Inr c"
      using chunk_fold_columns unfolding read_full_3d_fold [OF ok var] by blast
    then have "vs = ?vs" using read_full_3d_columns [OF ok var] L by simp
    then show ?R using full [OF cols] by simp
  next
    assume R: ?R
    have cols: "\<exists>c. column_values env rd var cy cx = Inr c" if c: "(cy, cx) \<in> set (chunk_grid rd)" for cy cx
    proof -
      have yx: "cy * COL_Y < ?ny" "cx * COL_X < ?nx" "cy * COL_Y div COL_Y = cy" "cx * COL_X div COL_X = cx"
        using cell_of_chunk [OF c] by (simp_all add: chunk_cells_def)
      then obtain w where "cell_3d env rd var 0 (cy * COL_Y) (cx * COL_X) = Inr w" using R volume_bound(2) [OF ok var] by blast
      then show ?thesis using yx(3,4) by (auto simp: cell_3d_def r_bind_eq_Inr)
    qed
    have "vs = ?vs"
    proof (rule nth_equalityI)
      fix i assume "i < length vs"
      then have "i < levels_of var * ?ny * ?nx" using R by simp
      note i = volume_position_split [OF this]
      define z y x where "z = i div ?nx div ?ny" and "y = i div ?nx mod ?ny" and "x = i mod ?nx"
      have b: "i = z * ?ny * ?nx + y * ?nx + x" "z < levels_of var" "y < ?ny" "x < ?nx"
        using i unfolding z_def y_def x_def by blast+
      have "cell_3d env rd var z y x = Inr (vs ! (z * ?ny * ?nx + y * ?nx + x))" using R b(2-4) by blast
      with full [OF cols b(2-4)] have "vs ! (z * ?ny * ?nx + y * ?nx + x) = ?vs ! (z * ?ny * ?nx + y * ?nx + x)"
        by (simp only: sum.inject)
      then show "vs ! i = ?vs ! i" unfolding b(1) [symmetric] .
    qed (use R in simp)
    then show ?L using read_full_3d_columns [OF ok var cols] by simp
  qed
qed

section \<open>Columns and levels\<close>

lemma column_index_fits:
  assumes "y < hm_ny (hr_meta rd)" and "x < hm_nx (hr_meta rd)"
  shows "column_index rd var y x + levels_of var \<le>
    col_y.extent (hm_ny (hr_meta rd)) (y div COL_Y) * col_x.extent (hm_nx (hr_meta rd)) (x div COL_X) * levels_of var"
proof -
  have "y mod COL_Y * col_x.extent (hm_nx (hr_meta rd)) (x div COL_X) + x mod COL_X <
      col_y.extent (hm_ny (hr_meta rd)) (y div COL_Y) * col_x.extent (hm_nx (hr_meta rd)) (x div COL_X)"
    by (intro plane_index_less col_y.offset_of col_x.offset_of assms)
  then have "(y mod COL_Y * col_x.extent (hm_nx (hr_meta rd)) (x div COL_X) + x mod COL_X + 1) * levels_of var \<le>
      col_y.extent (hm_ny (hr_meta rd)) (y div COL_Y) * col_x.extent (hm_nx (hr_meta rd)) (x div COL_X) * levels_of var"
    by (intro mult_le_mono1) simp
  then show ?thesis by (simp add: column_index_def col_dims_extent)
qed

lemma read_column_eq:
  assumes var: "lookup_3d rd name = Inr var" and b: "iy < hm_ny (hr_meta rd)" "ix < hm_nx (hr_meta rd)"
  shows "read_column_3d env rd name ix iy =
    r_bind (column_values env rd var (iy div COL_Y) (ix div COL_X)) (\<lambda>c. Inr (map (\<lambda>z. c ! (column_index rd var iy ix + z)) [0..<levels_of var]))"
proof -
  let ?s = "column_index rd var iy ix" and ?L = "levels_of var"
  have "r_bind (r_slice ?s (?s + ?L) c) (\<lambda>values. r_copy 0 ?L values (replicate ?L f32_NAN)) = Inr (map (\<lambda>z. c ! (?s + z)) [0..<?L])"
    if "column_values env rd var (iy div COL_Y) (ix div COL_X) = Inr c" for c
  proof -
    have fit: "?s + ?L \<le> length c" using column_index_fits [OF b, of var] column_values_length [OF that] by simp
    then have "subslice ?s (?s + ?L) c = map (\<lambda>z. c ! (?s + z)) [0..<?L]"
      by (intro nth_equalityI) (simp_all add: nth_slice)
    with fit show ?thesis by (simp add: r_slice_def subslice_ok_def r_copy_def)
  qed
  then show ?thesis
    using b by (cases "column_values env rd var (iy div COL_Y) (ix div COL_X)"; cases "find_chunk_record rd var KIND_COLUMN3D (iy div COL_Y) (ix div COL_X)")
      (auto simp: read_column_3d_def var Let_def split_beta column_values_def column_index_def levels_of_def r_bind_eq_Inr)
qed

lemma position_Some: "position P xs = Some k \<Longrightarrow> k < length xs \<and> P (xs ! k)"
  by (induction xs arbitrary: k) (auto split: if_splits)

lemma level_index_less: "pressure_level_index var l = Inr k \<Longrightarrow> k < levels_of var \<and> vm_levels_hpa var ! k = l"
  using position_Some by (fastforce simp: pressure_level_index_def ok_or_eq_Inr levels_of_def)

lemma read_level_3d_fold:
  assumes ok: "reader_ok header rd" and var: "lookup_3d rd name = Inr var" and k: "pressure_level_index var l = Inr k"
  shows "read_level_3d env rd name l = chunk_fold env rd var (scatter_level rd (levels_of var) k)
    (replicate (hm_nx (hr_meta rd) * hm_ny (hr_meta rd)) f32_NAN)"
proof -
  have u: "hm_nx (hr_meta rd) * hm_ny (hr_meta rd) < usize_bound" using reader_grid(3) [OF ok] by (simp add: mult.commute)
  have f: "(\<lambda>(cy, cx) v. r_bind (column_values env rd var cy cx) (\<lambda>chunk. scatter_level rd (levels_of var) k cy cx chunk v)) =
    (\<lambda>(cy, cx) v. r_bind (find_chunk_record rd var KIND_COLUMN3D cy cx) (\<lambda>record.
       let (rows, cols) = col_chunk_dims rd cy cx
       in r_bind (decode_column_chunk env rd record (rows * cols * levels_of var)) (\<lambda>chunk.
          scatter_level rd (levels_of var) k cy cx chunk v)))"
    by (auto simp: fun_eq_iff column_values_def Let_def split_beta r_bind_assoc)
  show ?thesis
    using u by (simp add: read_level_3d_def var k levels_of_def [symmetric] usize_checked_mul_def chunk_fold_def chunk_grid_def f Let_def)
qed

lemma read_level_3d_columns:
  assumes ok: "reader_ok header rd" and var: "lookup_3d rd name = Inr var" and k: "pressure_level_index var l = Inr k"
    and cols: "\<And>cy cx. (cy, cx) \<in> set (chunk_grid rd) \<Longrightarrow> \<exists>c. column_values env rd var cy cx = Inr c"
  shows "read_level_3d env rd name l = Inr (map (\<lambda>i. volume_value env rd var k (i div hm_nx (hr_meta rd)) (i mod hm_nx (hr_meta rd)))
    [0..<hm_nx (hr_meta rd) * hm_ny (hr_meta rd)])"
  unfolding read_level_3d_fold [OF ok var k]
proof (rule chunk_fold_fills [where P = "\<lambda>(y, x). {y * hm_nx (hr_meta rd) + x}"])
  let ?nx = "hm_nx (hr_meta rd)" and ?ny = "hm_ny (hr_meta rd)"
  fix cy cx c S v assume c: "column_values env rd var cy cx = Inr c"
    and v: "filled (?nx * ?ny) (\<lambda>i. volume_value env rd var k (i div ?nx) (i mod ?nx)) S v"
  show "\<exists>v'. scatter_level rd (levels_of var) k cy cx c v = Inr v' \<and>
      filled (?nx * ?ny) (\<lambda>i. volume_value env rd var k (i div ?nx) (i mod ?nx))
        (S \<union> (\<Union>p \<in> chunk_cells rd cy cx. case p of (y, x) \<Rightarrow> {y * ?nx + x})) v'"
  proof (rule scatter_level_fills [OF _ column_values_length [OF c] _ v])
    fix y x assume "(y, x) \<in> chunk_cells rd cy cx"
    then have "x < ?nx" "column_values env rd var (y div COL_Y) (x div COL_X) = Inr c" using c by (simp_all add: chunk_cells_def)
    then show "volume_value env rd var k ((y * ?nx + x) div ?nx) ((y * ?nx + x) mod ?nx) = c ! (column_index rd var y x + k)"
      by (simp add: volume_value_column)
  qed (use level_index_less [OF k] in simp)
next
  let ?nx = "hm_nx (hr_meta rd)" and ?ny = "hm_ny (hr_meta rd)"
  show "{..<?nx * ?ny} \<subseteq> (\<Union>y < ?ny. \<Union>x < ?nx. case (y, x) of (y, x) \<Rightarrow> {y * ?nx + x})"
  proof
    fix i assume i: "i \<in> {..<?nx * ?ny}"
    then have "i div ?nx < ?ny" "i mod ?nx < ?nx" using reader_grid(1) [OF ok] by (simp_all add: less_mult_imp_div_less mult.commute)
    then show "i \<in> (\<Union>y < ?ny. \<Union>x < ?nx. case (y, x) of (y, x) \<Rightarrow> {y * ?nx + x})"
      by (intro UN_I [of "i div ?nx"] UN_I [of "i mod ?nx"]) simp_all
  qed
qed (use cols in blast)

section \<open>Absence of panics\<close>

lemma scatter_chunk_total:
  assumes "column_values env rd var cy cx = Inr c" and "length v = levels_of var * hm_ny (hr_meta rd) * hm_nx (hr_meta rd)"
  shows "\<exists>v'. scatter_chunk rd (levels_of var) cy cx c v = Inr v' \<and> length v' = length v"
proof -
  let ?nx = "hm_nx (hr_meta rd)" and ?ny = "hm_ny (hr_meta rd)"
  let ?F = "\<lambda>i. c ! (column_index rd var (i div ?nx mod ?ny) (i mod ?nx) + i div ?nx div ?ny)"
  have "filled (length v) ?F {} v" by (simp add: filled_def)
  from scatter_chunk_fills [OF _ column_values_length [OF assms(1)] this [unfolded assms(2)]] show ?thesis
    by (auto simp: volume_position chunk_cells_def filled_def assms(2))
qed

lemma scatter_level_total:
  assumes "column_values env rd var cy cx = Inr c" and "length v = hm_nx (hr_meta rd) * hm_ny (hr_meta rd)" and "k < levels_of var"
  shows "\<exists>v'. scatter_level rd (levels_of var) k cy cx c v = Inr v' \<and> length v' = length v"
proof -
  let ?nx = "hm_nx (hr_meta rd)"
  let ?F = "\<lambda>i. c ! (column_index rd var (i div ?nx) (i mod ?nx) + k)"
  have "filled (length v) ?F {} v" by (simp add: filled_def)
  from scatter_level_fills [OF _ column_values_length [OF assms(1)] assms(3) this [unfolded assms(2)]] show ?thesis
    by (auto simp: chunk_cells_def filled_def assms(2))
qed

lemma not_panics_columns:
  assumes "reader_ok header rd" and "lookup_3d rd name = Inr var"
    and "cy < div_ceil (hm_ny (hr_meta rd)) COL_Y" "cx < div_ceil (hm_nx (hr_meta rd)) COL_X"
  shows "\<not> panics (column_values env rd var cy cx)"
proof -
  obtain r where "find_chunk_record rd var KIND_COLUMN3D cy cx = Inr r" by (rule volume_record [OF assms])
  then show ?thesis by (simp add: column_values_def not_panics_decode_column)
qed

lemma chunk_fold_not_panics:
  assumes ok: "reader_ok header rd" and var: "lookup_3d rd name = Inr var" and v: "length v = n"
    and step: "\<And>cy cx c v. column_values env rd var cy cx = Inr c \<Longrightarrow> length v = n \<Longrightarrow> \<exists>v'. scatter cy cx c v = Inr v' \<and> length v' = n"
  shows "\<not> panics (chunk_fold env rd var scatter v)"
proof -
  let ?f = "\<lambda>(cy, cx) v. r_bind (column_values env rd var cy cx) (\<lambda>chunk. scatter cy cx chunk v)"
  have "\<not> panics (r_fold ?f ps v)" if "set ps \<subseteq> set (chunk_grid rd)" "length v = n" for ps v
    using that
  proof (induction ps arbitrary: v)
    case (Cons p ps)
    obtain cy cx where p: "p = (cy, cx)" by (cases p)
    show ?case
    proof (cases "column_values env rd var cy cx")
      case (Inl e)
      have "cy < div_ceil (hm_ny (hr_meta rd)) COL_Y" "cx < div_ceil (hm_nx (hr_meta rd)) COL_X"
        using Cons.prems(1) p by (auto simp: chunk_grid_def)
      from not_panics_columns [OF ok var this, of env] Inl show ?thesis by (simp add: p panics_def)
    next
      case (Inr c)
      then obtain v' where "scatter cy cx c v = Inr v'" "length v' = n" using step [OF Inr Cons.prems(2)] by blast
      with Inr Cons show ?thesis by (simp add: p)
    qed
  qed simp
  with v show ?thesis by (simp add: chunk_fold_def)
qed

end
