(* ===== verification/Rw_Read3D_Selected.thy ===== *)
theory Rw_Read3D_Selected
  imports Rw_Read3D_Facts
begin

text \<open>
  Chunk planes for selected pressure levels. The reader decodes the words of the selected
  levels only, directly from the decompressed chunk; the values are those of the column
  chunk decoded as a whole.
\<close>

unbundle bit_operations_syntax

section \<open>Words of a decompressed chunk\<close>

lemma chunks_n_nth: "j < n \<Longrightarrow> chunks_n w n xs ! j = take w (drop (j * w) xs)"
proof (induction n arbitrary: j xs)
  case (Suc n)
  then show ?case by (cases j) (simp_all add: drop_drop add.commute mult.commute)
qed simp

lemma chunks_exact_pair:
  assumes "2 * j + 1 < length raw"
  shows "chunks_exact 2 raw ! j = [raw ! (2 * j), raw ! (2 * j + 1)]"
proof -
  have "j < length raw div 2" using assms by linarith
  then have "chunks_exact 2 raw ! j = take 2 (drop (2 * j) raw)"
    by (simp add: chunks_exact_def chunks_n_nth mult.commute)
  also have "\<dots> = [raw ! (2 * j), raw ! (2 * j + 1)]"
    using assms by (simp add: Cons_nth_drop_Suc [symmetric] numeral_2_eq_2 take_Suc_conv_app_nth)
  finally show ?thesis .
qed

lemma decode_affine_word:
  assumes "decode_affine_i16 flags center scale raw n = Inr c" and "raw \<noteq> []" and "flags AND FLAG_EMPTY = 0" and "j < n"
  shows "2 * j + 1 < length raw" "c ! j = dequantize flags center scale (u16_of_le [raw ! (2 * j), raw ! (2 * j + 1)])"
proof -
  have c: "length raw = n * 2" "c = map (\<lambda>pair. dequantize flags center scale (u16_of_le pair)) (chunks_exact 2 raw)"
    using assms(1-3) by (auto simp: decode_affine_i16_def split: if_splits)
  show b: "2 * j + 1 < length raw" using c(1) assms(4) by linarith
  have "j < length (chunks_exact 2 raw)" using b by (simp add: length_chunks_exact)
  then show "c ! j = dequantize flags center scale (u16_of_le [raw ! (2 * j), raw ! (2 * j + 1)])"
    using chunks_exact_pair [OF b] by (simp add: c(2))
qed

section \<open>Selected planes\<close>

lemma fill_plane_fills:
  assumes v: "filled (cells * m) F S v" and si: "si < m"
    and w: "\<And>cell. cell < cells \<Longrightarrow> (cell * levels + sl) * 2 + 1 < length raw \<and>
      F (si * cells + cell) = dequantize (cr_flags r) (cr_center r) (cr_scale r)
        (u16_of_le [raw ! ((cell * levels + sl) * 2), raw ! ((cell * levels + sl) * 2 + 1)])"
  shows "\<exists>v'. fill_plane r cells levels raw (si, sl) v = Inr v' \<and> filled (cells * m) F (S \<union> {si * cells ..< (si + 1) * cells}) v'"
proof -
  have fit: "(si + 1) * cells \<le> cells * m" using mult_le_mono1 [of "si + 1" m cells] si by (simp add: mult.commute)
  have len: "length v = cells * m" using v by (simp add: filled_def)
  let ?f = "\<lambda>cell selected. let raw_byte_index = (cell * levels + sl) * 2
           in r_bind (r_nth raw raw_byte_index) (\<lambda>b0. r_bind (r_nth raw (raw_byte_index + 1)) (\<lambda>b1.
              r_set (si * cells + cell) (dequantize (cr_flags r) (cr_center r) (cr_scale r) (u16_of_le [b0, b1])) selected))"
  have "\<exists>v'. r_fold ?f [0..<cells] v = Inr v' \<and> filled (cells * m) F (S \<union> (\<Union>cell \<in> set [0..<cells]. {si * cells + cell})) v'"
  proof (rule filled_fold [OF v])
    fix cell S v assume cell: "cell \<in> set [0..<cells]" and v: "filled (cells * m) F S v"
    have i: "si * cells + cell < cells * m" using fit cell by simp
    show "\<exists>v'. ?f cell v = Inr v' \<and> filled (cells * m) F (S \<union> {si * cells + cell}) v'"
      using filled_set [OF v i refl] w [of cell] cell by (simp add: Let_def)
  qed
  moreover have "(\<Union>cell \<in> set [0..<cells]. {si * cells + cell}) = {si * cells ..< (si + 1) * cells}"
  proof (intro equalityI subsetI)
    fix i assume "i \<in> {si * cells ..< (si + 1) * cells}"
    then show "i \<in> (\<Union>cell \<in> set [0..<cells]. {si * cells + cell})" by (intro UN_I [of "i - si * cells"]) auto
  qed auto
  ultimately show ?thesis
    using fit len by (simp add: fill_plane_def r_slice_def subslice_ok_def)
qed

text \<open>What the selected data of a chunk must be, given its decoded columns.\<close>

definition selected_value :: "nat \<Rightarrow> selected_chunk_data \<Rightarrow> nat \<Rightarrow> nat \<Rightarrow> f32" where
  "selected_value cells data si cell =
     (case data of Selected_Empty \<Rightarrow> f32_NAN | Selected_Constant v \<Rightarrow> v | Selected_Dense vs \<Rightarrow> vs ! (si * cells + cell))"

definition selected_fits :: "nat \<Rightarrow> nat \<Rightarrow> selected_chunk_data \<Rightarrow> bool" where
  "selected_fits cells m data = (case data of Selected_Dense vs \<Rightarrow> length vs = cells * m | _ \<Rightarrow> True)"

definition selected_geom :: "hour_reader \<Rightarrow> nat \<Rightarrow> nat \<Rightarrow> selected_chunk_geometry" where
  "selected_geom rd cy cx = \<lparr>sg_chunk_y = cy, sg_chunk_x = cx, sg_x0 = cx * COL_X, sg_y0 = cy * COL_Y,
     sg_width = snd (col_chunk_dims rd cy cx), sg_height = fst (col_chunk_dims rd cy cx)\<rparr>"

lemma selected_cells: "selected_cell_count (selected_geom rd cy cx) = fst (col_chunk_dims rd cy cx) * snd (col_chunk_dims rd cy cx)"
  by (simp add: selected_cell_count_def selected_geom_def mult.commute)

lemma column_area: "fst (col_chunk_dims rd cy cx) * snd (col_chunk_dims rd cy cx) \<le> 256"
proof -
  have "fst (col_chunk_dims rd cy cx) * snd (col_chunk_dims rd cy cx) \<le> COL_Y * COL_X"
    by (intro mult_le_mono) (simp_all add: col_chunk_dims_def)
  then show ?thesis by (simp add: geometry_consts)
qed

lemma fill_planes:
  assumes w: "\<And>si cell. si < length idx \<Longrightarrow> cell < cells \<Longrightarrow> (cell * levels + idx ! si) * 2 + 1 < length raw \<and>
      F (si * cells + cell) = dequantize (cr_flags r) (cr_center r) (cr_scale r)
        (u16_of_le [raw ! ((cell * levels + idx ! si) * 2), raw ! ((cell * levels + idx ! si) * 2 + 1)])"
  shows "r_fold (fill_plane r cells levels raw) (enumerate 0 idx) (replicate (cells * length idx) a) = Inr (map F [0..<cells * length idx])"
proof -
  let ?n = "cells * length idx"
  let ?C = "\<lambda>(si, sl :: nat). {si * cells ..< (si + 1) * cells}"
  have mem: "si < length idx \<and> sl = idx ! si" if "(si, sl) \<in> set (enumerate 0 idx)" for si sl
    using that by (auto simp: in_set_enumerate_eq)
  have "\<exists>v'. r_fold (fill_plane r cells levels raw) (enumerate 0 idx) (replicate ?n a) = Inr v' \<and>
      filled ?n F ({} \<union> (\<Union>p \<in> set (enumerate 0 idx). ?C p)) v'"
  proof (rule filled_fold [OF filled_start])
    fix p S v assume p: "p \<in> set (enumerate 0 idx)" and v: "filled ?n F S v"
    obtain si sl where pp: "p = (si, sl)" by (cases p)
    then have m: "si < length idx" "sl = idx ! si" using mem p by blast+
    from fill_plane_fills [OF v m(1), of levels sl raw r] w [OF m(1)] m(2)
    show "\<exists>v'. fill_plane r cells levels raw p v = Inr v' \<and> filled ?n F (S \<union> ?C p) v'" by (simp add: pp)
  qed
  then obtain v' where v': "r_fold (fill_plane r cells levels raw) (enumerate 0 idx) (replicate ?n a) = Inr v'"
      "filled ?n F (\<Union>p \<in> set (enumerate 0 idx). ?C p) v'" by auto
  have "{..<?n} \<subseteq> (\<Union>p \<in> set (enumerate 0 idx). ?C p)"
  proof
    fix i assume i: "i \<in> {..<?n}"
    then have c: "0 < cells" by (cases cells) auto
    have si: "i div cells < length idx" using i by (simp add: less_mult_imp_div_less mult.commute)
    then have "(i div cells, idx ! (i div cells)) \<in> set (enumerate 0 idx)" by (simp add: in_set_enumerate_eq)
    moreover have "i div cells * cells + i mod cells = i" "i mod cells < cells" using c by simp_all
    then have "i \<in> ?C (i div cells, idx ! (i div cells))"
      unfolding prod.case atLeastLessThan_iff add_mult_distrib mult_1 by linarith
    ultimately show "i \<in> (\<Union>p \<in> set (enumerate 0 idx). ?C p)" by blast
  qed
  from filled_all [OF v'(2) this] v'(1) show ?thesis by simp
qed

lemma selected_data_dense:
  assumes ok: "reader_ok header rd" and var: "lookup_3d rd name = Inr var"
    and r: "find_chunk_record rd var KIND_COLUMN3D cy cx = Inr r" "unat (cr_tile_y r) = cy" "unat (cr_tile_x r) = cx"
      "record_valid (hr_meta rd) header (of_nat (length (as_slice (hr_bytes rd)))) var r"
    and dense: "cr_flags r AND FLAG_EMPTY = 0" "\<not> (cr_flags r AND FLAG_CONSTANT \<noteq> 0 \<and> cr_len r = 0)"
    and idx: "\<forall>i \<in> set idx. i < levels_of var" "length idx \<le> MAX_PRESSURE_LEVELS"
    and cells: "cells = fst (col_chunk_dims rd cy cx) * snd (col_chunk_dims rd cy cx)"
  shows "read_selected_chunk_data env rd var idx (selected_geom rd cy cx) =
    r_bind (column_values env rd var cy cx) (\<lambda>c.
      Inr (Selected_Dense (map (\<lambda>i. c ! (i mod cells * levels_of var + idx ! (i div cells))) [0..<cells * length idx])))"
proof -
  note v = volume_variable [OF var] and k = volume_chunks [OF volume_variable(2) [OF var]]
  have "chunk_values (hr_meta rd) var (unat (cr_tile_y r)) (unat (cr_tile_x r)) = cells * levels_of var"
    by (simp add: chunk_values_def chunk_rows_def chunk_cols_def k r(2,3) cells col_chunk_dims_def)
  then have raw: "unat (cr_raw_len r) = cells * levels_of var * 2" and ne: "cr_len r \<noteq> 0"
    using r(4) dense by (auto simp: record_valid_def Let_def payload_free_def k split: if_splits)
  have "cells * levels_of var \<le> 256 * 4096" "cells * length idx \<le> 256 * 4096"
  proof -
    have "var_valid (hm_nx (hr_meta rd) * hm_ny (hr_meta rd)) var" using ok v(1) by (simp add: reader_ok_def index_ok_def meta_valid_def)
    then have "levels_of var \<le> 4096" using v(2) by (auto simp: var_valid_def levels_of_def MAX_PRESSURE_LEVELS_def)
    moreover have "cells \<le> 256" using column_area cells by simp
    ultimately show "cells * levels_of var \<le> 256 * 4096" "cells * length idx \<le> 256 * 4096"
      using idx(2) unfolding MAX_PRESSURE_LEVELS_def by (blast intro: mult_le_mono)+
  qed
  then have chk: "usize_checked_mul cells (levels_of var) = Some (cells * levels_of var)"
      "usize_checked_mul (cells * levels_of var) 2 = Some (cells * levels_of var * 2)"
      "usize_checked_mul cells (length idx) = Some (cells * length idx)"
    by (simp_all add: usize_checked_mul_def usize_bound_def)
  have sel: "read_selected_chunk_data env rd var idx (selected_geom rd cy cx) =
      r_bind (payload_slice rd r) (\<lambda>compressed. r_bind (decompress_chunk env compressed (unat (cr_raw_len r))) (\<lambda>raw.
      r_bind (r_fold (fill_plane r cells (levels_of var) raw) (enumerate 0 idx) (replicate (cells * length idx) f32_NAN)) (\<lambda>selected.
      Inr (Selected_Dense selected))))"
    using r(1) dense(1) ne raw chk
    by (simp add: read_selected_chunk_data_def selected_geom_def [of rd cy cx] Let_def levels_of_def [symmetric] ok_or_def
        selected_cells [of rd cy cx, unfolded selected_geom_def] cells [symmetric])
  have col: "column_values env rd var cy cx =
      r_bind (payload_slice rd r) (\<lambda>compressed. r_bind (decompress_chunk env compressed (unat (cr_raw_len r))) (\<lambda>raw.
      decode_affine_i16 (cr_flags r) (cr_center r) (cr_scale r) raw (cells * levels_of var)))"
    using r(1) dense by (auto simp: column_values_def decode_column_chunk_def cells)
  show ?thesis
  proof (cases "payload_slice rd r")
    case (Inr compressed)
    show ?thesis
    proof (cases "decompress_chunk env compressed (unat (cr_raw_len r))")
      case raw': (Inr raw')
      have len: "length raw' = cells * levels_of var * 2" using decompress_length [OF raw'] raw by simp
      have pos: "0 < cells" "0 < levels_of var"
        using r(2-4) k(6,7) col_y.extent_pos col_x.extent_pos volume_bound(2) [OF ok var]
        by (simp_all add: record_valid_def cells col_dims_extent)
      then have ne: "raw' \<noteq> []" using len by auto
      obtain c where c: "decode_affine_i16 (cr_flags r) (cr_center r) (cr_scale r) raw' (cells * levels_of var) = Inr c"
        using len ne dense(1) by (auto simp: decode_affine_i16_def)
      let ?F = "\<lambda>i. c ! (i mod cells * levels_of var + idx ! (i div cells))"
      have "r_fold (fill_plane r cells (levels_of var) raw') (enumerate 0 idx) (replicate (cells * length idx) f32_NAN) =
          Inr (map ?F [0..<cells * length idx])"
      proof (rule fill_planes)
        fix si cell assume si: "si < length idx" and cell: "cell < cells"
        let ?j = "cell * levels_of var + idx ! si"
        have "?j < cells * levels_of var" using si cell idx(1) by (intro plane_index_less) auto
        note w = decode_affine_word [OF c ne dense(1) this]
        have "(si * cells + cell) mod cells = cell" "(si * cells + cell) div cells = si" using cell by simp_all
        then show "?j * 2 + 1 < length raw' \<and> ?F (si * cells + cell) = dequantize (cr_flags r) (cr_center r) (cr_scale r)
            (u16_of_le [raw' ! (?j * 2), raw' ! (?j * 2 + 1)])"
          using w by (simp add: mult.commute [of 2])
      qed
      then show ?thesis by (simp add: sel col Inr raw' c)
    qed (simp add: sel col Inr)
  qed (simp add: sel col)
qed

text \<open>All cases: the selected values are those of the decoded columns.\<close>

lemma selected_data_correct:
  assumes ok: "reader_ok header rd" and var: "lookup_3d rd name = Inr var"
    and t: "cy < div_ceil (hm_ny (hr_meta rd)) COL_Y" "cx < div_ceil (hm_nx (hr_meta rd)) COL_X"
    and idx: "\<forall>i \<in> set idx. i < levels_of var" "length idx \<le> MAX_PRESSURE_LEVELS"
    and cells: "cells = fst (col_chunk_dims rd cy cx) * snd (col_chunk_dims rd cy cx)"
  shows "(case column_values env rd var cy cx of
      Inl e \<Rightarrow> read_selected_chunk_data env rd var idx (selected_geom rd cy cx) = Inl e
    | Inr c \<Rightarrow> \<exists>d. read_selected_chunk_data env rd var idx (selected_geom rd cy cx) = Inr d \<and> selected_fits cells (length idx) d \<and>
        (\<forall>si < length idx. \<forall>cell < cells. selected_value cells d si cell = c ! (cell * levels_of var + idx ! si)))"
proof -
  obtain r where r: "find_chunk_record rd var KIND_COLUMN3D cy cx = Inr r" "unat (cr_tile_y r) = cy" "unat (cr_tile_x r) = cx"
      "record_valid (hr_meta rd) header (of_nat (length (as_slice (hr_bytes rd)))) var r"
    by (rule volume_record [OF ok var t])
  have free: "selected_value cells d si cell = replicate (cells * levels_of var) a ! (cell * levels_of var + idx ! si)"
    if "selected_value cells d si cell = a" "si < length idx" "cell < cells" for d si cell a
  proof -
    have "cell * levels_of var + idx ! si < cells * levels_of var" using that idx(1) by (intro plane_index_less) auto
    with that(1) show ?thesis by simp
  qed
  consider "cr_flags r AND FLAG_EMPTY \<noteq> 0" | "cr_flags r AND FLAG_EMPTY = 0" "cr_flags r AND FLAG_CONSTANT \<noteq> 0 \<and> cr_len r = 0"
    | "cr_flags r AND FLAG_EMPTY = 0" "\<not> (cr_flags r AND FLAG_CONSTANT \<noteq> 0 \<and> cr_len r = 0)" by blast
  then show ?thesis
  proof cases
    case 1
    then have "read_selected_chunk_data env rd var idx (selected_geom rd cy cx) = Inr Selected_Empty"
        "column_values env rd var cy cx = Inr (replicate (cells * levels_of var) f32_NAN)"
      using r(1) by (simp_all add: read_selected_chunk_data_def selected_geom_def column_values_def decode_column_chunk_def cells)
    with free [of Selected_Empty] show ?thesis by (simp add: selected_fits_def selected_value_def)
  next
    case 2
    then have "read_selected_chunk_data env rd var idx (selected_geom rd cy cx) = Inr (Selected_Constant (cr_center r))"
        "column_values env rd var cy cx = Inr (replicate (cells * levels_of var) (cr_center r))"
      using r(1) by (simp_all add: read_selected_chunk_data_def selected_geom_def column_values_def decode_column_chunk_def cells)
    with free [of "Selected_Constant (cr_center r)"] show ?thesis by (simp add: selected_fits_def selected_value_def)
  next
    case 3
    have "si * cells + cell < cells * length idx" if "si < length idx" "cell < cells" for si cell
      using plane_index_less [OF that] by (simp add: mult.commute)
    then show ?thesis
      unfolding selected_data_dense [OF ok var r 3 idx cells]
      by (cases "column_values env rd var cy cx") (simp_all add: selected_fits_def selected_value_def)
  qed
qed

lemma selected_get_value:
  assumes "selected_fits (selected_cell_count (sc_geometry c)) (length (sc_levels_hpa c)) (sc_data c)"
    and "si < length (sc_levels_hpa c)" and "row < sg_height (sc_geometry c)" and "col < sg_width (sc_geometry c)"
  shows "selected_get c si row col =
    Some (selected_value (selected_cell_count (sc_geometry c)) (sc_data c) si (row * sg_width (sc_geometry c) + col))"
proof -
  let ?n = "selected_cell_count (sc_geometry c)"
  have "row * sg_width (sc_geometry c) + col < ?n"
    using plane_index_less [OF assms(3,4)] by (simp add: selected_cell_count_def mult.commute)
  from plane_index_less [OF assms(2) this] have "si * ?n + (row * sg_width (sc_geometry c) + col) < ?n * length (sc_levels_hpa c)"
    by (simp add: mult.commute)
  then show ?thesis
    using assms by (cases "sc_data c") (simp_all add: selected_get_def selected_value_def selected_fits_def Let_def)
qed

lemma chunk_plane_total:
  assumes "selected_fits (selected_cell_count (sc_geometry c)) (length (sc_levels_hpa c)) (sc_data c)"
  shows "\<exists>p. chunk_plane c i = Inr p"
proof -
  have "i * selected_cell_count (sc_geometry c) + selected_cell_count (sc_geometry c) \<le> selected_cell_count (sc_geometry c) * length (sc_levels_hpa c)"
    if "i < length (sc_levels_hpa c)"
    using mult_le_mono1 [of "i + 1" "length (sc_levels_hpa c)" "selected_cell_count (sc_geometry c)"] that by (simp add: mult.commute)
  then show ?thesis
    using assms by (cases "sc_data c") (auto simp: chunk_plane_def selected_fits_def Let_def r_slice_def subslice_ok_def)
qed

section \<open>The checks of a selection\<close>

lemma has_duplicate_iff: "has_duplicate ls seen \<longleftrightarrow> \<not> (distinct ls \<and> set ls \<inter> seen = {})"
  by (induction ls arbitrary: seen) auto

lemma selected_indices_eq_Inr:
  "selected_pressure_level_indices var ls = Inr idx \<longleftrightarrow>
    ls \<noteq> [] \<and> length ls \<le> MAX_PRESSURE_LEVELS \<and> distinct ls \<and> list_all2 (\<lambda>l i. pressure_level_index var l = Inr i) ls idx"
  by (auto simp: selected_pressure_level_indices_def has_duplicate_iff r_map_eq_Inr not_less split: if_splits)

lemma selected_indices_valid:
  assumes "selected_pressure_level_indices var ls = Inr idx"
  shows "length idx = length ls" "\<forall>i \<in> set idx. i < levels_of var" "length idx \<le> MAX_PRESSURE_LEVELS"
    "\<forall>si < length ls. vm_levels_hpa var ! (idx ! si) = ls ! si"
proof -
  have a: "list_all2 (\<lambda>l i. pressure_level_index var l = Inr i) ls idx" "length ls \<le> MAX_PRESSURE_LEVELS"
    using assms by (simp_all add: selected_indices_eq_Inr)
  show l: "length idx = length ls" using a(1) by (simp add: list_all2_lengthD)
  with a(2) show "length idx \<le> MAX_PRESSURE_LEVELS" by simp
  have n: "pressure_level_index var (ls ! si) = Inr (idx ! si)" if "si < length ls" for si
    using a(1) that by (simp add: list_all2_conv_all_nth)
  then show "\<forall>si < length ls. vm_levels_hpa var ! (idx ! si) = ls ! si" using level_index_less by blast
  show "\<forall>i \<in> set idx. i < levels_of var" using n level_index_less l by (metis in_set_conv_nth)
qed

end
