(* ===== verification/Rw_Float_Exact.thy ===== *)
theory Rw_Float_Exact
  imports Rw_Float_Error
begin

text \<open>
  Operations of the software floats that are exact: rounding a representable number,
  whole numbers in binary64, and the neutral elements of addition, multiplication and
  division.
\<close>

section \<open>Representable numbers\<close>

lemma round_half_even_of_nat: "round_half_even (of_nat n) = n"
  by (simp add: round_half_even_def Let_def)

lemma f32_round_bits_exact:
  assumes "b < 255 * 2 ^ 23"
  shows "f32_round_bits (of_nat (f32_mag b) / 2 ^ 149) = b"
proof (cases "b = 0")
  case True
  then show ?thesis by (simp add: f32_round_bits_def f32_mag_def)
next
  case nz: False
  define m :: rat where "m = of_nat (f32_mag b) / 2 ^ 149"
  have m: "m \<noteq> 0" "0 \<le> m" using nz by (simp_all add: m_def)
  have p149: "pow2 (- 149) = 1 / 2 ^ 149" by (simp add: pow2_def)
  have "f32_round_bits m = b"
  proof (cases "b < 2 ^ 23")
    case True
    then have mb: "m = of_nat b * pow2 (- 149)" by (simp add: m_def f32_mag_def p149)
    have "(of_nat b :: rat) < pow2 23" using True by (simp add: pow2_def)
    then have "m < pow2 23 * pow2 (- 149)" unfolding mb by (rule mult_strict_right_mono) simp
    then have "ilog2 m < - 126" using ilog2_less [of m "- 126"] m by (simp add: pow2_add [symmetric])
    then have "max (ilog2 m) (- 126) = - 126" by simp
    moreover have "m / pow2 (- 126 - 23) = of_nat b" by (simp add: mb)
    ultimately show ?thesis
      using m True by (simp add: f32_round_bits_def Let_def round_half_even_of_nat)
  next
    case False
    define q r where "q = b div 2 ^ 23" and "r = b mod (2 ^ 23 :: nat)"
    have b: "b = q * 2 ^ 23 + r" and r: "r < 2 ^ 23" by (simp_all add: q_def r_def)
    have q: "1 \<le> q" using False r b by (cases q) auto
    have "f32_mag b = (2 ^ 23 + r) * 2 ^ (q - 1)" using False by (simp add: f32_mag_def q_def r_def)
    then have mb: "m = of_nat (2 ^ 23 + r) * pow2 (int q - 150)"
    proof -
      have "pow2 (int q - 150) = pow2 (int (q - 1)) * pow2 (- 149)" using q by (simp add: pow2_add [symmetric] of_nat_diff)
      with \<open>f32_mag b = _\<close> show ?thesis by (simp add: m_def pow2_nat p149)
    qed
    have lo: "pow2 23 \<le> (of_nat (2 ^ 23 + r) :: rat)" and hi: "(of_nat (2 ^ 23 + r) :: rat) < pow2 24"
      using r by (simp_all add: pow2_def)
    have "ilog2 m = int q - 127"
    proof (rule ilog2_eqI)
      have "pow2 (int q - 127) = pow2 23 * pow2 (int q - 150)" by (simp add: pow2_add [symmetric])
      then show "pow2 (int q - 127) \<le> m" unfolding mb using lo by (simp add: mult_right_mono)
      have "pow2 (int q - 127 + 1) = pow2 24 * pow2 (int q - 150)" by (simp add: pow2_add [symmetric])
      then show "m < pow2 (int q - 127 + 1)" unfolding mb using hi by (simp add: mult_strict_right_mono)
    qed
    then have e: "max (ilog2 m) (- 126) = int q - 127" using q by simp
    have "m / pow2 (int q - 127 - 23) = of_nat (2 ^ 23 + r)" by (simp add: mb)
    then have "round_half_even (m / pow2 (int q - 127 - 23)) = 2 ^ 23 + r" by (simp only: round_half_even_of_nat)
    moreover have "nat (int q - 127 + 126) * 2 ^ 23 + (2 ^ 23 + r) = b"
    proof -
      have "nat (int q - 127 + 126) = q - 1" by simp
      moreover have "q * 2 ^ 23 = (q - 1) * 2 ^ 23 + 2 ^ 23" using q by (cases q) simp_all
      ultimately show ?thesis using b by simp
    qed
    ultimately show ?thesis
      using m assms e by (simp add: f32_round_bits_def Let_def)
  qed
  then show ?thesis by (simp only: m_def)
qed

lemma f32_of_num_num: "f32_is_finite w \<Longrightarrow> f32_of_num (f32_num w) = w"
proof -
  assume fin: "f32_is_finite w"
  then have "f32_num w = FFin (f32_sign w) (of_nat (f32_mag (f32_abs_bits w)) / 2 ^ 149)"
    using f32_not_finite_and_nan by (simp add: f32_num_def)
  moreover have "f32_round_bits (of_nat (f32_mag (f32_abs_bits w)) / 2 ^ 149) = f32_abs_bits w"
    using fin by (intro f32_round_bits_exact) (simp add: f32_is_finite_def)
  ultimately have "f32_of_num (f32_num w) = of_nat (unat w)"
    by (simp only: f32_of_num.simps f32_bits_split [of w])
  then show ?thesis by simp
qed

text \<open>Whole numbers below \<open>2 ^ 53\<close> are binary64 numbers.\<close>

lemma f64_round_nat: "n < 2 ^ 53 \<Longrightarrow> f64_round (FFin s (of_nat n)) = FFin s (of_nat n)"
proof (cases "n = 0")
  case True
  moreover have "0 < pow2 1024" by simp
  then have "\<not> pow2 1024 \<le> 0" by (simp only: not_le)
  ultimately show ?thesis by (simp add: round_half_even_def Let_def)
next
  case False
  assume n: "n < 2 ^ 53"
  have "(of_nat n :: rat) < pow2 53" using n by (simp add: pow2_def)
  then have hi: "ilog2 (of_nat n) \<le> 52" using ilog2_less [of "of_nat n" 53] False by simp
  have "pow2 (ilog2 (of_nat n)) \<le> of_nat n" "of_nat n < pow2 (ilog2 (of_nat n) + 1)"
    using ilog2_bounds [of "of_nat n"] False by simp_all
  then have "pow2 0 < pow2 (ilog2 (of_nat n) + 1)" using False by (simp add: pow2_def [of 0])
  then have "\<not> pow2 (ilog2 (of_nat n) + 1) \<le> pow2 0" by (simp only: not_le)
  then have lo: "0 \<le> ilog2 (of_nat n)" by (simp only: pow2_le_iff)
  define k where "k = nat (52 - ilog2 (of_nat n))"
  have k: "ilog2 (of_nat n) - 52 = - int k" using hi by (simp add: k_def)
  have p: "pow2 (- int k) = 1 / 2 ^ k" by (simp add: pow2_power_int power_int_minus_divide)
  have "(of_nat n :: rat) / pow2 (- int k) = of_nat (n * 2 ^ k)" by (simp add: p)
  then have "of_nat (round_half_even (of_nat n / pow2 (- int k))) * pow2 (- int k) = of_nat n"
    by (simp only: round_half_even_of_nat) (simp add: p)
  moreover have "\<not> pow2 1024 \<le> (of_nat n :: rat)"
  proof -
    have "(of_nat n :: rat) < pow2 53" by fact
    also have "pow2 53 \<le> pow2 1024" by simp
    finally show ?thesis by simp
  qed
  moreover have "max (ilog2 (of_nat n)) (- 1022) = ilog2 (of_nat n)" using lo by simp
  ultimately show ?thesis by (simp add: k Let_def)
qed

section \<open>Neutral elements\<close>

definition f32_one :: f32 where "f32_one = 0x3F800000"

lemma f32_num_one: "f32_num f32_one = FFin False 1"
  by (simp add: f32_one_def f32_eval)

lemma f32_num_zero: "f32_abs_bits z = 0 \<Longrightarrow> f32_num z = FFin (f32_sign z) 0"
  by (simp add: f32_num_def f32_is_nan_def f32_is_finite_def f32_mag_def)

lemma f32_num_nonzero:
  assumes "f32_is_finite v" and "f32_abs_bits v \<noteq> 0"
  obtains m where "f32_num v = FFin (f32_sign v) m" and "0 < m"
proof
  show "f32_num v = FFin (f32_sign v) (of_nat (f32_mag (f32_abs_bits v)) / 2 ^ 149)"
    using assms f32_not_finite_and_nan by (simp add: f32_num_def f32_is_finite_def)
  show "0 < (of_nat (f32_mag (f32_abs_bits v)) / 2 ^ 149 :: rat)" using assms by (simp add: f32_mag_def)
qed

lemma num_add_zero: "0 < m \<Longrightarrow> num_add (FFin s m) (FFin t 0) = FFin s m"
  "0 < m \<Longrightarrow> num_add (FFin t 0) (FFin s m) = FFin s m"
  by (simp_all add: signed_def Let_def)

lemma f32_add_zero:
  assumes "f32_is_finite v" and "f32_abs_bits v \<noteq> 0" and "f32_abs_bits z = 0"
  shows "f32_add v z = v" and "f32_add z v = v"
proof -
  obtain m where "f32_num v = FFin (f32_sign v) m" "0 < m" using assms f32_num_nonzero by blast
  then have "num_add (f32_num v) (f32_num z) = f32_num v" "num_add (f32_num z) (f32_num v) = f32_num v"
    by (simp_all only: f32_num_zero [OF assms(3)] num_add_zero)
  then show "f32_add v z = v" "f32_add z v = v"
    using f32_of_num_num [OF assms(1)] by (simp_all only: f32_add_def)
qed

lemma f32_num_finite_cases:
  assumes "f32_is_finite v"
  obtains m where "f32_num v = FFin (f32_sign v) m"
  using assms f32_num_nonzero f32_num_zero by blast

lemma f32_mul_one: "f32_is_finite v \<Longrightarrow> f32_mul f32_one v = v"
proof -
  assume v: "f32_is_finite v"
  then obtain m where "f32_num v = FFin (f32_sign v) m" by (rule f32_num_finite_cases)
  then have "num_mul (f32_num f32_one) (f32_num v) = f32_num v" by (simp add: f32_num_one)
  with f32_of_num_num [OF v] show ?thesis by (simp only: f32_mul_def)
qed

lemma f32_div_one: "f32_is_finite v \<Longrightarrow> f32_div v f32_one = v"
proof -
  assume v: "f32_is_finite v"
  then obtain m where "f32_num v = FFin (f32_sign v) m" by (rule f32_num_finite_cases)
  then have "num_div (f32_num v) (f32_num f32_one) = f32_num v" by (simp add: f32_num_one)
  with f32_of_num_num [OF v] show ?thesis by (simp only: f32_div_def)
qed

lemma f32_mul_zero: "f32_is_finite v \<Longrightarrow> f32_abs_bits (f32_mul 0 v) = 0"
proof -
  assume v: "f32_is_finite v"
  then obtain m where "f32_num v = FFin (f32_sign v) m" by (rule f32_num_finite_cases)
  moreover have "f32_num 0 = FFin False 0" by (simp add: f32_eval)
  ultimately have "f32_mul 0 v = f32_of_num (FFin (f32_sign v) 0)" by (simp only: f32_mul_def) simp
  then show ?thesis by (cases "f32_sign v") (simp_all add: f32_round_bits_def f32_abs_bits_def)
qed

end
