(* ===== verification/Rw_Profile.thy ===== *)
theory Rw_Profile
  imports Rw_Read3D_Selected Rw_Float_Exact
begin

text \<open>
  Interpolated profiles: the clamped coordinates stay on the grid, every corner finds its
  chunk, and a profile at a grid point is the column of that point.
\<close>

section \<open>Clamped coordinates\<close>

lemma f64_of_nat_exact: "n < 2 ^ 53 \<Longrightarrow> f64_of_nat n = FFin False (of_nat n)"
  using f64_round_nat [of n False] by (simp only: f64_of_nat_def)

lemma clamped:
  assumes "num_is_finite x" and "n < 2 ^ 53"
  obtains s m where "f64_clamp x (FFin False 0) (f64_of_nat n) = FFin s m" "0 \<le> signed s m" "signed s m \<le> of_nat n"
proof -
  obtain s m where x: "x = FFin s m" using assms(1) by (cases x) simp_all
  show thesis
  proof (cases "signed s m < 0")
    case True
    then show thesis using that [of False 0] by (simp add: x f64_clamp_def f64_of_nat_exact [OF assms(2)] Let_def)
  next
    case False
    then show thesis using that [of False "of_nat n"] that [of s m]
      by (cases "of_nat n < signed s m") (simp_all add: x f64_clamp_def f64_of_nat_exact [OF assms(2)] Let_def)
  qed
qed

lemma clamped_corner:
  assumes "0 \<le> signed s m" and "signed s m \<le> of_nat n"
  shows "floor_usize (FFin s m) \<le> n" "ceil_usize (FFin s m) \<le> n"
proof -
  have "\<lfloor>signed s m\<rfloor> \<le> int n" "\<lceil>signed s m\<rceil> \<le> int n"
    using assms by (simp_all add: ceiling_le_iff floor_le_iff del: signed.simps)
  then show "floor_usize (FFin s m) \<le> n" "ceil_usize (FFin s m) \<le> n"
    by (simp_all del: signed.simps)
qed

text \<open>The index has a record for the last chunk of each axis, and its coordinates are 32-bit.\<close>

lemma grid_side_bound:
  assumes ok: "reader_ok header rd" and var: "lookup_3d rd name = Inr var"
  shows "hm_nx (hr_meta rd) - 1 < 2 ^ 53" "hm_ny (hr_meta rd) - 1 < 2 ^ 53"
proof -
  have last: "n - 1 < 2 ^ 53" if "div_ceil n 16 - 1 < 2 ^ 32" for n
    using that by (simp add: div_ceil_def)
  have pos: "0 < div_ceil (hm_ny (hr_meta rd)) COL_Y" "0 < div_ceil (hm_nx (hr_meta rd)) COL_X"
    using reader_grid(1,2) [OF ok] by (simp_all add: div_ceil_def geometry_consts)
  have "div_ceil (hm_ny (hr_meta rd)) COL_Y - 1 < div_ceil (hm_ny (hr_meta rd)) COL_Y"
    "div_ceil (hm_nx (hr_meta rd)) COL_X - 1 < div_ceil (hm_nx (hr_meta rd)) COL_X" using pos by simp_all
  then obtain r :: chunk_record where r: "unat (cr_tile_y r) = div_ceil (hm_ny (hr_meta rd)) COL_Y - 1"
    "unat (cr_tile_x r) = div_ceil (hm_nx (hr_meta rd)) COL_X - 1"
    by (rule volume_record [OF ok var]) blast
  show "hm_nx (hr_meta rd) - 1 < 2 ^ 53" "hm_ny (hr_meta rd) - 1 < 2 ^ 53"
    using r unat_lt2p [of "cr_tile_x r"] unat_lt2p [of "cr_tile_y r"] by (intro last; simp add: geometry_consts)+
qed

section \<open>The columns of the corners\<close>

definition corner_key :: "nat \<times> nat \<times> f32 \<Rightarrow> nat \<times> nat" where
  "corner_key corner = (fst (snd corner) div COL_Y, fst corner div COL_X)"

definition on_grid :: "hour_reader \<Rightarrow> nat \<times> nat \<times> f32 \<Rightarrow> bool" where
  "on_grid rd corner \<longleftrightarrow> fst corner < hm_nx (hr_meta rd) \<and> fst (snd corner) < hm_ny (hr_meta rd)"

definition loaded :: "read_env \<Rightarrow> hour_reader \<Rightarrow> rws_variable_meta \<Rightarrow> ((nat \<times> nat) \<times> f32 list) list \<Rightarrow> bool" where
  "loaded env rd var chunks \<longleftrightarrow> (\<forall>(key, c) \<in> set chunks. column_values env rd var (fst key) (snd key) = Inr c)"

lemma r_map_all:
  "(\<And>x. x \<in> set xs \<Longrightarrow> \<exists>y. f x = Inr y \<and> Q y) \<Longrightarrow> \<exists>ys. r_map f xs = Inr ys \<and> (\<forall>y \<in> set ys. Q y)"
proof (induction xs)
  case (Cons x xs)
  obtain y where "f x = Inr y" "Q y" using Cons.prems by auto
  moreover obtain ys where "r_map f xs = Inr ys" "\<forall>y \<in> set ys. Q y" using Cons by auto
  ultimately show ?case by simp
qed simp

lemma load_corner_eq:
  "load_corner env rd var corner chunks =
    (if corner_key corner \<in> fst ` set chunks then Inr chunks
     else r_bind (column_values env rd var (fst (corner_key corner)) (snd (corner_key corner))) (\<lambda>c. Inr (chunks @ [(corner_key corner, c)])))"
proof -
  have "(\<exists>(have, _) \<in> set chunks. have = corner_key corner) \<longleftrightarrow> corner_key corner \<in> fst ` set chunks" by force
  then show ?thesis
    by (simp add: load_corner_def corner_key_def column_values_def r_bind_assoc levels_of_def Let_def case_prod_beta)
qed

lemma load_corners:
  assumes ok: "reader_ok header rd" and var: "lookup_3d rd name = Inr var"
    and "list_all (on_grid rd) corners" and "loaded env rd var chunks"
  shows "\<not> panics (r_fold (load_corner env rd var) corners chunks) \<and>
    (\<forall>chunks'. r_fold (load_corner env rd var) corners chunks = Inr chunks' \<longrightarrow>
       loaded env rd var chunks' \<and> fst ` set chunks \<union> corner_key ` set corners \<subseteq> fst ` set chunks')"
  using assms(3,4)
proof (induction corners arbitrary: chunks)
  case (Cons p ps)
  have p: "fst (corner_key p) < div_ceil (hm_ny (hr_meta rd)) COL_Y" "snd (corner_key p) < div_ceil (hm_nx (hr_meta rd)) COL_X"
    using Cons.prems(1) by (simp_all add: corner_key_def on_grid_def col_y.piece_of col_x.piece_of)
  show ?case
  proof (cases "corner_key p \<in> fst ` set chunks")
    case True
    then have "load_corner env rd var p chunks = Inr chunks" by (simp add: load_corner_eq)
    moreover have "list_all (on_grid rd) ps" using Cons.prems(1) by simp
    ultimately show ?thesis using Cons.IH [OF _ Cons.prems(2)] True by simp blast
  next
    case False
    show ?thesis
    proof (cases "column_values env rd var (fst (corner_key p)) (snd (corner_key p))")
      case (Inl e)
      then have "load_corner env rd var p chunks = Inl e" using False by (simp add: load_corner_eq)
      with Inl not_panics_columns [OF ok var p, of env] show ?thesis by (auto simp: panics_def)
    next
      case (Inr c)
      then have "loaded env rd var (chunks @ [(corner_key p, c)])" using Cons.prems(2) by (auto simp: loaded_def)
      moreover have "load_corner env rd var p chunks = Inr (chunks @ [(corner_key p, c)])"
        using False Inr by (simp add: load_corner_eq)
      ultimately show ?thesis using Cons.IH [of "chunks @ [(corner_key p, c)]"] Cons.prems(1) by auto
    qed
  qed
qed simp

lemma corner_column_eq:
  assumes var: "lookup_3d rd name = Inr var" and l: "loaded env rd var chunks"
    and p: "on_grid rd (ix, iy, w)" "corner_key (ix, iy, w) \<in> fst ` set chunks"
  shows "\<exists>column. read_column_3d env rd name ix iy = Inr column \<and> length column = levels_of var \<and>
    corner_column rd (levels_of var) chunks (ix, iy, w) = Inr (column, w)"
proof -
  obtain c where f: "find (\<lambda>(have, _). have = (iy div COL_Y, ix div COL_X)) chunks = Some ((iy div COL_Y, ix div COL_X), c)"
  proof (cases "find (\<lambda>(have, _). have = (iy div COL_Y, ix div COL_X)) chunks")
    case None
    then show thesis using p(2) by (auto simp: find_None_iff corner_key_def)
  next
    case (Some kc)
    then have "fst kc = (iy div COL_Y, ix div COL_X)" by (auto simp: find_Some_iff)
    then show thesis using Some that by (cases kc) simp
  qed
  then have "((iy div COL_Y, ix div COL_X), c) \<in> set chunks" unfolding find_Some_iff by (metis nth_mem)
  then have c: "column_values env rd var (iy div COL_Y) (ix div COL_X) = Inr c" using l by (auto simp: loaded_def)
  let ?s = "column_index rd var iy ix" and ?L = "levels_of var"
  have b: "iy < hm_ny (hr_meta rd)" "ix < hm_nx (hr_meta rd)" using p(1) by (simp_all add: on_grid_def)
  have fit: "?s + ?L \<le> length c" using column_index_fits [OF b, of var] column_values_length [OF c] by simp
  have "corner_column rd ?L chunks (ix, iy, w) = Inr (subslice ?s (?s + ?L) c, w)"
    using fit by (simp add: corner_column_def f ok_or_def Let_def case_prod_beta r_slice_def subslice_ok_def column_index_def)
  moreover have "subslice ?s (?s + ?L) c = map (\<lambda>z. c ! (?s + z)) [0..<?L]"
    using fit by (intro nth_equalityI) (simp_all add: subslice_def)
  ultimately show ?thesis using read_column_eq [OF var b, of env] c by simp
qed

lemma profile_value_total:
  assumes "\<forall>column \<in> set columns. k < length (fst column)"
  shows "\<exists>v. profile_value k columns = Inr v"
proof -
  let ?f = "\<lambda>(column, weight) (weight_sum, value_sum).
         r_bind (r_nth column k) (\<lambda>value.
         Inr (if f32_is_finite value then (f32_add weight_sum weight, f32_add value_sum (f32_mul weight value))
              else (weight_sum, value_sum)))"
  have "\<exists>s'. r_fold ?f columns s = Inr s'" for s
    using assms by (induction columns arbitrary: s) auto
  then obtain s' where "r_fold ?f columns (0, 0) = Inr s'" by blast
  then show ?thesis by (cases s') (simp add: profile_value_def)
qed

section \<open>Profiles\<close>

lemma corners_on_grid:
  assumes ok: "reader_ok header rd" and var: "lookup_3d rd name = Inr var" and fin: "num_is_finite fx" "num_is_finite fy"
  shows "list_all (on_grid rd) (profile_corners (f64_clamp fx (FFin False 0) (f64_of_nat (hm_nx (hr_meta rd) - 1)))
    (f64_clamp fy (FFin False 0) (f64_of_nat (hm_ny (hr_meta rd) - 1))))"
proof -
  obtain s m where x: "f64_clamp fx (FFin False 0) (f64_of_nat (hm_nx (hr_meta rd) - 1)) = FFin s m" "0 \<le> signed s m"
    "signed s m \<le> of_nat (hm_nx (hr_meta rd) - 1)" by (rule clamped [OF fin(1) grid_side_bound(1) [OF ok var]])
  obtain t n where y: "f64_clamp fy (FFin False 0) (f64_of_nat (hm_ny (hr_meta rd) - 1)) = FFin t n" "0 \<le> signed t n"
    "signed t n \<le> of_nat (hm_ny (hr_meta rd) - 1)" by (rule clamped [OF fin(2) grid_side_bound(2) [OF ok var]])
  have less: "a \<le> n - 1 \<Longrightarrow> 0 < n \<Longrightarrow> a < n" for a n :: nat by simp
  note b = clamped_corner [OF x(2,3), THEN less, OF reader_grid(1) [OF ok]] clamped_corner [OF y(2,3), THEN less, OF reader_grid(2) [OF ok]]
  show ?thesis unfolding x(1) y(1) profile_corners_def Let_def by (simp only: list.pred_inject on_grid_def fst_conv snd_conv b)
qed

lemma profile_not_panics:
  assumes ok: "reader_ok header rd"
  shows "\<not> panics (read_profile_3d env rd name fx fy)"
proof (cases "lookup_3d rd name")
  case (Inl e)
  moreover have "\<not> panics (lookup_3d rd name)" unfolding lookup_3d_def lookup_def by (intro not_panics_intros) simp_all
  ultimately show ?thesis by (simp add: read_profile_3d_def panics_def)
next
  case var: (Inr var)
  let ?fx = "f64_clamp fx (FFin False 0) (f64_of_nat (hm_nx (hr_meta rd) - 1))"
  let ?fy = "f64_clamp fy (FFin False 0) (f64_of_nat (hm_ny (hr_meta rd) - 1))"
  let ?cs = "profile_corners ?fx ?fy"
  show ?thesis
  proof (cases "num_is_finite fx \<and> num_is_finite fy")
    case True
    then have g: "list_all (on_grid rd) ?cs" using corners_on_grid [OF ok var] by blast
    have nil: "loaded env rd var []" by (simp add: loaded_def)
    note load = load_corners [OF ok var g nil]
    have cols: "\<exists>columns. r_map (corner_column rd (levels_of var) chunks) ?cs = Inr columns \<and>
        (\<forall>column \<in> set columns. length (fst column) = levels_of var)"
      if "r_fold (load_corner env rd var) ?cs [] = Inr chunks" for chunks
    proof -
      have "\<exists>column. corner_column rd (levels_of var) chunks p = Inr column \<and> length (fst column) = levels_of var" if "p \<in> set ?cs" for p
        using corner_column_eq [OF var, of env chunks "fst p" "fst (snd p)" "snd (snd p)"] load that g
          \<open>r_fold (load_corner env rd var) ?cs [] = Inr chunks\<close>
        by (force simp: list_all_iff)
      then show ?thesis by (rule r_map_all)
    qed
    have "\<not> panics (r_bind (r_fold (load_corner env rd var) ?cs []) (\<lambda>chunks.
             r_bind (r_map (corner_column rd (levels_of var) chunks) ?cs) (\<lambda>columns.
             r_map (\<lambda>k. profile_value k columns) [0..<levels_of var])))"
    proof (rule not_panics_bind)
      show "\<not> panics (r_fold (load_corner env rd var) ?cs [])" using load by blast
    next
      fix chunks assume "r_fold (load_corner env rd var) ?cs [] = Inr chunks"
      then obtain columns where c: "r_map (corner_column rd (levels_of var) chunks) ?cs = Inr columns"
        and len: "\<forall>column \<in> set columns. length (fst column) = levels_of var" using cols by blast
      have "\<not> panics (profile_value k columns)" if "k \<in> set [0..<levels_of var]" for k
      proof -
        have "\<exists>v. profile_value k columns = Inr v" using that len by (intro profile_value_total) simp
        then show ?thesis by auto
      qed
      then have "\<not> panics (r_map (\<lambda>k. profile_value k columns) [0..<levels_of var])" by (rule not_panics_r_map)
      then show "\<not> panics (r_bind (r_map (corner_column rd (levels_of var) chunks) ?cs) (\<lambda>columns.
          r_map (\<lambda>k. profile_value k columns) [0..<levels_of var]))" by (simp only: c r_bind_Inr not_False_eq_True)
    qed
    with True var show ?thesis by (simp add: read_profile_3d_def levels_of_def Let_def)
  next
    case False
    with var show ?thesis by (simp add: read_profile_3d_def panics_def)
  qed
qed

text \<open>At a grid point all corners are the point and only the first has a weight.\<close>

definition profile_settle :: "f32 \<Rightarrow> f32" where
  "profile_settle v = (if \<not> f32_is_finite v then f32_NAN else if f32_abs_bits v = 0 then 0 else v)"

lemma f32_eq_zero:
  assumes "f32_is_finite v"
  shows "f32_eq v 0 \<longleftrightarrow> f32_abs_bits v = 0"
proof (cases "f32_abs_bits v = 0")
  case True
  then show ?thesis using f32_num_zero [OF True] by (simp add: f32_eq_def f32_num_zero f32_abs_bits_def)
next
  case False
  then obtain m where "f32_num v = FFin (f32_sign v) m" "0 < m" using assms f32_num_nonzero by blast
  moreover have "f32_num 0 = FFin False 0" by (simp add: f32_eval)
  ultimately show ?thesis using False by (simp add: f32_eq_def)
qed

lemma clamp_grid_point: "i < n \<Longrightarrow> n - 1 < 2 ^ 53 \<Longrightarrow> f64_clamp (FFin False (of_nat i)) (FFin False 0) (f64_of_nat (n - 1)) = FFin False (of_nat i)"
  by (simp add: f64_clamp_def f64_of_nat_exact Let_def)

lemma corners_grid_point:
  assumes "ix < 2 ^ 53" and "iy < 2 ^ 53"
  shows "profile_corners (FFin False (of_nat ix)) (FFin False (of_nat iy)) = [(ix, iy, f32_one), (ix, iy, 0), (ix, iy, 0), (ix, iy, 0)]"
proof -
  have z: "f64_round (FFin False 0) = FFin False 0" using f64_round_nat [of 0 False] by simp
  have w: "f32_of_num (f64_sub (FFin False (of_nat i)) (f64_of_nat i)) = 0" if "i < 2 ^ 53" for i
    by (simp add: f64_of_nat_exact [OF that] f64_sub_def num_sub_def z f32_round_bits_def del: f64_round.simps)
  have "f32_sub 0x3F800000 0 = f32_one" "f32_mul f32_one f32_one = f32_one" "f32_mul 0 f32_one = 0" "f32_mul f32_one 0 = 0" "f32_mul 0 0 = 0"
    by (simp_all add: f32_one_def f32_eval)
  moreover have "min (nat \<lfloor>rat_of_nat i\<rfloor>) (usize_bound - 1) = i" "min (nat \<lceil>rat_of_nat i\<rceil>) (usize_bound - 1) = i" if "i < 2 ^ 53" for i
    using that by (simp_all add: usize_bound_def)
  ultimately show ?thesis using assms by (simp add: profile_corners_def Let_def w)
qed

lemma profile_value_point:
  assumes "k < length column"
  shows "profile_value k [(column, f32_one), (column, 0), (column, 0), (column, 0)] = Inr (profile_settle (column ! k))"
proof (cases "f32_is_finite (column ! k)")
  case fin: True
  let ?v = "column ! k"
  have w: "f32_add 0 f32_one = f32_one" "f32_add f32_one 0 = f32_one" "f32_lt 0 f32_one"
    by (simp_all add: f32_one_def f32_eval)
  have z: "f32_abs_bits (f32_mul 0 ?v) = 0" by (rule f32_mul_zero [OF fin])
  have "f32_add 0 z = 0" if "f32_abs_bits z = 0" for z
  proof -
    have "num_add (f32_num 0) (f32_num z) = FFin False 0"
      using f32_num_zero [OF that] by (simp add: f32_eval)
    then show ?thesis by (simp add: f32_add_def f32_round_bits_def)
  qed
  moreover have "f32_div 0 f32_one = 0" by (rule f32_div_one) (simp add: f32_eval)
  ultimately show ?thesis
    using assms fin z f32_add_zero [OF fin] f32_div_one [OF fin] f32_mul_one [OF fin]
    by (cases "f32_abs_bits ?v = 0") (simp_all add: profile_value_def w profile_settle_def f32_abs_bits_def)
next
  case False
  then show ?thesis using assms by (simp add: profile_value_def profile_settle_def f32_eval)
qed

lemma profile_grid_point:
  assumes ok: "reader_ok header rd" and var: "lookup_3d rd name = Inr var"
    and b: "ix < hm_nx (hr_meta rd)" "iy < hm_ny (hr_meta rd)"
  shows "read_profile_3d env rd name (FFin False (of_nat ix)) (FFin False (of_nat iy)) =
    r_bind (read_column_3d env rd name ix iy) (\<lambda>column. Inr (map profile_settle column))"
proof -
  let ?c = "column_values env rd var (iy div COL_Y) (ix div COL_X)"
  have s: "hm_nx (hr_meta rd) - 1 < 2 ^ 53" "hm_ny (hr_meta rd) - 1 < 2 ^ 53" using grid_side_bound [OF ok var] by simp_all
  have g: "on_grid rd (ix, iy, w)" for w using b by (simp add: on_grid_def)
  have k: "corner_key (ix, iy, w) = (iy div COL_Y, ix div COL_X)" for w by (simp add: corner_key_def)
  let ?cs = "[(ix, iy, f32_one), (ix, iy, 0), (ix, iy, 0), (ix, iy, 0)]"
  have c: "profile_corners (FFin False (of_nat ix)) (FFin False (of_nat iy)) = ?cs"
    using s b by (intro corners_grid_point) linarith+
  have load: "r_fold (load_corner env rd var) ?cs [] = r_bind ?c (\<lambda>c. Inr [((iy div COL_Y, ix div COL_X), c)])"
    by (cases ?c) (simp_all add: load_corner_eq k)
  have "r_bind (r_map (corner_column rd (levels_of var) [((iy div COL_Y, ix div COL_X), c)]) ?cs) (\<lambda>columns.
      r_map (\<lambda>k. profile_value k columns) [0..<levels_of var]) =
      r_bind (read_column_3d env rd name ix iy) (\<lambda>column. Inr (map profile_settle column))" if cv: "?c = Inr c" for c
  proof -
    have l: "loaded env rd var [((iy div COL_Y, ix div COL_X), c)]" using cv by (simp add: loaded_def)
    have e: "\<exists>column. read_column_3d env rd name ix iy = Inr column \<and> length column = levels_of var \<and>
        corner_column rd (levels_of var) [((iy div COL_Y, ix div COL_X), c)] (ix, iy, w) = Inr (column, w)" for w
      using corner_column_eq [OF var l g [of w]] by (simp add: k)
    then obtain column where col: "read_column_3d env rd name ix iy = Inr column" "length column = levels_of var" by blast
    have col3: "corner_column rd (levels_of var) [((iy div COL_Y, ix div COL_X), c)] (ix, iy, w) = Inr (column, w)" for w
      using e [of w] col(1) by simp
    have "r_map (\<lambda>k. profile_value k [(column, f32_one), (column, 0), (column, 0), (column, 0)]) [0..<levels_of var] =
        Inr (map (\<lambda>k. profile_settle (column ! k)) [0..<levels_of var])"
      by (rule r_map_Inr) (simp add: profile_value_point col(2))
    moreover have "map (\<lambda>k. profile_settle (column ! k)) [0..<levels_of var] = map profile_settle column"
      using col(2) by (intro nth_equalityI) simp_all
    ultimately show ?thesis by (simp add: col(1) col3)
  qed
  moreover have "read_column_3d env rd name ix iy = Inl e" if "?c = Inl e" for e
    using read_column_eq [OF var b(2,1), of env] that by simp
  moreover have "read_profile_3d env rd name (FFin False (of_nat ix)) (FFin False (of_nat iy)) =
      r_bind (r_fold (load_corner env rd var) ?cs []) (\<lambda>chunks.
      r_bind (r_map (corner_column rd (levels_of var) chunks) ?cs) (\<lambda>columns.
      r_map (\<lambda>k. profile_value k columns) [0..<levels_of var]))"
    unfolding read_profile_3d_def var r_bind_Inr num_is_finite.simps Let_def clamp_grid_point [OF b(1) s(1)] clamp_grid_point [OF b(2) s(2)]
      c levels_of_def by simp
  ultimately show ?thesis unfolding load by (cases ?c) simp_all
qed

end
