(* ===== verification/Rw_Volume.thy ===== *)
theory Rw_Volume
  imports Rw_Profile Rw_Surface
begin

text \<open>
  The chunk reads of a pressure volume through their public functions: geometries, the
  enumeration of chunks, and the visits as folds over the chunk reads.
\<close>

section \<open>Geometry\<close>

definition pressure_geom :: "hour_reader \<Rightarrow> u16 \<Rightarrow> nat \<Rightarrow> nat \<Rightarrow> pressure_chunk_geometry" where
  "pressure_geom rd l cy cx = \<lparr>pg_chunk_y = cy, pg_chunk_x = cx, pg_x0 = cx * COL_X, pg_y0 = cy * COL_Y,
     pg_width = snd (col_chunk_dims rd cy cx), pg_height = fst (col_chunk_dims rd cy cx), pg_level_hpa = l\<rparr>"

lemma chunk_offset_fits:
  assumes ok: "reader_ok header rd"
    and t: "cy < div_ceil (hm_ny (hr_meta rd)) COL_Y" "cx < div_ceil (hm_nx (hr_meta rd)) COL_X"
  shows "cy * COL_Y < usize_bound" "cx * COL_X < usize_bound"
proof -
  have "cy * COL_Y < hm_ny (hr_meta rd)" "cx * COL_X < hm_nx (hr_meta rd)"
    using t by (simp_all add: less_div_ceil_iff col_y.step_pos col_x.step_pos)
  then show "cy * COL_Y < usize_bound" "cx * COL_X < usize_bound" using reader_grid(4,5) [OF ok] by linarith+
qed

lemma selected_geometry:
  assumes ok: "reader_ok header rd"
    and t: "cy < div_ceil (hm_ny (hr_meta rd)) COL_Y" "cx < div_ceil (hm_nx (hr_meta rd)) COL_X"
  shows "selected_pressure_level_chunk_geometry_3d rd cy cx = Inr (selected_geom rd cy cx)"
  using t chunk_offset_fits [OF assms]
  by (simp add: selected_pressure_level_chunk_geometry_3d_def selected_geom_def Let_def ok_or_def usize_checked_mul_def col_chunk_dims_def)

lemma pressure_geometry:
  assumes ok: "reader_ok header rd"
    and t: "cy < div_ceil (hm_ny (hr_meta rd)) COL_Y" "cx < div_ceil (hm_nx (hr_meta rd)) COL_X"
  shows "pressure_level_chunk_geometry_3d rd l cy cx = Inr (pressure_geom rd l cy cx)"
  using t chunk_offset_fits [OF assms]
  by (simp add: pressure_level_chunk_geometry_3d_def pressure_geom_def Let_def ok_or_def usize_checked_mul_def col_chunk_dims_def)

section \<open>Enumeration\<close>

definition pressure_iter :: "hour_reader \<Rightarrow> u16 \<Rightarrow> nat \<Rightarrow> pressure_chunks_iter" where
  "pressure_iter rd l k =
     (let chunks_y = div_ceil (hm_ny (hr_meta rd)) COL_Y; chunks_x = div_ceil (hm_nx (hr_meta rd)) COL_X
      in \<lparr>pi_grid_nx = hm_nx (hr_meta rd), pi_grid_ny = hm_ny (hr_meta rd), pi_chunks_x = chunks_x,
          pi_chunks_y = chunks_y, pi_level_hpa = l, pi_next = k, pi_chunk_count = chunks_y * chunks_x\<rparr>)"

definition selected_iter :: "hour_reader \<Rightarrow> u16 list \<Rightarrow> nat \<Rightarrow> selected_chunks_iter" where
  "selected_iter rd ls k =
     (let chunks_y = div_ceil (hm_ny (hr_meta rd)) COL_Y; chunks_x = div_ceil (hm_nx (hr_meta rd)) COL_X
      in \<lparr>si_grid_nx = hm_nx (hr_meta rd), si_grid_ny = hm_ny (hr_meta rd), si_chunks_x = chunks_x,
          si_chunks_y = chunks_y, si_levels_hpa = ls, si_next = k, si_chunk_count = chunks_y * chunks_x\<rparr>)"

lemma pressure_iter_start:
  assumes ok: "reader_ok header rd" and var: "lookup_3d rd name = Inr var"
  shows "pressure_level_chunks_3d_for_var rd var l = Inr (pressure_iter rd l 0)"
proof -
  note v = volume_variable [OF var]
  note k = volume_chunks [OF v(2)]
  obtain a b where "hr_var_ranges rd (vm_id var) = Some (a, b)"
      "b - a = chunks_y (hr_meta rd) var * chunks_x (hr_meta rd) var"
    by (rule variable_run [OF ok v(1)])
  moreover have "div_ceil (hm_ny (hr_meta rd)) COL_Y * div_ceil (hm_nx (hr_meta rd)) COL_X < usize_bound"
  proof -
    have "div_ceil (hm_ny (hr_meta rd)) COL_Y * div_ceil (hm_nx (hr_meta rd)) COL_X \<le> hm_ny (hr_meta rd) * hm_nx (hr_meta rd)"
      by (intro mult_le_mono div_ceil_le col_y.step_pos col_x.step_pos)
    with reader_grid(3) [OF ok] show ?thesis by linarith
  qed
  ultimately show ?thesis
    by (simp add: pressure_level_chunks_3d_for_var_def pressure_iter_def Let_def ok_or_def usize_checked_mul_def k)
qed

lemma selected_iter_start:
  assumes "reader_ok header rd" and "lookup_3d rd name = Inr var" and "selected_pressure_level_indices var ls = Inr idx"
  shows "selected_pressure_level_chunks_3d_for_var rd var ls = Inr (selected_iter rd ls 0)"
  using assms(3) pressure_iter_start [OF assms(1,2)]
  by (simp add: selected_pressure_level_chunks_3d_for_var_def selected_indices_eq_Inr pressure_iter_def selected_iter_def Let_def)

definition chunk_at :: "hour_reader \<Rightarrow> nat \<Rightarrow> nat \<times> nat" where
  "chunk_at rd k = (k div div_ceil (hm_nx (hr_meta rd)) COL_X, k mod div_ceil (hm_nx (hr_meta rd)) COL_X)"

definition chunk_total :: "hour_reader \<Rightarrow> nat" where
  "chunk_total rd = div_ceil (hm_ny (hr_meta rd)) COL_Y * div_ceil (hm_nx (hr_meta rd)) COL_X"

lemma chunk_grid_ordinals: "chunk_grid rd = map (chunk_at rd) [0..<chunk_total rd]"
  by (simp add: chunk_grid_def product_upt chunk_at_def [abs_def] chunk_total_def)

lemma chunk_at_inside:
  assumes "k < chunk_total rd"
  shows "fst (chunk_at rd k) < div_ceil (hm_ny (hr_meta rd)) COL_Y" "snd (chunk_at rd k) < div_ceil (hm_nx (hr_meta rd)) COL_X"
  using assms unfolding chunk_total_def chunk_at_def fst_conv snd_conv
  by (simp_all add: less_mult_imp_div_less) (metis gr_zeroI mod_less_divisor mult_0_right not_less_zero)

lemma pressure_next_iter:
  "k \<le> chunk_total rd \<Longrightarrow> pressure_next (pressure_iter rd l k) =
    (if k = chunk_total rd then None
     else Some (pressure_geom rd l (fst (chunk_at rd k)) (snd (chunk_at rd k)), pressure_iter rd l (Suc k)))"
  by (simp add: pressure_next_def pressure_iter_def pressure_geom_def chunk_at_def chunk_total_def col_chunk_dims_def Let_def)

lemma selected_next_iter:
  "k \<le> chunk_total rd \<Longrightarrow> selected_next (selected_iter rd ls k) =
    (if k = chunk_total rd then None
     else Some (selected_geom rd (fst (chunk_at rd k)) (snd (chunk_at rd k)), selected_iter rd ls (Suc k)))"
  by (simp add: selected_next_def selected_iter_def selected_geom_def chunk_at_def chunk_total_def col_chunk_dims_def Let_def)

section \<open>Visits\<close>

lemma r_fold_map: "r_fold f (map g xs) = r_fold (\<lambda>x. f (g x)) xs"
  by (induction xs) (rule ext, simp)+

lemma visit_selected_loop_returns:
  "k \<le> chunk_total rd \<Longrightarrow> visit_selected_loop env rd var idx ls visitor (selected_iter rd ls k) s =
    Some (r_fold (\<lambda>j s. r_bind (read_selected_chunk_data env rd var idx (selected_geom rd (fst (chunk_at rd j)) (snd (chunk_at rd j))))
        (\<lambda>data. visitor \<lparr>sc_geometry = selected_geom rd (fst (chunk_at rd j)) (snd (chunk_at rd j)), sc_levels_hpa = ls, sc_data = data\<rparr> s))
      [k..<chunk_total rd] s)"
proof (induction "chunk_total rd - k" arbitrary: k s)
  case 0
  then show ?case by (subst visit_selected_loop.simps) (simp add: selected_next_iter)
next
  case (Suc m)
  then have "k < chunk_total rd" "m = chunk_total rd - Suc k" "Suc k \<le> chunk_total rd" by simp_all
  then show ?case
    using Suc.hyps(1) [of "Suc k"]
    by (subst visit_selected_loop.simps) (simp add: selected_next_iter upt_conv_Cons r_bind_def split: sum.split)
qed

lemma visit_pressure_loop_returns:
  "k \<le> chunk_total rd \<Longrightarrow> visit_pressure_loop env rd var i visitor (pressure_iter rd l k) s =
    Some (r_fold (\<lambda>j s. r_bind (read_pressure_chunk_for_var env rd var i (pressure_geom rd l (fst (chunk_at rd j)) (snd (chunk_at rd j))))
        (\<lambda>chunk. visitor chunk s)) [k..<chunk_total rd] s)"
proof (induction "chunk_total rd - k" arbitrary: k s)
  case 0
  then show ?case by (subst visit_pressure_loop.simps) (simp add: pressure_next_iter)
next
  case (Suc m)
  then have "k < chunk_total rd" "m = chunk_total rd - Suc k" "Suc k \<le> chunk_total rd" by simp_all
  then show ?case
    using Suc.hyps(1) [of "Suc k"]
    by (subst visit_pressure_loop.simps) (simp add: pressure_next_iter upt_conv_Cons r_bind_def split: sum.split)
qed

lemma r_fold_cong: "(\<And>x s. x \<in> set xs \<Longrightarrow> f x s = g x s) \<Longrightarrow> r_fold f xs s = r_fold g xs s"
  by (induction xs arbitrary: s) (simp_all add: r_bind_def split: sum.split)

lemma visit_selected_fold:
  assumes ok: "reader_ok header rd"
  shows "visit_selected_pressure_level_chunks_3d env rd name ls visitor s =
    Some (r_bind (selected_pressure_level_chunks_3d rd name ls) (\<lambda>_.
      r_fold (\<lambda>(cy, cx) s. r_bind (read_selected_pressure_level_chunk_3d env rd name ls cy cx) (\<lambda>chunk. visitor chunk s)) (chunk_grid rd) s))"
proof (cases "lookup_3d rd name")
  case var: (Inr var)
  show ?thesis
  proof (cases "selected_pressure_level_indices var ls")
    case idx: (Inr idx)
    note it = selected_iter_start [OF ok var idx]
    have "r_fold (\<lambda>j s. r_bind (read_selected_chunk_data env rd var idx (selected_geom rd (fst (chunk_at rd j)) (snd (chunk_at rd j))))
        (\<lambda>data. visitor \<lparr>sc_geometry = selected_geom rd (fst (chunk_at rd j)) (snd (chunk_at rd j)), sc_levels_hpa = ls, sc_data = data\<rparr> s))
        [0..<chunk_total rd] s =
      r_fold (\<lambda>j s. r_bind (read_selected_pressure_level_chunk_3d env rd name ls (fst (chunk_at rd j)) (snd (chunk_at rd j))) (\<lambda>chunk. visitor chunk s))
        [0..<chunk_total rd] s"
      using selected_geometry [OF ok chunk_at_inside] var idx
      by (intro r_fold_cong) (simp add: read_selected_pressure_level_chunk_3d_def r_bind_assoc)
    then show ?thesis
      using visit_selected_loop_returns [of 0 rd env var idx ls visitor s] var idx it
      by (simp add: visit_selected_pressure_level_chunks_3d_def selected_pressure_level_chunks_3d_def chunk_grid_ordinals r_fold_map
          case_prod_beta)
  qed (use var in \<open>simp add: visit_selected_pressure_level_chunks_3d_def selected_pressure_level_chunks_3d_def\<close>)
qed (simp add: visit_selected_pressure_level_chunks_3d_def selected_pressure_level_chunks_3d_def)

lemma visit_pressure_fold:
  assumes ok: "reader_ok header rd"
  shows "visit_pressure_level_chunks_3d env rd name l visitor s =
    Some (r_bind (pressure_level_chunks_3d rd name l) (\<lambda>_.
      r_fold (\<lambda>(cy, cx) s. r_bind (read_pressure_level_chunk_3d env rd name l cy cx) (\<lambda>chunk. visitor chunk s)) (chunk_grid rd) s))"
proof (cases "lookup_3d rd name")
  case var: (Inr var)
  show ?thesis
  proof (cases "pressure_level_index var l")
    case i: (Inr i)
    note it = pressure_iter_start [OF ok var, of l]
    have "r_fold (\<lambda>j s. r_bind (read_pressure_chunk_for_var env rd var i (pressure_geom rd l (fst (chunk_at rd j)) (snd (chunk_at rd j))))
        (\<lambda>chunk. visitor chunk s)) [0..<chunk_total rd] s =
      r_fold (\<lambda>j s. r_bind (read_pressure_level_chunk_3d env rd name l (fst (chunk_at rd j)) (snd (chunk_at rd j))) (\<lambda>chunk. visitor chunk s))
        [0..<chunk_total rd] s"
      using pressure_geometry [OF ok chunk_at_inside] var i
      by (intro r_fold_cong) (simp add: read_pressure_level_chunk_3d_def)
    then show ?thesis
      using visit_pressure_loop_returns [of 0 rd env var i visitor l s] var i it
      by (simp add: visit_pressure_level_chunks_3d_def pressure_level_chunks_3d_def chunk_grid_ordinals r_fold_map case_prod_beta)
  qed (use var in \<open>simp add: visit_pressure_level_chunks_3d_def pressure_level_chunks_3d_def\<close>)
qed (simp add: visit_pressure_level_chunks_3d_def pressure_level_chunks_3d_def)

section \<open>Chunk reads and the volume\<close>

lemma volume_column:
  assumes ok: "reader_ok header rd" and var: "lookup_3d rd name = Inr var" and vs: "read_full_3d env rd name = Inr vs"
    and t: "cy < div_ceil (hm_ny (hr_meta rd)) COL_Y" "cx < div_ceil (hm_nx (hr_meta rd)) COL_X"
  obtains c where "column_values env rd var cy cx = Inr c"
    "\<forall>z < levels_of var. \<forall>row < fst (col_chunk_dims rd cy cx). \<forall>col < snd (col_chunk_dims rd cy cx).
      c ! ((row * snd (col_chunk_dims rd cy cx) + col) * levels_of var + z) =
      vs ! (z * hm_ny (hr_meta rd) * hm_nx (hr_meta rd) + (cy * COL_Y + row) * hm_nx (hr_meta rd) + (cx * COL_X + col))"
proof -
  have cell: "cell_3d env rd var z y x = Inr (vs ! (z * hm_ny (hr_meta rd) * hm_nx (hr_meta rd) + y * hm_nx (hr_meta rd) + x))"
    if "z < levels_of var" "y < hm_ny (hr_meta rd)" "x < hm_nx (hr_meta rd)" for z y x
    using vs that unfolding read_full_3d_correct [OF ok var] by blast
  have "cy * COL_Y < hm_ny (hr_meta rd)" "cx * COL_X < hm_nx (hr_meta rd)"
    using t by (simp_all add: less_div_ceil_iff col_y.step_pos col_x.step_pos)
  from cell [OF volume_bound(2) [OF ok var] this] obtain c where c: "column_values env rd var cy cx = Inr c"
    using col_y.step_pos col_x.step_pos by (auto simp: cell_3d_def r_bind_eq_Inr)
  show thesis
  proof (intro that [OF c] allI impI)
    fix z row col
    assume z: "z < levels_of var" and rc: "row < fst (col_chunk_dims rd cy cx)" "col < snd (col_chunk_dims rd cy cx)"
    let ?y = "cy * COL_Y + row" and ?x = "cx * COL_X + col"
    have rc': "row < col_y.extent (hm_ny (hr_meta rd)) cy" "col < col_x.extent (hm_nx (hr_meta rd)) cx"
      using rc by (simp_all add: col_dims_extent)
    have "(?y, ?x) \<in> chunk_cells rd cy cx" unfolding chunk_cells_rows using rc' by blast
    then have in_grid: "?y < hm_ny (hr_meta rd)" "?x < hm_nx (hr_meta rd)" "?y div COL_Y = cy" "?x div COL_X = cx"
      by (simp_all add: chunk_cells_def)
    from cell [OF z in_grid(1,2)] c in_grid(3,4)
    have "c ! (column_index rd var ?y ?x + z) = vs ! (z * hm_ny (hr_meta rd) * hm_nx (hr_meta rd) + ?y * hm_nx (hr_meta rd) + ?x)"
      by (simp add: cell_3d_def)
    then show "c ! ((row * snd (col_chunk_dims rd cy cx) + col) * levels_of var + z) =
        vs ! (z * hm_ny (hr_meta rd) * hm_nx (hr_meta rd) + ?y * hm_nx (hr_meta rd) + ?x)"
      unfolding column_index_local [OF rc'] by (simp only: col_dims_extent snd_conv)
  qed
qed

lemma selected_data_cases:
  assumes ok: "reader_ok header rd" and var: "lookup_3d rd name = Inr var"
    and t: "cy < div_ceil (hm_ny (hr_meta rd)) COL_Y" "cx < div_ceil (hm_nx (hr_meta rd)) COL_X"
    and idx: "\<forall>i \<in> set idx. i < levels_of var" "length idx \<le> MAX_PRESSURE_LEVELS"
    and cells: "cells = fst (col_chunk_dims rd cy cx) * snd (col_chunk_dims rd cy cx)"
  obtains (failed) e where "column_values env rd var cy cx = Inl e"
      "read_selected_chunk_data env rd var idx (selected_geom rd cy cx) = Inl e"
  | (read) c d where "column_values env rd var cy cx = Inr c"
      "read_selected_chunk_data env rd var idx (selected_geom rd cy cx) = Inr d" "selected_fits cells (length idx) d"
      "\<And>si cell. si < length idx \<Longrightarrow> cell < cells \<Longrightarrow> selected_value cells d si cell = c ! (cell * levels_of var + idx ! si)"
  using selected_data_correct [OF assms, of env] that by (cases "column_values env rd var cy cx") auto

lemma selected_chunk_volume:
  assumes ok: "reader_ok header rd" and var: "lookup_3d rd name = Inr var" and vs: "read_full_3d env rd name = Inr vs"
    and idx: "selected_pressure_level_indices var ls = Inr idx"
    and t: "cy < div_ceil (hm_ny (hr_meta rd)) COL_Y" "cx < div_ceil (hm_nx (hr_meta rd)) COL_X"
  obtains c where "read_selected_pressure_level_chunk_3d env rd name ls cy cx = Inr c"
    "sc_geometry c = selected_geom rd cy cx" "sc_levels_hpa c = ls"
    "\<And>si row col. si < length ls \<Longrightarrow> row < fst (col_chunk_dims rd cy cx) \<Longrightarrow> col < snd (col_chunk_dims rd cy cx) \<Longrightarrow>
      selected_get c si row col = Some (vs ! (idx ! si * hm_ny (hr_meta rd) * hm_nx (hr_meta rd) +
        (cy * COL_Y + row) * hm_nx (hr_meta rd) + (cx * COL_X + col)))"
proof -
  note i = selected_indices_valid [OF idx]
  let ?cells = "fst (col_chunk_dims rd cy cx) * snd (col_chunk_dims rd cy cx)"
  obtain c where c: "column_values env rd var cy cx = Inr c"
    "\<forall>z < levels_of var. \<forall>row < fst (col_chunk_dims rd cy cx). \<forall>col < snd (col_chunk_dims rd cy cx).
      c ! ((row * snd (col_chunk_dims rd cy cx) + col) * levels_of var + z) =
      vs ! (z * hm_ny (hr_meta rd) * hm_nx (hr_meta rd) + (cy * COL_Y + row) * hm_nx (hr_meta rd) + (cx * COL_X + col))"
    by (rule volume_column [OF ok var vs t])
  obtain d where d: "read_selected_chunk_data env rd var idx (selected_geom rd cy cx) = Inr d" "selected_fits ?cells (length idx) d"
      "\<And>si cell. si < length idx \<Longrightarrow> cell < ?cells \<Longrightarrow> selected_value ?cells d si cell = c ! (cell * levels_of var + idx ! si)"
    by (rule selected_data_cases [OF ok var t i(2,3) refl, of env]) (use c(1) in auto)
  let ?chunk = "\<lparr>sc_geometry = selected_geom rd cy cx, sc_levels_hpa = ls, sc_data = d\<rparr>"
  have "selected_get ?chunk si row col = Some (vs ! (idx ! si * hm_ny (hr_meta rd) * hm_nx (hr_meta rd) +
        (cy * COL_Y + row) * hm_nx (hr_meta rd) + (cx * COL_X + col)))"
    if s: "si < length ls" and rc: "row < fst (col_chunk_dims rd cy cx)" "col < snd (col_chunk_dims rd cy cx)" for si row col
  proof -
    have "selected_get ?chunk si row col = Some (selected_value ?cells d si (row * snd (col_chunk_dims rd cy cx) + col))"
      using selected_get_value [of ?chunk si row col] s rc d(2) i(1) by (simp add: selected_cells) (simp add: selected_geom_def)
    also have "\<dots> = Some (c ! ((row * snd (col_chunk_dims rd cy cx) + col) * levels_of var + idx ! si))"
      using s i(1) plane_index_less [OF rc] by (simp add: d(3))
    finally show ?thesis using c(2) [rule_format, of "idx ! si" row col] rc s i(1,2) by simp
  qed
  moreover have "read_selected_pressure_level_chunk_3d env rd name ls cy cx = Inr ?chunk"
    using var idx selected_geometry [OF ok t] d(1) by (simp add: read_selected_pressure_level_chunk_3d_def)
  ultimately show thesis by (intro that [of ?chunk]) simp_all
qed

text \<open>Reading one level is reading a selection of one level.\<close>

definition as_pressure :: "u16 \<Rightarrow> selected_chunk \<Rightarrow> pressure_chunk" where
  "as_pressure l c = \<lparr>pc_geometry = (let g = sc_geometry c in
       \<lparr>pg_chunk_y = sg_chunk_y g, pg_chunk_x = sg_chunk_x g, pg_x0 = sg_x0 g, pg_y0 = sg_y0 g,
        pg_width = sg_width g, pg_height = sg_height g, pg_level_hpa = l\<rparr>),
     pc_data = (case sc_data c of Selected_Empty \<Rightarrow> Pressure_Empty | Selected_Constant v \<Rightarrow> Pressure_Constant v
       | Selected_Dense vs \<Rightarrow> Pressure_Dense vs)\<rparr>"

lemma pressure_get_selected: "length (sc_levels_hpa c) = 1 \<Longrightarrow> pressure_get (as_pressure l c) row col = selected_get c 0 row col"
  by (auto simp: pressure_get_def selected_get_def as_pressure_def Let_def split: selected_chunk_data.split)

lemma selected_indices_single: "selected_pressure_level_indices var [l] = r_bind (pressure_level_index var l) (\<lambda>i. Inr [i])"
  by (cases "pressure_level_index var l") (simp_all add: selected_pressure_level_indices_def MAX_PRESSURE_LEVELS_def)

lemma pressure_chunk_selected:
  "read_pressure_level_chunk_3d env rd name l cy cx =
    r_bind (read_selected_pressure_level_chunk_3d env rd name [l] cy cx) (\<lambda>c. Inr (as_pressure l c))"
  by (simp add: read_pressure_level_chunk_3d_def read_selected_pressure_level_chunk_3d_def selected_indices_single r_bind_assoc
      read_pressure_chunk_for_var_def pressure_level_chunk_geometry_3d_def selected_pressure_level_chunk_geometry_3d_def
      as_pressure_def Let_def)

section \<open>Levels\<close>

lemma position_nth: "distinct xs \<Longrightarrow> k < length xs \<Longrightarrow> position (\<lambda>x. x = xs ! k) xs = Some k"
proof (induction xs arbitrary: k)
  case (Cons x xs)
  then show ?case by (cases k) (auto simp: nth_mem)
qed simp

lemma volume_levels:
  assumes "reader_ok header rd" and var: "lookup_3d rd name = Inr var"
  shows "distinct (vm_levels_hpa var)" "length (vm_levels_hpa var) \<le> MAX_PRESSURE_LEVELS"
proof -
  have "var_valid (hm_nx (hr_meta rd) * hm_ny (hr_meta rd)) var"
    using assms(1) volume_variable(1) [OF var] by (simp add: reader_ok_def index_ok_def meta_valid_def)
  then have "sorted_wrt (>) (vm_levels_hpa var)" "length (vm_levels_hpa var) \<le> MAX_PRESSURE_LEVELS"
    using volume_variable(2) [OF var] by (simp_all add: var_valid_def)
  then show "distinct (vm_levels_hpa var)" "length (vm_levels_hpa var) \<le> MAX_PRESSURE_LEVELS"
    by (auto simp: distinct_conv_nth sorted_wrt_iff_nth_less) (metis less_irrefl nat_neq_iff)
qed

lemma level_index:
  assumes "reader_ok header rd" and "lookup_3d rd name = Inr var" and "k < levels_of var"
  shows "pressure_level_index var (vm_levels_hpa var ! k) = Inr k"
  using position_nth [OF volume_levels(1) [OF assms(1,2)]] assms(3) by (simp add: pressure_level_index_def ok_or_def levels_of_def)

lemma level_selection:
  assumes ok: "reader_ok header rd" and var: "lookup_3d rd name = Inr var"
    and ls: "ls \<noteq> []" "distinct ls" "set ls \<subseteq> set (vm_levels_hpa var)"
  obtains idx where "selected_pressure_level_indices var ls = Inr idx"
    "\<And>si k. si < length ls \<Longrightarrow> k < levels_of var \<Longrightarrow> vm_levels_hpa var ! k = ls ! si \<Longrightarrow> idx ! si = k"
proof -
  have "length ls = card (set ls)" using ls(2) by (simp add: distinct_card)
  also have "\<dots> \<le> card (set (vm_levels_hpa var))" using ls(3) by (simp add: card_mono)
  also have "\<dots> \<le> length (vm_levels_hpa var)" by (rule card_length)
  finally have len: "length ls \<le> MAX_PRESSURE_LEVELS" using volume_levels(2) [OF ok var] by simp
  have "\<exists>k. pressure_level_index var l = Inr k" if "l \<in> set ls" for l
    using that ls(3) level_index [OF ok var] by (metis in_set_conv_nth levels_of_def subsetD)
  then obtain f where f: "\<And>l. l \<in> set ls \<Longrightarrow> pressure_level_index var l = Inr (f l)" by metis
  then have "list_all2 (\<lambda>l i. pressure_level_index var l = Inr i) ls (map f ls)"
    by (simp add: list_all2_conv_all_nth)
  then have sel: "selected_pressure_level_indices var ls = Inr (map f ls)"
    using ls len by (simp add: selected_indices_eq_Inr)
  show thesis
  proof (rule that [OF sel])
    fix si k assume a: "si < length ls" "k < levels_of var" "vm_levels_hpa var ! k = ls ! si"
    then show "map f ls ! si = k" using f [of "ls ! si"] level_index [OF ok var a(2)] by simp
  qed
qed

section \<open>No panics\<close>

lemma not_panics_lookup_3d: "\<not> panics (lookup_3d rd name)"
  unfolding lookup_3d_def lookup_def by (intro not_panics_intros) simp_all

lemma not_panics_level_index: "\<not> panics (pressure_level_index var l)"
  unfolding pressure_level_index_def by (intro not_panics_ok_or) simp

lemma not_panics_selected_chunk:
  assumes ok: "reader_ok header rd"
  shows "\<not> panics (read_selected_pressure_level_chunk_3d env rd name ls cy cx)"
  unfolding read_selected_pressure_level_chunk_3d_def
proof (intro not_panics_bind not_panics_lookup_3d)
  fix var idx g
  show "\<not> panics (selected_pressure_level_indices var ls)"
    using not_panics_r_map [of ls "pressure_level_index var", OF not_panics_level_index]
    by (simp add: selected_pressure_level_indices_def panics_def)
  assume var: "lookup_3d rd name = Inr var" and idx: "selected_pressure_level_indices var ls = Inr idx"
  show "\<not> panics (selected_pressure_level_chunk_geometry_3d rd cy cx)"
    by (simp add: selected_pressure_level_chunk_geometry_3d_def Let_def ok_or_def panics_def usize_checked_mul_def)
  assume g: "selected_pressure_level_chunk_geometry_3d rd cy cx = Inr g"
  then have t: "cy < div_ceil (hm_ny (hr_meta rd)) COL_Y" "cx < div_ceil (hm_nx (hr_meta rd)) COL_X"
    by (auto simp: selected_pressure_level_chunk_geometry_3d_def Let_def split: if_splits)
  have gg: "g = selected_geom rd cy cx" using g selected_geometry [OF ok t] by simp
  note i = selected_indices_valid [OF idx]
  show "\<not> panics (read_selected_chunk_data env rd var idx g)"
    unfolding gg
  proof (rule selected_data_cases [OF ok var t i(2,3) refl, of env])
    fix e assume "column_values env rd var cy cx = Inl e" "read_selected_chunk_data env rd var idx (selected_geom rd cy cx) = Inl e"
    then show "\<not> panics (read_selected_chunk_data env rd var idx (selected_geom rd cy cx))"
      using not_panics_columns [OF ok var t, of env] by (simp add: panics_def)
  qed simp
qed simp

end
