(* ===== verification/Rw_Volume_Props.thy ===== *)
theory Rw_Volume_Props
  imports Rw_Volume Rw_Sessions
begin

text \<open>
  The properties of the pressure volume reads: every way to read a value agrees with the
  full volume, visits end, profiles at grid points are columns, and no read panics.
\<close>

section \<open>A small volume\<close>

text \<open>
  One row of two columns with two levels, stored as one dense column chunk with center 1
  and scale 1; the second level of the first column is missing.
\<close>

definition cube_variable :: rws_variable_meta where
  "cube_variable = \<lparr>vm_id = 3, vm_name = ''temp'', vm_units = ''K'', vm_kind = ''pressure3d'',
     vm_codec = CODEC_3D, vm_levels_hpa = [1000, 850], vm_selector = JNull\<rparr>"

definition cube_meta :: rws_hour_meta where
  "cube_meta = sample_meta\<lparr>hm_nx := 2, hm_variables := [cube_variable]\<rparr>"

definition cube_record :: chunk_record where
  "cube_record = \<lparr>cr_var_id = 3, cr_kind = KIND_COLUMN3D, cr_flags = FLAG_HAS_MISSING, cr_tile_y = 0, cr_tile_x = 0,
     cr_offset = 128, cr_len = 8, cr_raw_len = 8, cr_center = 0x3F800000, cr_scale = 0x3F800000,
     cr_min = 0x3F800000, cr_max = 0x40000000, cr_valid_count = 3\<rparr>"

definition cube_payload :: "u8 list" where
  "cube_payload = [0, 0, 0, 0x80, 1, 0, 0, 0]"

definition cube_file :: "u8 list" where
  "cube_file = hour_file [] [cube_record] cube_payload"

definition cube_values :: "f32 list" where
  "cube_values = [0x3F800000, 0x40000000, 0x7FC00000, 0x3F800000]"

lemma cube_meta_simps [simp]:
  "hm_nx cube_meta = 2" "hm_ny cube_meta = 1" "hm_variables cube_meta = [cube_variable]"
  "vm_kind cube_variable = ''pressure3d''" "vm_id cube_variable = 3" "vm_name cube_variable = ''temp''"
  "vm_levels_hpa cube_variable = [1000, 850]"
  by (simp_all add: cube_meta_def sample_meta_def cube_variable_def)

lemma cube_meta_valid: "meta_valid cube_meta" "expected_records cube_meta = 1"
  by (simp_all add: meta_valid_def cube_meta_def sample_meta_def cube_variable_def validate_time_schema_def var_valid_def
      MAX_GRID_CELLS_def MAX_VOLUME_ELEMENTS_def MAX_PRESSURE_LEVELS_def expected_records_def chunks_y_def chunks_x_def
      chunk_h_def chunk_w_def geometry_consts div_ceil_def)

lemma length_cube_file: "length cube_file = 136"
  by (simp add: cube_file_def length_hour_file cube_payload_def)

lemma cube_index_ok: "index_ok cube_meta (for_layout 0 1) 136 [cube_record]"
  using cube_meta_valid
  by (simp add: index_ok_def record_valid_def cube_record_def chunk_kind_def chunk_values_def chunk_rows_def chunk_cols_def
      chunks_y_def chunks_x_def chunk_h_def chunk_w_def chunk_levels_def value_bytes_def geometry_consts div_ceil_def
      payload_free_def flag_consts KIND_TILE2D_def KIND_COLUMN3D_def Let_def for_layout_def HEADER_LEN_def INDEX_RECORD_LEN_def)

lemma cube_opens:
  obtains rd where "open_with_tile_cache_bytes (\<lambda>_. Some cube_meta) (Some (stored_file 1 cube_file)) 4096 = Inr rd"
    "hr_meta rd = cube_meta" "hr_records rd = [cube_record]" "hr_bytes rd = Mmap cube_file"
proof -
  have len: "length (hour_file [] [cube_record] cube_payload) = 136"
    using length_cube_file by (simp add: cube_file_def)
  obtain ranges where "open_with_tile_cache_bytes (\<lambda>_. Some cube_meta) (Some (stored_file 1 cube_file)) 4096 =
      Inr \<lparr>hr_bytes = Mmap cube_file, hr_source = 1, hr_meta = cube_meta, hr_records = [cube_record],
           hr_var_ranges = ranges, hr_tile_cache = cache_new 4096\<rparr>"
    using stored_file_opens [of "for_layout 0 1" "[]" "[cube_record]" cube_payload
        "\<lambda>_. Some cube_meta" cube_meta 1 4096] cube_index_ok
    by (auto simp: len cube_file_def)
  then show thesis using that by simp
qed

lemma cube_decodes: "decode_affine_i16 FLAG_HAS_MISSING 0x3F800000 0x3F800000 cube_payload 4 =
    Inr [0x3F800000, 0x7FC00000, 0x40000000, 0x3F800000]"
proof -
  have "length cube_payload div 2 = Suc (Suc (Suc (Suc 0)))" by (simp add: cube_payload_def)
  then have "chunks_exact 2 cube_payload = [[0, 0], [0, 0x80], [1, 0], [0, 0]]"
    by (simp add: chunks_exact_def) (simp add: cube_payload_def)
  moreover have "f32_of_i16 0 = 0" "f32_of_i16 1 = 0x3F800000" by (simp_all add: f32_of_i16_def f32_eval)
  moreover have "f32_add 0x3F800000 (f32_mul 0x3F800000 0) = 0x3F800000"
    "f32_add 0x3F800000 (f32_mul 0x3F800000 0x3F800000) = 0x40000000" by (simp_all add: f32_eval)
  ultimately show ?thesis
    by (simp add: decode_affine_i16_def flag_consts dequantize_def u16_of_le_def MISSING_Q_def f32_NAN_def cube_payload_def [THEN arg_cong, of length])
qed

lemma cube_reader:
  obtains rd where "open_with_tile_cache_bytes (\<lambda>_. Some cube_meta) (Some (stored_file 1 cube_file)) 4096 = Inr rd"
    "hr_meta rd = cube_meta" "lookup_3d rd ''temp'' = Inr cube_variable" "read_full_3d dense_env rd ''temp'' = Inr cube_values"
proof -
  obtain rd where rd: "open_with_tile_cache_bytes (\<lambda>_. Some cube_meta) (Some (stored_file 1 cube_file)) 4096 = Inr rd"
      "hr_meta rd = cube_meta" "hr_records rd = [cube_record]" "hr_bytes rd = Mmap cube_file"
    by (rule cube_opens)
  have l: "lookup_3d rd ''temp'' = Inr cube_variable" by (simp add: lookup_3d_def lookup_def find_variable_def rd ok_or_def)
  obtain header where ok: "reader_ok header rd" using open_reader_ok [OF rd(1)] by blast
  have f: "find_chunk_record rd cube_variable KIND_COLUMN3D 0 0 = Inr cube_record"
  proof -
    obtain r where "find_chunk_record rd cube_variable (chunk_kind cube_variable) 0 0 = Inr r" "r \<in> set (hr_records rd)"
      by (rule find_chunk_record_ok [OF ok, of cube_variable 0 0])
        (simp_all add: rd chunks_y_def chunks_x_def chunk_h_def chunk_w_def geometry_consts div_ceil_def)
    then show ?thesis by (simp add: rd chunk_kind_def)
  qed
  have sub: "subslice 128 136 cube_file = cube_payload"
  proof -
    have "length (pack_header (for_layout 0 1) @ pack_record cube_record) = 128" by simp
    then show ?thesis
      using slice_append_right [of "pack_header (for_layout 0 1) @ pack_record cube_record" 0 8 cube_payload]
      by (simp add: cube_file_def hour_file_def subslice_def cube_payload_def)
  qed
  then have "payload_slice rd cube_record = Inr cube_payload"
    by (simp add: payload_slice_def rd length_cube_file cube_record_def ok_or_def u64_checked_add_def r_slice_def subslice_ok_def)
  then have d: "decode_column_chunk dense_env rd cube_record 4 = Inr [0x3F800000, 0x7FC00000, 0x40000000, 0x3F800000]"
    using cube_decodes
    by (simp add: decode_column_chunk_def cube_record_def flag_consts decompress_chunk_def dense_env_def cube_payload_def)
  have cd: "col_chunk_dims rd 0 0 = (1, 2)" by (simp add: col_chunk_dims_def rd geometry_consts)
  have lv: "levels_of cube_variable = 2" by (simp add: levels_of_def)
  have cv: "column_values dense_env rd cube_variable 0 0 = Inr [0x3F800000, 0x7FC00000, 0x40000000, 0x3F800000]"
    using d by (simp add: column_values_def f cd lv)
  have "cell_3d dense_env rd cube_variable z y x = Inr (cube_values ! (z * 2 + x))" if "z < 2" "y < 1" "x < 2" for z y x
  proof -
    have "x = 0 \<or> x = 1" "z = 0 \<or> z = 1" "y = 0" using that by auto
    then show ?thesis using cv cd lv by (auto simp: cell_3d_def column_index_def geometry_consts cube_values_def)
  qed
  then have "read_full_3d dense_env rd ''temp'' = Inr cube_values"
    unfolding read_full_3d_correct [OF ok l] by (simp add: rd lv cube_values_def)
  with rd(1,2) l show thesis by (rule that)
qed

section \<open>Parts of the volume\<close>

lemma volume_cell:
  assumes "reader_ok header rd" and "lookup_3d rd name = Inr var" and "read_full_3d env rd name = Inr vs"
    and "plane = hm_ny (hr_meta rd) * hm_nx (hr_meta rd)"
    and "z < levels_of var" and "y < hm_ny (hr_meta rd)" and "x < hm_nx (hr_meta rd)"
  shows "cell_3d env rd var z y x = Inr (vs ! (z * plane + (y * hm_nx (hr_meta rd) + x)))"
  using assms(3) [unfolded read_full_3d_correct [OF assms(1,2)]] assms(4-7) by (simp add: ac_simps)

lemma column_of_volume:
  assumes ok: "reader_ok header rd" and var: "lookup_3d rd name = Inr var" and vs: "read_full_3d env rd name = Inr vs"
    and plane: "plane = hm_ny (hr_meta rd) * hm_nx (hr_meta rd)" and b: "iy < hm_ny (hr_meta rd)" "ix < hm_nx (hr_meta rd)"
  shows "read_column_3d env rd name ix iy = Inr (map (\<lambda>z. vs ! (z * plane + (iy * hm_nx (hr_meta rd) + ix))) [0..<levels_of var])"
proof -
  note cell = volume_cell [OF ok var vs plane]
  from cell [OF volume_bound(2) [OF ok var] b] obtain c where c: "column_values env rd var (iy div COL_Y) (ix div COL_X) = Inr c"
    by (auto simp: cell_3d_def r_bind_eq_Inr)
  have "c ! (column_index rd var iy ix + z) = vs ! (z * plane + (iy * hm_nx (hr_meta rd) + ix))" if "z < levels_of var" for z
    using cell [OF that b] c by (simp add: cell_3d_def)
  then show ?thesis using read_column_eq [OF var b] c by simp
qed

lemma level_of_volume:
  assumes ok: "reader_ok header rd" and var: "lookup_3d rd name = Inr var" and vs: "read_full_3d env rd name = Inr vs"
    and plane: "plane = hm_ny (hr_meta rd) * hm_nx (hr_meta rd)" and k: "k < levels_of var"
  shows "read_level_3d env rd name (vm_levels_hpa var ! k) = Inr (subslice (k * plane) ((k + 1) * plane) vs)"
proof -
  let ?nx = "hm_nx (hr_meta rd)" and ?ny = "hm_ny (hr_meta rd)"
  have cols: "\<exists>c. column_values env rd var cy cx = Inr c" if "(cy, cx) \<in> set (chunk_grid rd)" for cy cx
  proof -
    have "cy < div_ceil (hm_ny (hr_meta rd)) COL_Y" "cx < div_ceil (hm_nx (hr_meta rd)) COL_X" using that by (simp_all add: chunk_grid_def)
    then obtain c where "column_values env rd var cy cx = Inr c" by (rule volume_column [OF ok var vs])
    then show ?thesis by blast
  qed
  have "vs ! (k * plane + i) = volume_value env rd var k (i div ?nx) (i mod ?nx)" if i: "i < plane" for i
  proof -
    have yx: "i div ?nx < ?ny" "i mod ?nx < ?nx" using i reader_grid(1) [OF ok] by (simp_all add: plane less_mult_imp_div_less)
    have "i div ?nx * ?nx + i mod ?nx = i" by simp
    with volume_cell [OF ok var vs plane k yx] show ?thesis by (simp only: volume_value_def) simp
  qed
  moreover have "(k + 1) * plane \<le> length vs"
  proof -
    have "(k + 1) * plane \<le> levels_of var * plane" using k by (intro mult_le_mono1) simp
    then show ?thesis using vs [unfolded read_full_3d_correct [OF ok var]] by (simp add: plane mult.assoc)
  qed
  ultimately have "subslice (k * plane) ((k + 1) * plane) vs = map (\<lambda>i. volume_value env rd var k (i div ?nx) (i mod ?nx)) [0..<?nx * ?ny]"
    by (intro nth_equalityI) (simp_all add: subslice_def plane mult.commute)
  then show ?thesis using read_level_3d_columns [OF ok var level_index [OF ok var k] cols] by simp
qed

section \<open>Totality\<close>

lemma full_not_panics: "reader_ok header rd \<Longrightarrow> \<not> panics (read_full_3d env rd name)"
proof (cases "lookup_3d rd name")
  case (Inl e)
  then show ?thesis using not_panics_lookup_3d [of rd name] by (simp add: read_full_3d_def panics_def)
next
  case (Inr var)
  assume ok: "reader_ok header rd"
  show ?thesis unfolding read_full_3d_fold [OF ok Inr]
    by (rule chunk_fold_not_panics [OF ok Inr length_replicate]) (use scatter_chunk_total in fastforce)
qed

lemma level_not_panics: "reader_ok header rd \<Longrightarrow> \<not> panics (read_level_3d env rd name l)"
proof (cases "lookup_3d rd name")
  case (Inl e)
  then show ?thesis using not_panics_lookup_3d [of rd name] by (simp add: read_level_3d_def panics_def)
next
  case var: (Inr var)
  assume ok: "reader_ok header rd"
  show ?thesis
  proof (cases "pressure_level_index var l")
    case (Inl e)
    then show ?thesis using not_panics_level_index [of var l] var by (simp add: read_level_3d_def panics_def)
  next
    case (Inr k)
    have "k < levels_of var" using level_index_less [OF Inr] by simp
    then show ?thesis unfolding read_level_3d_fold [OF ok var Inr]
      by (intro chunk_fold_not_panics [OF ok var length_replicate]) (use scatter_level_total in fastforce)
  qed
qed

lemma column_not_panics: "reader_ok header rd \<Longrightarrow> \<not> panics (read_column_3d env rd name ix iy)"
proof (cases "lookup_3d rd name")
  case (Inl e)
  then show ?thesis using not_panics_lookup_3d [of rd name] by (simp add: read_column_3d_def panics_def)
next
  case var: (Inr var)
  assume ok: "reader_ok header rd"
  show ?thesis
  proof (cases "iy < hm_ny (hr_meta rd) \<and> ix < hm_nx (hr_meta rd)")
    case True
    then have b: "iy < hm_ny (hr_meta rd)" "ix < hm_nx (hr_meta rd)" by simp_all
    show ?thesis unfolding read_column_eq [OF var b]
      by (intro not_panics_bind not_panics_columns [OF ok var] col_y.piece_of col_x.piece_of b) simp
  next
    case False
    then show ?thesis using var by (auto simp: read_column_3d_def panics_def)
  qed
qed

section \<open>Properties\<close>

text \<open>C23. The full volume. On an opened file, reading a whole pressure volume succeeds
  exactly when every column chunk of the variable decodes, and then the value of each
  level, row and column stands at its level-major position.\<close>

theorem volume_read_correct:
  assumes "open_with_tile_cache_bytes from_json path cap = Inr rd" and "lookup_3d rd name = Inr var"
  shows "read_full_3d env rd name = Inr vs \<longleftrightarrow>
    length vs = length (vm_levels_hpa var) * hm_ny (hr_meta rd) * hm_nx (hr_meta rd) \<and>
    (\<forall>z < length (vm_levels_hpa var). \<forall>y < hm_ny (hr_meta rd). \<forall>x < hm_nx (hr_meta rd).
       cell_3d env rd var z y x = Inr (vs ! (z * hm_ny (hr_meta rd) * hm_nx (hr_meta rd) + y * hm_nx (hr_meta rd) + x)))"
proof -
  obtain header where ok: "reader_ok header rd" using open_reader_ok [OF assms(1)] by blast
  show ?thesis using read_full_3d_correct [OF ok assms(2)] by (simp add: levels_of_def)
qed

theorem volume_read_correct_witness:
  "\<exists>rd. open_with_tile_cache_bytes (\<lambda>_. Some cube_meta) (Some (stored_file 1 cube_file)) 4096 = Inr rd \<and>
     cell_3d dense_env rd cube_variable 0 0 1 = Inr 0x40000000"
proof -
  obtain rd where rd: "open_with_tile_cache_bytes (\<lambda>_. Some cube_meta) (Some (stored_file 1 cube_file)) 4096 = Inr rd"
      "hr_meta rd = cube_meta" "lookup_3d rd ''temp'' = Inr cube_variable" "read_full_3d dense_env rd ''temp'' = Inr cube_values"
    by (rule cube_reader)
  have "cell_3d dense_env rd cube_variable 0 0 1 = Inr (cube_values ! 1)"
    using volume_read_correct [OF rd(1,3), of dense_env cube_values] rd(2,4) by simp
  with rd(1) show ?thesis by (auto simp: cube_values_def)
qed

text \<open>C24. Columns and levels are parts of the volume. When the full volume of a variable
  reads, the column of every cell is the values of that cell from the first level to the
  last, and every level is a contiguous plane of the volume.\<close>

theorem columns_and_levels_agree:
  assumes "open_with_tile_cache_bytes from_json path cap = Inr rd" and "lookup_3d rd name = Inr var"
    and "read_full_3d env rd name = Inr vs" and "plane = hm_ny (hr_meta rd) * hm_nx (hr_meta rd)"
  shows "(\<forall>iy < hm_ny (hr_meta rd). \<forall>ix < hm_nx (hr_meta rd). read_column_3d env rd name ix iy =
      Inr (map (\<lambda>z. vs ! (z * plane + (iy * hm_nx (hr_meta rd) + ix))) [0..<length (vm_levels_hpa var)])) \<and>
    (\<forall>k < length (vm_levels_hpa var). read_level_3d env rd name (vm_levels_hpa var ! k) = Inr (subslice (k * plane) ((k + 1) * plane) vs))"
proof -
  obtain header where ok: "reader_ok header rd" using open_reader_ok [OF assms(1)] by blast
  show ?thesis
    using column_of_volume [OF ok assms(2-4)] level_of_volume [OF ok assms(2-4)] by (simp add: levels_of_def)
qed

theorem columns_and_levels_agree_witness:
  "\<exists>rd. open_with_tile_cache_bytes (\<lambda>_. Some cube_meta) (Some (stored_file 1 cube_file)) 4096 = Inr rd \<and>
     read_column_3d dense_env rd ''temp'' 0 0 = Inr [0x3F800000, 0x7FC00000] \<and>
     read_level_3d dense_env rd ''temp'' 850 = Inr [0x7FC00000, 0x3F800000]"
proof -
  obtain rd where rd: "open_with_tile_cache_bytes (\<lambda>_. Some cube_meta) (Some (stored_file 1 cube_file)) 4096 = Inr rd"
      "hr_meta rd = cube_meta" "lookup_3d rd ''temp'' = Inr cube_variable" "read_full_3d dense_env rd ''temp'' = Inr cube_values"
    by (rule cube_reader)
  note a = columns_and_levels_agree [OF rd(1,3,4), of 2, unfolded rd(2), simplified]
  from a have "read_column_3d dense_env rd ''temp'' 0 0 = Inr [0x3F800000, 0x7FC00000]" by (auto simp: cube_values_def upt_rec)
  moreover have "read_level_3d dense_env rd ''temp'' 850 = Inr [0x7FC00000, 0x3F800000]"
    using conjunct2 [OF a, rule_format, of 1] by (simp add: subslice_def cube_values_def)
  ultimately show ?thesis using rd(1) by blast
qed

text \<open>C22. Selected-level chunk reads agree with the volume. For any selection of distinct
  levels of the variable in any order, reading a chunk decodes only the selected levels,
  has the clipped extent of the chunk, and its accessor returns the values of the full
  volume, also for chunks kept as empty or constant.\<close>

theorem selected_chunks_agree:
  assumes "open_with_tile_cache_bytes from_json path cap = Inr rd" and "lookup_3d rd name = Inr var"
    and "read_full_3d env rd name = Inr vs"
    and "ls \<noteq> []" and "distinct ls" and "set ls \<subseteq> set (vm_levels_hpa var)"
    and "cy < div_ceil (hm_ny (hr_meta rd)) COL_Y" and "cx < div_ceil (hm_nx (hr_meta rd)) COL_X"
  shows "\<exists>c. read_selected_pressure_level_chunk_3d env rd name ls cy cx = Inr c \<and> sc_levels_hpa c = ls \<and>
    sg_height (sc_geometry c) = min (hm_ny (hr_meta rd) - cy * COL_Y) COL_Y \<and>
    sg_width (sc_geometry c) = min (hm_nx (hr_meta rd) - cx * COL_X) COL_X \<and>
    (\<forall>si < length ls. \<forall>k < length (vm_levels_hpa var). vm_levels_hpa var ! k = ls ! si \<longrightarrow>
      (\<forall>row < sg_height (sc_geometry c). \<forall>col < sg_width (sc_geometry c).
        selected_get c si row col = Some (vs ! (k * hm_ny (hr_meta rd) * hm_nx (hr_meta rd) +
          (cy * COL_Y + row) * hm_nx (hr_meta rd) + (cx * COL_X + col)))))"
proof -
  obtain header where ok: "reader_ok header rd" using open_reader_ok [OF assms(1)] by blast
  obtain idx where idx: "selected_pressure_level_indices var ls = Inr idx"
      "\<And>si k. si < length ls \<Longrightarrow> k < levels_of var \<Longrightarrow> vm_levels_hpa var ! k = ls ! si \<Longrightarrow> idx ! si = k"
    using level_selection [OF ok assms(2,4-6)] by metis
  show ?thesis
  proof (rule selected_chunk_volume [OF ok assms(2,3) idx(1) assms(7,8)])
    fix c
    assume c: "read_selected_pressure_level_chunk_3d env rd name ls cy cx = Inr c" "sc_geometry c = selected_geom rd cy cx" "sc_levels_hpa c = ls"
      and get: "\<And>si row col. si < length ls \<Longrightarrow> row < fst (col_chunk_dims rd cy cx) \<Longrightarrow> col < snd (col_chunk_dims rd cy cx) \<Longrightarrow>
        selected_get c si row col = Some (vs ! (idx ! si * hm_ny (hr_meta rd) * hm_nx (hr_meta rd) +
          (cy * COL_Y + row) * hm_nx (hr_meta rd) + (cx * COL_X + col)))"
    have g: "sg_height (sc_geometry c) = fst (col_chunk_dims rd cy cx)" "sg_width (sc_geometry c) = snd (col_chunk_dims rd cy cx)"
      by (simp_all add: c(2) selected_geom_def)
    have "selected_get c si row col = Some (vs ! (k * hm_ny (hr_meta rd) * hm_nx (hr_meta rd) +
        (cy * COL_Y + row) * hm_nx (hr_meta rd) + (cx * COL_X + col)))"
      if "si < length ls" "k < length (vm_levels_hpa var)" "vm_levels_hpa var ! k = ls ! si"
        "row < sg_height (sc_geometry c)" "col < sg_width (sc_geometry c)" for si k row col
      using get [of si row col] idx(2) [of si k] that unfolding g levels_of_def by simp
    moreover have "sg_height (sc_geometry c) = min (hm_ny (hr_meta rd) - cy * COL_Y) COL_Y"
      "sg_width (sc_geometry c) = min (hm_nx (hr_meta rd) - cx * COL_X) COL_X" unfolding g by (simp_all add: col_chunk_dims_def)
    ultimately show ?thesis using c(1,3) by blast
  qed
qed

theorem selected_chunks_agree_witness:
  "\<exists>rd c. open_with_tile_cache_bytes (\<lambda>_. Some cube_meta) (Some (stored_file 1 cube_file)) 4096 = Inr rd \<and>
     read_selected_pressure_level_chunk_3d dense_env rd ''temp'' [850, 1000] 0 0 = Inr c \<and> selected_get c 1 0 1 = Some 0x40000000"
proof -
  obtain rd where rd: "open_with_tile_cache_bytes (\<lambda>_. Some cube_meta) (Some (stored_file 1 cube_file)) 4096 = Inr rd"
      "hr_meta rd = cube_meta" "lookup_3d rd ''temp'' = Inr cube_variable" "read_full_3d dense_env rd ''temp'' = Inr cube_values"
    by (rule cube_reader)
  have d: "0 < div_ceil 1 COL_Y" "0 < div_ceil 2 COL_X" by (simp_all add: div_ceil_def geometry_consts)
  have "\<exists>c. read_selected_pressure_level_chunk_3d dense_env rd ''temp'' [850, 1000] 0 0 = Inr c \<and> sc_levels_hpa c = [850, 1000] \<and>
      sg_height (sc_geometry c) = 1 \<and> sg_width (sc_geometry c) = 2 \<and>
      (\<forall>si < Suc (Suc 0). \<forall>k < Suc (Suc 0). [1000, 850 :: u16] ! k = [850, 1000] ! si \<longrightarrow>
        (\<forall>row < sg_height (sc_geometry c). \<forall>col < sg_width (sc_geometry c).
          selected_get c si row col = Some (cube_values ! (k * 1 * 2 + (0 + row) * 2 + (0 + col)))))"
    using selected_chunks_agree [OF rd(1,3,4), of "[850, 1000]" 0 0] d by (simp add: rd(2) geometry_consts)
  then obtain c where c: "read_selected_pressure_level_chunk_3d dense_env rd ''temp'' [850, 1000] 0 0 = Inr c"
      "sg_height (sc_geometry c) = 1" "sg_width (sc_geometry c) = 2"
      and get: "\<forall>si < Suc (Suc 0). \<forall>k < Suc (Suc 0). [1000, 850 :: u16] ! k = [850, 1000] ! si \<longrightarrow>
        (\<forall>row < sg_height (sc_geometry c). \<forall>col < sg_width (sc_geometry c).
          selected_get c si row col = Some (cube_values ! (k * 1 * 2 + (0 + row) * 2 + (0 + col))))" by blast
  have "selected_get c 1 0 1 = Some (cube_values ! 1)" using get [rule_format, of 1 0 0 1] c(2,3) by simp
  with rd(1) c(1) show ?thesis by (auto simp: cube_values_def)
qed

text \<open>C25. Single-level chunk reads agree with level reads. Reading one level of one chunk
  returns, for each row and column of the chunk, the value the plane of that level has
  there.\<close>

theorem pressure_chunks_agree:
  assumes "open_with_tile_cache_bytes from_json path cap = Inr rd" and "lookup_3d rd name = Inr var"
    and "read_full_3d env rd name = Inr vs" and "l \<in> set (vm_levels_hpa var)" and "read_level_3d env rd name l = Inr plane"
    and "cy < div_ceil (hm_ny (hr_meta rd)) COL_Y" and "cx < div_ceil (hm_nx (hr_meta rd)) COL_X"
  shows "\<exists>c. read_pressure_level_chunk_3d env rd name l cy cx = Inr c \<and>
    pg_height (pc_geometry c) = min (hm_ny (hr_meta rd) - cy * COL_Y) COL_Y \<and>
    pg_width (pc_geometry c) = min (hm_nx (hr_meta rd) - cx * COL_X) COL_X \<and>
    (\<forall>row < pg_height (pc_geometry c). \<forall>col < pg_width (pc_geometry c).
      pressure_get c row col = Some (plane ! ((cy * COL_Y + row) * hm_nx (hr_meta rd) + (cx * COL_X + col))))"
proof -
  obtain header where ok: "reader_ok header rd" using open_reader_ok [OF assms(1)] by blast
  obtain k where k: "k < levels_of var" "l = vm_levels_hpa var ! k" using assms(4) by (auto simp: in_set_conv_nth levels_of_def)
  have idx: "selected_pressure_level_indices var [l] = Inr [k]"
    using level_index [OF ok assms(2) k(1)] k(2) by (simp add: selected_indices_single)
  let ?nx = "hm_nx (hr_meta rd)" and ?n = "hm_ny (hr_meta rd) * hm_nx (hr_meta rd)"
  have plane: "plane = subslice (k * ?n) ((k + 1) * ?n) vs"
    using level_of_volume [OF ok assms(2,3) refl k(1)] assms(5) k(2) by simp
  have full: "length vs = levels_of var * hm_ny (hr_meta rd) * ?nx" using assms(3) read_full_3d_correct [OF ok assms(2)] by blast
  show ?thesis
  proof (rule selected_chunk_volume [OF ok assms(2,3) idx assms(6,7)])
    fix c
    assume c: "read_selected_pressure_level_chunk_3d env rd name [l] cy cx = Inr c" "sc_geometry c = selected_geom rd cy cx" "sc_levels_hpa c = [l]"
      and get: "\<And>si row col. si < length [l] \<Longrightarrow> row < fst (col_chunk_dims rd cy cx) \<Longrightarrow> col < snd (col_chunk_dims rd cy cx) \<Longrightarrow>
        selected_get c si row col = Some (vs ! ([k] ! si * hm_ny (hr_meta rd) * ?nx + (cy * COL_Y + row) * ?nx + (cx * COL_X + col)))"
    have "pressure_get (as_pressure l c) row col = Some (plane ! ((cy * COL_Y + row) * ?nx + (cx * COL_X + col)))"
      if rc: "row < fst (col_chunk_dims rd cy cx)" "col < snd (col_chunk_dims rd cy cx)" for row col
    proof -
      have "cy * COL_Y + row < hm_ny (hr_meta rd)" "cx * COL_X + col < ?nx" using rc by (simp_all add: col_chunk_dims_def) linarith+
      then have "(cy * COL_Y + row) * ?nx + (cx * COL_X + col) < ?n" by (rule plane_index_less)
      then have "plane ! ((cy * COL_Y + row) * ?nx + (cx * COL_X + col)) = vs ! (k * ?n + ((cy * COL_Y + row) * ?nx + (cx * COL_X + col)))"
        using mult_le_mono1 [of "k + 1" "levels_of var" ?n] k(1) full by (simp add: plane subslice_def)
      then show ?thesis using get [OF _ rc, of 0] c(3) by (simp add: pressure_get_selected ac_simps)
    qed
    then show ?thesis
      using c(1,2) by (intro exI [of _ "as_pressure l c"])
        (simp add: pressure_chunk_selected as_pressure_def Let_def selected_geom_def col_chunk_dims_def)
  qed
qed

theorem pressure_chunks_agree_witness:
  "\<exists>rd c. open_with_tile_cache_bytes (\<lambda>_. Some cube_meta) (Some (stored_file 1 cube_file)) 4096 = Inr rd \<and>
     read_pressure_level_chunk_3d dense_env rd ''temp'' 1000 0 0 = Inr c \<and> pressure_get c 0 1 = Some 0x40000000"
proof -
  obtain rd where rd: "open_with_tile_cache_bytes (\<lambda>_. Some cube_meta) (Some (stored_file 1 cube_file)) 4096 = Inr rd"
      "hr_meta rd = cube_meta" "lookup_3d rd ''temp'' = Inr cube_variable" "read_full_3d dense_env rd ''temp'' = Inr cube_values"
    by (rule cube_reader)
  obtain header where ok: "reader_ok header rd" using open_reader_ok [OF rd(1)] by blast
  have l: "read_level_3d dense_env rd ''temp'' 1000 = Inr [0x3F800000, 0x40000000]"
    using level_of_volume [OF ok rd(3,4) refl, of 0] by (simp add: rd(2) levels_of_def subslice_def cube_values_def)
  have d: "0 < div_ceil 1 COL_Y" "0 < div_ceil 2 COL_X" by (simp_all add: div_ceil_def geometry_consts)
  obtain c where "read_pressure_level_chunk_3d dense_env rd ''temp'' 1000 0 0 = Inr c" "pressure_get c 0 1 = Some 0x40000000"
    using pressure_chunks_agree [OF rd(1,3,4) _ l, of 0 0] d by (force simp: rd(2) geometry_consts)
  with rd(1) show ?thesis by blast
qed

text \<open>C26. Volume visits end. Both chunk visits of an opened file return, whatever the
  payload bytes and the visitor: each is the fold of the visitor over the chunk reads of
  the chunk grid in row-major order, cut short by the first error.\<close>

theorem volume_visits_return:
  assumes "open_with_tile_cache_bytes from_json path cap = Inr rd"
    and "grid = List.product [0..<div_ceil (hm_ny (hr_meta rd)) COL_Y] [0..<div_ceil (hm_nx (hr_meta rd)) COL_X]"
  shows "visit_selected_pressure_level_chunks_3d env rd name ls visitor s =
      Some (r_bind (selected_pressure_level_chunks_3d rd name ls) (\<lambda>_.
        r_fold (\<lambda>(cy, cx) s. r_bind (read_selected_pressure_level_chunk_3d env rd name ls cy cx) (\<lambda>chunk. visitor chunk s)) grid s)) \<and>
    visit_pressure_level_chunks_3d env rd name l visitor' s' =
      Some (r_bind (pressure_level_chunks_3d rd name l) (\<lambda>_.
        r_fold (\<lambda>(cy, cx) s. r_bind (read_pressure_level_chunk_3d env rd name l cy cx) (\<lambda>chunk. visitor' chunk s)) grid s'))"
proof -
  obtain header where ok: "reader_ok header rd" using open_reader_ok [OF assms(1)] by blast
  show ?thesis unfolding assms(2) chunk_grid_def [symmetric] by (intro conjI visit_selected_fold [OF ok] visit_pressure_fold [OF ok])
qed

theorem volume_visits_return_witness:
  "\<exists>rd. open_with_tile_cache_bytes (\<lambda>_. Some cube_meta) (Some (stored_file 1 cube_file)) 4096 = Inr rd \<and>
     visit_pressure_level_chunks_3d dense_env rd ''temp'' 500 (\<lambda>_ n. Inr (Suc n)) 0 = Some (Inl (Meta ''variable has no such level'')) \<and>
     visit_selected_pressure_level_chunks_3d dense_env rd ''temp'' [850] (\<lambda>c xs. Inr (selected_get c 0 0 1 # xs)) [] =
       Some (Inr [Some 0x3F800000])"
proof -
  obtain rd where rd: "open_with_tile_cache_bytes (\<lambda>_. Some cube_meta) (Some (stored_file 1 cube_file)) 4096 = Inr rd"
      "hr_meta rd = cube_meta" "lookup_3d rd ''temp'' = Inr cube_variable" "read_full_3d dense_env rd ''temp'' = Inr cube_values"
    by (rule cube_reader)
  obtain header where ok: "reader_ok header rd" using open_reader_ok [OF rd(1)] by blast
  have d: "div_ceil (Suc 0) COL_Y = 1" "div_ceil 2 COL_X = 1" by (simp_all add: div_ceil_def geometry_consts)
  have idx: "selected_pressure_level_indices cube_variable [850] = Inr [1]"
    by (simp add: selected_indices_single pressure_level_index_def ok_or_def)
  obtain c where c: "read_selected_pressure_level_chunk_3d dense_env rd ''temp'' [850] 0 0 = Inr c" "selected_get c 0 0 1 = Some 0x3F800000"
    by (rule selected_chunk_volume [OF ok rd(3,4) idx, of 0 0])
      (simp_all add: rd(2) d col_chunk_dims_def geometry_consts cube_values_def div_ceil_def)
  have it: "selected_pressure_level_chunks_3d rd ''temp'' [850] = Inr (selected_iter rd [850] 0)"
    using selected_iter_start [OF ok rd(3) idx] idx rd(3) by (simp add: selected_pressure_level_chunks_3d_def)
  have no: "pressure_level_chunks_3d rd ''temp'' 500 = Inl (Meta ''variable has no such level'')"
    by (simp add: pressure_level_chunks_3d_def rd(3) pressure_level_index_def ok_or_def)
  show ?thesis
    using volume_visits_return [OF rd(1) refl, of dense_env "''temp''" "[850]" "\<lambda>c xs. Inr (selected_get c 0 0 1 # xs)" "[]"
        500 "\<lambda>_ n. Inr (Suc n)" 0] rd(1)
    by (simp add: it no rd(2) d c c(2) [unfolded One_nat_def])
qed

text \<open>C28. Volume reads never panic. On an opened file no read of a pressure volume slices
  or indexes out of range or fails to find a loaded chunk, whatever the payload bytes, the
  decompressor, the names, indices, levels and coordinates.\<close>

theorem volume_reads_never_panic:
  assumes "open_with_tile_cache_bytes from_json path cap = Inr rd"
  shows "\<not> panics (read_full_3d env rd name) \<and> \<not> panics (read_column_3d env rd name ix iy) \<and>
    \<not> panics (read_level_3d env rd name l) \<and> \<not> panics (read_pressure_level_chunk_3d env rd name l cy cx) \<and>
    \<not> panics (read_selected_pressure_level_chunk_3d env rd name ls cy cx) \<and> \<not> panics (read_profile_3d env rd name fx fy)"
proof -
  obtain header where ok: "reader_ok header rd" using open_reader_ok [OF assms(1)] by blast
  note sel = not_panics_selected_chunk [OF ok]
  have "\<not> panics (read_pressure_level_chunk_3d env rd name l cy cx)"
    unfolding pressure_chunk_selected by (intro not_panics_bind sel) simp
  with sel profile_not_panics [OF ok] full_not_panics [OF ok] column_not_panics [OF ok] level_not_panics [OF ok]
  show ?thesis by simp
qed

theorem volume_reads_never_panic_witness:
  "\<exists>rd. open_with_tile_cache_bytes (\<lambda>_. Some cube_meta) (Some (stored_file 1 cube_file)) 4096 = Inr rd \<and>
     \<not> panics (read_profile_3d dense_env rd ''temp'' (FFin False (1 / 2)) (FInf True)) \<and> \<not> panics (read_column_3d dense_env rd ''temp'' 9 9)"
proof -
  obtain rd where rd: "open_with_tile_cache_bytes (\<lambda>_. Some cube_meta) (Some (stored_file 1 cube_file)) 4096 = Inr rd"
      "hr_meta rd = cube_meta" "lookup_3d rd ''temp'' = Inr cube_variable" "read_full_3d dense_env rd ''temp'' = Inr cube_values"
    by (rule cube_reader)
  show ?thesis using volume_reads_never_panic [OF rd(1)] rd(1) by blast
qed

text \<open>C27. Profiles at grid points. The interpolated profile at whole coordinates inside
  the grid is the column of that cell: every finite value is returned unchanged (a zero as
  the positive zero) and every non-finite value as NaN. An error of the column read is the
  error of the profile read.\<close>

theorem profile_at_grid_point:
  assumes "open_with_tile_cache_bytes from_json path cap = Inr rd" and "lookup_3d rd name = Inr var"
    and "ix < hm_nx (hr_meta rd)" and "iy < hm_ny (hr_meta rd)"
  shows "read_profile_3d env rd name (FFin False (of_nat ix)) (FFin False (of_nat iy)) =
    r_bind (read_column_3d env rd name ix iy) (\<lambda>column. Inr (map (\<lambda>v.
      if \<not> f32_is_finite v then f32_NAN else if f32_eq v 0 then 0 else v) column))"
proof -
  obtain header where ok: "reader_ok header rd" using open_reader_ok [OF assms(1)] by blast
  have "profile_settle = (\<lambda>v. if \<not> f32_is_finite v then f32_NAN else if f32_eq v 0 then 0 else v)"
    by (rule ext) (simp add: profile_settle_def f32_eq_zero)
  with profile_grid_point [OF ok assms(2-4)] show ?thesis by simp
qed

theorem profile_at_grid_point_witness:
  "\<exists>rd. open_with_tile_cache_bytes (\<lambda>_. Some cube_meta) (Some (stored_file 1 cube_file)) 4096 = Inr rd \<and>
     read_profile_3d dense_env rd ''temp'' (FFin False 1) (FFin False 0) = Inr [0x40000000, 0x3F800000]"
proof -
  obtain rd where rd: "open_with_tile_cache_bytes (\<lambda>_. Some cube_meta) (Some (stored_file 1 cube_file)) 4096 = Inr rd"
      "hr_meta rd = cube_meta" "lookup_3d rd ''temp'' = Inr cube_variable" "read_full_3d dense_env rd ''temp'' = Inr cube_values"
    by (rule cube_reader)
  obtain header where ok: "reader_ok header rd" using open_reader_ok [OF rd(1)] by blast
  have "read_column_3d dense_env rd ''temp'' 1 0 = Inr [0x40000000, 0x3F800000]"
    using column_of_volume [OF ok rd(3,4) refl, of 0 1] by (simp add: rd(2) levels_of_def cube_values_def upt_rec)
  with profile_at_grid_point [OF rd(1,3), of 1 0 dense_env] rd(1,2) show ?thesis by (simp add: f32_eval)
qed

end
