(* ===== verification/Rw_Files.thy ===== *)
theory Rw_Files
  imports Rw_Prelude "HOL-Library.Finite_Map"
begin

text \<open>
  The file system as the store uses it: a finite map of paths to nodes as the kernel shows
  it, the set of files whose content has been synchronised, and for each path the contents
  a power loss may leave there. A path is a directory and a file name; all paths of the
  store are built by joining a name to a run directory.
\<close>

section \<open>Decimal numbers\<close>

text \<open>The \<open>{}\<close> and \<open>{:03}\<close> formats of unsigned integers.\<close>

definition digit_char :: "nat \<Rightarrow> char" where
  "digit_char d = char_of (48 + d)"

fun decimal :: "nat \<Rightarrow> string" where
  "decimal n = (if n < 10 then [digit_char n] else decimal (n div 10) @ [digit_char (n mod 10)])"

declare decimal.simps [simp del]

definition decimal3 :: "nat \<Rightarrow> string" where
  "decimal3 n = (let s = decimal n in replicate (3 - length s) (CHR ''0'') @ s)"

definition decimal_value :: "string \<Rightarrow> nat" where
  "decimal_value s = foldl (\<lambda>n c. n * 10 + (of_char c - 48)) 0 s"

lemma decimal_value_digit: "d < 10 \<Longrightarrow> (of_char (digit_char d) :: nat) - 48 = d"
  by (simp add: digit_char_def)

lemma decimal_value_decimal [simp]: "decimal_value (decimal n) = n"
proof (induction n rule: decimal.induct)
  case (1 n)
  then show ?case
    by (subst decimal.simps) (simp add: decimal_value_def decimal_value_digit)
qed

lemma decimal_inject [simp]: "decimal m = decimal n \<longleftrightarrow> m = n"
  by (metis decimal_value_decimal)

lemma decimal_value_zeros: "decimal_value (replicate k (CHR ''0'') @ s) = decimal_value s"
  by (induction k) (simp_all add: decimal_value_def)

lemma decimal3_inject [simp]: "decimal3 m = decimal3 n \<longleftrightarrow> m = n"
  by (metis decimal3_def decimal_value_decimal decimal_value_zeros)

lemma decimal_digits: "c \<in> set (decimal n) \<Longrightarrow> 48 \<le> (of_char c :: nat) \<and> (of_char c :: nat) \<le> 57"
proof (induction n rule: decimal.induct)
  case (1 n)
  have "(of_char (digit_char d) :: nat) = 48 + d" if "d < 10" for d using that by (simp add: digit_char_def)
  then show ?case using 1 by (subst (asm) (2) decimal.simps) (auto split: if_splits)
qed

section \<open>Files\<close>

type_synonym file_path = "string \<times> string"

datatype file_node = File "u8 list" | Directory

record file_system =
  fs_nodes :: "(file_path, file_node) fmap"
  fs_synced :: "file_path set"
  fs_left :: "file_path \<Rightarrow> u8 list option set"
  fs_seq :: "nat \<Rightarrow> nat"

text \<open>
  \<open>fs_seq\<close> holds the temporary-name counter of each process. The counter is a 64-bit word
  in the code; a process is assumed to make fewer than \<open>2 ^ 64\<close> names.
\<close>

definition fs_content :: "file_system \<Rightarrow> file_path \<Rightarrow> u8 list option" where
  "fs_content fs p = (case fmlookup (fs_nodes fs) p of Some (File c) \<Rightarrow> Some c | _ \<Rightarrow> None)"

definition fs_exists :: "file_system \<Rightarrow> file_path \<Rightarrow> bool" where
  "fs_exists fs p = (fmlookup (fs_nodes fs) p \<noteq> None)"

definition fs_create :: "file_path \<Rightarrow> file_system \<Rightarrow> file_system" where
  "fs_create p fs = fs\<lparr>fs_nodes := fmupd p (File []) (fs_nodes fs), fs_synced := fs_synced fs - {p}\<rparr>"

definition fs_append :: "file_path \<Rightarrow> u8 list \<Rightarrow> file_system \<Rightarrow> file_system" where
  "fs_append p bs fs =
     (case fmlookup (fs_nodes fs) p of
        Some (File c) \<Rightarrow> fs\<lparr>fs_nodes := fmupd p (File (c @ bs)) (fs_nodes fs), fs_synced := fs_synced fs - {p}\<rparr>
      | _ \<Rightarrow> fs)"

definition fs_fsync :: "file_path \<Rightarrow> file_system \<Rightarrow> file_system" where
  "fs_fsync p fs = fs\<lparr>fs_synced := insert p (fs_synced fs)\<rparr>"

text \<open>
  A rename replaces the destination in one step. Until the directory is synchronised a
  power loss may leave the old entry or the new one, and the new one with any content if
  the source had not been synchronised.
\<close>

definition fs_rename :: "file_path \<Rightarrow> file_path \<Rightarrow> file_system \<Rightarrow> file_system option" where
  "fs_rename src dst fs =
     (case fmlookup (fs_nodes fs) src of
        Some (File c) \<Rightarrow>
          if fmlookup (fs_nodes fs) dst = Some Directory then None
          else Some (fs\<lparr>fs_nodes := fmupd dst (File c) (fmdrop src (fs_nodes fs)),
            fs_synced := (if src \<in> fs_synced fs then insert dst (fs_synced fs - {src}) else fs_synced fs - {src, dst}),
            fs_left := (fs_left fs)(dst := fs_left fs dst \<union> (if src \<in> fs_synced fs then {Some c} else UNIV))\<rparr>)
      | _ \<Rightarrow> None)"

definition fs_remove :: "file_path \<Rightarrow> file_system \<Rightarrow> file_system" where
  "fs_remove p fs =
     (case fmlookup (fs_nodes fs) p of
        Some (File c) \<Rightarrow> fs\<lparr>fs_nodes := fmdrop p (fs_nodes fs), fs_left := (fs_left fs)(p := insert None (fs_left fs p))\<rparr>
      | _ \<Rightarrow> fs)"

text \<open>Synchronising a directory makes its present entries the ones a power loss leaves.\<close>

definition fs_sync_dir :: "string \<Rightarrow> file_system \<Rightarrow> file_system" where
  "fs_sync_dir d fs = fs\<lparr>fs_left := (\<lambda>p. if fst p = d
       then (if fs_content fs p = None \<or> p \<in> fs_synced fs then {fs_content fs p} else UNIV) else fs_left fs p)\<rparr>"

lemma fs_simps [simp]:
  "fs_seq (fs_create p fs) = fs_seq fs" "fs_left (fs_create p fs) = fs_left fs"
  "fs_seq (fs_append p bs fs) = fs_seq fs" "fs_left (fs_append p bs fs) = fs_left fs"
  "fs_seq (fs_fsync p fs) = fs_seq fs" "fs_left (fs_fsync p fs) = fs_left fs" "fs_nodes (fs_fsync p fs) = fs_nodes fs"
  "fs_seq (fs_remove p fs) = fs_seq fs" "fs_synced (fs_remove p fs) = fs_synced fs"
  "fs_seq (fs_sync_dir d fs) = fs_seq fs" "fs_nodes (fs_sync_dir d fs) = fs_nodes fs" "fs_synced (fs_sync_dir d fs) = fs_synced fs"
  by (simp_all add: fs_create_def fs_append_def fs_fsync_def fs_remove_def fs_sync_dir_def split: option.split file_node.split)

lemma lookup_simps [simp]:
  "fmlookup (fs_nodes (fs_create p fs)) q = (if q = p then Some (File []) else fmlookup (fs_nodes fs) q)"
  "q \<noteq> p \<Longrightarrow> fmlookup (fs_nodes (fs_append p bs fs)) q = fmlookup (fs_nodes fs) q"
  "fmlookup (fs_nodes fs) p = Some (File c) \<Longrightarrow> fmlookup (fs_nodes (fs_append p bs fs)) p = Some (File (c @ bs))"
  "q \<noteq> p \<Longrightarrow> fmlookup (fs_nodes (fs_remove p fs)) q = fmlookup (fs_nodes fs) q"
  by (auto simp: fs_create_def fs_append_def fs_remove_def split: option.split file_node.split)

lemma synced_simps [simp]:
  "q \<noteq> p \<Longrightarrow> q \<in> fs_synced (fs_create p fs) \<longleftrightarrow> q \<in> fs_synced fs"
  "q \<noteq> p \<Longrightarrow> q \<in> fs_synced (fs_append p bs fs) \<longleftrightarrow> q \<in> fs_synced fs"
  "q \<noteq> p \<Longrightarrow> q \<in> fs_synced (fs_fsync p fs) \<longleftrightarrow> q \<in> fs_synced fs" "p \<in> fs_synced (fs_fsync p fs)"
  by (auto simp: fs_create_def fs_append_def fs_fsync_def split: option.split file_node.split)

lemma left_remove [simp]: "q \<noteq> p \<Longrightarrow> fs_left (fs_remove p fs) q = fs_left fs q"
  by (simp add: fs_remove_def split: option.split file_node.split)

lemma content_lookup: "fmlookup (fs_nodes fs') p = fmlookup (fs_nodes fs) p \<Longrightarrow> fs_content fs' p = fs_content fs p"
  by (simp add: fs_content_def)

lemma fs_rename_Some:
  assumes "fs_rename src dst fs = Some fs'" and "src \<noteq> dst"
  obtains c where "fmlookup (fs_nodes fs) src = Some (File c)" "fmlookup (fs_nodes fs') dst = Some (File c)"
    "fmlookup (fs_nodes fs') src = None" "\<And>q. q \<noteq> src \<Longrightarrow> q \<noteq> dst \<Longrightarrow> fmlookup (fs_nodes fs') q = fmlookup (fs_nodes fs) q"
    "dst \<in> fs_synced fs' \<longleftrightarrow> src \<in> fs_synced fs" "\<And>q. q \<noteq> src \<Longrightarrow> q \<noteq> dst \<Longrightarrow> q \<in> fs_synced fs' \<longleftrightarrow> q \<in> fs_synced fs"
    "fs_left fs' dst = fs_left fs dst \<union> (if src \<in> fs_synced fs then {Some c} else UNIV)"
    "\<And>q. q \<noteq> dst \<Longrightarrow> fs_left fs' q = fs_left fs q" "fs_seq fs' = fs_seq fs"
proof -
  obtain c where c: "fmlookup (fs_nodes fs) src = Some (File c)"
    using assms(1) by (auto simp: fs_rename_def split: option.splits file_node.splits)
  show thesis
    by (rule that [OF c]) (use assms c in \<open>auto simp: fs_rename_def split: if_splits\<close>)
qed

end
