(* ===== verification/Rw_Atomic.thy ===== *)
theory Rw_Atomic
  imports Rw_Files
begin

text \<open>
  Atomic publication (\<^verbatim>\<open>rw-store/src/atomic.rs\<close>, the branch for systems other than
  Windows): write to a hidden temporary file in the directory of the destination,
  synchronise it, rename it over the destination, synchronise the directory. First the
  function as one caller runs it, with the outcome of every system call as a parameter;
  then its steps as a relation, so that any number of callers interleave.
\<close>

section \<open>Temporary names\<close>

definition temp_path_for :: "nat \<Rightarrow> nat \<Rightarrow> file_path \<Rightarrow> file_path" where
  "temp_path_for pid seq path = (fst path, ''.'' @ snd path @ ''.tmp-'' @ decimal pid @ ''-'' @ decimal seq)"

definition hidden :: "file_path \<Rightarrow> bool" where
  "hidden path = (case snd path of [] \<Rightarrow> False | c # _ \<Rightarrow> c = CHR ''.'')"

lemma hidden_temp [simp]: "hidden (temp_path_for pid seq path)"
  by (simp add: hidden_def temp_path_for_def)

lemma first_split: "xs @ c # ys = xs' @ c # ys' \<Longrightarrow> c \<notin> set xs \<Longrightarrow> c \<notin> set xs' \<Longrightarrow> xs = xs' \<and> ys = ys'"
proof (induction xs arbitrary: xs')
  case Nil
  then show ?case by (cases xs') simp_all
next
  case (Cons x xs)
  then show ?case by (cases xs') auto
qed

lemma last_split:
  assumes "xs @ c # ys = xs' @ c # ys'" and "c \<notin> set ys" and "c \<notin> set ys'"
  shows "xs = xs' \<and> ys = ys'"
proof -
  have "rev ys @ c # rev xs = rev ys' @ c # rev xs'"
    using arg_cong [OF assms(1), of rev] by simp
  from first_split [OF this] assms(2,3) show ?thesis by simp
qed

lemma decimal_no_dash: "CHR ''-'' \<notin> set (decimal n)"
  using decimal_digits [of "CHR ''-''" n] by auto

lemma temp_path_inject:
  "temp_path_for pid seq path = temp_path_for pid' seq' path' \<Longrightarrow> pid = pid' \<and> seq = seq'"
proof -
  assume a: "temp_path_for pid seq path = temp_path_for pid' seq' path'"
  have "(''.'' @ snd path @ ''.tmp-'' @ decimal pid) @ CHR ''-'' # decimal seq =
      (''.'' @ snd path' @ ''.tmp-'' @ decimal pid') @ CHR ''-'' # decimal seq'"
    using a by (simp add: temp_path_for_def)
  from last_split [OF this decimal_no_dash decimal_no_dash]
  have s: "''.'' @ snd path @ ''.tmp-'' @ decimal pid = ''.'' @ snd path' @ ''.tmp-'' @ decimal pid'" "seq = seq'"
    by simp_all
  have "(''.'' @ snd path @ ''.tmp'') @ CHR ''-'' # decimal pid = (''.'' @ snd path' @ ''.tmp'') @ CHR ''-'' # decimal pid'"
    using s(1) by simp
  from last_split [OF this decimal_no_dash decimal_no_dash] s(2) show ?thesis by simp
qed

section \<open>One caller\<close>

text \<open>
  The outcomes of the system calls of one publication: creating the parent directories,
  opening the candidate with a given counter value, the number of bytes after which writing
  fails (if it does), and the calls that synchronise, rename and remove.
\<close>

record os_outcomes =
  os_create_dir :: bool
  os_open :: "nat \<Rightarrow> bool"
  os_write :: "nat option"
  os_sync :: bool
  os_rename :: bool
  os_sync_dir :: bool
  os_remove :: bool

definition next_seq :: "nat \<Rightarrow> file_system \<Rightarrow> file_system" where
  "next_seq pid fs = fs\<lparr>fs_seq := (fs_seq fs)(pid := Suc (fs_seq fs pid))\<rparr>"

text \<open>The loop over candidates; it ends because only finitely many names exist.\<close>

function create_temp :: "os_outcomes \<Rightarrow> nat \<Rightarrow> file_path \<Rightarrow> file_system \<Rightarrow> file_path rw_result \<times> file_system" where
  "create_temp os pid path fs =
     (let seq = fs_seq fs pid; candidate = temp_path_for pid seq path; fs = next_seq pid fs
      in if \<not> os_open os seq then (Inl (Io ''open''), fs)
         else if fs_exists fs candidate then create_temp os pid path fs
         else (Inr candidate, fs_create candidate fs))"
  by auto

definition taken_names :: "nat \<Rightarrow> file_path \<Rightarrow> file_system \<Rightarrow> nat set" where
  "taken_names pid path fs = {k. fs_seq fs pid \<le> k \<and> fs_exists fs (temp_path_for pid k path)}"

lemma finite_taken: "finite (taken_names pid path fs)"
proof -
  have "inj (\<lambda>k. temp_path_for pid k path)" by (rule injI) (simp add: temp_path_inject)
  then have "finite ((\<lambda>k. temp_path_for pid k path) -` fmdom' (fs_nodes fs))"
    by (intro finite_vimageI) simp_all
  moreover have "taken_names pid path fs \<subseteq> (\<lambda>k. temp_path_for pid k path) -` fmdom' (fs_nodes fs)"
    by (auto simp: taken_names_def fs_exists_def fmlookup_dom'_iff)
  ultimately show ?thesis by (rule finite_subset [rotated])
qed

termination create_temp
proof (relation "measure (\<lambda>(os, pid, path, fs). card (taken_names pid path fs))")
  fix os pid path fs seq candidate fs'
  assume a: "seq = fs_seq fs pid" "candidate = temp_path_for pid seq path" "fs' = next_seq pid fs" "fs_exists fs' candidate"
  have "taken_names pid path fs' \<subset> taken_names pid path fs"
  proof (rule psubsetI)
    show "taken_names pid path fs' \<subseteq> taken_names pid path fs"
      by (auto simp: taken_names_def a(3) next_seq_def fs_exists_def)
    have "seq \<in> taken_names pid path fs" "seq \<notin> taken_names pid path fs'"
      using a by (simp_all add: taken_names_def next_seq_def fs_exists_def)
    then show "taken_names pid path fs' \<noteq> taken_names pid path fs" by blast
  qed
  then show "((os, pid, path, fs'), os, pid, path, fs) \<in> measure (\<lambda>(os, pid, path, fs). card (taken_names pid path fs))"
    using finite_taken by (simp add: psubset_card_mono)
qed simp

declare create_temp.simps [simp del]

text \<open>
  What the caller writes is the bytes it passes to the buffered writer and its own result.
\<close>

definition write_temp :: "os_outcomes \<Rightarrow> file_path \<Rightarrow> u8 list \<times> unit rw_result \<Rightarrow> file_system \<Rightarrow> unit rw_result \<times> file_system" where
  "write_temp os tmp write fs =
     (case os_write os of
        Some k \<Rightarrow> (Inl (Io ''write''), fs_append tmp (take k (fst write)) fs)
      | None \<Rightarrow>
          let fs = fs_append tmp (fst write) fs
          in case snd write of
               Inl e \<Rightarrow> (Inl e, fs)
             | Inr _ \<Rightarrow> if os_sync os then (Inr (), fs_fsync tmp fs) else (Inl (Io ''sync_all''), fs))"

definition finalize_temp :: "os_outcomes \<Rightarrow> file_path \<Rightarrow> file_path \<Rightarrow> file_system \<Rightarrow> unit rw_result \<times> file_system" where
  "finalize_temp os tmp path fs =
     (case (if os_rename os then fs_rename tmp path fs else None) of
        None \<Rightarrow> (Inl (Io ''rename''), fs)
      | Some fs \<Rightarrow> if os_sync_dir os then (Inr (), fs_sync_dir (fst path) fs) else (Inl (Io ''sync_parent''), fs))"

definition discard_temp :: "os_outcomes \<Rightarrow> file_path \<Rightarrow> file_system \<Rightarrow> file_system" where
  "discard_temp os tmp fs = (if os_remove os then fs_remove tmp fs else fs)"

definition atomic_write_with :: "os_outcomes \<Rightarrow> nat \<Rightarrow> file_path \<Rightarrow> u8 list \<times> unit rw_result \<Rightarrow> file_system
    \<Rightarrow> unit rw_result \<times> file_system" where
  "atomic_write_with os pid path write fs =
     (if \<not> os_create_dir os then (Inl (Io ''create_dir_all''), fs)
      else case create_temp os pid path fs of
        (Inl e, fs) \<Rightarrow> (Inl e, fs)
      | (Inr tmp, fs) \<Rightarrow>
          (case write_temp os tmp write fs of
             (Inl e, fs) \<Rightarrow> (Inl e, discard_temp os tmp fs)
           | (Inr _, fs) \<Rightarrow>
               (case finalize_temp os tmp path fs of
                  (Inl e, fs) \<Rightarrow> (Inl e, discard_temp os tmp fs)
                | (Inr _, fs) \<Rightarrow> (Inr (), fs))))"

definition atomic_write_bytes :: "os_outcomes \<Rightarrow> nat \<Rightarrow> file_path \<Rightarrow> u8 list \<Rightarrow> file_system \<Rightarrow> unit rw_result \<times> file_system" where
  "atomic_write_bytes os pid path bytes fs = atomic_write_with os pid path (bytes, Inr ()) fs"

section \<open>Any number of callers\<close>

text \<open>
  A publisher is one call of \<open>atomic_write_with\<close> in some process: its destination, the
  bytes it writes, the result of its own writing code, and where it is. Bytes reach the
  temporary file in pieces of any size, and every system call may fail. Between any two
  steps other publishers run, the process may stop for ever, or the machine lose power.
\<close>

datatype pub_pc =
    Starting
  | Naming
  | Writing file_path nat
  | Flushed file_path
  | Synced file_path
  | Renamed file_path
  | Failing file_path rw_store_error
  | Finished "unit rw_result"

record publisher =
  pb_pid :: nat
  pb_path :: file_path
  pb_bytes :: "u8 list"
  pb_own :: "unit rw_result"
  pb_pc :: pub_pc

inductive pub_step :: "publisher \<Rightarrow> file_system \<Rightarrow> publisher \<Rightarrow> file_system \<Rightarrow> bool" where
  dirs: "pb_pc p = Starting \<Longrightarrow> pub_step p fs (p\<lparr>pb_pc := Naming\<rparr>) fs"
| dirs_fail: "pb_pc p = Starting \<Longrightarrow> pub_step p fs (p\<lparr>pb_pc := Finished (Inl (Io ''create_dir_all''))\<rparr>) fs"
| name_taken: "pb_pc p = Naming \<Longrightarrow> fs_exists fs (temp_path_for (pb_pid p) (fs_seq fs (pb_pid p)) (pb_path p)) \<Longrightarrow>
    pub_step p fs p (next_seq (pb_pid p) fs)"
| opened: "pb_pc p = Naming \<Longrightarrow> t = temp_path_for (pb_pid p) (fs_seq fs (pb_pid p)) (pb_path p) \<Longrightarrow> \<not> fs_exists fs t \<Longrightarrow>
    pub_step p fs (p\<lparr>pb_pc := Writing t 0\<rparr>) (fs_create t (next_seq (pb_pid p) fs))"
| open_fail: "pb_pc p = Naming \<Longrightarrow> pub_step p fs (p\<lparr>pb_pc := Finished (Inl (Io ''open''))\<rparr>) (next_seq (pb_pid p) fs)"
| written: "pb_pc p = Writing t n \<Longrightarrow> n + k \<le> length (pb_bytes p) \<Longrightarrow>
    pub_step p fs (p\<lparr>pb_pc := Writing t (n + k)\<rparr>) (fs_append t (take k (drop n (pb_bytes p))) fs)"
| write_fail: "pb_pc p = Writing t n \<Longrightarrow> pub_step p fs (p\<lparr>pb_pc := Failing t (Io ''write'')\<rparr>) fs"
| own_fail: "pb_pc p = Writing t n \<Longrightarrow> pb_own p = Inl e \<Longrightarrow> pub_step p fs (p\<lparr>pb_pc := Failing t e\<rparr>) fs"
| flush: "pb_pc p = Writing t (length (pb_bytes p)) \<Longrightarrow> pb_own p = Inr () \<Longrightarrow> pub_step p fs (p\<lparr>pb_pc := Flushed t\<rparr>) fs"
| sync: "pb_pc p = Flushed t \<Longrightarrow> pub_step p fs (p\<lparr>pb_pc := Synced t\<rparr>) (fs_fsync t fs)"
| sync_fail: "pb_pc p = Flushed t \<Longrightarrow> pub_step p fs (p\<lparr>pb_pc := Failing t (Io ''sync_all'')\<rparr>) fs"
| rename: "pb_pc p = Synced t \<Longrightarrow> fs_rename t (pb_path p) fs = Some fs' \<Longrightarrow> pub_step p fs (p\<lparr>pb_pc := Renamed t\<rparr>) fs'"
| rename_fail: "pb_pc p = Synced t \<Longrightarrow> pub_step p fs (p\<lparr>pb_pc := Failing t (Io ''rename'')\<rparr>) fs"
| sync_dir: "pb_pc p = Renamed t \<Longrightarrow> pub_step p fs (p\<lparr>pb_pc := Finished (Inr ())\<rparr>) (fs_sync_dir (fst (pb_path p)) fs)"
| sync_dir_fail: "pb_pc p = Renamed t \<Longrightarrow> pub_step p fs (p\<lparr>pb_pc := Failing t (Io ''sync_parent'')\<rparr>) fs"
| discard: "pb_pc p = Failing t e \<Longrightarrow> pub_step p fs (p\<lparr>pb_pc := Finished (Inl e)\<rparr>) (fs_remove t fs)"
| discard_fail: "pb_pc p = Failing t e \<Longrightarrow> pub_step p fs (p\<lparr>pb_pc := Finished (Inl e)\<rparr>) fs"

inductive publish_step :: "file_system \<times> publisher list \<Rightarrow> file_system \<times> publisher list \<Rightarrow> bool" where
  "i < length ps \<Longrightarrow> pub_step (ps ! i) fs p' fs' \<Longrightarrow> publish_step (fs, ps) (fs', ps[i := p'])"

inductive_cases publish_stepE: "publish_step (fs, ps) s'"

text \<open>
  The destinations are visible names, and at the start what the kernel shows of visible
  files is what a power loss leaves.
\<close>

definition settled :: "file_system \<Rightarrow> bool" where
  "settled fs \<longleftrightarrow> (\<forall>q. \<not> hidden q \<longrightarrow> fs_left fs q = {fs_content fs q} \<and> (fs_content fs q \<noteq> None \<longrightarrow> q \<in> fs_synced fs))"

definition starting :: "publisher list \<Rightarrow> bool" where
  "starting ps \<longleftrightarrow> (\<forall>p \<in> set ps. pb_pc p = Starting \<and> \<not> hidden (pb_path p))"

section \<open>The invariant of the publishers\<close>

definition complete :: "publisher list \<Rightarrow> file_path \<Rightarrow> u8 list set" where
  "complete ps q = {pb_bytes p | p. p \<in> set ps \<and> pb_path p = q \<and> pb_own p = Inr ()}"

definition pub_temp :: "publisher \<Rightarrow> file_path option" where
  "pub_temp p = (case pb_pc p of Writing t _ \<Rightarrow> Some t | Flushed t \<Rightarrow> Some t | Synced t \<Rightarrow> Some t
     | Renamed t \<Rightarrow> Some t | Failing t _ \<Rightarrow> Some t | _ \<Rightarrow> None)"

definition temp_ok :: "file_system \<Rightarrow> publisher \<Rightarrow> bool" where
  "temp_ok fs p \<longleftrightarrow> (case pb_pc p of
       Writing t n \<Rightarrow> n \<le> length (pb_bytes p) \<and> fmlookup (fs_nodes fs) t = Some (File (take n (pb_bytes p)))
     | Flushed t \<Rightarrow> pb_own p = Inr () \<and> fmlookup (fs_nodes fs) t = Some (File (pb_bytes p))
     | Synced t \<Rightarrow> pb_own p = Inr () \<and> fmlookup (fs_nodes fs) t = Some (File (pb_bytes p)) \<and> t \<in> fs_synced fs
     | Renamed t \<Rightarrow> pb_own p = Inr ()
     | _ \<Rightarrow> True)"

definition own_names :: "file_system \<Rightarrow> publisher \<Rightarrow> bool" where
  "own_names fs p \<longleftrightarrow> (\<forall>t. pub_temp p = Some t \<longrightarrow> (\<exists>k < fs_seq fs (pb_pid p). t = temp_path_for (pb_pid p) k (pb_path p)))"

definition publishers_inv :: "file_system \<Rightarrow> file_system \<times> publisher list \<Rightarrow> bool" where
  "publishers_inv fs0 s \<longleftrightarrow> (case s of (fs, ps) \<Rightarrow>
     (\<forall>p \<in> set ps. \<not> hidden (pb_path p) \<and> temp_ok fs p \<and> own_names fs p) \<and>
     (\<forall>i < length ps. \<forall>j < length ps. i \<noteq> j \<longrightarrow> pub_temp (ps ! i) \<noteq> None \<longrightarrow> pub_temp (ps ! i) \<noteq> pub_temp (ps ! j)) \<and>
     (\<forall>q. \<not> hidden q \<longrightarrow>
        (fs_content fs q = fs_content fs0 q \<or> (\<exists>bs \<in> complete ps q. fs_content fs q = Some bs)) \<and>
        fs_left fs q \<subseteq> insert (fs_content fs0 q) (Some ` complete ps q) \<and>
        (fs_content fs q \<noteq> None \<longrightarrow> q \<in> fs_synced fs)))"

lemma temp_ok_frame:
  assumes "temp_ok fs r"
    and "\<And>t. pub_temp r = Some t \<Longrightarrow> fmlookup (fs_nodes fs') t = fmlookup (fs_nodes fs) t \<and> (t \<in> fs_synced fs \<longrightarrow> t \<in> fs_synced fs')"
  shows "temp_ok fs' r"
  using assms by (cases "pb_pc r") (auto simp: temp_ok_def pub_temp_def)

lemma own_names_mono:
  "own_names fs r \<Longrightarrow> (\<And>pid. fs_seq fs pid \<le> fs_seq fs' pid) \<Longrightarrow> own_names fs' r"
  unfolding own_names_def by (meson less_le_trans)

lemma own_names_hidden: "own_names fs r \<Longrightarrow> pub_temp r = Some t \<Longrightarrow> hidden t"
  unfolding own_names_def by (metis hidden_temp)

lemma rename_temp:
  assumes "fs_rename t q fs = Some fs'" and "hidden t" and "\<not> hidden q"
  obtains c where "fmlookup (fs_nodes fs) t = Some (File c)" "fmlookup (fs_nodes fs') q = Some (File c)"
    "\<And>r. r \<noteq> t \<Longrightarrow> r \<noteq> q \<Longrightarrow> fmlookup (fs_nodes fs') r = fmlookup (fs_nodes fs) r"
    "q \<in> fs_synced fs' \<longleftrightarrow> t \<in> fs_synced fs" "\<And>r. r \<noteq> t \<Longrightarrow> r \<noteq> q \<Longrightarrow> r \<in> fs_synced fs' \<longleftrightarrow> r \<in> fs_synced fs"
    "fs_left fs' q = fs_left fs q \<union> (if t \<in> fs_synced fs then {Some c} else UNIV)"
    "\<And>r. r \<noteq> q \<Longrightarrow> fs_left fs' r = fs_left fs r" "fs_seq fs' = fs_seq fs"
  by (rule fs_rename_Some [OF assms(1)]) (use assms(2,3) that in auto)

lemma pub_step_static:
  "pub_step p fs p' fs' \<Longrightarrow> pb_pid p' = pb_pid p \<and> pb_path p' = pb_path p \<and> pb_bytes p' = pb_bytes p \<and> pb_own p' = pb_own p"
  by (cases rule: pub_step.cases) auto

lemma pub_step_seq: "pub_step p fs p' fs' \<Longrightarrow> fs_seq fs pid \<le> fs_seq fs' pid"
  by (cases rule: pub_step.cases) (auto simp: next_seq_def fs_rename_def split: option.splits file_node.splits if_splits)

lemma pub_step_temp:
  assumes "pub_step p fs p' fs'"
  shows "pub_temp p' = None \<or> pub_temp p' = pub_temp p \<or>
    pub_temp p = None \<and> pub_temp p' = Some (temp_path_for (pb_pid p) (fs_seq fs (pb_pid p)) (pb_path p)) \<and>
      fs_seq fs (pb_pid p) < fs_seq fs' (pb_pid p)"
  using assms by (cases rule: pub_step.cases) (auto simp: next_seq_def pub_temp_def)

lemma pub_step_temp_ok:
  assumes step: "pub_step p fs p' fs'" and ok: "temp_ok fs p"
  shows "temp_ok fs' p'"
  using step
proof (cases rule: pub_step.cases)
  case (written t n k)
  then show ?thesis using ok by (simp add: temp_ok_def take_add)
qed (use ok in \<open>auto simp: temp_ok_def\<close>)

lemma pub_step_others:
  assumes step: "pub_step p fs p' fs'" and vis: "\<not> hidden (pb_path p)" and own: "own_names fs p"
    and q: "hidden q" "pub_temp p \<noteq> Some q" "pub_temp p' \<noteq> Some q"
  shows "fmlookup (fs_nodes fs') q = fmlookup (fs_nodes fs) q \<and> (q \<in> fs_synced fs' \<longleftrightarrow> q \<in> fs_synced fs)"
  using step
proof (cases rule: pub_step.cases)
  case (rename t)
  have "hidden t" using own_names_hidden [OF own] rename by (simp add: pub_temp_def)
  have "q \<noteq> t" "q \<noteq> pb_path p" using q vis rename by (auto simp: pub_temp_def)
  with rename_temp [OF rename(3) \<open>hidden t\<close> vis] show ?thesis by metis
qed (use q in \<open>auto simp: next_seq_def pub_temp_def\<close>)

lemma pub_step_visible:
  assumes step: "pub_step p fs p' fs'" and vis: "\<not> hidden (pb_path p)" and own: "own_names fs p" and ok: "temp_ok fs p"
    and sy: "\<forall>q. \<not> hidden q \<longrightarrow> fs_content fs q \<noteq> None \<longrightarrow> q \<in> fs_synced fs" and q: "\<not> hidden q"
  shows "(fs_content fs' q = fs_content fs q \<or> q = pb_path p \<and> pb_own p = Inr () \<and> fs_content fs' q = Some (pb_bytes p)) \<and>
    fs_left fs' q \<subseteq> fs_left fs q \<union> {fs_content fs' q} \<and> (fs_content fs' q \<noteq> None \<longrightarrow> q \<in> fs_synced fs')"
  using step
proof (cases rule: pub_step.cases)
  case (rename t)
  have h: "hidden t" using own_names_hidden [OF own] rename by (simp add: pub_temp_def)
  have r: "pb_own p = Inr ()" "fmlookup (fs_nodes fs) t = Some (File (pb_bytes p))" "t \<in> fs_synced fs"
    using ok rename by (simp_all add: temp_ok_def)
  have qt: "q \<noteq> t" using q h by auto
  show ?thesis
  proof (rule rename_temp [OF rename(3) h vis])
    fix c assume c: "fmlookup (fs_nodes fs) t = Some (File c)" "fmlookup (fs_nodes fs') (pb_path p) = Some (File c)"
      "\<And>r. r \<noteq> t \<Longrightarrow> r \<noteq> pb_path p \<Longrightarrow> fmlookup (fs_nodes fs') r = fmlookup (fs_nodes fs) r"
      "pb_path p \<in> fs_synced fs' \<longleftrightarrow> t \<in> fs_synced fs"
      "\<And>r. r \<noteq> t \<Longrightarrow> r \<noteq> pb_path p \<Longrightarrow> r \<in> fs_synced fs' \<longleftrightarrow> r \<in> fs_synced fs"
      "fs_left fs' (pb_path p) = fs_left fs (pb_path p) \<union> (if t \<in> fs_synced fs then {Some c} else UNIV)"
      "\<And>r. r \<noteq> pb_path p \<Longrightarrow> fs_left fs' r = fs_left fs r"
    show ?thesis
    proof (cases "q = pb_path p")
      case True
      then show ?thesis using r c by (simp add: fs_content_def)
    next
      case False
      with c(3) [OF qt] c(5) [OF qt] c(7) [of q] sy [rule_format, OF q] show ?thesis by (auto simp: fs_content_def)
    qed
  qed
next
  case (sync_dir t)
  then show ?thesis using sy [rule_format, OF q] by (auto simp: fs_content_def fs_sync_dir_def)
next
  case (opened t)
  then have "q \<noteq> t" using q by auto
  with opened sy [rule_format, OF q] show ?thesis by (auto simp: fs_content_def next_seq_def)
next
  case (written t n k)
  then have "q \<noteq> t" using q own_names_hidden [OF own] by (auto simp: pub_temp_def)
  with written sy [rule_format, OF q] show ?thesis by (auto simp: fs_content_def)
next
  case (sync t)
  then have "q \<noteq> t" using q own_names_hidden [OF own] by (auto simp: pub_temp_def)
  with sync sy [rule_format, OF q] show ?thesis by (auto simp: fs_content_def)
next
  case (discard t e)
  then have "q \<noteq> t" using q own_names_hidden [OF own] by (auto simp: pub_temp_def)
  with discard sy [rule_format, OF q] show ?thesis by (auto simp: fs_content_def)
qed (use sy [rule_format, OF q] in \<open>auto simp: fs_content_def next_seq_def\<close>)

lemma complete_update:
  assumes "i < length ps" and "pb_path p' = pb_path (ps ! i)" "pb_bytes p' = pb_bytes (ps ! i)" "pb_own p' = pb_own (ps ! i)"
  shows "complete (ps[i := p']) q = complete ps q"
proof -
  have rep: "complete xs q = {b. \<exists>j < length xs. b = pb_bytes (xs ! j) \<and> pb_path (xs ! j) = q \<and> pb_own (xs ! j) = Inr ()}" for xs
    by (auto simp: complete_def in_set_conv_nth)
  have "pb_path (ps[i := p'] ! j) = pb_path (ps ! j)" "pb_bytes (ps[i := p'] ! j) = pb_bytes (ps ! j)"
    "pb_own (ps[i := p'] ! j) = pb_own (ps ! j)" for j
    using assms by (cases "j = i"; simp)+
  then show ?thesis unfolding rep by simp
qed

lemma pub_step_fresh:
  assumes st: "pub_step p fs p' fs'" and own: "own_names fs r"
    and old: "pub_temp p \<noteq> None \<Longrightarrow> pub_temp p \<noteq> pub_temp r" and t: "pub_temp p' \<noteq> None"
  shows "pub_temp p' \<noteq> pub_temp r"
proof (cases "pub_temp p' = pub_temp p")
  case True
  then show ?thesis using old t by auto
next
  case False
  then have new: "pub_temp p' = Some (temp_path_for (pb_pid p) (fs_seq fs (pb_pid p)) (pb_path p))"
    using pub_step_temp [OF st] t by auto
  show ?thesis
  proof
    assume "pub_temp p' = pub_temp r"
    then obtain k where "k < fs_seq fs (pb_pid r)"
        "temp_path_for (pb_pid p) (fs_seq fs (pb_pid p)) (pb_path p) = temp_path_for (pb_pid r) k (pb_path r)"
      using own new unfolding own_names_def by metis
    with temp_path_inject show False by fastforce
  qed
qed

lemma pub_step_own:
  assumes st: "pub_step p fs p' fs'" and own: "own_names fs p"
  shows "own_names fs' p'"
proof (cases "pub_temp p' = pub_temp p")
  case True
  then show ?thesis using own_names_mono [OF own pub_step_seq [OF st]] pub_step_static [OF st] by (simp add: own_names_def)
next
  case False
  then show ?thesis using pub_step_temp [OF st] pub_step_static [OF st] by (auto simp: own_names_def)
qed

lemma pub_step_outcome:
  assumes st: "pub_step p fs p' fs'" and p: "\<not> hidden (pb_path p)" "own_names fs p" "temp_ok fs p"
    and sy: "\<forall>q. \<not> hidden q \<longrightarrow> fs_content fs q \<noteq> None \<longrightarrow> q \<in> fs_synced fs" and q: "\<not> hidden q"
    and mem: "q = pb_path p \<Longrightarrow> pb_own p = Inr () \<Longrightarrow> pb_bytes p \<in> C"
    and old: "fs_content fs q = c0 \<or> (\<exists>bs \<in> C. fs_content fs q = Some bs)" "fs_left fs q \<subseteq> insert c0 (Some ` C)"
  shows "(fs_content fs' q = c0 \<or> (\<exists>bs \<in> C. fs_content fs' q = Some bs)) \<and>
    fs_left fs' q \<subseteq> insert c0 (Some ` C) \<and> (fs_content fs' q \<noteq> None \<longrightarrow> q \<in> fs_synced fs')"
proof -
  note v = pub_step_visible [OF st p sy q]
  then have new: "fs_content fs' q = c0 \<or> (\<exists>bs \<in> C. fs_content fs' q = Some bs)" using old(1) mem by auto
  then have "fs_content fs' q \<in> insert c0 (Some ` C)" by auto
  then have "fs_left fs' q \<subseteq> insert c0 (Some ` C)" using v old(2) by (meson Un_least dual_order.trans empty_subsetI insert_subset)
  with new v show ?thesis by simp
qed

lemma publishers_inv_step:
  assumes inv: "publishers_inv fs0 (fs, ps)" and step: "publish_step (fs, ps) (fs', ps')"
  shows "publishers_inv fs0 (fs', ps')"
proof -
  obtain i p' where i: "i < length ps" and st: "pub_step (ps ! i) fs p' fs'" and ps': "ps' = ps[i := p']"
    using step by (auto elim: publish_stepE)
  let ?p = "ps ! i"
  have each: "\<not> hidden (pb_path (ps ! j))" "temp_ok fs (ps ! j)" "own_names fs (ps ! j)" if "j < length ps" for j
    using inv that by (simp_all add: publishers_inv_def)
  have apart: "pub_temp (ps ! j) \<noteq> pub_temp (ps ! k)" if "j < length ps" "k < length ps" "j \<noteq> k" "pub_temp (ps ! j) \<noteq> None" for j k
    using inv that by (simp add: publishers_inv_def)
  note p = each [OF i] and stat = pub_step_static [OF st]
  have fresh: "pub_temp p' \<noteq> pub_temp (ps ! j)" if j: "j < length ps" "j \<noteq> i" "pub_temp p' \<noteq> None" for j
    using pub_step_fresh [OF st each(3) [OF j(1)] _ j(3)] apart [OF i j(1)] j(2) by blast
  have others: "temp_ok fs' (ps ! j)" if j: "j < length ps" "j \<noteq> i" for j
  proof (rule temp_ok_frame [OF each(2) [OF j(1)]])
    fix t assume t: "pub_temp (ps ! j) = Some t"
    then have "pub_temp ?p \<noteq> Some t" "pub_temp p' \<noteq> Some t" using apart [OF j(1) i] fresh [OF j] j by auto
    then show "fmlookup (fs_nodes fs') t = fmlookup (fs_nodes fs) t \<and> (t \<in> fs_synced fs \<longrightarrow> t \<in> fs_synced fs')"
      using pub_step_others [OF st p(1,3) own_names_hidden [OF each(3) [OF j(1)] t]] by simp
  qed
  have "\<not> hidden (pb_path r) \<and> temp_ok fs' r \<and> own_names fs' r" if "r \<in> set ps'" for r
  proof -
    obtain j where j: "j < length ps" "r = ps' ! j" using \<open>r \<in> set ps'\<close> by (auto simp: in_set_conv_nth ps')
    show ?thesis
      using j i p(1) stat pub_step_own [OF st p(3)] pub_step_temp_ok [OF st p(2)] each [OF j(1)] others [OF j(1)]
        own_names_mono [OF each(3) [OF j(1)] pub_step_seq [OF st]]
      by (cases "j = i") (simp_all add: ps')
  qed
  moreover have "pub_temp (ps' ! j) \<noteq> pub_temp (ps' ! k)" if d: "j < length ps'" "k < length ps'" "j \<noteq> k" "pub_temp (ps' ! j) \<noteq> None" for j k
    using d i fresh [of j] fresh [of k] apart [of j k] by (cases "j = i"; cases "k = i") (auto simp: ps')
  moreover have "(fs_content fs' q = fs_content fs0 q \<or> (\<exists>bs \<in> complete ps' q. fs_content fs' q = Some bs)) \<and>
      fs_left fs' q \<subseteq> insert (fs_content fs0 q) (Some ` complete ps' q) \<and> (fs_content fs' q \<noteq> None \<longrightarrow> q \<in> fs_synced fs')"
    if q: "\<not> hidden q" for q
  proof -
    have c: "complete ps' q = complete ps q" unfolding ps' using i stat by (intro complete_update) simp_all
    have "q = pb_path ?p \<Longrightarrow> pb_own ?p = Inr () \<Longrightarrow> pb_bytes ?p \<in> complete ps q" using i by (auto simp: complete_def)
    then show ?thesis unfolding c using inv q unfolding publishers_inv_def prod.case
      by (intro pub_step_outcome [OF st p(1,3,2)]) blast+
  qed
  ultimately show ?thesis unfolding publishers_inv_def prod.case by blast
qed

lemma publishers_inv_start: "settled fs \<Longrightarrow> starting ps \<Longrightarrow> publishers_inv fs (fs, ps)"
  by (auto simp: publishers_inv_def settled_def starting_def temp_ok_def own_names_def pub_temp_def)

lemma publishers_inv_run:
  assumes "publish_step\<^sup>*\<^sup>* (fs, ps) s" and "settled fs" and "starting ps"
  shows "publishers_inv fs s"
  using assms(1)
proof (induction rule: rtranclp_induct)
  case base
  then show ?case using assms(2,3) by (rule publishers_inv_start)
next
  case (step s s')
  then show ?case using publishers_inv_step [of fs "fst s" "snd s" "fst s'" "snd s'"] by simp
qed

section \<open>One caller is a run of steps\<close>

definition pub_run :: "publisher \<times> file_system \<Rightarrow> publisher \<times> file_system \<Rightarrow> bool" where
  "pub_run = (\<lambda>s s'. pub_step (fst s) (snd s) (fst s') (snd s'))\<^sup>*\<^sup>*"

lemma pub_run_refl [simp]: "pub_run s s"
  by (simp add: pub_run_def)

lemma pub_run_trans: "pub_run s s' \<Longrightarrow> pub_run s' s'' \<Longrightarrow> pub_run s s''"
  by (simp add: pub_run_def)

lemma pub_run_step: "pub_step p fs p' fs' \<Longrightarrow> pub_run (p', fs') s \<Longrightarrow> pub_run (p, fs) s"
  unfolding pub_run_def by (rule converse_rtranclp_into_rtranclp) simp_all

lemma pub_run_two: "pub_step p fs p' f \<Longrightarrow> pub_step p' f p'' f' \<Longrightarrow> pub_run (p, fs) (p'', f')"
  by (blast intro: pub_run_step pub_run_refl)

lemma pub_run_publish:
  assumes "pub_run (p, fs) (p', fs')" and "i < length ps"
  shows "publish_step\<^sup>*\<^sup>* (fs, ps[i := p]) (fs', ps[i := p'])"
  using assms(1) unfolding pub_run_def
proof (induction "(p', fs')" arbitrary: p' fs' rule: rtranclp_induct)
  case (step s)
  have "publish_step (snd s, ps[i := fst s]) (fs', (ps[i := fst s])[i := p'])"
    using step(2) assms(2) by (intro publish_step.intros) simp_all
  then show ?case using step.hyps(3) [of "fst s" "snd s"] by simp
qed simp

lemma create_temp_run:
  "create_temp os pid path fs = (r, fs') \<Longrightarrow> pb_pc p = Naming \<Longrightarrow> pb_pid p = pid \<Longrightarrow> pb_path p = path \<Longrightarrow>
    pub_run (p, fs) (p\<lparr>pb_pc := (case r of Inl e \<Rightarrow> Finished (Inl e) | Inr t \<Rightarrow> Writing t 0)\<rparr>, fs')"
proof (induction os pid path fs rule: create_temp.induct)
  case (1 os pid path fs)
  let ?t = "temp_path_for pid (fs_seq fs pid) path"
  consider (err) "\<not> os_open os (fs_seq fs pid)" | (taken) "os_open os (fs_seq fs pid)" "fs_exists (next_seq pid fs) ?t"
    | (free) "os_open os (fs_seq fs pid)" "\<not> fs_exists (next_seq pid fs) ?t" by blast
  then show ?case
  proof cases
    case err
    then have "r = Inl (Io ''open'')" "fs' = next_seq pid fs" using 1(2) by (simp_all add: create_temp.simps [of os pid] Let_def)
    then show ?thesis using pub_step.open_fail [OF 1(3), of fs] 1(4) by (auto intro: pub_run_step)
  next
    case taken
    then have c: "create_temp os pid path (next_seq pid fs) = (r, fs')" using 1(2) by (simp add: create_temp.simps [of os pid path fs] Let_def)
    have "fs_exists fs ?t" using taken(2) by (simp add: fs_exists_def next_seq_def)
    then have "pub_step p fs p (next_seq pid fs)" using pub_step.name_taken [OF 1(3), of fs] 1(4,5) by simp
    moreover have "pub_run (p, next_seq pid fs) (p\<lparr>pb_pc := (case r of Inl e \<Rightarrow> Finished (Inl e) | Inr t \<Rightarrow> Writing t 0)\<rparr>, fs')"
      using 1(1) [OF refl refl refl] taken c 1(3-5) by simp
    ultimately show ?thesis by (rule pub_run_step)
  next
    case free
    then have "r = Inr ?t" "fs' = fs_create ?t (next_seq pid fs)" using 1(2) by (simp_all add: create_temp.simps [of os pid] Let_def)
    moreover have "\<not> fs_exists fs ?t" using free(2) by (simp add: fs_exists_def next_seq_def)
    then have "pub_step p fs (p\<lparr>pb_pc := Writing ?t 0\<rparr>) (fs_create ?t (next_seq pid fs))"
      using pub_step.opened [OF 1(3), of ?t fs] 1(4,5) by simp
    ultimately show ?thesis by (auto intro: pub_run_step)
  qed
qed

lemma write_temp_run:
  assumes "write_temp os t (bytes, own) fs = (r, fs')" and p: "pb_pc p = Writing t 0" "pb_bytes p = bytes" "pb_own p = own"
  shows "pub_run (p, fs) (p\<lparr>pb_pc := (case r of Inl e \<Rightarrow> Failing t e | Inr _ \<Rightarrow> Synced t)\<rparr>, fs')"
proof (cases "os_write os")
  case (Some k)
  let ?k = "min k (length bytes)"
  have w: "pub_step p fs (p\<lparr>pb_pc := Writing t ?k\<rparr>) (fs_append t (take k bytes) fs)"
    using pub_step.written [OF p(1), of ?k fs] p(2) by (cases "k \<le> length bytes") simp_all
  moreover have "r = Inl (Io ''write'')" "fs' = fs_append t (take k bytes) fs" using assms(1) Some by (simp_all add: write_temp_def)
  ultimately show ?thesis using pub_run_two [OF w pub_step.write_fail [of "p\<lparr>pb_pc := Writing t ?k\<rparr>" t ?k]] by simp
next
  case None
  let ?f = "fs_append t bytes fs" and ?p = "p\<lparr>pb_pc := Writing t (length bytes)\<rparr>"
  have w: "pub_step p fs ?p ?f" using pub_step.written [OF p(1), of "length bytes" fs] p(2) by simp
  show ?thesis
  proof (cases own)
    case (Inl e)
    then have "r = Inl e" "fs' = ?f" using assms(1) None by (simp_all add: write_temp_def Let_def)
    moreover have "pub_step ?p ?f (p\<lparr>pb_pc := Failing t e\<rparr>) ?f" using pub_step.own_fail [of ?p t "length bytes" e ?f] p(3) Inl by simp
    ultimately show ?thesis using pub_run_two [OF w] by simp
  next
    case (Inr u)
    then have f: "pub_step ?p ?f (p\<lparr>pb_pc := Flushed t\<rparr>) ?f" using pub_step.flush [of ?p t ?f] p(2,3) by simp
    show ?thesis
    proof (cases "os_sync os")
      case True
      then have "r = Inr ()" "fs' = fs_fsync t ?f" using assms(1) None Inr by (simp_all add: write_temp_def Let_def)
      moreover have "pub_step (p\<lparr>pb_pc := Flushed t\<rparr>) ?f (p\<lparr>pb_pc := Synced t\<rparr>) (fs_fsync t ?f)"
        using pub_step.sync [of "p\<lparr>pb_pc := Flushed t\<rparr>" t ?f] by simp
      ultimately show ?thesis using pub_run_step [OF w pub_run_two [OF f]] by simp
    next
      case False
      then have "r = Inl (Io ''sync_all'')" "fs' = ?f" using assms(1) None Inr by (simp_all add: write_temp_def Let_def)
      moreover have "pub_step (p\<lparr>pb_pc := Flushed t\<rparr>) ?f (p\<lparr>pb_pc := Failing t (Io ''sync_all'')\<rparr>) ?f"
        using pub_step.sync_fail [of "p\<lparr>pb_pc := Flushed t\<rparr>" t ?f] by simp
      ultimately show ?thesis using pub_run_step [OF w pub_run_two [OF f]] by simp
    qed
  qed
qed

lemma finalize_temp_run:
  assumes "finalize_temp os t path fs = (r, fs')" and p: "pb_pc p = Synced t" "pb_path p = path"
  shows "pub_run (p, fs) (p\<lparr>pb_pc := (case r of Inl e \<Rightarrow> Failing t e | Inr _ \<Rightarrow> Finished (Inr ()))\<rparr>, fs')"
proof (cases "if os_rename os then fs_rename t path fs else None")
  case None
  then have "r = Inl (Io ''rename'')" "fs' = fs" using assms(1) by (simp_all add: finalize_temp_def)
  then show ?thesis using pub_step.rename_fail [OF p(1), of fs] by (auto intro: pub_run_step)
next
  case (Some f)
  then have "fs_rename t path fs = Some f" by (simp split: if_splits)
  then have w: "pub_step p fs (p\<lparr>pb_pc := Renamed t\<rparr>) f" using pub_step.rename [OF p(1), of fs f] p(2) by simp
  let ?p = "p\<lparr>pb_pc := Renamed t\<rparr>"
  show ?thesis
  proof (cases "os_sync_dir os")
    case True
    then have "r = Inr ()" "fs' = fs_sync_dir (fst path) f" using assms(1) Some by (simp_all add: finalize_temp_def)
    with pub_run_two [OF w pub_step.sync_dir [of ?p t f]] p(2) show ?thesis by simp
  next
    case False
    then have "r = Inl (Io ''sync_parent'')" "fs' = f" using assms(1) Some by (simp_all add: finalize_temp_def)
    with pub_run_two [OF w pub_step.sync_dir_fail [of ?p t f]] show ?thesis by simp
  qed
qed

lemma discard_temp_run:
  "pb_pc p = Failing t e \<Longrightarrow> pub_run (p, fs) (p\<lparr>pb_pc := Finished (Inl e)\<rparr>, discard_temp os t fs)"
  using pub_step.discard [of p t e fs] pub_step.discard_fail [of p t e fs] by (auto simp: discard_temp_def intro: pub_run_step)

lemma atomic_write_run:
  assumes a: "atomic_write_with os pid path (bytes, own) fs = (r, fs')"
    and p: "p = \<lparr>pb_pid = pid, pb_path = path, pb_bytes = bytes, pb_own = own, pb_pc = Starting\<rparr>"
  shows "pub_run (p, fs) (p\<lparr>pb_pc := Finished r\<rparr>, fs')"
proof (cases "os_create_dir os")
  case False
  then show ?thesis using a pub_step.dirs_fail [of p fs] by (auto simp: p atomic_write_with_def intro: pub_run_step)
next
  case True
  let ?at = "\<lambda>pc. p\<lparr>pb_pc := pc\<rparr>"
  have start: "pub_run (p, fs) (?at Naming, fs)" using pub_step.dirs [of p fs] by (auto simp: p intro: pub_run_step)
  obtain r1 f1 where c: "create_temp os pid path fs = (r1, f1)" by fastforce
  have t: "pub_run (?at Naming, fs) (?at (case r1 of Inl e \<Rightarrow> Finished (Inl e) | Inr t \<Rightarrow> Writing t 0), f1)"
    using create_temp_run [OF c, of "?at Naming"] by (simp add: p)
  show ?thesis
  proof (cases r1)
    case (Inl e)
    then show ?thesis using a c True t pub_run_trans [OF start] by (auto simp: atomic_write_with_def)
  next
    case (Inr t)
    obtain r2 f2 where w: "write_temp os t (bytes, own) f1 = (r2, f2)" by fastforce
    have run2: "pub_run (p, fs) (?at (case r2 of Inl e \<Rightarrow> Failing t e | Inr _ \<Rightarrow> Synced t), f2)"
      using write_temp_run [OF w, of "?at (Writing t 0)"] pub_run_trans [OF pub_run_trans [OF start \<open>pub_run (?at Naming, fs) _\<close>]] Inr
      by (simp add: p)
    show ?thesis
    proof (cases r2)
      case (Inl e)
      with run2 discard_temp_run [of "?at (Failing t e)" t e f2 os] a c w True Inr show ?thesis
        by (auto simp: atomic_write_with_def intro: pub_run_trans)
    next
      case r2: (Inr u)
      obtain r3 f3 where f: "finalize_temp os t path f2 = (r3, f3)" by fastforce
      have run3: "pub_run (p, fs) (?at (case r3 of Inl e \<Rightarrow> Failing t e | Inr _ \<Rightarrow> Finished (Inr ())), f3)"
        using finalize_temp_run [OF f, of "?at (Synced t)"] run2 r2 by (auto simp: p intro: pub_run_trans)
      show ?thesis
      proof (cases r3)
        case (Inl e)
        with run3 discard_temp_run [of "?at (Failing t e)" t e f3 os] a c w f True Inr r2 show ?thesis
          by (auto simp: atomic_write_with_def intro: pub_run_trans)
      next
        case r3: (Inr u)
        with run3 a c w f True Inr r2 show ?thesis by (auto simp: atomic_write_with_def)
      qed
    qed
  qed
qed

end
