(* ===== verification/Rw_Publish.thy ===== *)
theory Rw_Publish
  imports Rw_Atomic
begin

text \<open>
  What \<^verbatim>\<open>atomic_write_with\<close> promises its callers: one call replaces the destination as a
  whole or leaves every visible file alone, and under any interleaving of callers, with any
  failures and a power loss at any moment, a reader of a visible name finds what was there
  before or one complete output.
\<close>

section \<open>What one call does to the visible files\<close>

text \<open>The abstract state: the contents of the visible files.\<close>

definition visible :: "file_system \<Rightarrow> file_path \<Rightarrow> u8 list option" where
  "visible fs q = (if hidden q then None else fs_content fs q)"

lemma visibleI: "(\<And>q. \<not> hidden q \<Longrightarrow> fmlookup (fs_nodes fs') q = fmlookup (fs_nodes fs) q) \<Longrightarrow> visible fs' = visible fs"
  by (simp add: visible_def fs_content_def fun_eq_iff)

lemma create_temp_effect:
  "create_temp os pid path fs = (r, fs') \<Longrightarrow>
    (\<forall>q. r \<noteq> Inr q \<longrightarrow> fmlookup (fs_nodes fs') q = fmlookup (fs_nodes fs) q) \<and> fs_left fs' = fs_left fs \<and>
    (\<forall>t. r = Inr t \<longrightarrow> hidden t \<and> fmlookup (fs_nodes fs) t = None \<and> fmlookup (fs_nodes fs') t = Some (File []))"
proof (induction os pid path fs rule: create_temp.induct)
  case (1 os pid path fs)
  let ?t = "temp_path_for pid (fs_seq fs pid) path" and ?f = "next_seq pid fs"
  have f: "fs_nodes ?f = fs_nodes fs" "fs_left ?f = fs_left fs" by (simp_all add: next_seq_def)
  consider (err) "\<not> os_open os (fs_seq fs pid)" | (taken) "os_open os (fs_seq fs pid)" "fs_exists ?f ?t"
    | (free) "os_open os (fs_seq fs pid)" "\<not> fs_exists ?f ?t" by blast
  then show ?case
  proof cases
    case err
    then have c: "r = Inl (Io ''open'')" "fs' = ?f" using 1(2) by (simp_all add: create_temp.simps [of os pid path fs] Let_def)
    show ?thesis unfolding c using f by simp
  next
    case taken
    then show ?thesis using 1(1) [OF refl refl refl] 1(2) f by (simp add: create_temp.simps [of os pid path fs] Let_def)
  next
    case free
    then have c: "r = Inr ?t" "fs' = fs_create ?t ?f"
      using 1(2) by (simp_all add: create_temp.simps [of os pid path fs] Let_def)
    show ?thesis unfolding c using free f by (simp del: split_paired_All add: fs_exists_def)
  qed
qed

lemma write_temp_effect:
  assumes "write_temp os t (bytes, own) fs = (r, fs')" and "fmlookup (fs_nodes fs) t = Some (File [])"
  shows "(\<forall>q. q \<noteq> t \<longrightarrow> fmlookup (fs_nodes fs') q = fmlookup (fs_nodes fs) q) \<and> fs_left fs' = fs_left fs"
    "r = Inr () \<Longrightarrow> own = Inr () \<and> fmlookup (fs_nodes fs') t = Some (File bytes) \<and> t \<in> fs_synced fs'"
  using assms by (auto simp: write_temp_def Let_def split: option.splits sum.splits if_splits)

lemma rename_visible:
  assumes "fs_rename t path fs = Some f" and "hidden t" "\<not> hidden path"
    and "fmlookup (fs_nodes fs) t = Some (File bytes)" and "t \<in> fs_synced fs"
  shows "visible f = (visible fs)(path \<mapsto> bytes) \<and> fs_content f path = Some bytes \<and> path \<in> fs_synced f"
proof (rule rename_temp [OF assms(1-3)])
  fix c assume c: "fmlookup (fs_nodes fs) t = Some (File c)" "fmlookup (fs_nodes f) path = Some (File c)"
    "\<And>r. r \<noteq> t \<Longrightarrow> r \<noteq> path \<Longrightarrow> fmlookup (fs_nodes f) r = fmlookup (fs_nodes fs) r" "path \<in> fs_synced f \<longleftrightarrow> t \<in> fs_synced fs"
  have "visible f q = ((visible fs)(path \<mapsto> bytes)) q" for q
    using c assms(2-4) by (cases "q = path"; cases "q = t") (auto simp: visible_def fs_content_def)
  then show ?thesis using c assms(4,5) by (simp add: fs_content_def fun_eq_iff)
qed

lemma finalize_temp_effect:
  assumes "finalize_temp os t path fs = (r, fs')" and "hidden t" "\<not> hidden path"
    and "fmlookup (fs_nodes fs) t = Some (File bytes)" and "t \<in> fs_synced fs"
  shows "visible fs' = visible fs \<and> r \<noteq> Inr () \<or> visible fs' = (visible fs)(path \<mapsto> bytes) \<and> (r = Inr () \<longrightarrow> fs_left fs' path = {Some bytes})"
proof (cases "if os_rename os then fs_rename t path fs else None")
  case None
  then show ?thesis using assms(1) by (auto simp: finalize_temp_def)
next
  case (Some f)
  then have f: "fs_rename t path fs = Some f" by (simp split: if_splits)
  have v: "visible (fs_sync_dir d f) = visible f" for d by (rule visibleI) simp
  show ?thesis using rename_visible [OF f assms(2-5)] Some assms(1) v
    by (auto simp: finalize_temp_def fs_sync_dir_def split: if_splits)
qed

lemma discard_temp_visible: "hidden t \<Longrightarrow> visible (discard_temp os t fs) = visible fs"
proof (rule visibleI)
  fix q assume "hidden t" "\<not> hidden q"
  then have "q \<noteq> t" by auto
  then show "fmlookup (fs_nodes (discard_temp os t fs)) q = fmlookup (fs_nodes fs) q" by (simp add: discard_temp_def)
qed

lemma atomic_write_visible:
  assumes a: "atomic_write_with os pid path (bytes, own) fs = (r, fs')" and vis: "\<not> hidden path"
  shows "visible fs' = visible fs \<and> r \<noteq> Inr () \<or> visible fs' = (visible fs)(path \<mapsto> bytes) \<and> own = Inr ()"
    "r = Inr () \<Longrightarrow> fs_left fs' path = {Some bytes}"
proof -
  have "(visible fs' = visible fs \<and> r \<noteq> Inr () \<or> visible fs' = (visible fs)(path \<mapsto> bytes) \<and> own = Inr ()) \<and>
      (r = Inr () \<longrightarrow> fs_left fs' path = {Some bytes})"
  proof (cases "os_create_dir os")
    case False
    then show ?thesis using a by (auto simp: atomic_write_with_def)
  next
    case True
    obtain r1 f1 where c: "create_temp os pid path fs = (r1, f1)" by fastforce
    note e1 = create_temp_effect [OF c]
    show ?thesis
    proof (cases r1)
      case (Inl e)
      then have "visible f1 = visible fs" using e1 by (intro visibleI) (metis sum.distinct(1))
      then show ?thesis using a c True Inl by (auto simp: atomic_write_with_def)
    next
      case (Inr t)
      then have t: "hidden t" "fmlookup (fs_nodes f1) t = Some (File [])" using e1 by simp_all
      obtain r2 f2 where w: "write_temp os t (bytes, own) f1 = (r2, f2)" by fastforce
      note e2 = write_temp_effect [OF w t(2)]
      have v2: "visible f2 = visible fs" using e1 e2(1) Inr t(1) by (intro visibleI) (metis sum.inject(2))
      show ?thesis
      proof (cases r2)
        case (Inl e)
        then show ?thesis using a c True Inr w v2 discard_temp_visible [OF t(1)] by (auto simp: atomic_write_with_def)
      next
        case r2: (Inr u)
        obtain r3 f3 where f: "finalize_temp os t path f2 = (r3, f3)" by fastforce
        have s: "own = Inr ()" "fmlookup (fs_nodes f2) t = Some (File bytes)" "t \<in> fs_synced f2" using e2(2) r2 by simp_all
        note e3 = finalize_temp_effect [OF f t(1) vis s(2,3)]
        show ?thesis
        proof (cases r3)
          case (Inl e)
          then show ?thesis using a c True Inr w r2 f e3 v2 s(1) discard_temp_visible [OF t(1)] by (auto simp: atomic_write_with_def)
        next
          case (Inr u')
          then show ?thesis using a c True \<open>r1 = Inr t\<close> w r2 f e3 v2 s(1) by (auto simp: atomic_write_with_def)
        qed
      qed
    qed
  qed
  then show "visible fs' = visible fs \<and> r \<noteq> Inr () \<or> visible fs' = (visible fs)(path \<mapsto> bytes) \<and> own = Inr ()"
    "r = Inr () \<Longrightarrow> fs_left fs' path = {Some bytes}" by blast+
qed

lemma create_temp_free:
  "os_open os (fs_seq fs pid) \<Longrightarrow> \<not> fs_exists fs (temp_path_for pid (fs_seq fs pid) path) \<Longrightarrow>
    create_temp os pid path fs =
      (Inr (temp_path_for pid (fs_seq fs pid) path), fs_create (temp_path_for pid (fs_seq fs pid) path) (next_seq pid fs))"
  by (simp add: create_temp.simps [of os pid path fs] Let_def fs_exists_def next_seq_def)

lemma atomic_write_free:
  assumes "os_create_dir os" "os_open os (fs_seq fs pid)" "os_write os = None" "os_sync os" "os_rename os" "os_sync_dir os"
    and "\<not> fs_exists fs (temp_path_for pid (fs_seq fs pid) path)" and "\<not> hidden path"
    and "fmlookup (fs_nodes fs) path \<noteq> Some Directory"
  shows "fst (atomic_write_with os pid path (bytes, Inr ()) fs) = Inr ()"
proof -
  let ?t = "temp_path_for pid (fs_seq fs pid) path"
  have "?t \<noteq> path" using assms(8) by (metis hidden_temp)
  then show ?thesis using assms create_temp_free [OF assms(2,7)]
    by (auto simp: atomic_write_with_def write_temp_def finalize_temp_def fs_rename_def next_seq_def)
qed

section \<open>The properties\<close>

text \<open>An empty file system and an operating system without failures, for the examples.\<close>

definition sample_os :: os_outcomes where
  "sample_os = \<lparr>os_create_dir = True, os_open = (\<lambda>_. True), os_write = None, os_sync = True, os_rename = True, os_sync_dir = True, os_remove = True\<rparr>"

definition sample_fs :: file_system where
  "sample_fs = \<lparr>fs_nodes = fmempty, fs_synced = {}, fs_left = (\<lambda>_. {None}), fs_seq = (\<lambda>_. 0)\<rparr>"

lemma sample_write: "\<not> hidden path \<Longrightarrow> fst (atomic_write_with sample_os pid path (bytes, Inr ()) sample_fs) = Inr ()"
  by (rule atomic_write_free) (simp_all add: sample_os_def sample_fs_def fs_exists_def)



lemma complete_step:
  assumes "publish_step s s'"
  shows "complete (snd s') = complete (snd s)"
  using assms
proof (cases rule: publish_step.cases)
  case (1 i ps fs p' fs')
  then show ?thesis using pub_step_static [OF 1(4)] complete_update [of i ps p'] by (simp add: fun_eq_iff)
qed

lemma complete_run: "publish_step\<^sup>*\<^sup>* s s' \<Longrightarrow> complete (snd s') = complete (snd s)"
  by (induction rule: rtranclp_induct) (simp_all add: complete_step)

text \<open>C6. Publication is atomic for every interleaving. Start any number of publishers on a
  settled file system and let them take any steps in any order, with any failures and any of
  them stopped for ever: the content a reader sees under a visible name, and every content a
  power loss at that moment may leave there, is the content before or the complete output of
  one publisher of that name, never a mixture or a prefix.\<close>

theorem publication_atomic:
  assumes "publish_step\<^sup>*\<^sup>* (fs0, ps0) (fs, ps)" and "settled fs0" and "starting ps0" and "\<not> hidden q"
  shows "insert (fs_content fs q) (fs_left fs q) \<subseteq> insert (fs_content fs0 q) (Some ` complete ps0 q)"
  using publishers_inv_run [OF assms(1-3)] complete_run [OF assms(1)] assms(4) unfolding publishers_inv_def prod.case
  by (auto simp del: split_paired_All)

theorem publication_atomic_witness:
  "let q = (''d'', ''a'');
       fs0 = \<lparr>fs_nodes = fmupd q (File [9]) fmempty, fs_synced = {q},
              fs_left = (\<lambda>p. {if p = q then Some [9] else None}), fs_seq = (\<lambda>_. 0)\<rparr>;
       ps0 = [\<lparr>pb_pid = 7, pb_path = q, pb_bytes = [1, 2], pb_own = Inr (), pb_pc = Starting\<rparr>,
              \<lparr>pb_pid = 8, pb_path = q, pb_bytes = [3], pb_own = Inr (), pb_pc = Starting\<rparr>]
   in \<exists>fs ps t. publish_step\<^sup>*\<^sup>* (fs0, ps0) (fs, ps) \<and> pb_pc (ps ! 0) = Writing t 1 \<and> pb_pc (ps ! 1) = Finished (Inr ()) \<and>
        fs_content fs q = Some [3] \<and> fs_left fs q \<subseteq> {Some [9], Some [1, 2], Some [3]}"
proof -
  let ?q = "(''d'', ''a'')"
  define fs0 where "fs0 = \<lparr>fs_nodes = fmupd ?q (File [9]) fmempty, fs_synced = {?q},
      fs_left = (\<lambda>p. {if p = ?q then Some [9] else None :: u8 list option}), fs_seq = (\<lambda>_. 0 :: nat)\<rparr>"
  define a where "a = \<lparr>pb_pid = 7, pb_path = ?q, pb_bytes = [1, 2 :: u8], pb_own = Inr () :: unit rw_result, pb_pc = Starting\<rparr>"
  define b where "b = \<lparr>pb_pid = 8, pb_path = ?q, pb_bytes = [3 :: u8], pb_own = Inr () :: unit rw_result, pb_pc = Starting\<rparr>"
  define t where "t = temp_path_for 7 0 ?q"
  define f1 where "f1 = fs_append t [1] (fs_create t (next_seq 7 fs0))"
  have "pub_step a fs0 (a\<lparr>pb_pc := Naming\<rparr>) fs0" by (rule pub_step.dirs) (simp add: a_def)
  moreover have "pub_step (a\<lparr>pb_pc := Naming\<rparr>) fs0 (a\<lparr>pb_pc := Writing t 0\<rparr>) (fs_create t (next_seq 7 fs0))"
    using pub_step.opened [of "a\<lparr>pb_pc := Naming\<rparr>" t fs0] by (simp add: a_def t_def fs0_def fs_exists_def temp_path_for_def)
  moreover have "pub_step (a\<lparr>pb_pc := Writing t 0\<rparr>) (fs_create t (next_seq 7 fs0)) (a\<lparr>pb_pc := Writing t 1\<rparr>) f1"
    using pub_step.written [of "a\<lparr>pb_pc := Writing t 0\<rparr>" t 0 1 "fs_create t (next_seq 7 fs0)"] by (simp add: a_def f1_def)
  ultimately have "pub_run (a, fs0) (a\<lparr>pb_pc := Writing t 1\<rparr>, f1)" by (blast intro: pub_run_step pub_run_refl)
  from pub_run_publish [OF this, of 0 "[a, b]"]
  have 1: "publish_step\<^sup>*\<^sup>* (fs0, [a, b]) (f1, [a\<lparr>pb_pc := Writing t 1\<rparr>, b])" by simp
  let ?os = "\<lparr>os_create_dir = True, os_open = (\<lambda>_. True), os_write = None, os_sync = True,
        os_rename = True, os_sync_dir = True, os_remove = True\<rparr>"
  obtain r f2 where w: "atomic_write_with ?os 8 ?q ([3], Inr ()) f1 = (r, f2)" by fastforce
  have "hidden t" "t \<noteq> ?q" "temp_path_for 8 0 ?q \<noteq> t" "temp_path_for 8 0 ?q \<noteq> ?q" unfolding t_def by (simp_all add: temp_path_inject) (simp_all add: temp_path_for_def)
  then have f: "fmlookup (fs_nodes f1) ?q = Some (File [9])" "fmlookup (fs_nodes f1) (temp_path_for 8 0 ?q) = None" "fs_seq f1 8 = 0"
    by (simp_all add: f1_def fs0_def next_seq_def)
  have h: "\<not> hidden ?q" by (simp add: hidden_def)
  have "fst (atomic_write_with ?os 8 ?q ([3], Inr ()) f1) = Inr ()"
    by (rule atomic_write_free) (simp_all add: f h fs_exists_def)
  then have r: "r = Inr ()" "fs_content f2 ?q = Some [3]"
    using w atomic_write_visible(1) [OF w h] by (auto simp: visible_def h dest: fun_cong [of _ _ ?q])
  from atomic_write_run [OF w, of b] have "pub_run (b, f1) (b\<lparr>pb_pc := Finished (Inr ())\<rparr>, f2)" by (simp add: b_def r)
  from pub_run_publish [OF this, of 1 "[a\<lparr>pb_pc := Writing t 1\<rparr>, b]"] 1
  have 2: "publish_step\<^sup>*\<^sup>* (fs0, [a, b]) (f2, [a\<lparr>pb_pc := Writing t 1\<rparr>, b\<lparr>pb_pc := Finished (Inr ())\<rparr>])" by simp
  have s: "settled fs0" "starting [a, b]" "\<not> hidden ?q"
    by (auto simp: settled_def fs0_def fs_content_def starting_def a_def b_def hidden_def)
  have "fs_left f2 ?q \<subseteq> {Some [9], Some [1, 2], Some [3]}"
    using publication_atomic [OF 2 s] by (auto simp: fs0_def fs_content_def complete_def a_def b_def)
  moreover have "pb_pc ([a\<lparr>pb_pc := Writing t 1\<rparr>, b\<lparr>pb_pc := Finished (Inr ())\<rparr>] ! 0) = Writing t 1"
    "pb_pc ([a\<lparr>pb_pc := Writing t 1\<rparr>, b\<lparr>pb_pc := Finished (Inr ())\<rparr>] ! 1) = Finished (Inr ())" by simp_all
  ultimately show ?thesis using 2 r(2) unfolding Let_def fs0_def a_def b_def by blast
qed

end
