(* ===== verification/Rw_Writer.thy ===== *)
theory Rw_Writer
  imports Rw_Atomic Rw_Open Rw_Codec
begin

text \<open>
  The hour writer (\<^verbatim>\<open>rw-store/src/writer.rs\<close>): staging of encoded chunks in memory or in
  a spill file, the three operations that add a variable, and \<open>finish\<close>, which numbers the
  deferred variables, sorts the index, assigns offsets and streams the file through
  \<open>atomic_write_with\<close>.

  The zstd encoder, the JSON serialiser and the package version are fields of the write
  environment, with the outcomes of the system calls on the spill file. The spill file is
  reached only through the open handle the writer holds, so its content is part of the
  writer; dropping the writer drops it. Parallel encoding keeps the order of the chunks,
  and is a map over them. A product of extents that the code does not check wraps, as in a
  release build; the vectors of chunk coordinates are assumed to fit in memory.
\<close>

section \<open>Staged chunks\<close>

record write_env =
  we_zstd :: "u8 list \<Rightarrow> u8 list option"
  we_to_json :: "rws_hour_meta \<Rightarrow> u8 list option"
  we_version :: string
  we_spill_create :: bool
  we_spill_write :: "nat \<Rightarrow> nat option"
  we_spill_read :: "u64 \<Rightarrow> bool"

record staged_chunk =
  sk_record :: chunk_record
  sk_compressed :: "u8 list"
  sk_spill_offset :: u64
  sk_deferred_index :: "u16 option"

record spill_file =
  sp_data :: "u8 list"
  sp_cursor :: u64

definition spill_create :: "write_env \<Rightarrow> spill_file rw_result" where
  "spill_create env = (if we_spill_create env then Inr \<lparr>sp_data = [], sp_cursor = 0\<rparr> else Inl (Io ''create spill''))"

text \<open>A failing write leaves a prefix of the bytes in the file and the cursor where it was.\<close>

definition spill_append :: "write_env \<Rightarrow> u8 list \<Rightarrow> spill_file \<Rightarrow> u64 rw_result \<times> spill_file" where
  "spill_append env bytes sp =
     (case we_spill_write env (length (sp_data sp)) of
        Some k \<Rightarrow> (Inl (Io ''write spill''), sp\<lparr>sp_data := sp_data sp @ take k bytes\<rparr>)
      | None \<Rightarrow> (Inr (sp_cursor sp),
          \<lparr>sp_data = sp_data sp @ bytes, sp_cursor = sp_cursor sp + of_nat (length bytes)\<rparr>))"

record hour_writer =
  hw_model :: string
  hw_run :: string
  hw_forecast_hour :: u16
  hw_exact_time :: "rws_exact_time option"
  hw_nx :: nat
  hw_ny :: nat
  hw_grid_hash :: string
  hw_writer_build :: string
  hw_variables :: "rws_variable_meta list"
  hw_deferred_variables :: "rws_variable_meta list"
  hw_chunks :: "staged_chunk list"
  hw_spill_dir :: "string option"
  hw_spill :: "spill_file option"

definition new_with_time :: "string \<Rightarrow> string \<Rightarrow> u16 \<Rightarrow> rws_exact_time option \<Rightarrow> nat \<Rightarrow> nat \<Rightarrow> string \<Rightarrow> string \<Rightarrow> hour_writer" where
  "new_with_time model run forecast_hour time nx ny grid_hash writer_build =
     \<lparr>hw_model = model, hw_run = run, hw_forecast_hour = forecast_hour, hw_exact_time = time, hw_nx = nx, hw_ny = ny,
      hw_grid_hash = grid_hash, hw_writer_build = writer_build, hw_variables = [], hw_deferred_variables = [],
      hw_chunks = [], hw_spill_dir = None, hw_spill = None\<rparr>"

definition new_writer :: "string \<Rightarrow> string \<Rightarrow> u16 \<Rightarrow> nat \<Rightarrow> nat \<Rightarrow> string \<Rightarrow> string \<Rightarrow> hour_writer" where
  "new_writer model run forecast_hour nx ny grid_hash writer_build =
     new_with_time model run forecast_hour None nx ny grid_hash writer_build"

definition new_exact :: "string \<Rightarrow> string \<Rightarrow> u16 \<Rightarrow> rws_exact_time \<Rightarrow> nat \<Rightarrow> nat \<Rightarrow> string \<Rightarrow> string \<Rightarrow> hour_writer" where
  "new_exact model run storage_slot time nx ny grid_hash writer_build =
     new_with_time model run storage_slot (Some time) nx ny grid_hash writer_build"

definition with_spill_dir :: "string \<Rightarrow> hour_writer \<Rightarrow> hour_writer" where
  "with_spill_dir dir w = w\<lparr>hw_spill_dir := Some dir\<rparr>"

text \<open>The loop over the chunks; the last component is what has been pushed so far.\<close>

fun spill_chunks :: "write_env \<Rightarrow> staged_chunk list \<Rightarrow> spill_file \<Rightarrow> staged_chunk list
    \<Rightarrow> unit rw_result \<times> spill_file \<times> staged_chunk list" where
  "spill_chunks env [] sp pushed = (Inr (), sp, pushed)"
| "spill_chunks env (c # cs) sp pushed =
     (case spill_append env (sk_compressed c) sp of
        (Inl e, sp) \<Rightarrow> (Inl e, sp, pushed)
      | (Inr offset, sp) \<Rightarrow> spill_chunks env cs sp (pushed @ [c\<lparr>sk_spill_offset := offset, sk_compressed := []\<rparr>]))"

definition stage_chunks :: "write_env \<Rightarrow> staged_chunk list \<Rightarrow> hour_writer \<Rightarrow> unit rw_result \<times> hour_writer" where
  "stage_chunks env encoded w =
     (case (if hw_spill_dir w \<noteq> None \<and> hw_spill w = None
            then r_bind (spill_create env) (\<lambda>sp. Inr (Some sp)) else Inr (hw_spill w)) of
        Inl e \<Rightarrow> (Inl e, w)
      | Inr None \<Rightarrow> (Inr (), w\<lparr>hw_chunks := hw_chunks w @ encoded\<rparr>)
      | Inr (Some sp) \<Rightarrow>
          (case spill_chunks env encoded sp (hw_chunks w) of
             (r, sp, chunks) \<Rightarrow> (r, w\<lparr>hw_spill := Some sp, hw_chunks := chunks\<rparr>)))"

section \<open>Adding variables\<close>

text \<open>A \<open>usize\<close> result that is not checked.\<close>

definition usize_wrap :: "nat \<Rightarrow> nat" where
  "usize_wrap n = n mod usize_bound"

definition next_var_id :: "string \<Rightarrow> hour_writer \<Rightarrow> u16 rw_result" where
  "next_var_id name w =
     (if \<exists>var \<in> set (hw_variables w @ hw_deferred_variables w). vm_name var = name
      then Inl (Format ''duplicate variable name'')
      else if length (hw_variables w) \<le> 65535 then Inr (of_nat (length (hw_variables w)))
      else Inl (Format ''too many variables''))"

definition compress_payload :: "write_env \<Rightarrow> u8 list \<Rightarrow> u8 list rw_result" where
  "compress_payload env payload = (if payload = [] then Inr [] else ok_or (we_zstd env payload) (Io ''zstd encode''))"

definition chunk_of :: "u16 \<Rightarrow> u8 \<Rightarrow> nat \<Rightarrow> nat \<Rightarrow> encoded_chunk \<Rightarrow> u8 list \<Rightarrow> u16 option \<Rightarrow> staged_chunk" where
  "chunk_of var_id kind ty tx chunk compressed deferred_index =
     \<lparr>sk_record = \<lparr>cr_var_id = var_id, cr_kind = kind, cr_flags = ec_flags chunk,
         cr_tile_y = of_nat ty, cr_tile_x = of_nat tx, cr_offset = 0,
         cr_len = of_nat (length compressed), cr_raw_len = of_nat (length (ec_payload chunk)),
         cr_center = ec_center chunk, cr_scale = ec_scale chunk, cr_min = ec_min chunk, cr_max = ec_max chunk,
         cr_valid_count = ec_valid_count chunk\<rparr>,
      sk_compressed = compressed, sk_spill_offset = 0, sk_deferred_index = deferred_index\<rparr>"

definition gather_tile :: "nat \<Rightarrow> nat \<Rightarrow> f32 list \<Rightarrow> nat \<Rightarrow> nat \<Rightarrow> f32 list rw_result" where
  "gather_tile nx ny values ty tx =
     (let y0 = ty * TILE_Y; x0 = tx * TILE_X; y1 = min (y0 + TILE_Y) ny; x1 = min (x0 + TILE_X) nx
      in r_bind (r_map (\<lambda>y. r_slice (usize_wrap (y * nx + x0)) (usize_wrap (y * nx + x1)) values) [y0..<y1])
           (\<lambda>rows. Inr (concat rows)))"

definition encode_tile :: "write_env \<Rightarrow> u16 \<Rightarrow> nat \<Rightarrow> nat \<Rightarrow> f32 list \<Rightarrow> nat \<times> nat \<Rightarrow> staged_chunk rw_result" where
  "encode_tile env var_id nx ny values = (\<lambda>(ty, tx).
     r_bind (gather_tile nx ny values ty tx) (\<lambda>tile.
     let chunk = encode_f32_tile tile
     in r_bind (compress_payload env (ec_payload chunk)) (\<lambda>compressed.
        Inr (chunk_of var_id KIND_TILE2D ty tx chunk compressed None))))"

definition add_surface2d :: "write_env \<Rightarrow> string \<Rightarrow> string \<Rightarrow> json \<Rightarrow> f32 list \<Rightarrow> hour_writer \<Rightarrow> u16 rw_result \<times> hour_writer" where
  "add_surface2d env name units selector values w =
     (let nx = hw_nx w; ny = hw_ny w
      in if length values \<noteq> usize_wrap (nx * ny) then (Inl (Format ''variable: expected values''), w)
      else case next_var_id name w of
        Inl e \<Rightarrow> (Inl e, w)
      | Inr var_id \<Rightarrow>
          (case r_map (encode_tile env var_id nx ny values)
              (List.product [0..<div_ceil ny TILE_Y] [0..<div_ceil nx TILE_X]) of
             Inl e \<Rightarrow> (Inl e, w)
           | Inr encoded \<Rightarrow>
               (case stage_chunks env encoded w of
                  (Inl e, w) \<Rightarrow> (Inl e, w)
                | (Inr _, w) \<Rightarrow> (Inr var_id, w\<lparr>hw_variables := hw_variables w @
                    [\<lparr>vm_id = var_id, vm_name = name, vm_units = units, vm_kind = ''surface2d'', vm_codec = CODEC_2D,
                      vm_levels_hpa = [], vm_selector = selector\<rparr>]\<rparr>))))"

definition validate_pressure3d :: "u16 list \<Rightarrow> f32 list list \<Rightarrow> hour_writer \<Rightarrow> unit rw_result" where
  "validate_pressure3d levels_hpa level_planes w =
     (if levels_hpa = [] then Inl (Format ''variable: levels_hpa must not be empty'')
      else if not_descending levels_hpa \<noteq> None then Inl (Format ''variable: levels_hpa must be strictly descending'')
      else if length level_planes \<noteq> length levels_hpa then Inl (Format ''variable: level planes'')
      else if \<exists>plane \<in> set level_planes. length plane \<noteq> usize_wrap (hw_nx w * hw_ny w)
      then Inl (Format ''variable level: expected values'') else Inr ())"

definition gather_columns :: "nat \<Rightarrow> nat \<Rightarrow> f32 list list \<Rightarrow> nat \<Rightarrow> nat \<Rightarrow> f32 list rw_result" where
  "gather_columns nx ny level_planes cy cx =
     (let y0 = cy * COL_Y; x0 = cx * COL_X; y1 = min (y0 + COL_Y) ny; x1 = min (x0 + COL_X) nx
      in r_bind (r_map (\<lambda>(gy, gx). r_map (\<lambda>plane. r_nth plane (usize_wrap (gy * nx + gx))) level_planes)
             (List.product [y0..<y1] [x0..<x1])) (\<lambda>cells. Inr (concat cells)))"

definition encode_column :: "write_env \<Rightarrow> u16 \<Rightarrow> u16 option \<Rightarrow> nat \<Rightarrow> nat \<Rightarrow> f32 list list \<Rightarrow> nat \<times> nat \<Rightarrow> staged_chunk rw_result" where
  "encode_column env var_id deferred_index nx ny level_planes = (\<lambda>(cy, cx).
     r_bind (gather_columns nx ny level_planes cy cx) (\<lambda>buffer.
     r_bind (encode_affine_i16 buffer) (\<lambda>chunk.
     r_bind (compress_payload env (ec_payload chunk)) (\<lambda>compressed.
       Inr (chunk_of var_id KIND_COLUMN3D cy cx chunk compressed deferred_index)))))"

definition encode_pressure3d_chunks :: "write_env \<Rightarrow> u16 \<Rightarrow> u16 option \<Rightarrow> f32 list list \<Rightarrow> hour_writer
    \<Rightarrow> unit rw_result \<times> hour_writer" where
  "encode_pressure3d_chunks env var_id deferred_index level_planes w =
     (case r_map (encode_column env var_id deferred_index (hw_nx w) (hw_ny w) level_planes)
         (List.product [0..<div_ceil (hw_ny w) COL_Y] [0..<div_ceil (hw_nx w) COL_X]) of
        Inl e \<Rightarrow> (Inl e, w)
      | Inr encoded \<Rightarrow> stage_chunks env encoded w)"

definition pressure_meta :: "u16 \<Rightarrow> string \<Rightarrow> string \<Rightarrow> json \<Rightarrow> u16 list \<Rightarrow> rws_variable_meta" where
  "pressure_meta var_id name units selector levels_hpa =
     \<lparr>vm_id = var_id, vm_name = name, vm_units = units, vm_kind = ''pressure3d'', vm_codec = CODEC_3D,
      vm_levels_hpa = levels_hpa, vm_selector = selector\<rparr>"

definition add_pressure3d :: "write_env \<Rightarrow> string \<Rightarrow> string \<Rightarrow> json \<Rightarrow> u16 list \<Rightarrow> f32 list list \<Rightarrow> hour_writer
    \<Rightarrow> u16 rw_result \<times> hour_writer" where
  "add_pressure3d env name units selector levels_hpa level_planes w =
     (case r_bind (validate_pressure3d levels_hpa level_planes w) (\<lambda>_. next_var_id name w) of
        Inl e \<Rightarrow> (Inl e, w)
      | Inr var_id \<Rightarrow>
          (case encode_pressure3d_chunks env var_id None level_planes w of
             (Inl e, w) \<Rightarrow> (Inl e, w)
           | (Inr _, w) \<Rightarrow>
               (Inr var_id, w\<lparr>hw_variables := hw_variables w @ [pressure_meta var_id name units selector levels_hpa]\<rparr>)))"

definition add_pressure3d_deferred :: "write_env \<Rightarrow> string \<Rightarrow> string \<Rightarrow> json \<Rightarrow> u16 list \<Rightarrow> f32 list list \<Rightarrow> hour_writer
    \<Rightarrow> unit rw_result \<times> hour_writer" where
  "add_pressure3d_deferred env name units selector levels_hpa level_planes w =
     (case r_bind (validate_pressure3d levels_hpa level_planes w) (\<lambda>_. next_var_id name w) of
        Inl e \<Rightarrow> (Inl e, w)
      | Inr _ \<Rightarrow>
          if length (hw_deferred_variables w) > 65535 then (Inl (Format ''too many deferred variables''), w)
          else let deferred_index = of_nat (length (hw_deferred_variables w))
               in case encode_pressure3d_chunks env deferred_index (Some deferred_index) level_planes w of
                    (Inl e, w) \<Rightarrow> (Inl e, w)
                  | (Inr _, w) \<Rightarrow> (Inr (), w\<lparr>hw_deferred_variables := hw_deferred_variables w @
                      [pressure_meta deferred_index name units selector levels_hpa]\<rparr>))"

section \<open>Finishing\<close>

text \<open>The final ids of the deferred variables and of their chunks.\<close>

definition number_deferred :: "nat \<Rightarrow> rws_variable_meta list \<Rightarrow> rws_variable_meta list rw_result" where
  "number_deferred normal_count deferred =
     r_map (\<lambda>(index, var). if normal_count + index \<le> 65535 then Inr (var\<lparr>vm_id := of_nat (normal_count + index)\<rparr>)
        else Inl (Format ''too many variables'')) (zip [0..<length deferred] deferred)"

definition renumber_chunk :: "nat \<Rightarrow> staged_chunk \<Rightarrow> staged_chunk rw_result" where
  "renumber_chunk normal_count c =
     (case sk_deferred_index c of
        None \<Rightarrow> Inr c
      | Some index \<Rightarrow>
          if normal_count + unat index \<le> 65535
          then Inr (c\<lparr>sk_record := (sk_record c)\<lparr>cr_var_id := of_nat (normal_count + unat index)\<rparr>\<rparr>)
          else Inl (Panicked ''deferred var id bounds checked above''))"

fun assign_offsets :: "u64 \<Rightarrow> staged_chunk list \<Rightarrow> staged_chunk list" where
  "assign_offsets cursor [] = []"
| "assign_offsets cursor (c # cs) =
     c\<lparr>sk_record := (sk_record c)\<lparr>cr_offset := cursor\<rparr>\<rparr> # assign_offsets (cursor + ucast (cr_len (sk_record c))) cs"

definition hour_meta_of :: "write_env \<Rightarrow> hour_writer \<Rightarrow> rws_variable_meta list \<Rightarrow> rws_hour_meta" where
  "hour_meta_of env w variables =
     \<lparr>hm_schema = (if hw_exact_time w \<noteq> None then SCHEMA_HOUR_V2 else SCHEMA_HOUR),
      hm_model = hw_model w, hm_run = hw_run w, hm_forecast_hour = hw_forecast_hour w,
      hm_lead_seconds = map_option et_lead_seconds (hw_exact_time w),
      hm_valid_unix = map_option et_valid_unix (hw_exact_time w),
      hm_nx = hw_nx w, hm_ny = hw_ny w, hm_grid_hash = hw_grid_hash w, hm_variables = variables,
      hm_chunking = \<lparr>ck_tile_y = TILE_Y, ck_tile_x = TILE_X, ck_col_y = COL_Y, ck_col_x = COL_X\<rparr>,
      hm_writer = \<lparr>wi_name = ''rw-store'', wi_version = we_version env, wi_build = hw_writer_build w\<rparr>\<rparr>"

text \<open>Everything \<open>finish\<close> computes before it writes: metadata, its bytes, header and chunks with offsets.\<close>

definition finish_layout :: "write_env \<Rightarrow> hour_writer \<Rightarrow> (rws_hour_meta \<times> u8 list \<times> rws_header \<times> staged_chunk list) rw_result" where
  "finish_layout env w =
     (if hw_nx w = 0 \<or> hw_ny w = 0 then Inl (Format ''degenerate grid'')
      else if (\<exists>t. hw_exact_time w = Some t \<and> origin_unix t = None)
      then Inl (Meta ''exact hour cannot represent valid_unix - lead_seconds'')
      else
        (let normal_count = length (hw_variables w)
         in r_bind (number_deferred normal_count (hw_deferred_variables w)) (\<lambda>deferred.
            r_bind (r_map (renumber_chunk normal_count) (hw_chunks w)) (\<lambda>chunks.
            let chunks = List.linorder_class.sort_key (\<lambda>c. sort_key (sk_record c)) chunks;
                meta = hour_meta_of env w (hw_variables w @ deferred)
            in r_bind (ok_or (we_to_json env meta) (Meta ''to_vec'')) (\<lambda>meta_bytes.
               if length meta_bytes \<ge> 2 ^ 32 then Inl (Format ''meta JSON too large'')
               else let header = for_layout (of_nat (length meta_bytes)) (of_nat (length chunks))
                    in Inr (meta, meta_bytes, header, assign_offsets (hd_payload_offset header) chunks))))))"

text \<open>\<open>seek\<close> and \<open>read_exact\<close> on the spill file.\<close>

definition spill_read :: "write_env \<Rightarrow> u64 \<Rightarrow> nat \<Rightarrow> spill_file \<Rightarrow> u8 list rw_result" where
  "spill_read env offset len sp =
     (if we_spill_read env offset then read_exact_at (unat offset) len (sp_data sp) else Inl (Io ''read spill''))"

text \<open>The bytes the closure passes to the buffered writer and its result.\<close>

fun emit_payload :: "write_env \<Rightarrow> spill_file option \<Rightarrow> staged_chunk list \<Rightarrow> u8 list \<times> unit rw_result" where
  "emit_payload env spill [] = ([], Inr ())"
| "emit_payload env spill (c # cs) =
     (let len = unat (cr_len (sk_record c))
      in if len = 0 then emit_payload env spill cs
         else case (case spill of Some sp \<Rightarrow> spill_read env (sk_spill_offset c) len sp | None \<Rightarrow> Inr (sk_compressed c)) of
                Inl e \<Rightarrow> ([], Inl e)
              | Inr bytes \<Rightarrow> (let (rest, r) = emit_payload env spill cs in (bytes @ rest, r)))"

definition emit_file :: "write_env \<Rightarrow> spill_file option \<Rightarrow> u8 list \<Rightarrow> rws_header \<Rightarrow> staged_chunk list \<Rightarrow> u8 list \<times> unit rw_result" where
  "emit_file env spill meta_bytes header chunks =
     (let (payload, r) = emit_payload env spill chunks
      in (pack_header header @ meta_bytes @ fold (\<lambda>c buf. pack_into (sk_record c) buf) chunks [] @ payload, r))"

definition finish :: "write_env \<Rightarrow> os_outcomes \<Rightarrow> nat \<Rightarrow> file_path \<Rightarrow> hour_writer \<Rightarrow> file_system
    \<Rightarrow> rws_hour_meta rw_result \<times> file_system" where
  "finish env os pid path w fs =
     (case finish_layout env w of
        Inl e \<Rightarrow> (Inl e, fs)
      | Inr (meta, meta_bytes, header, chunks) \<Rightarrow>
          (case atomic_write_with os pid path (emit_file env (hw_spill w) meta_bytes header chunks) fs of
             (Inl e, fs) \<Rightarrow> (Inl e, fs)
           | (Inr _, fs) \<Rightarrow> (Inr meta, fs)))"

end
