(* ===== verification/Rw_Writer_Facts.thy ===== *)
theory Rw_Writer_Facts
  imports Rw_Writer Rw_Open_Facts
begin

text \<open>
  What a writer holds after a sequence of additions: the variables in the order of
  addition, and one staged chunk per chunk of each variable, whose bytes are in memory or
  in the spill file. The invariant relates the writer to the list of its additions, each
  with its encoded chunks.
\<close>

section \<open>Additions\<close>

datatype add_op =
    is_surface: Surface (op_name: string) (op_units: string) (op_selector: json) (op_values: "f32 list")
  | Volume (op_name: string) (op_units: string) (op_selector: json) (op_levels: "u16 list") (op_planes: "f32 list list")
  | is_deferred: Deferred (op_name: string) (op_units: string) (op_selector: json) (op_levels: "u16 list") (op_planes: "f32 list list")

definition forget :: "'a rw_result \<times> hour_writer \<Rightarrow> unit rw_result \<times> hour_writer" where
  "forget = (\<lambda>(r, w). (r_bind r (\<lambda>_. Inr ()), w))"

fun add_one :: "write_env \<Rightarrow> add_op \<Rightarrow> hour_writer \<Rightarrow> unit rw_result \<times> hour_writer" where
  "add_one env (Surface n u s vs) w = forget (add_surface2d env n u s vs w)"
| "add_one env (Volume n u s ls ps) w = forget (add_pressure3d env n u s ls ps w)"
| "add_one env (Deferred n u s ls ps) w = forget (add_pressure3d_deferred env n u s ls ps w)"

fun add_all :: "write_env \<Rightarrow> add_op list \<Rightarrow> hour_writer \<Rightarrow> unit rw_result \<times> hour_writer" where
  "add_all env [] w = (Inr (), w)"
| "add_all env (op # ops) w = (case add_one env op w of (Inl e, w) \<Rightarrow> (Inl e, w) | (Inr _, w) \<Rightarrow> add_all env ops w)"

text \<open>The chunks of one addition before they get an id, its metadata, and when it is well-formed.\<close>

fun op_base :: "write_env \<Rightarrow> nat \<Rightarrow> nat \<Rightarrow> add_op \<Rightarrow> staged_chunk list rw_result" where
  "op_base env nx ny (Surface n u s vs) =
     r_map (encode_tile env 0 nx ny vs) (List.product [0..<div_ceil ny TILE_Y] [0..<div_ceil nx TILE_X])"
| "op_base env nx ny (Volume n u s ls ps) =
     r_map (encode_column env 0 None nx ny ps) (List.product [0..<div_ceil ny COL_Y] [0..<div_ceil nx COL_X])"
| "op_base env nx ny (Deferred n u s ls ps) =
     r_map (encode_column env 0 None nx ny ps) (List.product [0..<div_ceil ny COL_Y] [0..<div_ceil nx COL_X])"

fun op_meta :: "u16 \<Rightarrow> add_op \<Rightarrow> rws_variable_meta" where
  "op_meta i (Surface n u s vs) = \<lparr>vm_id = i, vm_name = n, vm_units = u, vm_kind = ''surface2d'', vm_codec = CODEC_2D,
     vm_levels_hpa = [], vm_selector = s\<rparr>"
| "op_meta i (Volume n u s ls ps) = pressure_meta i n u s ls"
| "op_meta i (Deferred n u s ls ps) = pressure_meta i n u s ls"

fun op_valid :: "nat \<Rightarrow> nat \<Rightarrow> add_op \<Rightarrow> bool" where
  "op_valid nx ny (Surface n u s vs) \<longleftrightarrow> length vs = usize_wrap (nx * ny)"
| "op_valid nx ny (Volume n u s ls ps) \<longleftrightarrow> ls \<noteq> [] \<and> sorted_wrt (>) ls \<and> length ps = length ls \<and>
     (\<forall>plane \<in> set ps. length plane = usize_wrap (nx * ny))"
| "op_valid nx ny (Deferred n u s ls ps) \<longleftrightarrow> ls \<noteq> [] \<and> sorted_wrt (>) ls \<and> length ps = length ls \<and>
     (\<forall>plane \<in> set ps. length plane = usize_wrap (nx * ny))"

lemma op_meta_simps [simp]:
  "vm_id (op_meta i op) = i" "vm_name (op_meta i op) = op_name op" "(op_meta i op)\<lparr>vm_id := j\<rparr> = op_meta j op"
  by (cases op; simp add: pressure_meta_def)+

lemma validate_pressure3d_Inr:
  "validate_pressure3d ls ps w = Inr () \<longleftrightarrow> ls \<noteq> [] \<and> sorted_wrt (>) ls \<and> length ps = length ls \<and>
     (\<forall>plane \<in> set ps. length plane = usize_wrap (hw_nx w * hw_ny w))"
  by (auto simp: validate_pressure3d_def not_descending_None)

section \<open>Chunks and their ids\<close>

definition retag :: "u16 \<Rightarrow> u16 option \<Rightarrow> staged_chunk \<Rightarrow> staged_chunk" where
  "retag i d c = c\<lparr>sk_record := (sk_record c)\<lparr>cr_var_id := i\<rparr>, sk_deferred_index := d\<rparr>"

lemma retag_simps [simp]:
  "sk_compressed (retag i d c) = sk_compressed c" "cr_len (sk_record (retag i d c)) = cr_len (sk_record c)"
  "sk_deferred_index (retag i d c) = d" "sk_record (retag i d c) = (sk_record c)\<lparr>cr_var_id := i\<rparr>"
  by (simp_all add: retag_def)

lemma r_map_bind:
  assumes "\<And>x. f x = r_bind (g x) (\<lambda>k. Inr (h k))"
  shows "r_map f xs = r_bind (r_map g xs) (\<lambda>ks. Inr (map h ks))"
proof (induction xs)
  case (Cons x xs)
  then show ?case using assms by (cases "g x"; cases "r_map g xs") simp_all
qed simp

lemma encode_tile_retag: "encode_tile env i nx ny vs c = r_bind (encode_tile env 0 nx ny vs c) (\<lambda>k. Inr (retag i None k))"
proof (cases c)
  case (Pair ty tx)
  show ?thesis
  proof (cases "gather_tile nx ny vs ty tx")
    case (Inr tile)
    then show ?thesis using Pair
      by (cases "compress_payload env (ec_payload (encode_f32_tile tile))") (simp_all add: encode_tile_def chunk_of_def retag_def Let_def)
  qed (simp add: Pair encode_tile_def)
qed

lemma encode_column_retag: "encode_column env i d nx ny ps c = r_bind (encode_column env 0 None nx ny ps c) (\<lambda>k. Inr (retag i d k))"
proof (cases c)
  case (Pair cy cx)
  show ?thesis
  proof (cases "gather_columns nx ny ps cy cx")
    case (Inr buffer)
    note v = this
    show ?thesis
    proof (cases "encode_affine_i16 buffer")
      case (Inr chunk)
      then show ?thesis using Pair v
        by (cases "compress_payload env (ec_payload chunk)") (simp_all add: encode_column_def chunk_of_def retag_def)
    qed (simp add: Pair v encode_column_def)
  qed (simp add: Pair encode_column_def)
qed

section \<open>Staging\<close>

definition chunk_bytes :: "spill_file option \<Rightarrow> staged_chunk \<Rightarrow> u8 list" where
  "chunk_bytes spill c = (case spill of None \<Rightarrow> sk_compressed c
     | Some sp \<Rightarrow> subslice (unat (sk_spill_offset c)) (unat (sk_spill_offset c) + unat (cr_len (sk_record c))) (sp_data sp))"

text \<open>A staged chunk as the rest of the writer sees it.\<close>

definition staged_view :: "spill_file option \<Rightarrow> staged_chunk \<Rightarrow> chunk_record \<times> u16 option \<times> u8 list" where
  "staged_view spill c = (sk_record c, sk_deferred_index c, chunk_bytes spill c)"

definition staged_len :: "staged_chunk list \<Rightarrow> nat" where
  "staged_len cs = sum_list (map (\<lambda>c. unat (cr_len (sk_record c))) cs)"

definition len_ok :: "staged_chunk \<Rightarrow> bool" where
  "len_ok c \<longleftrightarrow> unat (cr_len (sk_record c)) = length (sk_compressed c)"

definition spill_ok :: "spill_file \<Rightarrow> staged_chunk list \<Rightarrow> bool" where
  "spill_ok sp cs \<longleftrightarrow> sp_cursor sp = of_nat (length (sp_data sp)) \<and> length (sp_data sp) = staged_len cs \<and>
     (\<forall>c \<in> set cs. unat (sk_spill_offset c) + unat (cr_len (sk_record c)) \<le> length (sp_data sp))"

definition spill_inv :: "hour_writer \<Rightarrow> bool" where
  "spill_inv w \<longleftrightarrow> (case hw_spill w of None \<Rightarrow> hw_spill_dir w = None \<or> hw_chunks w = [] | Some sp \<Rightarrow> spill_ok sp (hw_chunks w))"

lemma staged_len_simps [simp]:
  "staged_len [] = 0" "staged_len (c # cs) = unat (cr_len (sk_record c)) + staged_len cs"
  "staged_len (cs @ ds) = staged_len cs + staged_len ds"
  by (simp_all add: staged_len_def)

lemma chunk_bytes_grow:
  "unat (sk_spill_offset c) + unat (cr_len (sk_record c)) \<le> length data \<Longrightarrow>
    chunk_bytes (Some \<lparr>sp_data = data @ rest, sp_cursor = k\<rparr>) c = chunk_bytes (Some \<lparr>sp_data = data, sp_cursor = l\<rparr>) c"
  by (simp add: chunk_bytes_def subslice_def)

lemma spill_chunks_ok:
  assumes "spill_chunks env encoded sp cs = (Inr (), sp', cs')" and "spill_ok sp cs" and "\<forall>c \<in> set encoded. len_ok c"
    and "staged_len cs' < 2 ^ 64"
  shows "spill_ok sp' cs' \<and> staged_len cs' = staged_len cs + staged_len encoded \<and>
    map (staged_view (Some sp')) cs' =
      map (staged_view (Some sp)) cs @ map (\<lambda>c. (sk_record c, sk_deferred_index c, sk_compressed c)) encoded"
  using assms
proof (induction encoded arbitrary: sp cs)
  case (Cons c encoded)
  obtain data cursor where sp: "sp = \<lparr>sp_data = data, sp_cursor = cursor\<rparr>" by (cases sp)
  let ?c = "c\<lparr>sk_spill_offset := cursor, sk_compressed := []\<rparr>"
  let ?sp = "\<lparr>sp_data = data @ sk_compressed c, sp_cursor = cursor + of_nat (length (sk_compressed c))\<rparr>"
  have w: "we_spill_write env (length data) = None"
    using Cons.prems(1) by (cases "we_spill_write env (length data)") (simp_all add: sp spill_append_def)
  then have rec: "spill_chunks env encoded ?sp (cs @ [?c]) = (Inr (), sp', cs')"
    using Cons.prems(1) by (simp add: sp spill_append_def)
  have lens: "unat (cr_len (sk_record c)) = length (sk_compressed c)" using Cons.prems(3) by (simp add: len_ok_def)
  have tot: "length data \<le> staged_len cs'"
  proof -
    have "staged_len ds \<le> staged_len ds'" if "spill_chunks env es s ds = (Inr (), s', ds')" for es s ds s' ds'
      using that by (induction es arbitrary: s ds) (fastforce split: prod.splits sum.splits)+
    from this [OF Cons.prems(1)] show ?thesis using Cons.prems(2) by (simp add: spill_ok_def sp)
  qed
  have cur: "unat cursor = length data"
    using Cons.prems(2,4) tot by (simp add: spill_ok_def sp unat_of_nat)
  have ok: "spill_ok ?sp (cs @ [?c])"
    using Cons.prems(2) lens cur by (auto simp: spill_ok_def sp)
  have "map (staged_view (Some ?sp)) cs = map (staged_view (Some sp)) cs"
    using Cons.prems(2) by (auto simp: spill_ok_def sp staged_view_def intro!: chunk_bytes_grow)
  moreover have "staged_view (Some ?sp) ?c = (sk_record c, sk_deferred_index c, sk_compressed c)"
    using lens cur by (simp add: staged_view_def chunk_bytes_def subslice_def)
  ultimately show ?case using Cons.IH [OF rec ok _ Cons.prems(4)] Cons.prems(3) by simp
qed simp

lemma stage_chunks_ok:
  assumes s: "stage_chunks env encoded w = (Inr (), w')" and inv: "spill_inv w" and len: "\<forall>c \<in> set encoded. len_ok c"
    and tot: "staged_len (hw_chunks w') < 2 ^ 64"
  shows "spill_inv w'" "w' = w\<lparr>hw_chunks := hw_chunks w', hw_spill := hw_spill w'\<rparr>"
    "map (staged_view (hw_spill w')) (hw_chunks w') =
      map (staged_view (hw_spill w)) (hw_chunks w) @ map (\<lambda>c. (sk_record c, sk_deferred_index c, sk_compressed c)) encoded"
    "staged_len (hw_chunks w') = staged_len (hw_chunks w) + staged_len encoded"
proof -
  consider (inline) "hw_spill w = None" "hw_spill_dir w = None" "w' = w\<lparr>hw_chunks := hw_chunks w @ encoded\<rparr>"
    | (spilled) sp sp' cs' where "spill_chunks env encoded sp (hw_chunks w) = (Inr (), sp', cs')" "spill_ok sp (hw_chunks w)"
        "w' = w\<lparr>hw_spill := Some sp', hw_chunks := cs'\<rparr>"
        "map (staged_view (Some sp)) (hw_chunks w) = map (staged_view (hw_spill w)) (hw_chunks w)"
  proof (cases "hw_spill w")
    case None
    show thesis
    proof (cases "hw_spill_dir w")
      case dir: (Some d)
      let ?sp = "\<lparr>sp_data = [], sp_cursor = 0\<rparr>"
      have e: "hw_chunks w = []" using inv None dir by (simp add: spill_inv_def)
      obtain r sp' cs' where c: "spill_chunks env encoded ?sp [] = (r, sp', cs')" by (metis prod_cases3)
      have "we_spill_create env" using s None dir by (auto simp: stage_chunks_def spill_create_def split: if_splits)
      then have "r = Inr ()" "w' = w\<lparr>hw_spill := Some sp', hw_chunks := cs'\<rparr>"
        using s None dir c e by (simp_all add: stage_chunks_def spill_create_def)
      with c e show thesis by (intro spilled [of ?sp sp' cs']) (simp_all add: spill_ok_def)
    qed (use s None inline in \<open>simp add: stage_chunks_def\<close>)
  next
    case (Some sp)
    obtain r sp' cs' where c: "spill_chunks env encoded sp (hw_chunks w) = (r, sp', cs')" by (metis prod_cases3)
    then have "r = Inr ()" "w' = w\<lparr>hw_spill := Some sp', hw_chunks := cs'\<rparr>" using s Some by (simp_all add: stage_chunks_def)
    with c Some inv show thesis by (intro spilled [of sp sp' cs']) (simp_all add: spill_inv_def)
  qed
  then have "spill_inv w' \<and> w' = w\<lparr>hw_chunks := hw_chunks w', hw_spill := hw_spill w'\<rparr> \<and>
    map (staged_view (hw_spill w')) (hw_chunks w') =
      map (staged_view (hw_spill w)) (hw_chunks w) @ map (\<lambda>c. (sk_record c, sk_deferred_index c, sk_compressed c)) encoded \<and>
    staged_len (hw_chunks w') = staged_len (hw_chunks w) + staged_len encoded"
  proof cases
    case inline
    then show ?thesis by (simp add: spill_inv_def staged_view_def chunk_bytes_def)
  next
    case spilled
    then show ?thesis using spill_chunks_ok [OF spilled(1,2) len] tot by (simp add: spill_inv_def)
  qed
  then show "spill_inv w'" "w' = w\<lparr>hw_chunks := hw_chunks w', hw_spill := hw_spill w'\<rparr>"
    "map (staged_view (hw_spill w')) (hw_chunks w') =
      map (staged_view (hw_spill w)) (hw_chunks w) @ map (\<lambda>c. (sk_record c, sk_deferred_index c, sk_compressed c)) encoded"
    "staged_len (hw_chunks w') = staged_len (hw_chunks w) + staged_len encoded" by blast+
qed

section \<open>The values of a chunk\<close>

text \<open>The values of the piece \<open>(ty, tx)\<close> of a row-major field, row by row.\<close>

definition piece_cells :: "nat \<Rightarrow> nat \<Rightarrow> nat \<Rightarrow> nat \<Rightarrow> nat \<Rightarrow> nat \<Rightarrow> (nat \<times> nat) list" where
  "piece_cells h w nx ny ty tx = List.product [ty * h..<min (ty * h + h) ny] [tx * w..<min (tx * w + w) nx]"

lemma usize_wrap_small: "n < usize_bound \<Longrightarrow> usize_wrap n = n"
  by (simp add: usize_wrap_def)

lemma cell_index: "y < ny \<Longrightarrow> x < nx \<Longrightarrow> y * nx + x < nx * (ny :: nat)"
proof -
  assume "y < ny" "x < nx"
  then have "y * nx + x < (y + 1) * nx" by simp
  also have "\<dots> \<le> ny * nx" using \<open>y < ny\<close> by (intro mult_right_mono) simp_all
  finally show ?thesis by (simp add: mult.commute)
qed

lemma row_slice:
  assumes "length vs = nx * ny" and "nx * ny < usize_bound" and "y < ny" and "a \<le> b" and "b \<le> nx"
  shows "r_slice (usize_wrap (y * nx + a)) (usize_wrap (y * nx + b)) vs = Inr (map (\<lambda>x. vs ! (y * nx + x)) [a..<b])"
proof -
  have "(y + 1) * nx \<le> ny * nx" using assms(3) by (intro mult_right_mono) simp_all
  then have le: "y * nx + b \<le> nx * ny" using assms(5) by (simp add: mult.commute)
  have "subslice (y * nx + a) (y * nx + b) vs = map (\<lambda>x. vs ! (y * nx + x)) [a..<b]"
    using le assms(1,4) by (intro nth_equalityI) (simp_all add: subslice_def add.assoc)
  then show ?thesis using assms le by (simp add: r_slice_def subslice_ok_def usize_wrap_small)
qed

lemma r_map_all_Inr: "(\<And>x. x \<in> set xs \<Longrightarrow> f x = Inr (g x)) \<Longrightarrow> r_map f xs = Inr (map g xs)"
  by (induction xs) simp_all

lemma concat_rows: "concat (map (\<lambda>y. map (f y) xs) ys) = map (\<lambda>(y, x). f y x) (List.product ys xs)"
  by (induction ys) simp_all

lemma gather_tile_ok:
  assumes "length vs = nx * ny" and "nx * ny < usize_bound" and "tx < div_ceil nx TILE_X"
  shows "gather_tile nx ny vs ty tx = Inr (map (\<lambda>(y, x). vs ! (y * nx + x)) (piece_cells TILE_Y TILE_X nx ny ty tx))"
proof -
  have x: "tx * TILE_X \<le> min (tx * TILE_X + TILE_X) nx" using assms(3) by (simp add: less_div_ceil_iff geometry_consts)
  have "r_map (\<lambda>y. r_slice (usize_wrap (y * nx + tx * TILE_X)) (usize_wrap (y * nx + min (tx * TILE_X + TILE_X) nx)) vs)
      [ty * TILE_Y..<min (ty * TILE_Y + TILE_Y) ny] =
    Inr (map (\<lambda>y. map (\<lambda>x. vs ! (y * nx + x)) [tx * TILE_X..<min (tx * TILE_X + TILE_X) nx])
      [ty * TILE_Y..<min (ty * TILE_Y + TILE_Y) ny])"
    by (rule r_map_all_Inr) (rule row_slice [OF assms(1,2) _ x], simp_all)
  then show ?thesis by (simp add: gather_tile_def piece_cells_def concat_rows Let_def)
qed

lemma gather_columns_ok:
  assumes "\<forall>p \<in> set ps. length p = nx * ny" and "nx * ny < usize_bound"
  shows "gather_columns nx ny ps cy cx = Inr (concat (map (\<lambda>(y, x). map (\<lambda>p. p ! (y * nx + x)) ps) (piece_cells COL_Y COL_X nx ny cy cx)))"
proof -
  have "r_map (\<lambda>(gy, gx). r_map (\<lambda>plane. r_nth plane (usize_wrap (gy * nx + gx))) ps) (piece_cells COL_Y COL_X nx ny cy cx) =
    Inr (map (\<lambda>(y, x). map (\<lambda>p. p ! (y * nx + x)) ps) (piece_cells COL_Y COL_X nx ny cy cx))"
  proof (rule r_map_all_Inr, clarify)
    fix y x assume "(y, x) \<in> set (piece_cells COL_Y COL_X nx ny cy cx)"
    then have "y * nx + x < nx * ny" by (intro cell_index) (auto simp: piece_cells_def)
    then show "r_map (\<lambda>plane. r_nth plane (usize_wrap (y * nx + x))) ps = Inr (map (\<lambda>p. p ! (y * nx + x)) ps)"
      using assms by (intro r_map_all_Inr) (auto simp: r_nth_def usize_wrap_small)
  qed
  then show ?thesis by (simp add: gather_columns_def piece_cells_def Let_def)
qed

lemma length_piece_cells: "length (piece_cells h w nx ny ty tx) = min (ny - ty * h) h * min (nx - tx * w) w"
proof -
  have "min (a + s) n - a = min (n - a) s" for a s n :: nat by (auto simp: min_def)
  then show ?thesis by (simp add: piece_cells_def)
qed

lemma length_piece_le: "length (piece_cells h w nx ny ty tx) \<le> h * w"
  unfolding length_piece_cells by (intro mult_le_mono) simp_all

section \<open>The encoder of the payloads\<close>

text \<open>The documented bound of the compressor: the worst case adds a small overhead.\<close>

definition zstd_bound :: "write_env \<Rightarrow> bool" where
  "zstd_bound env \<longleftrightarrow> (\<forall>bs c. we_zstd env bs = Some c \<longrightarrow> length c \<le> length bs + length bs div 256 + 1024)"

lemma compress_payload_length:
  "zstd_bound env \<Longrightarrow> compress_payload env p = Inr c \<Longrightarrow> length c \<le> length p + length p div 256 + 1024"
  by (auto simp: compress_payload_def zstd_bound_def ok_or_eq_Inr split: if_splits)

lemma tile_payload_length: "length (ec_payload (encode_f32_tile vs)) \<le> 4 * length vs"
  by (simp add: encode_f32_tile_def Let_def empty_chunk_def)

lemma affine_payload_length: "encode_affine_i16 vs = Inr c \<Longrightarrow> length (ec_payload c) \<le> 2 * length vs"
  by (auto simp: encode_affine_i16_def Let_def empty_chunk_def split: if_splits)

lemma descending_u16_length: "sorted_wrt (>) ls \<Longrightarrow> length ls \<le> 65536" for ls :: "u16 list"
proof -
  assume "sorted_wrt (>) ls"
  then have "distinct ls" by (induction ls) auto
  then have "length ls = card (set ls)" by (simp add: distinct_card)
  also have "\<dots> \<le> card (UNIV :: u16 set)" by (rule card_mono) simp_all
  finally show ?thesis by (simp add: card_word)
qed

lemma chunk_of_simps [simp]:
  "sk_compressed (chunk_of i k ty tx e c d) = c" "sk_deferred_index (chunk_of i k ty tx e c d) = d"
  "cr_len (sk_record (chunk_of i k ty tx e c d)) = of_nat (length c)"
  by (simp_all add: chunk_of_def)

lemma len_ok_chunk_of: "length c < 2 ^ 32 \<Longrightarrow> len_ok (chunk_of i k ty tx e c d)"
  by (simp add: len_ok_def unat_of_nat)

lemma small_compressed:
  assumes "zstd_bound env" and "compress_payload env p = Inr c" and "length p \<le> 2 ^ 25"
  shows "length c < 2 ^ 32"
  using compress_payload_length [OF assms(1,2)] assms(3) by simp

lemma encode_tile_len_ok:
  assumes "encode_tile env i nx ny vs (ty, tx) = Inr k" and "zstd_bound env"
    and "length vs = nx * ny" and "nx * ny < usize_bound" and "tx < div_ceil nx TILE_X"
  shows "len_ok k"
proof -
  let ?t = "map (\<lambda>(y, x). vs ! (y * nx + x)) (piece_cells TILE_Y TILE_X nx ny ty tx)"
  obtain c where c: "compress_payload env (ec_payload (encode_f32_tile ?t)) = Inr c"
      and k: "k = chunk_of i KIND_TILE2D ty tx (encode_f32_tile ?t) c None"
    using assms(1) gather_tile_ok [OF assms(3-5), of ty] by (auto simp: encode_tile_def r_bind_eq_Inr Let_def)
  have "length ?t \<le> 65536" using length_piece_le [of TILE_Y TILE_X] by (simp add: geometry_consts)
  then have "length (ec_payload (encode_f32_tile ?t)) \<le> 2 ^ 25" using tile_payload_length [of ?t] by simp
  then show ?thesis unfolding k by (intro len_ok_chunk_of small_compressed [OF assms(2) c])
qed

lemma length_concat_columns: "length (concat (map (\<lambda>(y, x). map (f y x) ps) cells)) = length ps * length cells"
  by (induction cells) (auto simp: algebra_simps)

lemma encode_column_len_ok:
  assumes "encode_column env i d nx ny ps (cy, cx) = Inr k" and "zstd_bound env"
    and "\<forall>p \<in> set ps. length p = nx * ny" and "nx * ny < usize_bound" and "length ps \<le> 65536"
  shows "len_ok k"
proof -
  let ?b = "concat (map (\<lambda>(y, x). map (\<lambda>p. p ! (y * nx + x)) ps) (piece_cells COL_Y COL_X nx ny cy cx))"
  obtain e c where e: "encode_affine_i16 ?b = Inr e" and c: "compress_payload env (ec_payload e) = Inr c"
      and k: "k = chunk_of i KIND_COLUMN3D cy cx e c d"
    using assms(1) gather_columns_ok [OF assms(3,4), of cy cx] by (auto simp: encode_column_def r_bind_eq_Inr)
  have "length (piece_cells COL_Y COL_X nx ny cy cx) \<le> 256" using length_piece_le [of COL_Y COL_X] by (simp add: geometry_consts)
  then have "length ps * length (piece_cells COL_Y COL_X nx ny cy cx) \<le> 65536 * 256" using assms(5) by (intro mult_le_mono) simp_all
  then have "length ?b \<le> 65536 * 256" by (simp only: length_concat_columns)
  then have "length (ec_payload e) \<le> 2 ^ 25" using affine_payload_length [OF e] by simp
  then show ?thesis unfolding k by (intro len_ok_chunk_of small_compressed [OF assms(2) c])
qed

lemma r_map_source: "r_map f xs = Inr ys \<Longrightarrow> y \<in> set ys \<Longrightarrow> \<exists>x \<in> set xs. f x = Inr y"
  unfolding r_map_eq_Inr list_all2_conv_all_nth in_set_conv_nth by (metis nth_mem)

lemma op_base_len_ok:
  assumes base: "op_base env nx ny op = Inr base" and z: "zstd_bound env" and v: "op_valid nx ny op" and g: "nx * ny < usize_bound"
  shows "\<forall>c \<in> set base. len_ok c"
proof
  fix c assume c: "c \<in> set base"
  have col: "len_ok c" if b: "r_map (encode_column env 0 None nx ny ps) coords = Inr base" and d: "sorted_wrt (>) ls" and p: "length ps = length ls"
      "\<forall>p \<in> set ps. length p = nx * ny" for ps coords and ls :: "u16 list"
  proof -
    obtain q where "encode_column env 0 None nx ny ps q = Inr c"
      using r_map_source [OF b c] by blast
    then show ?thesis using encode_column_len_ok [of env 0 None nx ny ps "fst q" "snd q" c] z g p descending_u16_length [OF d]
      by simp
  qed
  show "len_ok c"
  proof (cases op)
    case (Surface n u s vs)
    then obtain ty tx where "tx < div_ceil nx TILE_X" "encode_tile env 0 nx ny vs (ty, tx) = Inr c"
      using base r_map_source [OF _ c] by fastforce
    then show ?thesis using encode_tile_len_ok [of env 0 nx ny vs ty tx c] z g v Surface by (simp add: usize_wrap_small)
  qed (use base v g col in \<open>auto simp: usize_wrap_small\<close>)
qed

section \<open>One addition\<close>

definition op_tag :: "add_op \<Rightarrow> nat \<Rightarrow> nat \<Rightarrow> u16 \<times> u16 option" where
  "op_tag op normals defs = (if is_deferred op then (of_nat defs, Some (of_nat defs)) else (of_nat normals, None))"

definition tag_chunks :: "u16 \<times> u16 option \<Rightarrow> staged_chunk list \<Rightarrow> staged_chunk list" where
  "tag_chunks t = map (retag (fst t) (snd t))"

definition push_meta :: "u16 \<Rightarrow> add_op \<Rightarrow> hour_writer \<Rightarrow> hour_writer" where
  "push_meta i op w = (if is_deferred op then w\<lparr>hw_deferred_variables := hw_deferred_variables w @ [op_meta i op]\<rparr>
     else w\<lparr>hw_variables := hw_variables w @ [op_meta i op]\<rparr>)"

definition has_room :: "add_op \<Rightarrow> hour_writer \<Rightarrow> bool" where
  "has_room op w \<longleftrightarrow> op_name op \<notin> vm_name ` set (hw_variables w @ hw_deferred_variables w) \<and>
     length (hw_variables w) \<le> 65535 \<and> (is_deferred op \<longrightarrow> length (hw_deferred_variables w) \<le> 65535)"

lemma next_var_id_image:
  "next_var_id name w = (if name \<in> vm_name ` set (hw_variables w @ hw_deferred_variables w) then Inl (Format ''duplicate variable name'')
     else if length (hw_variables w) \<le> 65535 then Inr (of_nat (length (hw_variables w))) else Inl (Format ''too many variables''))"
  by (auto simp: next_var_id_def image_iff)

lemma stage_static:
  "stage_chunks env encoded w = (r, w') \<Longrightarrow> hw_variables w' = hw_variables w \<and> hw_deferred_variables w' = hw_deferred_variables w \<and>
    hw_nx w' = hw_nx w \<and> hw_ny w' = hw_ny w"
  by (auto simp: stage_chunks_def split: sum.splits option.splits prod.splits)

text \<open>An addition succeeds exactly when it is well-formed, has room, encodes, and its chunks are staged.\<close>

lemma add_one_Inr:
  "add_one env op w = (Inr (), w') \<longleftrightarrow> op_valid (hw_nx w) (hw_ny w) op \<and> has_room op w \<and>
    (\<exists>base w1. op_base env (hw_nx w) (hw_ny w) op = Inr base \<and>
      stage_chunks env (tag_chunks (op_tag op (length (hw_variables w)) (length (hw_deferred_variables w))) base) w = (Inr (), w1) \<and>
      w' = push_meta (fst (op_tag op (length (hw_variables w)) (length (hw_deferred_variables w)))) op w1)"
proof (cases op)
  case (Surface n u s vs)
  let ?i = "of_nat (length (hw_variables w)) :: u16"
  have m: "r_map (encode_tile env ?i (hw_nx w) (hw_ny w) vs) xs =
      r_bind (r_map (encode_tile env 0 (hw_nx w) (hw_ny w) vs) xs) (\<lambda>ks. Inr (map (retag ?i None) ks))" for xs
    by (rule r_map_bind) (rule encode_tile_retag)
  show ?thesis
    by (auto simp: Surface forget_def add_surface2d_def Let_def next_var_id_image has_room_def m op_tag_def tag_chunks_def push_meta_def
        r_bind_eq_Inr split: sum.splits prod.splits if_splits)
next
  case (Volume n u s ls ps)
  let ?i = "of_nat (length (hw_variables w)) :: u16"
  have m: "r_map (encode_column env ?i None (hw_nx w) (hw_ny w) ps) xs =
      r_bind (r_map (encode_column env 0 None (hw_nx w) (hw_ny w) ps) xs) (\<lambda>ks. Inr (map (retag ?i None) ks))" for xs
    by (rule r_map_bind) (rule encode_column_retag)
  show ?thesis using validate_pressure3d_Inr [of ls ps w]
    by (cases "validate_pressure3d ls ps w") (auto simp: Volume forget_def add_pressure3d_def encode_pressure3d_chunks_def next_var_id_image has_room_def m op_tag_def
        tag_chunks_def push_meta_def r_bind_eq_Inr split: sum.splits prod.splits if_splits)
next
  case (Deferred n u s ls ps)
  let ?i = "of_nat (length (hw_deferred_variables w)) :: u16"
  have m: "r_map (encode_column env ?i (Some ?i) (hw_nx w) (hw_ny w) ps) xs =
      r_bind (r_map (encode_column env 0 None (hw_nx w) (hw_ny w) ps) xs) (\<lambda>ks. Inr (map (retag ?i (Some ?i)) ks))" for xs
    by (rule r_map_bind) (rule encode_column_retag)
  show ?thesis using validate_pressure3d_Inr [of ls ps w]
    by (cases "validate_pressure3d ls ps w") (auto simp: Deferred forget_def add_pressure3d_deferred_def encode_pressure3d_chunks_def next_var_id_image has_room_def m op_tag_def
        tag_chunks_def push_meta_def r_bind_eq_Inr Let_def
        split: sum.splits prod.splits if_splits)
qed

end
