(* ===== verification/Rw_Writer_Layout.thy ===== *)
theory Rw_Writer_Layout
  imports Rw_Writer_Facts Rw_Lookup "HOL-Library.Multiset"
begin

text \<open>
  The file a writer produces, as a function of its additions: the normal variables in the
  order of addition, then the deferred ones, their chunks in that order and row by row.
  The invariant of the writer under additions, and \<open>finish\<close> as this function.
\<close>

section \<open>Additions with their chunks\<close>

type_synonym entry = "add_op \<times> staged_chunk list"

definition normals :: "entry list \<Rightarrow> entry list" where
  "normals es = filter (\<lambda>e. \<not> is_deferred (fst e)) es"

definition defers :: "entry list \<Rightarrow> entry list" where
  "defers es = filter (\<lambda>e. is_deferred (fst e)) es"

fun tagged :: "nat \<Rightarrow> nat \<Rightarrow> entry list \<Rightarrow> ((u16 \<times> u16 option) \<times> entry) list" where
  "tagged n d [] = []"
| "tagged n d (e # es) = (op_tag (fst e) n d, e) # (if is_deferred (fst e) then tagged n (Suc d) es else tagged (Suc n) d es)"

definition numbered :: "nat \<Rightarrow> entry list \<Rightarrow> rws_variable_meta list" where
  "numbered k es = map (\<lambda>(i, e). op_meta (of_nat i) (fst e)) (enumerate k es)"

definition plain :: "staged_chunk \<Rightarrow> chunk_record \<times> u16 option \<times> u8 list" where
  "plain c = (sk_record c, sk_deferred_index c, sk_compressed c)"

lemma filters_simps [simp]:
  "normals [] = []" "defers [] = []" "normals (es @ fs) = normals es @ normals fs" "defers (es @ fs) = defers es @ defers fs"
  "normals (e # es) = (if is_deferred (fst e) then normals es else e # normals es)"
  "defers (e # es) = (if is_deferred (fst e) then e # defers es else defers es)"
  by (simp_all add: normals_def defers_def)

lemma length_filters: "length (normals es) + length (defers es) = length es"
  by (induction es) simp_all

lemma set_filters: "set (normals es) \<union> set (defers es) = set es"
  by (auto simp: normals_def defers_def)

lemma tagged_snoc:
  "tagged n d (es @ [e]) = tagged n d es @ [(op_tag (fst e) (n + length (normals es)) (d + length (defers es)), e)]"
  by (induction es arbitrary: n d) simp_all

lemma numbered_simps [simp]:
  "numbered k [] = []" "numbered k (es @ fs) = numbered k es @ numbered (k + length es) fs" "length (numbered k es) = length es"
  "numbered k [e] = [op_meta (of_nat k) (fst e)]"
  by (simp_all add: numbered_def enumerate_append_eq)

lemma names_numbered: "map vm_name (numbered k es) = map (op_name \<circ> fst) es"
  unfolding numbered_def by (induction es arbitrary: k) simp_all

lemma name_set_numbered: "vm_name ` set (numbered k es) = op_name ` fst ` set es"
  using arg_cong [OF names_numbered [of k es], of set] by (simp add: image_image)

section \<open>The invariant\<close>

definition writer_inv :: "write_env \<Rightarrow> hour_writer \<Rightarrow> entry list \<Rightarrow> hour_writer \<Rightarrow> bool" where
  "writer_inv env w0 es w \<longleftrightarrow>
     w = w0\<lparr>hw_variables := numbered 0 (normals es), hw_deferred_variables := numbered 0 (defers es),
        hw_chunks := hw_chunks w, hw_spill := hw_spill w\<rparr> \<and>
     spill_inv w \<and> length (normals es) \<le> 65536 \<and> length (defers es) \<le> 65536 \<and>
     (\<forall>e \<in> set es. op_valid (hw_nx w0) (hw_ny w0) (fst e) \<and> op_base env (hw_nx w0) (hw_ny w0) (fst e) = Inr (snd e)) \<and>
     distinct (map (op_name \<circ> fst) es) \<and>
     map (staged_view (hw_spill w)) (hw_chunks w) = concat (map (\<lambda>(t, e). map plain (tag_chunks t (snd e))) (tagged 0 0 es))"

definition fresh :: "hour_writer \<Rightarrow> bool" where
  "fresh w \<longleftrightarrow> hw_variables w = [] \<and> hw_deferred_variables w = [] \<and> hw_chunks w = [] \<and> hw_spill w = None"

lemma writer_inv_fresh: "fresh w \<Longrightarrow> writer_inv env w [] w"
  by (simp add: fresh_def writer_inv_def spill_inv_def)

lemma writer_inv_fields:
  assumes "writer_inv env w0 es w"
  shows "hw_nx w = hw_nx w0" "hw_ny w = hw_ny w0" "hw_variables w = numbered 0 (normals es)"
    "hw_deferred_variables w = numbered 0 (defers es)" "hw_exact_time w = hw_exact_time w0" "spill_inv w"
    "hour_meta_of env' w vs = hour_meta_of env' w0 vs" "hw_spill_dir w = hw_spill_dir w0"
proof -
  have "w = w0\<lparr>hw_variables := numbered 0 (normals es), hw_deferred_variables := numbered 0 (defers es),
      hw_chunks := hw_chunks w, hw_spill := hw_spill w\<rparr>"
    using assms by (simp add: writer_inv_def)
  then obtain cs sp where w: "w = w0\<lparr>hw_variables := numbered 0 (normals es), hw_deferred_variables := numbered 0 (defers es),
      hw_chunks := cs, hw_spill := sp\<rparr>" by blast
  show "hw_nx w = hw_nx w0" "hw_ny w = hw_ny w0" "hw_variables w = numbered 0 (normals es)"
    "hw_deferred_variables w = numbered 0 (defers es)" "hw_exact_time w = hw_exact_time w0"
    "hour_meta_of env' w vs = hour_meta_of env' w0 vs" "hw_spill_dir w = hw_spill_dir w0"
    by (simp_all add: w hour_meta_of_def)
  show "spill_inv w" using assms by (simp add: writer_inv_def)
qed

lemma tag_chunks_len_ok: "\<forall>c \<in> set base. len_ok c \<Longrightarrow> \<forall>c \<in> set (tag_chunks t base). len_ok c"
  by (simp add: tag_chunks_def len_ok_def)

lemma writer_inv_add_one:
  assumes inv: "writer_inv env w0 es w" and a: "add_one env op w = (Inr (), w')" and z: "zstd_bound env"
    and g: "hw_nx w0 * hw_ny w0 < usize_bound" and tot: "staged_len (hw_chunks w') < 2 ^ 64"
  obtains base where "writer_inv env w0 (es @ [(op, base)]) w'"
proof -
  note f = writer_inv_fields [OF inv]
  let ?t = "op_tag op (length (normals es)) (length (defers es))"
  obtain base w1 where v: "op_valid (hw_nx w0) (hw_ny w0) op" and room: "has_room op w" and b: "op_base env (hw_nx w0) (hw_ny w0) op = Inr base"
      and s: "stage_chunks env (tag_chunks ?t base) w = (Inr (), w1)" and w': "w' = push_meta (fst ?t) op w1"
    using a by (auto simp: add_one_Inr f)
  have c: "hw_chunks w' = hw_chunks w1" "hw_spill w' = hw_spill w1" "spill_inv w' = spill_inv w1"
    by (simp_all add: w' push_meta_def spill_inv_def split: option.split)
  note st = stage_chunks_ok [OF s f(6) tag_chunks_len_ok [OF op_base_len_ok [OF b z v g]] tot [unfolded c(1)]]
  have "w = w0\<lparr>hw_variables := numbered 0 (normals es), hw_deferred_variables := numbered 0 (defers es),
      hw_chunks := hw_chunks w, hw_spill := hw_spill w\<rparr>" using inv by (simp add: writer_inv_def)
  then obtain cs sp where w: "w = w0\<lparr>hw_variables := numbered 0 (normals es), hw_deferred_variables := numbered 0 (defers es),
      hw_chunks := cs, hw_spill := sp\<rparr>" by blast
  obtain cs1 sp1 where "w1 = w\<lparr>hw_chunks := cs1, hw_spill := sp1\<rparr>" using st(2) by blast
  then have w1: "w1 = w0\<lparr>hw_variables := numbered 0 (normals es), hw_deferred_variables := numbered 0 (defers es),
      hw_chunks := cs1, hw_spill := sp1\<rparr>" by (simp add: w)
  have "w' = w0\<lparr>hw_variables := numbered 0 (normals (es @ [(op, base)])), hw_deferred_variables := numbered 0 (defers (es @ [(op, base)])),
      hw_chunks := hw_chunks w', hw_spill := hw_spill w'\<rparr>"
    by (simp add: w' w1 push_meta_def op_tag_def)
  moreover have "op_name op \<notin> (op_name \<circ> fst) ` set es" "length (normals (es @ [(op, base)])) \<le> 65536" "length (defers (es @ [(op, base)])) \<le> 65536"
    using room inv set_filters [of es] by (auto simp: has_room_def f writer_inv_def name_set_numbered image_Un image_image)
  ultimately have "writer_inv env w0 (es @ [(op, base)]) w'"
    using inv st(1,3) c v b unfolding writer_inv_def by (simp add: tagged_snoc plain_def)
  then show thesis by (rule that)
qed

lemma stage_total: "stage_chunks env encoded w = (r, w') \<Longrightarrow> staged_len (hw_chunks w) \<le> staged_len (hw_chunks w')"
proof -
  have s: "staged_len cs \<le> staged_len cs'" if "spill_chunks env xs sp cs = (r, sp', cs')" for xs sp cs r sp' cs'
    using that by (induction xs arbitrary: sp cs) (fastforce split: prod.splits sum.splits)+
  show "stage_chunks env encoded w = (r, w') \<Longrightarrow> staged_len (hw_chunks w) \<le> staged_len (hw_chunks w')"
    by (auto simp: stage_chunks_def dest!: s split: sum.splits option.splits prod.splits)
qed

lemma add_one_total: "add_one env op w = (Inr (), w') \<Longrightarrow> staged_len (hw_chunks w) \<le> staged_len (hw_chunks w')"
  by (auto simp: add_one_Inr push_meta_def dest!: stage_total)

lemma add_all_Cons_Inr: "add_all env (op # ops) w = (Inr (), w') \<longleftrightarrow> (\<exists>w1. add_one env op w = (Inr (), w1) \<and> add_all env ops w1 = (Inr (), w'))"
  by (auto split: prod.splits sum.splits)

lemma add_all_total: "add_all env ops w = (Inr (), w') \<Longrightarrow> staged_len (hw_chunks w) \<le> staged_len (hw_chunks w')"
proof (induction ops arbitrary: w)
  case (Cons op ops)
  then obtain w1 where "add_one env op w = (Inr (), w1)" "add_all env ops w1 = (Inr (), w')" by (auto simp only: add_all_Cons_Inr)
  then show ?case using add_one_total Cons.IH by (blast intro: order_trans)
qed simp

lemma writer_inv_add_all:
  assumes "writer_inv env w0 es w" and "add_all env ops w = (Inr (), w')" and z: "zstd_bound env"
    and g: "hw_nx w0 * hw_ny w0 < usize_bound" and tot: "staged_len (hw_chunks w') < 2 ^ 64"
  shows "\<exists>fs. map fst fs = ops \<and> writer_inv env w0 (es @ fs) w'"
  using assms(1,2)
proof (induction ops arbitrary: es w)
  case Nil
  then show ?case by (intro exI [of _ "[]"]) simp
next
  case (Cons op ops)
  then obtain w1 where w1: "add_one env op w = (Inr (), w1)" "add_all env ops w1 = (Inr (), w')" by (auto simp only: add_all_Cons_Inr)
  have "staged_len (hw_chunks w1) < 2 ^ 64" using add_all_total [OF w1(2)] tot by simp
  from writer_inv_add_one [OF Cons.prems(1) w1(1) z g this] obtain base where "writer_inv env w0 (es @ [(op, base)]) w1" by blast
  from Cons.IH [OF this w1(2)] obtain fs where "map fst fs = ops" "writer_inv env w0 ((es @ [(op, base)]) @ fs) w'" by blast
  then show ?case by (intro exI [of _ "(op, base) # fs"]) simp
qed

section \<open>The chunks in file order\<close>

definition block :: "u16 \<Rightarrow> entry \<Rightarrow> (chunk_record \<times> u8 list) list" where
  "block i e = map (\<lambda>k. ((sk_record k)\<lparr>cr_var_id := i\<rparr>, sk_compressed k)) (snd e)"

definition canonical :: "entry list \<Rightarrow> (chunk_record \<times> u8 list) list" where
  "canonical es = concat (map (\<lambda>(i, e). block (of_nat i) e) (enumerate 0 (normals es @ defers es)))"

definition final_id :: "nat \<Rightarrow> u16 \<times> u16 option \<Rightarrow> u16" where
  "final_id n t = (case snd t of None \<Rightarrow> fst t | Some k \<Rightarrow> of_nat (n + unat k))"

definition final_view :: "nat \<Rightarrow> chunk_record \<times> u16 option \<times> u8 list \<Rightarrow> chunk_record \<times> u8 list" where
  "final_view n = (\<lambda>(r, d, b). (case d of None \<Rightarrow> r | Some k \<Rightarrow> r\<lparr>cr_var_id := of_nat (n + unat k)\<rparr>, b))"

lemma mset_concat_map: "mset xs = mset ys \<Longrightarrow> mset (concat (map f xs)) = mset (concat (map f ys))"
proof -
  have "mset (concat (map f zs)) = \<Sum>\<^sub># (image_mset (\<lambda>z. mset (f z)) (mset zs))" for zs by (induction zs) simp_all
  then show "mset xs = mset ys \<Longrightarrow> mset (concat (map f xs)) = mset (concat (map f ys))" by simp
qed

lemma tagged_mset:
  assumes "d + length (defers es) \<le> 65536"
  shows "mset (map (\<lambda>(t, e). (final_id m t, e)) (tagged n d es)) =
    mset (map (\<lambda>(i, e). (of_nat i, e)) (enumerate n (normals es))) + mset (map (\<lambda>(i, e). (of_nat (m + i), e)) (enumerate d (defers es)))"
  using assms
proof (induction es arbitrary: n d)
  case (Cons e es)
  show ?case
  proof (cases "is_deferred (fst e)")
    case True
    then have "unat (of_nat d :: u16) = d" using Cons.prems by (simp add: unat_of_nat)
    then show ?thesis using Cons.IH [of "Suc d" n] Cons.prems True by (simp add: op_tag_def final_id_def)
  next
    case False
    then show ?thesis using Cons.IH [of d "Suc n"] Cons.prems by (simp add: op_tag_def final_id_def)
  qed
qed simp

lemma enumerate_shift: "map (\<lambda>(i, e). (f (m + i), e)) (enumerate d xs) = map (\<lambda>(i, e). (f i, e)) (enumerate (m + d) xs)"
  by (induction xs arbitrary: d) simp_all

lemma staged_mset:
  assumes "length (defers es) \<le> 65536"
  shows "mset (map (final_view (length (normals es))) (concat (map (\<lambda>(t, e). map plain (tag_chunks t (snd e))) (tagged 0 0 es)))) =
    mset (canonical es)"
proof -
  let ?n = "length (normals es)"
  have e: "concat (map (\<lambda>(i, e). block i e) (map (\<lambda>(t, e). (g t, e)) xs)) = concat (map (\<lambda>(t, e). block (g t) e) xs)"
    for g :: "'t \<Rightarrow> u16" and xs by (simp add: case_prod_unfold o_def)
  have "mset (map (\<lambda>(t, e). (final_id ?n t, e)) (tagged 0 0 es)) =
      mset (map (\<lambda>(i, e). (of_nat i, e)) (enumerate 0 (normals es @ defers es)))"
    unfolding enumerate_append_eq map_append mset_append using tagged_mset [of 0 es ?n 0] assms unfolding enumerate_shift by simp
  from mset_concat_map [OF this, of "\<lambda>(i, e). block i e"]
  have "mset (concat (map (\<lambda>(t, e). block (final_id ?n t) e) (tagged 0 0 es))) = mset (canonical es)"
    unfolding e canonical_def .
  moreover have "map (final_view ?n) (concat (map (\<lambda>(t, e). map plain (tag_chunks t (snd e))) ts)) =
      concat (map (\<lambda>(t, e). block (final_id ?n t) e) ts)" for ts
    unfolding map_concat map_map by (rule arg_cong [of _ _ concat]) (auto simp: tag_chunks_def block_def final_view_def plain_def final_id_def split: option.split)
  ultimately show ?thesis by simp
qed

text \<open>Stable sorting is determined by the multiset when the keys are distinct.\<close>

lemma sort_key_map: "map g (List.linorder_class.sort_key (\<lambda>x. k (g x)) xs) = List.linorder_class.sort_key k (map g xs)"
proof -
  have "map g (insort_key (\<lambda>x. k (g x)) x ys) = insort_key k (g x) (map g ys)" for x ys by (induction ys) simp_all
  then show ?thesis by (induction xs) simp_all
qed

lemma sort_key_unique:
  assumes m: "mset xs = mset ys" and s: "sorted_wrt (<) (map k ys)"
  shows "List.linorder_class.sort_key k xs = ys"
proof (rule properties_for_sort_key [OF m [symmetric]])
  show "sorted (map k ys)" using s by (rule strict_sorted_imp_sorted)
  have inj: "inj_on k (set ys)" and d: "distinct ys" using sorted_key_inj [OF s] by simp_all
  fix y assume y: "y \<in> set ys"
  have "filter (\<lambda>x. k y = k x) zs = filter (\<lambda>x. x = y) zs" if "set zs = set ys" for zs
    using inj y that by (intro filter_cong) (auto dest: inj_onD)
  moreover have "filter (\<lambda>x. x = y) zs = replicate (count (mset zs) y) y" for zs by (induction zs) simp_all
  ultimately show "filter (\<lambda>x. k y = k x) ys = filter (\<lambda>x. k y = k x) xs" using mset_eq_setD [OF m] m by simp
qed

lemma sorted_wrt_concat:
  assumes "\<And>xs. xs \<in> set xss \<Longrightarrow> sorted_wrt R xs" and "sorted_wrt (\<lambda>xs ys. \<forall>x \<in> set xs. \<forall>y \<in> set ys. R x y) xss"
  shows "sorted_wrt R (concat xss)"
  using assms by (induction xss) (auto simp: sorted_wrt_append)

text \<open>The coordinates of the chunks of an addition.\<close>

definition op_kind :: "add_op \<Rightarrow> u8" where "op_kind op = (if is_surface op then KIND_TILE2D else KIND_COLUMN3D)"
definition op_h :: "add_op \<Rightarrow> nat" where "op_h op = (if is_surface op then TILE_Y else COL_Y)"
definition op_w :: "add_op \<Rightarrow> nat" where "op_w op = (if is_surface op then TILE_X else COL_X)"

definition op_coords :: "nat \<Rightarrow> nat \<Rightarrow> add_op \<Rightarrow> (nat \<times> nat) list" where
  "op_coords nx ny op = List.product [0..<div_ceil ny (op_h op)] [0..<div_ceil nx (op_w op)]"

lemmas op_geometry = op_kind_def op_h_def op_w_def op_coords_def

lemma r_map_image: "r_map f xs = Inr ys \<Longrightarrow> (\<And>x y. f x = Inr y \<Longrightarrow> g y = h x) \<Longrightarrow> map g ys = map h xs"
  by (auto simp: r_map_eq_Inr list_all2_conv_all_nth intro!: nth_equalityI)

lemma base_shape:
  assumes "op_base env nx ny op = Inr base"
  shows "map (\<lambda>k. sort_key (sk_record k)) base = map (\<lambda>(ty, tx). (0, op_kind op, of_nat ty, of_nat tx)) (op_coords nx ny op)"
proof -
  have t: "sort_key (sk_record k) = (case q of (ty, tx) \<Rightarrow> (0, KIND_TILE2D, of_nat ty, of_nat tx))" if "encode_tile env 0 nx ny vs q = Inr k" for vs q k
    using that by (auto simp: encode_tile_def chunk_of_def sort_key_def Let_def r_bind_eq_Inr split: prod.splits)
  have c: "sort_key (sk_record k) = (case q of (ty, tx) \<Rightarrow> (0, KIND_COLUMN3D, of_nat ty, of_nat tx))"
    if "encode_column env 0 None nx ny ps q = Inr k" for ps q k
    using that by (auto simp: encode_column_def chunk_of_def sort_key_def Let_def r_bind_eq_Inr split: prod.splits)
  show ?thesis using assms by (cases op) (auto simp: op_geometry intro: r_map_image t c)
qed

lemma block_keys:
  assumes "op_base env nx ny (fst e) = Inr (snd e)"
  shows "map (\<lambda>x. sort_key (fst x)) (block i e) = map (\<lambda>(ty, tx). (i, op_kind (fst e), of_nat ty, of_nat tx)) (op_coords nx ny (fst e))"
proof -
  have "map (\<lambda>x. sort_key (fst x)) (block i e) = map (\<lambda>(_, k, ty, tx). (i, k, ty, tx)) (map (\<lambda>k. sort_key (sk_record k)) (snd e))"
    by (simp add: block_def sort_key_def)
  then show ?thesis unfolding base_shape [OF assms] by (simp add: case_prod_unfold)
qed

lemma sorted_product: "sorted_wrt (<) (List.product [a..<b] [c..<d])" for a b c d :: nat
  unfolding product_concat_map
  by (rule sorted_wrt_concat) (auto simp: sorted_wrt_map sorted_wrt_upt less_prod_def intro: sorted_wrt_mono_rel [OF _ sorted_wrt_upt])

definition grid_small :: "nat \<Rightarrow> nat \<Rightarrow> bool" where
  "grid_small nx ny \<longleftrightarrow> nx * ny < usize_bound \<and> nx \<le> 2 ^ 36 \<and> ny \<le> 2 ^ 36"

lemma coords_small:
  assumes "grid_small nx ny" and "(ty, tx) \<in> set (op_coords nx ny op)"
  shows "ty < 2 ^ 32" "tx < 2 ^ 32"
proof -
  have "div_ceil n (op_h op) \<le> 2 ^ 32" "div_ceil n (op_w op) \<le> 2 ^ 32" if "n \<le> 2 ^ 36" for n
    using that by (auto simp: div_ceil_le_iff op_geometry geometry_consts)
  from this(1) [of ny] this(2) [of nx] show "ty < 2 ^ 32" "tx < 2 ^ 32"
    using assms by (auto simp: grid_small_def op_coords_def)
qed

lemma of_nat_less: "m < n \<Longrightarrow> n < 2 ^ LENGTH('a) \<Longrightarrow> (of_nat m :: 'a::len word) < of_nat n"
  by (simp add: word_less_nat_alt unat_of_nat)

lemma block_sorted:
  assumes b: "op_base env nx ny (fst e) = Inr (snd e)" and g: "grid_small nx ny"
  shows "sorted_wrt (<) (map (\<lambda>x. sort_key (fst x)) (block i e))"
  unfolding block_keys [OF b] sorted_wrt_map
proof (rule sorted_wrt_mono_rel)
  show "sorted_wrt (<) (op_coords nx ny (fst e))" by (simp add: op_coords_def sorted_product)
  fix p q assume p: "p \<in> set (op_coords nx ny (fst e))" and q: "q \<in> set (op_coords nx ny (fst e))" and "p < q"
  then have "fst p < fst q \<or> fst p = fst q \<and> snd p < snd q" by (auto simp: less_prod_def)
  with p q show "(case p of (ty, tx) \<Rightarrow> (i, op_kind (fst e), of_nat ty :: u32, of_nat tx :: u32)) <
      (case q of (ty, tx) \<Rightarrow> (i, op_kind (fst e), of_nat ty, of_nat tx))"
    using coords_small [OF g, of "fst p" "snd p"] coords_small [OF g, of "fst q" "snd q"]
    by (auto simp: less_prod_def case_prod_unfold intro: of_nat_less)
qed

lemma sorted_enumerate: "sorted_wrt (\<lambda>x y. fst x < fst y) (enumerate n xs)"
  by (induction xs arbitrary: n) (auto simp: in_set_enumerate_eq)

lemma canonical_sorted:
  assumes b: "\<forall>e \<in> set es. op_base env nx ny (fst e) = Inr (snd e)" and g: "grid_small nx ny" and n: "length es \<le> 65536"
  shows "sorted_wrt (<) (map (\<lambda>x. sort_key (fst x)) (canonical es))"
proof -
  let ?en = "enumerate 0 (normals es @ defers es)"
  have mem: "snd x \<in> set es" "fst x < 65536" if "x \<in> set ?en" for x
  proof -
    have i: "fst x < length (normals es @ defers es)" "(normals es @ defers es) ! fst x = snd x"
      using that by (simp_all add: in_set_enumerate_eq del: length_append)
    have "snd x \<in> set (normals es @ defers es)" using nth_mem [OF i(1)] unfolding i(2) .
    with i(1) show "snd x \<in> set es" "fst x < 65536" using set_filters [of es] length_filters [of es] n by auto
  qed
  have id: "cr_var_id (fst y) = i" if "y \<in> set (block i e)" for y i e using that by (auto simp: block_def)
  show ?thesis unfolding canonical_def map_concat map_map
  proof (rule sorted_wrt_concat, goal_cases)
    case (1 xs)
    then obtain x where "x \<in> set ?en" "xs = map (\<lambda>x. sort_key (fst x)) (block (of_nat (fst x)) (snd x))" by (auto simp: case_prod_unfold)
    then show ?case using block_sorted [OF _ g] b mem(1) by metis
  next
    case 2
    show ?case unfolding sorted_wrt_map
    proof (rule sorted_wrt_mono_rel [OF _ sorted_enumerate])
      fix x y assume xy: "x \<in> set ?en" "y \<in> set ?en" "fst x < fst y"
      then have "(of_nat (fst x) :: u16) < of_nat (fst y)" using mem(2) [OF xy(2)] by (intro of_nat_less) simp_all
      then show "\<forall>k \<in> set (((map (\<lambda>x. sort_key (fst x))) \<circ> (\<lambda>(i, e). block (of_nat i) e)) x).
          \<forall>l \<in> set (((map (\<lambda>x. sort_key (fst x))) \<circ> (\<lambda>(i, e). block (of_nat i) e)) y). k < l"
        by (auto simp: case_prod_unfold sort_key_def less_prod_def dest!: id)
    qed
  qed
qed

end
