(* ===== verification/Rw_Writer_File.thy ===== *)
theory Rw_Writer_File
  imports Rw_Writer_Layout
begin

text \<open>
  \<open>finish\<close> writes the file that the additions determine, wherever the chunks were staged
  and whichever variables were deferred.
\<close>

section \<open>The file of a list of additions\<close>

fun place :: "u64 \<Rightarrow> (chunk_record \<times> u8 list) list \<Rightarrow> chunk_record list" where
  "place cursor [] = []"
| "place cursor ((r, b) # ps) = r\<lparr>cr_offset := cursor\<rparr> # place (cursor + ucast (cr_len r)) ps"

definition file_header :: "u8 list \<Rightarrow> entry list \<Rightarrow> rws_header" where
  "file_header mb es = for_layout (of_nat (length mb)) (of_nat (length (canonical es)))"

definition file_records :: "u8 list \<Rightarrow> entry list \<Rightarrow> chunk_record list" where
  "file_records mb es = place (hd_payload_offset (file_header mb es)) (canonical es)"

definition file_payload :: "entry list \<Rightarrow> u8 list" where
  "file_payload es = concat (map snd (canonical es))"

definition file_meta :: "write_env \<Rightarrow> hour_writer \<Rightarrow> entry list \<Rightarrow> rws_hour_meta" where
  "file_meta env w es = hour_meta_of env w (numbered 0 (normals es @ defers es))"

definition file_spec :: "write_env \<Rightarrow> hour_writer \<Rightarrow> entry list \<Rightarrow> (rws_hour_meta \<times> u8 list) rw_result" where
  "file_spec env w es =
     (if hw_nx w = 0 \<or> hw_ny w = 0 then Inl (Format ''degenerate grid'')
      else if (\<exists>t. hw_exact_time w = Some t \<and> origin_unix t = None)
      then Inl (Meta ''exact hour cannot represent valid_unix - lead_seconds'')
      else if length es > 65536 then Inl (Format ''too many variables'')
      else r_bind (ok_or (we_to_json env (file_meta env w es)) (Meta ''to_vec'')) (\<lambda>mb.
        if length mb \<ge> 2 ^ 32 then Inl (Format ''meta JSON too large'')
        else Inr (file_meta env w es, hour_file mb (file_records mb es) (file_payload es))))"

lemma length_place [simp]: "length (place cursor ps) = length ps"
  by (induction cursor ps rule: place.induct) simp_all

section \<open>The steps of finish\<close>

lemma number_deferred_numbered:
  assumes "n \<le> 65536"
  shows "number_deferred n (numbered 0 ds) = (if n + length ds \<le> 65536 then Inr (numbered n ds) else Inl (Format ''too many variables''))"
proof -
  let ?f = "\<lambda>(index, var). if n + index \<le> 65535 then Inr (var\<lparr>vm_id := of_nat (n + index)\<rparr>) else Inl (Format ''too many variables'')"
  have "r_map ?f (zip [k..<k + length ds] (numbered j ds)) =
      (if n + k + length ds \<le> 65536 then Inr (numbered (n + k) ds) else Inl (Format ''too many variables''))" if "n + k \<le> 65536" for k j
    using that
  proof (induction ds arbitrary: k j)
    case (Cons e ds)
    have z: "[k..<k + length (e # ds)] = k # [Suc k..<Suc k + length ds]" by (simp add: upt_conv_Cons del: upt_Suc)
    have nu: "numbered i (e # ds) = op_meta (of_nat i) (fst e) # numbered (Suc i) ds" for i by (simp add: numbered_def)
    show ?case
    proof (cases "n + k \<le> 65535")
      case True
      then show ?thesis using Cons.IH [of "Suc k" "Suc j"] unfolding z nu by simp
    next
      case False
      then show ?thesis unfolding z nu by simp
    qed
  qed simp
  from this [of 0 0] assms show ?thesis by (simp add: number_deferred_def)
qed

definition renumbered :: "nat \<Rightarrow> staged_chunk \<Rightarrow> staged_chunk" where
  "renumbered n c = (case sk_deferred_index c of None \<Rightarrow> c
     | Some k \<Rightarrow> c\<lparr>sk_record := (sk_record c)\<lparr>cr_var_id := of_nat (n + unat k)\<rparr>\<rparr>)"

definition file_view :: "spill_file option \<Rightarrow> staged_chunk \<Rightarrow> chunk_record \<times> u8 list" where
  "file_view spill c = (sk_record c, chunk_bytes spill c)"

lemma fst_file_view [simp]: "fst (file_view spill c) = sk_record c"
  by (simp add: file_view_def)

lemma file_view_renumbered: "file_view spill (renumbered n c) = final_view n (staged_view spill c)"
  by (simp add: file_view_def renumbered_def final_view_def staged_view_def chunk_bytes_def split: option.split)

lemma tagged_deferred_bound:
  "d + length (defers es) \<le> 65536 \<Longrightarrow> x \<in> set (tagged n d es) \<Longrightarrow> snd (fst x) = Some k \<Longrightarrow> unat k < d + length (defers es)"
proof (induction es arbitrary: n d)
  case (Cons e es)
  show ?case
  proof (cases "is_deferred (fst e)")
    case True
    then have "unat (of_nat d :: u16) = d" using Cons.prems(1) by (simp add: unat_of_nat)
    then show ?thesis using Cons.IH [of "Suc d" n] Cons.prems True by (auto simp: op_tag_def)
  next
    case False
    then show ?thesis using Cons.IH [of d "Suc n"] Cons.prems by (auto simp: op_tag_def)
  qed
qed simp

lemma staged_index_bound:
  assumes inv: "writer_inv env w0 es w" and c: "c \<in> set (hw_chunks w)" and k: "sk_deferred_index c = Some k"
  shows "unat k < length (defers es)"
proof -
  have "staged_view (hw_spill w) c \<in> set (map (staged_view (hw_spill w)) (hw_chunks w))" using c by simp
  also have "map (staged_view (hw_spill w)) (hw_chunks w) = concat (map (\<lambda>(t, e). map plain (tag_chunks t (snd e))) (tagged 0 0 es))"
    using inv by (simp add: writer_inv_def)
  finally obtain x where "x \<in> set (tagged 0 0 es)" "snd (fst x) = Some k"
    using k by (auto simp: staged_view_def plain_def tag_chunks_def)
  then show ?thesis using tagged_deferred_bound [of 0 es x 0 k] inv by (simp add: writer_inv_def)
qed

lemma renumber_all:
  assumes inv: "writer_inv env w0 es w" and n: "length es \<le> 65536"
  shows "r_map (renumber_chunk (length (normals es))) (hw_chunks w) = Inr (map (renumbered (length (normals es))) (hw_chunks w))"
proof (rule r_map_all_Inr)
  fix c assume c: "c \<in> set (hw_chunks w)"
  show "renumber_chunk (length (normals es)) c = Inr (renumbered (length (normals es)) c)"
    using staged_index_bound [OF inv c] length_filters [of es] n
    by (cases "sk_deferred_index c") (auto simp: renumber_chunk_def renumbered_def)
qed

lemma sorted_chunks:
  assumes inv: "writer_inv env w0 es w" and g: "grid_small (hw_nx w0) (hw_ny w0)" and n: "length es \<le> 65536"
  shows "map (file_view (hw_spill w)) (List.linorder_class.sort_key (\<lambda>c. sort_key (sk_record c))
      (map (renumbered (length (normals es))) (hw_chunks w))) = canonical es"
proof -
  let ?n = "length (normals es)" and ?sp = "hw_spill w"
  have "map (file_view ?sp) (List.linorder_class.sort_key (\<lambda>c. sort_key (fst (file_view ?sp c))) (map (renumbered ?n) (hw_chunks w))) =
      List.linorder_class.sort_key (\<lambda>x. sort_key (fst x)) (map (file_view ?sp) (map (renumbered ?n) (hw_chunks w)))"
    by (rule sort_key_map)
  also have "map (file_view ?sp) (map (renumbered ?n) (hw_chunks w)) = map (final_view ?n) (map (staged_view ?sp) (hw_chunks w))"
    by (simp add: file_view_renumbered)
  also have "map (staged_view ?sp) (hw_chunks w) = concat (map (\<lambda>(t, e). map plain (tag_chunks t (snd e))) (tagged 0 0 es))"
    using inv by (simp add: writer_inv_def)
  also have "List.linorder_class.sort_key (\<lambda>x. sort_key (fst x)) (map (final_view ?n) \<dots>) = canonical es"
  proof (rule sort_key_unique)
    show "mset (map (final_view ?n) (concat (map (\<lambda>(t, e). map plain (tag_chunks t (snd e))) (tagged 0 0 es)))) = mset (canonical es)"
      using inv by (intro staged_mset) (simp add: writer_inv_def)
    show "sorted_wrt (<) (map (\<lambda>x. sort_key (fst x)) (canonical es))"
      using inv g n by (intro canonical_sorted [where env = env and nx = "hw_nx w0" and ny = "hw_ny w0"]) (simp_all add: writer_inv_def)
  qed
  finally show ?thesis by simp
qed

lemma assign_offsets_view:
  "map sk_record (assign_offsets cursor cs) = place cursor (map (file_view spill) cs)"
  "map (chunk_bytes spill) (assign_offsets cursor cs) = map (chunk_bytes spill) cs"
  by (induction cs arbitrary: cursor) (simp_all add: file_view_def chunk_bytes_def split: option.split)

section \<open>Emission\<close>

definition emit_ok :: "spill_file option \<Rightarrow> staged_chunk \<Rightarrow> bool" where
  "emit_ok spill c \<longleftrightarrow> (case spill of None \<Rightarrow> len_ok c
     | Some sp \<Rightarrow> unat (sk_spill_offset c) + unat (cr_len (sk_record c)) \<le> length (sp_data sp))"

lemma emit_ok_updates [simp]:
  "emit_ok spill (renumbered n c) = emit_ok spill c" "emit_ok spill (c\<lparr>sk_record := (sk_record c)\<lparr>cr_offset := k\<rparr>\<rparr>) = emit_ok spill c"
  by (simp_all add: emit_ok_def renumbered_def len_ok_def split: option.split)

lemma emit_ok_offsets: "(\<forall>c \<in> set (assign_offsets k cs). emit_ok spill c) \<longleftrightarrow> (\<forall>c \<in> set cs. emit_ok spill c)"
  by (induction cs arbitrary: k) simp_all

lemma staged_emit_ok:
  assumes inv: "writer_inv env w0 es w" and z: "zstd_bound env" and g: "hw_nx w0 * hw_ny w0 < usize_bound" and c: "c \<in> set (hw_chunks w)"
  shows "emit_ok (hw_spill w) c"
proof (cases "hw_spill w")
  case None
  have "staged_view (hw_spill w) c \<in> set (map (staged_view (hw_spill w)) (hw_chunks w))" using c by simp
  also have "map (staged_view (hw_spill w)) (hw_chunks w) = concat (map (\<lambda>(t, e). map plain (tag_chunks t (snd e))) (tagged 0 0 es))"
    using inv by (simp add: writer_inv_def)
  finally obtain t e k where k: "(t, e) \<in> set (tagged 0 0 es)" "k \<in> set (snd e)" "sk_record c = sk_record (retag (fst t) (snd t) k)"
      "sk_compressed c = sk_compressed k"
    using None by (auto simp: staged_view_def plain_def tag_chunks_def chunk_bytes_def)
  have "snd ` set (tagged n d xs) = set xs" for n d xs by (induction xs arbitrary: n d) simp_all
  then have "e \<in> set es" using k(1) by (metis imageI snd_conv)
  then have "len_ok k" using op_base_len_ok [of env "hw_nx w0" "hw_ny w0" "fst e" "snd e"] inv z g k(2) by (simp add: writer_inv_def)
  then show ?thesis using None k(3,4) by (simp add: emit_ok_def len_ok_def)
next
  case (Some sp)
  then show ?thesis using inv c by (auto simp: emit_ok_def writer_inv_def spill_inv_def spill_ok_def)
qed

lemma emit_payload_bytes:
  assumes "\<forall>c \<in> set cs. emit_ok spill c"
  shows "(snd (emit_payload env spill cs) = Inr () \<longrightarrow> fst (emit_payload env spill cs) = concat (map (chunk_bytes spill) cs)) \<and>
    ((spill \<noteq> None \<longrightarrow> (\<forall>k. we_spill_read env k)) \<longrightarrow> snd (emit_payload env spill cs) = Inr ())"
  using assms
proof (induction cs)
  case (Cons c cs)
  have ih: "(snd (emit_payload env spill cs) = Inr () \<longrightarrow> fst (emit_payload env spill cs) = concat (map (chunk_bytes spill) cs)) \<and>
      ((spill \<noteq> None \<longrightarrow> (\<forall>k. we_spill_read env k)) \<longrightarrow> snd (emit_payload env spill cs) = Inr ())"
    using Cons by simp
  have c: "emit_ok spill c" using Cons.prems by simp
  have len: "length (chunk_bytes spill c) = unat (cr_len (sk_record c))"
    using c by (cases spill) (simp_all add: emit_ok_def len_ok_def chunk_bytes_def subslice_def)
  have rd: "(case spill of Some sp \<Rightarrow> spill_read env (sk_spill_offset c) (unat (cr_len (sk_record c))) sp | None \<Rightarrow> Inr (sk_compressed c)) =
      (if spill = None \<or> we_spill_read env (sk_spill_offset c) then Inr (chunk_bytes spill c) else Inl (Io ''read spill''))"
    using c by (cases spill) (simp_all add: emit_ok_def spill_read_def read_exact_at_def chunk_bytes_def)
  show ?case using ih len by (cases "emit_payload env spill cs") (auto simp: Let_def rd)
qed simp

lemma fold_pack: "fold (\<lambda>c buf. pack_into (sk_record c) buf) cs out = out @ concat (map pack_record (map sk_record cs))"
  by (induction cs arbitrary: out) (simp_all add: pack_into_append)

section \<open>finish\<close>

text \<open>What \<open>finish\<close> hands to the atomic write; the second component says whether the spill file could be read.\<close>

lemma finish_layout_spec:
  assumes inv: "writer_inv env w0 es w" and z: "zstd_bound env" and g: "grid_small (hw_nx w0) (hw_ny w0)"
  shows "case finish_layout env w of
      Inl e \<Rightarrow> file_spec env w0 es = Inl e
    | Inr (meta, mb, header, chunks) \<Rightarrow> (\<exists>file. file_spec env w0 es = Inr (meta, file) \<and>
        (snd (emit_file env (hw_spill w) mb header chunks) = Inr () \<longrightarrow> fst (emit_file env (hw_spill w) mb header chunks) = file) \<and>
        ((hw_spill w \<noteq> None \<longrightarrow> (\<forall>k. we_spill_read env k)) \<longrightarrow> snd (emit_file env (hw_spill w) mb header chunks) = Inr ()))"
proof -
  note f = writer_inv_fields [OF inv]
  let ?n = "length (normals es)"
  let ?cs = "List.linorder_class.sort_key (\<lambda>c. sort_key (sk_record c)) (map (renumbered ?n) (hw_chunks w))"
  let ?meta = "file_meta env w0 es"
  have n: "?n \<le> 65536" "?n + length (defers es) = length es" using inv length_filters [of es] by (simp_all add: writer_inv_def)
  have num: "number_deferred (length (hw_variables w)) (hw_deferred_variables w) =
      (if length es \<le> 65536 then Inr (numbered ?n (defers es)) else Inl (Format ''too many variables''))"
    using number_deferred_numbered [OF n(1), of "defers es"] n(2) by (simp add: f)
  have meta: "hour_meta_of env w (hw_variables w @ numbered ?n (defers es)) = ?meta" by (simp add: f file_meta_def)
  show ?thesis
  proof (cases "length es \<le> 65536")
    case False
    then show ?thesis using f num by (auto simp: finish_layout_def file_spec_def Let_def)
  next
    case True
    note ren = renumber_all [OF inv True] and srt = sorted_chunks [OF inv g True]
    have len: "length ?cs = length (canonical es)" using arg_cong [OF srt, of length] by simp
    have ok: "\<forall>c \<in> set ?cs. emit_ok (hw_spill w) c"
      using staged_emit_ok [OF inv z] g by (auto simp: grid_small_def)
    have emit: "(snd (emit_file env (hw_spill w) mb (file_header mb es) (assign_offsets (hd_payload_offset (file_header mb es)) ?cs)) = Inr () \<longrightarrow>
          fst (emit_file env (hw_spill w) mb (file_header mb es) (assign_offsets (hd_payload_offset (file_header mb es)) ?cs)) =
            hour_file mb (file_records mb es) (file_payload es)) \<and>
        ((hw_spill w \<noteq> None \<longrightarrow> (\<forall>k. we_spill_read env k)) \<longrightarrow>
          snd (emit_file env (hw_spill w) mb (file_header mb es) (assign_offsets (hd_payload_offset (file_header mb es)) ?cs)) = Inr ())" for mb
    proof -
      let ?as = "assign_offsets (hd_payload_offset (file_header mb es)) ?cs"
      have "\<forall>c \<in> set ?as. emit_ok (hw_spill w) c" using ok by (simp add: emit_ok_offsets)
      note e = emit_payload_bytes [OF this, of env]
      have "map sk_record ?as = file_records mb es"
        unfolding assign_offsets_view(1) [of _ _ "hw_spill w"] srt file_records_def ..
      moreover have "map (chunk_bytes (hw_spill w)) ?as = map snd (canonical es)"
        unfolding assign_offsets_view(2) srt [symmetric] by (simp add: file_view_def)
      ultimately show ?thesis using e
        by (cases "emit_payload env (hw_spill w) ?as")
          (simp add: emit_file_def fold_pack hour_file_def file_records_def file_payload_def file_header_def)
    qed
    show ?thesis using f num ren True meta len emit
      by (cases "we_to_json env ?meta") (auto simp: finish_layout_def file_spec_def Let_def file_header_def)
  qed
qed

lemma finish_file:
  assumes inv: "writer_inv env w0 es w" and z: "zstd_bound env" and g: "grid_small (hw_nx w0) (hw_ny w0)"
    and rd: "hw_spill w \<noteq> None \<longrightarrow> (\<forall>k. we_spill_read env k)"
  shows "finish env os pid path w fs =
    (case file_spec env w0 es of
       Inl e \<Rightarrow> (Inl e, fs)
     | Inr (meta, file) \<Rightarrow> (case atomic_write_with os pid path (file, Inr ()) fs of (Inl e, fs) \<Rightarrow> (Inl e, fs) | (Inr _, fs) \<Rightarrow> (Inr meta, fs)))"
proof (cases "finish_layout env w")
  case (Inl e)
  then show ?thesis using finish_layout_spec [OF inv z g] by (simp add: finish_def)
next
  case (Inr l)
  obtain meta mb header chunks where l: "l = (meta, mb, header, chunks)" by (cases l)
  let ?e = "emit_file env (hw_spill w) mb header chunks"
  obtain data where "file_spec env w0 es = Inr (meta, data)" "snd ?e = Inr () \<longrightarrow> fst ?e = data" "snd ?e = Inr ()"
    using finish_layout_spec [OF inv z g] Inr l rd by auto
  then have "file_spec env w0 es = Inr (meta, data)" "?e = (data, Inr ())" by (auto simp: prod_eq_iff)
  then show ?thesis using Inr l by (simp add: finish_def)
qed

end
