(* ===== verification/Rw_Writer_Props.thy ===== *)
theory Rw_Writer_Props
  imports Rw_Writer_File
begin

text \<open>
  The two promises of the writer's documentation: the file does not depend on where the
  chunks are staged, and a deferred volume is written exactly as if it had been added last.
\<close>

section \<open>Sessions\<close>

text \<open>All additions of a caller, then \<open>finish\<close>; the first error ends it.\<close>

definition write_hour :: "write_env \<Rightarrow> add_op list \<Rightarrow> os_outcomes \<Rightarrow> nat \<Rightarrow> file_path \<Rightarrow> hour_writer \<Rightarrow> file_system
    \<Rightarrow> rws_hour_meta rw_result \<times> file_system" where
  "write_hour env ops os pid path w fs =
     (case add_all env ops w of (Inl e, _) \<Rightarrow> (Inl e, fs) | (Inr _, w) \<Rightarrow> finish env os pid path w fs)"

definition spill_succeeds :: "write_env \<Rightarrow> bool" where
  "spill_succeeds env \<longleftrightarrow> we_spill_create env \<and> (\<forall>n. we_spill_write env n = None) \<and> (\<forall>k. we_spill_read env k)"

definition chunk_count :: "nat \<Rightarrow> nat \<Rightarrow> add_op list \<Rightarrow> nat" where
  "chunk_count nx ny ops = sum_list (map (\<lambda>op. length (op_coords nx ny op)) ops)"

lemma spill_chunks_succeeds: "spill_succeeds env \<Longrightarrow> fst (spill_chunks env encoded sp cs) = Inr ()"
  by (induction encoded arbitrary: sp cs) (simp_all add: spill_append_def spill_succeeds_def)

lemma stage_succeeds: "spill_succeeds env \<Longrightarrow> fst (stage_chunks env encoded w) = Inr ()"
proof -
  assume s: "spill_succeeds env"
  then have "spill_create env = Inr \<lparr>sp_data = [], sp_cursor = 0\<rparr>" by (simp add: spill_create_def spill_succeeds_def)
  moreover have "r = Inr ()" if "spill_chunks env encoded sp cs = (r, sp', cs')" for sp cs r sp' cs'
    using spill_chunks_succeeds [OF s, of encoded sp cs] that by simp
  ultimately show ?thesis by (cases "hw_spill w"; cases "hw_spill_dir w") (auto simp: stage_chunks_def split: prod.split)
qed

lemma stage_records:
  "stage_chunks env encoded w = (Inr (), w') \<Longrightarrow> map sk_record (hw_chunks w') = map sk_record (hw_chunks w) @ map sk_record encoded"
proof -
  have s: "map sk_record cs' = map sk_record cs @ map sk_record xs" if "spill_chunks env xs sp cs = (Inr (), sp', cs')" for xs sp cs sp' cs'
    using that by (induction xs arbitrary: sp cs) (fastforce split: prod.splits sum.splits)+
  show "stage_chunks env encoded w = (Inr (), w') \<Longrightarrow> map sk_record (hw_chunks w') = map sk_record (hw_chunks w) @ map sk_record encoded"
    by (auto simp: stage_chunks_def dest!: s split: sum.splits option.splits prod.splits)
qed

lemma base_length: "op_base env nx ny op = Inr base \<Longrightarrow> length base = length (op_coords nx ny op)"
  using arg_cong [OF base_shape, of env nx ny op base length] by simp

lemma add_one_static:
  assumes "add_one env op w = (Inr (), w')"
  shows "hw_nx w' = hw_nx w" "hw_ny w' = hw_ny w" "length (hw_chunks w') = length (hw_chunks w) + length (op_coords (hw_nx w) (hw_ny w) op)"
proof -
  let ?t = "op_tag op (length (hw_variables w)) (length (hw_deferred_variables w))"
  obtain base w1 where b: "op_base env (hw_nx w) (hw_ny w) op = Inr base" and s: "stage_chunks env (tag_chunks ?t base) w = (Inr (), w1)"
      and w': "w' = push_meta (fst ?t) op w1"
    using assms by (auto simp: add_one_Inr)
  show "hw_nx w' = hw_nx w" "hw_ny w' = hw_ny w" using stage_static [OF s] by (simp_all add: w' push_meta_def)
  show "length (hw_chunks w') = length (hw_chunks w) + length (op_coords (hw_nx w) (hw_ny w) op)"
    using arg_cong [OF stage_records [OF s], of length] base_length [OF b] by (simp add: w' push_meta_def tag_chunks_def)
qed

lemma add_all_count:
  "add_all env ops w = (Inr (), w') \<Longrightarrow> length (hw_chunks w') = length (hw_chunks w) + chunk_count (hw_nx w) (hw_ny w) ops"
proof (induction ops arbitrary: w)
  case (Cons op ops)
  then obtain w1 where w1: "add_one env op w = (Inr (), w1)" "add_all env ops w1 = (Inr (), w')" by (auto simp only: add_all_Cons_Inr)
  show ?case using Cons.IH [OF w1(2)] add_one_static [OF w1(1)] by (simp add: chunk_count_def)
qed (simp add: chunk_count_def)

lemma staged_len_le: "staged_len cs \<le> length cs * (2 ^ 32 - 1)"
proof (induction cs)
  case (Cons c cs)
  have "unat (cr_len (sk_record c)) \<le> 2 ^ 32 - 1" using unat_bounds(3) [of "cr_len (sk_record c)"] by simp
  then show ?case using Cons by simp
qed simp

lemma add_all_inv:
  assumes "fresh w" and a: "add_all env ops w = (Inr (), w')" and "zstd_bound env" and g: "grid_small (hw_nx w) (hw_ny w)"
    and n: "chunk_count (hw_nx w) (hw_ny w) ops < 2 ^ 32"
  obtains es where "map fst es = ops" "writer_inv env w es w'"
proof -
  have "length (hw_chunks w') < 2 ^ 32" using add_all_count [OF a] n assms(1) by (simp add: fresh_def)
  then have "length (hw_chunks w') * (2 ^ 32 - 1) \<le> 2 ^ 32 * (2 ^ 32 - 1)" by (intro mult_right_mono) simp_all
  then have "staged_len (hw_chunks w') < 2 ^ 64" using staged_len_le [of "hw_chunks w'"] by simp
  then show thesis
    using writer_inv_add_all [OF writer_inv_fresh [OF assms(1)] a assms(3)] g that by (auto simp: grid_small_def)
qed

text \<open>The additions determine the entries.\<close>

lemma entries_unique:
  assumes "map fst es = map fst es'" and "\<forall>e \<in> set es. op_base env nx ny (fst e) = Inr (snd e)"
    and "\<forall>e \<in> set es'. op_base env nx ny (fst e) = Inr (snd e)"
  shows "es = es'"
  using assms
proof (induction es arbitrary: es')
  case (Cons e es)
  then obtain e' fs where e: "es' = e' # fs" by (cases es') auto
  have "e = e'" using Cons.prems by (auto simp: e prod_eq_iff)
  then show ?case using Cons.IH [of fs] Cons.prems by (simp add: e)
qed simp

section \<open>Staging in memory or in a spill file\<close>

text \<open>Two writers that differ only in their staging.\<close>

definition same_vars :: "hour_writer \<Rightarrow> hour_writer \<Rightarrow> bool" where
  "same_vars w v \<longleftrightarrow> hw_nx v = hw_nx w \<and> hw_ny v = hw_ny w \<and> hw_variables v = hw_variables w \<and>
     hw_deferred_variables v = hw_deferred_variables w"

lemma add_one_same:
  assumes s: "spill_succeeds env" and v: "same_vars w v"
  shows "fst (add_one env op w) = fst (add_one env op v)"
    "same_vars (snd (add_one env op w)) (snd (add_one env op v))"
proof -
  define f g where "f x = snd (stage_chunks env x w)" and "g x = snd (stage_chunks env x v)" for x
  then have f: "stage_chunks env x w = (Inr (), f x)" and g: "stage_chunks env x v = (Inr (), g x)" for x
    using stage_succeeds [OF s] by (simp_all add: prod_eq_iff)
  have fg: "same_vars (f x) (g x)" for x using stage_static [OF f] stage_static [OF g] v by (simp add: same_vars_def)
  have v': "hw_nx v = hw_nx w" "hw_ny v = hw_ny w" "hw_variables v = hw_variables w" "hw_deferred_variables v = hw_deferred_variables w"
    using v by (simp_all add: same_vars_def)
  have n: "next_var_id m v = next_var_id m w" "validate_pressure3d ls ps v = validate_pressure3d ls ps w" for m ls ps
    by (simp_all add: next_var_id_def validate_pressure3d_def v')
  have push: "same_vars (push_meta i op (f x)) (push_meta i op (g x))" for i x
    using fg [of x] by (simp add: push_meta_def same_vars_def)
  show "fst (add_one env op w) = fst (add_one env op v)"
    by (cases op) (auto simp: forget_def add_surface2d_def add_pressure3d_def add_pressure3d_deferred_def encode_pressure3d_chunks_def
        f g v' n Let_def split: sum.split)
  show "same_vars (snd (add_one env op w)) (snd (add_one env op v))"
    using push v by (cases op) (auto simp: forget_def add_surface2d_def add_pressure3d_def add_pressure3d_deferred_def
        encode_pressure3d_chunks_def f g v' n Let_def push_meta_def split: sum.split)
qed

lemma add_all_same:
  assumes s: "spill_succeeds env"
  shows "same_vars w v \<Longrightarrow> fst (add_all env ops w) = fst (add_all env ops v)"
proof (induction ops arbitrary: w v)
  case (Cons op ops)
  obtain r w1 where w: "add_one env op w = (r, w1)" by fastforce
  obtain r' v1 where v: "add_one env op v = (r', v1)" by fastforce
  have "r = r'" "same_vars w1 v1" using add_one_same [OF s Cons.prems, of op] w v by simp_all
  then show ?case using Cons.IH [of w1 v1] w v by (cases r') simp_all
qed simp

lemma file_spec_spill_dir: "file_spec env (with_spill_dir dir w) es = file_spec env w es"
proof -
  have "file_meta env (with_spill_dir dir w) es = file_meta env w es" "hw_nx (with_spill_dir dir w) = hw_nx w"
      "hw_ny (with_spill_dir dir w) = hw_ny w" "hw_exact_time (with_spill_dir dir w) = hw_exact_time w"
    by (simp_all add: file_meta_def hour_meta_of_def with_spill_dir_def)
  then show ?thesis by (simp only: file_spec_def)
qed

lemma writer_inv_no_spill: "writer_inv env w0 es w \<Longrightarrow> spill_succeeds env \<Longrightarrow> hw_spill w \<noteq> None \<longrightarrow> (\<forall>k. we_spill_read env k)"
  by (simp add: spill_succeeds_def)

text \<open>C5. Spilling does not change the result. When the system calls on the spill file
  succeed, a session that spills its chunks and the same session without a spill directory
  end the same way: the same error, or the same metadata and byte for byte the same file,
  with the same effect on the rest of the file system.\<close>

theorem spill_same_file:
  assumes "fresh w" and "hw_spill_dir w = None" and s: "spill_succeeds env" and z: "zstd_bound env"
    and g: "grid_small (hw_nx w) (hw_ny w)" and n: "chunk_count (hw_nx w) (hw_ny w) ops < 2 ^ 32"
  shows "write_hour env ops os pid path (with_spill_dir dir w) fs = write_hour env ops os pid path w fs"
proof -
  let ?v = "with_spill_dir dir w"
  have fv: "fresh ?v" "hw_nx ?v = hw_nx w" "hw_ny ?v = hw_ny w" using assms(1) by (simp_all add: fresh_def with_spill_dir_def)
  have "same_vars w ?v" by (simp add: same_vars_def with_spill_dir_def)
  from add_all_same [OF s this] have same: "fst (add_all env ops w) = fst (add_all env ops ?v)" .
  obtain r w1 where w1: "add_all env ops w = (r, w1)" by fastforce
  obtain r' v1 where v1: "add_all env ops ?v = (r', v1)" by fastforce
  have r: "r' = r" using same w1 v1 by simp
  show ?thesis
  proof (cases r)
    case (Inl e)
    then show ?thesis using w1 v1 r by (simp add: write_hour_def)
  next
    case (Inr u)
    then have ok: "add_all env ops w = (Inr (), w1)" "add_all env ops ?v = (Inr (), v1)" using w1 v1 r by simp_all
    obtain es where es: "map fst es = ops" "writer_inv env w es w1" by (rule add_all_inv [OF assms(1) ok(1) z g n])
    obtain es' where es': "map fst es' = ops" "writer_inv env ?v es' v1"
      by (rule add_all_inv [OF fv(1) ok(2) z]) (use g n fv in simp_all)
    have "es' = es" using entries_unique [of es' es env "hw_nx w" "hw_ny w"] es es' fv by (simp add: writer_inv_def)
    then show ?thesis
      using finish_file [OF es(2) z g writer_inv_no_spill [OF es(2) s]] finish_file [OF es'(2) z _ writer_inv_no_spill [OF es'(2) s]] g fv
      by (simp add: write_hour_def ok file_spec_spill_dir)
  qed
qed

text \<open>A grid of one row and three columns, a surface field and a deferred volume of two levels; the stand-in for the compressor keeps the bytes.\<close>

definition sample_hour_meta :: rws_hour_meta where
  "sample_hour_meta = \<lparr>hm_schema = SCHEMA_HOUR, hm_model = ''hrrr'', hm_run = ''2026010100'', hm_forecast_hour = 3,
     hm_lead_seconds = None, hm_valid_unix = None, hm_nx = 3, hm_ny = 1, hm_grid_hash = ''grid'',
     hm_variables = [
       \<lparr>vm_id = 0, vm_name = ''t2m'', vm_units = ''K'', vm_kind = ''surface2d'', vm_codec = CODEC_2D, vm_levels_hpa = [], vm_selector = JNull\<rparr>,
       \<lparr>vm_id = 1, vm_name = ''t'', vm_units = ''K'', vm_kind = ''pressure3d'', vm_codec = CODEC_3D, vm_levels_hpa = [1000, 500], vm_selector = JNull\<rparr>],
     hm_chunking = \<lparr>ck_tile_y = TILE_Y, ck_tile_x = TILE_X, ck_col_y = COL_Y, ck_col_x = COL_X\<rparr>,
     hm_writer = \<lparr>wi_name = ''rw-store'', wi_version = ''0.1.0'', wi_build = ''test''\<rparr>\<rparr>"

definition sample_write_env :: write_env where
  "sample_write_env = \<lparr>we_zstd = Some, we_to_json = (\<lambda>m. if m = sample_hour_meta then Some [] else None), we_version = ''0.1.0'', we_spill_create = True,
     we_spill_write = (\<lambda>_. None), we_spill_read = (\<lambda>_. True)\<rparr>"

definition sample_writer :: hour_writer where
  "sample_writer = new_writer ''hrrr'' ''2026010100'' 3 3 1 ''grid'' ''test''"

definition sample_adds_list :: "add_op list" where
  "sample_adds_list = [Deferred ''t'' ''K'' JNull [1000, 500] [replicate 3 f32_NAN, replicate 3 f32_NAN],
     Surface ''t2m'' ''K'' JNull [0x3F800000, 0x40000000, 0x7FC00000]]"

lemma sample_session:
  "fresh sample_writer" "hw_spill_dir sample_writer = None" "spill_succeeds sample_write_env" "zstd_bound sample_write_env"
  "grid_small (hw_nx sample_writer) (hw_ny sample_writer)" "chunk_count (hw_nx sample_writer) (hw_ny sample_writer) sample_adds_list < 2 ^ 32"
  by (simp_all add: sample_writer_def new_writer_def new_with_time_def fresh_def sample_write_env_def spill_succeeds_def zstd_bound_def
      grid_small_def usize_bound_def chunk_count_def sample_adds_list_def op_geometry geometry_consts div_ceil_def)

theorem spill_same_file_witness:
  "\<forall>os pid path fs. write_hour sample_write_env sample_adds_list os pid path (with_spill_dir ''tmp'' sample_writer) fs =
    write_hour sample_write_env sample_adds_list os pid path sample_writer fs"
  by (intro allI) (rule spill_same_file [OF sample_session])

section \<open>Deferred volumes\<close>

fun undefer :: "add_op \<Rightarrow> add_op" where
  "undefer (Deferred n u s ls ps) = Volume n u s ls ps"
| "undefer op = op"

definition deferred_last :: "add_op list \<Rightarrow> add_op list" where
  "deferred_last ops = filter (\<lambda>op. \<not> is_deferred op) ops @ map undefer (filter is_deferred ops)"

lemma undefer_simps [simp]:
  "op_name (undefer op) = op_name op" "\<not> is_deferred (undefer op)" "op_meta i (undefer op) = op_meta i op"
  "op_base env nx ny (undefer op) = op_base env nx ny op" "op_valid nx ny (undefer op) = op_valid nx ny op"
  "op_coords nx ny (undefer op) = op_coords nx ny op"
  by (cases op; simp add: op_geometry)+

text \<open>Well-formed additions with new names succeed while there is room for their ids.\<close>

lemma add_all_succeeds:
  assumes s: "spill_succeeds env"
    and "\<forall>op \<in> set ops. op_valid (hw_nx w) (hw_ny w) op \<and> (\<exists>base. op_base env (hw_nx w) (hw_ny w) op = Inr base)"
    and "distinct (map op_name ops)" and "op_name ` set ops \<inter> vm_name ` set (hw_variables w @ hw_deferred_variables w) = {}"
    and "length (hw_variables w) + length (hw_deferred_variables w) + length ops \<le> 65536"
  shows "\<exists>w'. add_all env ops w = (Inr (), w')"
  using assms(2-)
proof (induction ops arbitrary: w)
  case (Cons op ops)
  let ?t = "op_tag op (length (hw_variables w)) (length (hw_deferred_variables w))"
  obtain base where b: "op_base env (hw_nx w) (hw_ny w) op = Inr base" using Cons.prems(1) by auto
  obtain w1 where st: "stage_chunks env (tag_chunks ?t base) w = (Inr (), w1)"
    using stage_succeeds [OF s, of "tag_chunks ?t base" w] by (cases "stage_chunks env (tag_chunks ?t base) w") simp
  let ?w = "push_meta (fst ?t) op w1"
  have "has_room op w" using Cons.prems(3,4) by (auto simp: has_room_def)
  then have a: "add_one env op w = (Inr (), ?w)" using b st Cons.prems(1) by (auto simp: add_one_Inr)
  have w: "hw_nx ?w = hw_nx w" "hw_ny ?w = hw_ny w" "set (hw_variables ?w @ hw_deferred_variables ?w) =
      insert (op_meta (fst ?t) op) (set (hw_variables w @ hw_deferred_variables w))"
      "length (hw_variables ?w) + length (hw_deferred_variables ?w) = Suc (length (hw_variables w) + length (hw_deferred_variables w))"
    using stage_static [OF st] by (auto simp: push_meta_def)
  have "\<exists>w'. add_all env ops ?w = (Inr (), w')"
  proof (rule Cons.IH)
    show "op_name ` set ops \<inter> vm_name ` set (hw_variables ?w @ hw_deferred_variables ?w) = {}"
      unfolding w(3) using Cons.prems(2,3) by auto
  qed (use Cons.prems w in auto)
  then show ?case using a by auto
qed simp

definition undefer_entry :: "entry \<Rightarrow> entry" where
  "undefer_entry e = (undefer (fst e), snd e)"

lemma deferred_last_entries:
  assumes es: "es' = normals es @ map undefer_entry (defers es)"
  shows "canonical es' = canonical es" "numbered k (normals es' @ defers es') = numbered k (normals es @ defers es)" "length es' = length es"
proof -
  have n: "normals (normals xs @ map undefer_entry (defers xs)) = normals xs @ map undefer_entry (defers xs)"
      "defers (normals xs @ map undefer_entry (defers xs)) = []" for xs
    by (simp_all add: normals_def defers_def undefer_entry_def filter_map o_def)
  have b: "block i (undefer_entry e) = block i e" for i e by (simp add: block_def undefer_entry_def)
  have "map (\<lambda>(i, e). block (of_nat i) e) (enumerate j (map undefer_entry ds)) = map (\<lambda>(i, e). block (of_nat i) e) (enumerate j ds)" for j ds
    by (induction ds arbitrary: j) (simp_all add: b)
  then show "canonical es' = canonical es" by (simp only: canonical_def es n enumerate_append_eq map_append append_Nil2)
  have "numbered j (map undefer_entry ds) = numbered j ds" for j ds
    by (induction ds arbitrary: j) (simp_all add: numbered_def undefer_entry_def)
  then show "numbered k (normals es' @ defers es') = numbered k (normals es @ defers es)"
    by (simp only: es n numbered_simps append_Nil2)
  show "length es' = length es" using length_filters [of es] by (simp add: es)
qed

text \<open>C4. A deferred volume is numbered and stored as if it had been added last. If a session
  adds its variables successfully, with some of them deferred, then adding the other variables
  first and the deferred ones after them, in the same order and not deferred, succeeds too,
  and \<open>finish\<close> ends the same way with byte for byte the same file.\<close>

theorem deferred_as_last:
  assumes "fresh w" and s: "spill_succeeds env" and z: "zstd_bound env" and g: "grid_small (hw_nx w) (hw_ny w)"
    and n: "chunk_count (hw_nx w) (hw_ny w) ops < 2 ^ 32" and len: "length ops \<le> 65536" and a: "add_all env ops w = (Inr (), w1)"
  shows "\<exists>w2. add_all env (deferred_last ops) w = (Inr (), w2) \<and> finish env os pid path w2 fs = finish env os pid path w1 fs"
proof -
  obtain es where es: "map fst es = ops" "writer_inv env w es w1" by (rule add_all_inv [OF assms(1) a z g n])
  have inv: "\<forall>e \<in> set es. op_valid (hw_nx w) (hw_ny w) (fst e) \<and> op_base env (hw_nx w) (hw_ny w) (fst e) = Inr (snd e)"
      "distinct (map op_name ops)"
    using es by (auto simp: writer_inv_def simp flip: map_map)
  define es' where "es' = normals es @ map undefer_entry (defers es)"
  have fst': "map fst es' = deferred_last ops"
    by (simp add: es'_def normals_def defers_def deferred_last_def undefer_entry_def filter_map o_def flip: es(1))
  have ops': "\<forall>op \<in> set (deferred_last ops). op_valid (hw_nx w) (hw_ny w) op \<and> (\<exists>base. op_base env (hw_nx w) (hw_ny w) op = Inr base)"
    using inv(1) by (auto simp: deferred_last_def simp flip: es(1))
  have "map op_name (deferred_last ops) = map op_name (filter (\<lambda>op. \<not> is_deferred op) ops @ filter is_deferred ops)"
    by (simp add: deferred_last_def)
  moreover have "distinct (map op_name (filter (\<lambda>op. \<not> is_deferred op) ops @ filter is_deferred ops))"
    using inv(2) by (auto simp: distinct_map inj_on_def)
  ultimately have dist: "distinct (map op_name (deferred_last ops))" by simp
  have len': "length (deferred_last ops) \<le> 65536"
    using len sum_length_filter_compl [of is_deferred ops] by (simp add: deferred_last_def)
  obtain w2 where w2: "add_all env (deferred_last ops) w = (Inr (), w2)"
    using add_all_succeeds [OF s ops' dist] len' assms(1) by (auto simp: fresh_def)
  have "chunk_count (hw_nx w) (hw_ny w) (deferred_last ops) = chunk_count (hw_nx w) (hw_ny w) ops"
    unfolding chunk_count_def deferred_last_def by (induction ops) simp_all
  with n have n': "chunk_count (hw_nx w) (hw_ny w) (deferred_last ops) < 2 ^ 32" by simp
  obtain es2 where es2: "map fst es2 = deferred_last ops" "writer_inv env w es2 w2" by (rule add_all_inv [OF assms(1) w2 z g n'])
  have "\<forall>e \<in> set es'. op_base env (hw_nx w) (hw_ny w) (fst e) = Inr (snd e)"
    using inv(1) by (auto simp: es'_def undefer_entry_def normals_def defers_def)
  then have "es2 = es'" using entries_unique [of es2 es' env "hw_nx w" "hw_ny w"] es2 fst' by (simp add: writer_inv_def)
  then have "file_spec env w es2 = file_spec env w es"
    using deferred_last_entries [OF es'_def]
    by (simp only: file_spec_def file_meta_def file_records_def file_header_def file_payload_def)
  then show ?thesis
    using finish_file [OF es(2) z g writer_inv_no_spill [OF es(2) s]] finish_file [OF es2(2) z g writer_inv_no_spill [OF es2(2) s]] w2
    by simp
qed

lemma sample_adds: "\<exists>w1. add_all sample_write_env sample_adds_list sample_writer = (Inr (), w1)"
proof (rule add_all_succeeds [OF sample_session(3)])
  have nx: "hw_nx sample_writer = 3" "hw_ny sample_writer = 1" by (simp_all add: sample_writer_def new_writer_def new_with_time_def)
  have wr: "usize_wrap 3 = 3" by (simp add: usize_wrap_def usize_bound_def)
  have z: "compress_payload sample_write_env p = Inr p" for p by (simp add: compress_payload_def sample_write_env_def)
  let ?vs = "[0x3F800000, 0x40000000, 0x7FC00000]" and ?ps = "[replicate 3 f32_NAN, replicate 3 f32_NAN]"
  have "\<exists>base. op_base sample_write_env 3 1 (Surface n u s ?vs) = Inr base" for n u s
    using gather_tile_ok [of ?vs 3 1 0 0]
    by (simp add: encode_tile_def z Let_def geometry_consts div_ceil_def usize_bound_def)
  moreover have "\<exists>base. op_base sample_write_env 3 1 (Deferred n u s ls ?ps) = Inr base" for n u s ls
  proof -
    obtain b where b: "gather_columns 3 1 ?ps 0 0 = Inr b" "set b \<subseteq> {f32_NAN}"
      using gather_columns_ok [of ?ps 3 1 0 0] by (fastforce simp: usize_bound_def piece_cells_def geometry_consts upt_rec)
    then have "\<forall>v \<in> set b. \<not> f32_is_finite v" by (auto simp: f32_consts)
    then have "encode_affine_i16 b = Inr empty_chunk" by (simp add: encode_affine_i16_def Let_def scan_count_0_iff)
    then show ?thesis using b(1) by (simp add: encode_column_def z geometry_consts div_ceil_def)
  qed
  ultimately show "\<forall>op \<in> set sample_adds_list. op_valid (hw_nx sample_writer) (hw_ny sample_writer) op \<and>
      (\<exists>base. op_base sample_write_env (hw_nx sample_writer) (hw_ny sample_writer) op = Inr base)"
    unfolding sample_adds_list_def nx using wr by (simp del: op_base.simps)
qed (simp_all add: sample_adds_list_def sample_writer_def new_writer_def new_with_time_def)

theorem deferred_as_last_witness:
  "\<forall>os pid path fs. \<exists>w1 w2. add_all sample_write_env sample_adds_list sample_writer = (Inr (), w1) \<and>
     add_all sample_write_env (deferred_last sample_adds_list) sample_writer = (Inr (), w2) \<and>
     finish sample_write_env os pid path w2 fs = finish sample_write_env os pid path w1 fs"
proof (intro allI)
  fix os pid path fs
  obtain w1 where w1: "add_all sample_write_env sample_adds_list sample_writer = (Inr (), w1)" using sample_adds by blast
  have "length sample_adds_list \<le> 65536" by (simp add: sample_adds_list_def)
  from deferred_as_last [OF sample_session(1,3,4,5,6) this w1] w1
  show "\<exists>w1 w2. add_all sample_write_env sample_adds_list sample_writer = (Inr (), w1) \<and>
     add_all sample_write_env (deferred_last sample_adds_list) sample_writer = (Inr (), w2) \<and>
     finish sample_write_env os pid path w2 fs = finish sample_write_env os pid path w1 fs" by blast
qed

end
