(* ===== verification/Rw_Stored_Hours.thy ===== *)
theory Rw_Stored_Hours
  imports Rw_Writer_Props Rw_Stored Rw_Read3D_Facts
begin

text \<open>
  The files of the writer under the validation of the reader: every record the writer
  emits is valid, the index covers the metadata, and the file opens.
\<close>

unbundle bit_operations_syntax

section \<open>Encoded chunks\<close>

definition enc_shape :: "nat \<Rightarrow> nat \<Rightarrow> encoded_chunk \<Rightarrow> bool" where
  "enc_shape bpv n c \<longleftrightarrow> ec_flags c AND NOT (FLAG_EMPTY OR FLAG_CONSTANT OR FLAG_HAS_MISSING) = 0 \<and>
     unat (ec_valid_count c) \<le> n \<and>
     (if ec_flags c AND FLAG_EMPTY \<noteq> 0 \<or> ec_flags c AND FLAG_CONSTANT \<noteq> 0 \<and> ec_flags c AND FLAG_HAS_MISSING = 0
      then ec_payload c = [] else length (ec_payload c) = n * bpv)"

lemma count_small: "length vs < 2 ^ 32 \<Longrightarrow> unat (of_nat (cs_valid_count (scan_values vs)) :: u32) \<le> length vs"
  by (simp add: scan_count unat_of_nat) (meson length_filter_le mod_less_eq_dividend order_trans)

lemma tile_shape: "length vs < 2 ^ 32 \<Longrightarrow> enc_shape 4 (length vs) (encode_f32_tile vs)"
  using count_small [of vs] by (simp add: enc_shape_def encode_f32_tile_def Let_def empty_chunk_def flag_consts)

lemma affine_shape: "encode_affine_i16 vs = Inr c \<Longrightarrow> length vs < 2 ^ 32 \<Longrightarrow> enc_shape 2 (length vs) c"
  using count_small [of vs] by (auto simp: enc_shape_def encode_affine_i16_def Let_def empty_chunk_def flag_consts split: if_splits)

section \<open>The chunks of an addition\<close>

definition op_depth :: "add_op \<Rightarrow> nat" where
  "op_depth op = (if is_surface op then 1 else length (op_planes op))"

definition op_piece :: "nat \<Rightarrow> nat \<Rightarrow> add_op \<Rightarrow> nat \<Rightarrow> nat \<Rightarrow> f32 list" where
  "op_piece nx ny op ty tx =
     (if is_surface op then map (\<lambda>(y, x). op_values op ! (y * nx + x)) (piece_cells TILE_Y TILE_X nx ny ty tx)
      else concat (map (\<lambda>(y, x). map (\<lambda>p. p ! (y * nx + x)) (op_planes op)) (piece_cells COL_Y COL_X nx ny ty tx)))"

definition op_encoded :: "nat \<Rightarrow> nat \<Rightarrow> add_op \<Rightarrow> nat \<Rightarrow> nat \<Rightarrow> encoded_chunk \<Rightarrow> bool" where
  "op_encoded nx ny op ty tx c \<longleftrightarrow> (if is_surface op then c = encode_f32_tile (op_piece nx ny op ty tx)
     else encode_affine_i16 (op_piece nx ny op ty tx) = Inr c)"

definition op_bpv :: "add_op \<Rightarrow> nat" where "op_bpv op = (if is_surface op then 4 else 2)"

lemma length_op_piece:
  "length (op_piece nx ny op ty tx) = min (ny - ty * op_h op) (op_h op) * min (nx - tx * op_w op) (op_w op) * op_depth op"
  by (auto simp: op_piece_def op_depth_def op_geometry length_piece_cells length_concat_columns)

lemma op_depth_bound: "op_valid nx ny op \<Longrightarrow> op_depth op \<le> 65536"
  by (cases op) (auto simp: op_depth_def dest: descending_u16_length)

lemma op_piece_small:
  assumes "op_valid nx ny op"
  shows "length (op_piece nx ny op ty tx) \<le> 2 ^ 24"
proof (cases "is_surface op")
  case True
  have "length (piece_cells TILE_Y TILE_X nx ny ty tx) \<le> 65536" using length_piece_le [of TILE_Y TILE_X] by (simp add: geometry_consts)
  then show ?thesis using True by (simp add: op_piece_def)
next
  case False
  have "length (piece_cells COL_Y COL_X nx ny ty tx) \<le> 256" using length_piece_le [of COL_Y COL_X] by (simp add: geometry_consts)
  moreover have "length (op_planes op) \<le> 65536" using op_depth_bound [OF assms] False by (simp add: op_depth_def)
  ultimately have "length (op_planes op) * length (piece_cells COL_Y COL_X nx ny ty tx) \<le> 65536 * 256" by (intro mult_le_mono)
  then show ?thesis using False by (simp add: op_piece_def length_concat_columns)
qed

lemma op_encoded_shape:
  assumes v: "op_valid nx ny op" and e: "op_encoded nx ny op ty tx c"
  shows "enc_shape (op_bpv op) (length (op_piece nx ny op ty tx)) c"
proof -
  have "length (op_piece nx ny op ty tx) < 2 ^ 32" using op_piece_small [OF v, of ty tx] by simp
  then show ?thesis using e by (auto simp: op_encoded_def op_bpv_def intro: tile_shape affine_shape split: if_splits)
qed

lemma base_member:
  assumes b: "op_base env nx ny op = Inr base" and v: "op_valid nx ny op" and g: "nx * ny < usize_bound" and k: "k \<in> set base"
  obtains ty tx c comp where "(ty, tx) \<in> set (op_coords nx ny op)" "op_encoded nx ny op ty tx c"
    "compress_payload env (ec_payload c) = Inr comp" "k = chunk_of 0 (op_kind op) ty tx c comp None"
proof -
  note found = that and w = usize_wrap_small [OF g]
  have col: thesis if b: "r_map (encode_column env 0 None nx ny ps) (op_coords nx ny op) = Inr base" and s: "\<not> is_surface op"
      and ps: "op_planes op = ps" "\<forall>p \<in> set ps. length p = nx * ny" for ps
  proof -
    obtain ty tx where t: "(ty, tx) \<in> set (op_coords nx ny op)" "encode_column env 0 None nx ny ps (ty, tx) = Inr k"
      using r_map_source [OF b k] by auto
    then show thesis using gather_columns_ok [OF ps(2) g, of ty tx] s ps(1)
      by (auto simp: encode_column_def op_encoded_def op_piece_def op_kind_def r_bind_eq_Inr intro!: found [of ty tx])
  qed
  show thesis
  proof (cases op)
    case (Surface n u s vs)
    then obtain ty tx where t: "(ty, tx) \<in> set (op_coords nx ny op)" "encode_tile env 0 nx ny vs (ty, tx) = Inr k"
      using r_map_source [OF _ k] b by (fastforce simp: op_geometry)
    have "tx < div_ceil nx TILE_X" using t(1) Surface by (simp add: op_geometry)
    then have "gather_tile nx ny vs ty tx = Inr (op_piece nx ny op ty tx)"
      using gather_tile_ok [of vs nx ny tx ty] g v Surface by (simp add: op_piece_def w)
    then show thesis using t Surface
      by (intro that [of ty tx "encode_f32_tile (op_piece nx ny op ty tx)" "sk_compressed k"])
        (auto simp: encode_tile_def op_encoded_def op_kind_def r_bind_eq_Inr Let_def)
  qed (use b v col w in \<open>auto simp: op_geometry\<close>)
qed

section \<open>Offsets\<close>

definition start :: "(chunk_record \<times> u8 list) list \<Rightarrow> nat \<Rightarrow> nat" where
  "start ps j = length (concat (map snd (take j ps)))"

lemma place_nth:
  assumes "\<forall>x \<in> set ps. unat (cr_len (fst x)) = length (snd x)" and "j < length ps"
  shows "place cursor ps ! j = (fst (ps ! j))\<lparr>cr_offset := cursor + of_nat (start ps j)\<rparr>"
  using assms
proof (induction ps arbitrary: cursor j)
  case (Cons x ps)
  obtain r b where x: "x = (r, b)" by (cases x)
  have l: "(ucast (cr_len r) :: u64) = of_nat (length b)" using Cons.prems(1) x by (metis fst_conv list.set_intros(1) of_nat_unat snd_conv)
  show ?case
  proof (cases j)
    case (Suc i)
    then show ?thesis using Cons.IH [of i "cursor + ucast (cr_len r)"] Cons.prems x l by (simp add: start_def add.assoc)
  qed (simp add: x start_def)
qed simp

lemma start_slice:
  assumes "j < length ps"
  shows "subslice (start ps j) (start ps j + length (snd (ps ! j))) (concat (map snd ps)) = snd (ps ! j)"
    "start ps j + length (snd (ps ! j)) \<le> length (concat (map snd ps))"
proof -
  have c: "concat (map snd ps) = concat (map snd (take j ps)) @ snd (ps ! j) @ concat (map snd (drop (Suc j) ps))"
    using arg_cong [OF id_take_nth_drop [OF assms], of "\<lambda>xs. concat (map snd xs)"] by simp
  show "subslice (start ps j) (start ps j + length (snd (ps ! j))) (concat (map snd ps)) = snd (ps ! j)"
    unfolding c start_def by (rule slice_middle)
  show "start ps j + length (snd (ps ! j)) \<le> length (concat (map snd ps))" unfolding c start_def by simp
qed

section \<open>A stored hour\<close>

text \<open>The documented contract of the compressor: decompression delivers the input and the end of the stream.\<close>

definition zstd_lossless :: "write_env \<Rightarrow> read_env \<Rightarrow> bool" where
  "zstd_lossless env renv \<longleftrightarrow> (\<forall>bs c. we_zstd env bs = Some c \<longrightarrow> re_zstd renv c = (bs, True) \<and> (bs \<noteq> [] \<longrightarrow> c \<noteq> []))"

text \<open>The ceilings of the reader, which the writer does not check.\<close>

definition within_ceilings :: "nat \<Rightarrow> nat \<Rightarrow> add_op list \<Rightarrow> bool" where
  "within_ceilings nx ny ops \<longleftrightarrow> nx * ny \<le> MAX_GRID_CELLS \<and> nx \<le> 2 ^ 36 \<and> ny \<le> 2 ^ 36 \<and> chunk_count nx ny ops \<le> 2 ^ 23 \<and>
     (\<forall>op \<in> set ops. is_surface op \<or> length (op_levels op) \<le> MAX_PRESSURE_LEVELS \<and> length (op_levels op) * (nx * ny) \<le> MAX_VOLUME_ELEMENTS)"

definition stored_hour :: "write_env \<Rightarrow> read_env \<Rightarrow> hour_writer \<Rightarrow> entry list \<Rightarrow> u8 list \<Rightarrow> bool" where
  "stored_hour env renv w es mb \<longleftrightarrow>
     (\<forall>e \<in> set es. op_valid (hw_nx w) (hw_ny w) (fst e) \<and> op_base env (hw_nx w) (hw_ny w) (fst e) = Inr (snd e)) \<and>
     distinct (map (op_name \<circ> fst) es) \<and> length es \<le> 65536 \<and> 0 < hw_nx w \<and> 0 < hw_ny w \<and>
     (\<forall>t. hw_exact_time w = Some t \<longrightarrow> origin_unix t \<noteq> None) \<and> zstd_bound env \<and> zstd_lossless env renv \<and>
     within_ceilings (hw_nx w) (hw_ny w) (map fst es) \<and> length mb \<le> 2 ^ 24 \<and>
     length (hour_file mb (file_records mb es) (file_payload es)) \<le> 2 ^ 36"

definition ordered :: "entry list \<Rightarrow> entry list" where "ordered es = normals es @ defers es"

lemma set_ordered [simp]: "set (ordered es) = set es" "length (ordered es) = length es"
  using set_filters length_filters by (simp_all add: ordered_def)

lemma mset_ordered: "mset (ordered es) = mset es"
  unfolding ordered_def by (induction es) simp_all

lemma canonical_member:
  assumes "x \<in> set (canonical es)"
  obtains i k where "i < length es" "k \<in> set (snd (ordered es ! i))"
    "x = ((sk_record k)\<lparr>cr_var_id := of_nat i\<rparr>, sk_compressed k)"
proof -
  obtain q where q: "q \<in> set (enumerate 0 (ordered es))" "x \<in> set (block (of_nat (fst q)) (snd q))"
    using assms by (auto simp: canonical_def ordered_def case_prod_unfold)
  have "fst q < length (ordered es)" "ordered es ! fst q = snd q" using q(1) by (simp_all add: in_set_enumerate_eq)
  with q(2) show thesis by (auto simp: block_def intro: that)
qed

lemma length_canonical:
  assumes "\<forall>e \<in> set es. op_base env nx ny (fst e) = Inr (snd e)"
  shows "length (canonical es) = chunk_count nx ny (map fst (ordered es))"
proof -
  have "length (concat (map (\<lambda>(i, e). block (of_nat i) e) (enumerate k xs))) = sum_list (map (\<lambda>e. length (snd e)) xs)" for k xs
    by (induction xs arbitrary: k) (simp_all add: block_def)
  then have "length (canonical es) = sum_list (map (\<lambda>e. length (snd e)) (ordered es))" by (simp add: canonical_def ordered_def)
  also have "map (\<lambda>e. length (snd e)) (ordered es) = map (\<lambda>e. length (op_coords nx ny (fst e))) (ordered es)"
    using assms base_length by (intro map_cong) auto
  finally show ?thesis by (simp add: chunk_count_def o_def)
qed

lemma chunk_count_ordered: "chunk_count nx ny (map fst (ordered es)) = chunk_count nx ny (map fst es)"
proof -
  have "sum_list (map f (ordered es)) = sum_list (map f es)" for f :: "entry \<Rightarrow> nat"
    unfolding ordered_def by (induction es) simp_all
  then show ?thesis by (simp add: chunk_count_def o_def)
qed

lemma numbered_nth: "i < length es \<Longrightarrow> numbered 0 es ! i = op_meta (of_nat i) (fst (es ! i))"
  by (simp add: numbered_def nth_enumerate_eq)

lemma meta_variables: "hm_variables (file_meta env w es) = numbered 0 (ordered es)"
  by (simp add: file_meta_def hour_meta_of_def ordered_def)

lemma var_geometry:
  "chunk_kind (op_meta i op) = op_kind op" "chunk_h (op_meta i op) = op_h op" "chunk_w (op_meta i op) = op_w op"
  "value_bytes (op_meta i op) = op_bpv op" "op_valid nx ny op \<Longrightarrow> chunk_levels (op_meta i op) = op_depth op"
  by (cases op; simp add: chunk_kind_def chunk_h_def chunk_w_def value_bytes_def chunk_levels_def op_geometry op_bpv_def op_depth_def pressure_meta_def)+

section \<open>The records are valid\<close>

lemma stored_hour_grid: "stored_hour env renv w es mb \<Longrightarrow> hw_nx w * hw_ny w < usize_bound"
  using grid_cells_usize by (simp add: stored_hour_def within_ceilings_def)

lemma stored_hour_small: "stored_hour env renv w es mb \<Longrightarrow> grid_small (hw_nx w) (hw_ny w)"
  using stored_hour_grid by (simp add: grid_small_def stored_hour_def within_ceilings_def)

text \<open>One chunk of the file: its variable, position, encoding and compressed bytes.\<close>

definition file_chunk :: "write_env \<Rightarrow> hour_writer \<Rightarrow> entry list \<Rightarrow> chunk_record \<times> u8 list \<Rightarrow> nat \<Rightarrow> nat \<Rightarrow> nat \<Rightarrow> encoded_chunk \<Rightarrow> bool" where
  "file_chunk env w es x i ty tx c \<longleftrightarrow> (let op = fst (ordered es ! i) in
     i < length es \<and> (ty, tx) \<in> set (op_coords (hw_nx w) (hw_ny w) op) \<and> op_encoded (hw_nx w) (hw_ny w) op ty tx c \<and>
     compress_payload env (ec_payload c) = Inr (snd x) \<and> fst x = sk_record (chunk_of (of_nat i) (op_kind op) ty tx c (snd x) None))"

lemma file_chunk_of:
  assumes st: "stored_hour env renv w es mb" and x: "x \<in> set (canonical es)"
  obtains i ty tx c where "file_chunk env w es x i ty tx c"
proof -
  obtain i k where i: "i < length es" "k \<in> set (snd (ordered es ! i))" "x = ((sk_record k)\<lparr>cr_var_id := of_nat i\<rparr>, sk_compressed k)"
    using canonical_member [OF x] .
  have "ordered es ! i \<in> set es" using i(1) by (metis nth_mem set_ordered)
  then have v: "op_valid (hw_nx w) (hw_ny w) (fst (ordered es ! i))"
      "op_base env (hw_nx w) (hw_ny w) (fst (ordered es ! i)) = Inr (snd (ordered es ! i))"
    using st by (simp_all add: stored_hour_def)
  obtain ty tx c comp where "(ty, tx) \<in> set (op_coords (hw_nx w) (hw_ny w) (fst (ordered es ! i)))"
      "op_encoded (hw_nx w) (hw_ny w) (fst (ordered es ! i)) ty tx c" "compress_payload env (ec_payload c) = Inr comp"
      "k = chunk_of 0 (op_kind (fst (ordered es ! i))) ty tx c comp None"
    using base_member [OF v(2,1) stored_hour_grid [OF st] i(2)] .
  then show thesis using i by (intro that [of i ty tx c]) (simp_all add: file_chunk_def Let_def chunk_of_def)
qed

lemma file_chunk_valid: "stored_hour env renv w es mb \<Longrightarrow> file_chunk env w es x i ty tx c \<Longrightarrow> op_valid (hw_nx w) (hw_ny w) (fst (ordered es ! i))"
  unfolding stored_hour_def file_chunk_def Let_def by (metis nth_mem set_ordered)

lemma file_chunk_shape:
  assumes "stored_hour env renv w es mb" and f: "file_chunk env w es x i ty tx c"
  shows "enc_shape (op_bpv (fst (ordered es ! i))) (length (op_piece (hw_nx w) (hw_ny w) (fst (ordered es ! i)) ty tx)) c"
  using op_encoded_shape [OF file_chunk_valid [OF assms]] f by (simp add: file_chunk_def Let_def)

lemma file_chunk_payload:
  assumes st: "stored_hour env renv w es mb" and f: "file_chunk env w es x i ty tx c"
  shows "length (ec_payload c) \<le> 2 ^ 26" "length (snd x) \<le> length (ec_payload c) + 2 ^ 20" "(snd x = []) = (ec_payload c = [])"
    "unat (cr_len (fst x)) = length (snd x)" "unat (cr_raw_len (fst x)) = length (ec_payload c)"
    "ec_payload c \<noteq> [] \<Longrightarrow> re_zstd renv (snd x) = (ec_payload c, True)"
proof -
  let ?op = "fst (ordered es ! i)"
  have p: "compress_payload env (ec_payload c) = Inr (snd x)"
      and r: "fst x = sk_record (chunk_of (of_nat i) (op_kind ?op) ty tx c (snd x) None)" using f by (simp_all add: file_chunk_def Let_def)
  have "length (ec_payload c) \<le> length (op_piece (hw_nx w) (hw_ny w) ?op ty tx) * 4"
    using file_chunk_shape [OF assms] by (auto simp: enc_shape_def op_bpv_def split: if_splits)
  then show pl: "length (ec_payload c) \<le> 2 ^ 26" using op_piece_small [OF file_chunk_valid [OF assms], of ty tx] by simp
  have "length (snd x) \<le> length (ec_payload c) + length (ec_payload c) div 256 + 1024"
    using st p by (intro compress_payload_length) (simp_all add: stored_hour_def)
  moreover have "length (ec_payload c) div 256 \<le> 2 ^ 18" using pl by simp
  ultimately show xl: "length (snd x) \<le> length (ec_payload c) + 2 ^ 20" by simp
  show "unat (cr_len (fst x)) = length (snd x)" using r xl pl by (simp add: unat_of_nat)
  show "unat (cr_raw_len (fst x)) = length (ec_payload c)" using r pl by (simp add: chunk_of_def unat_of_nat)
  show "(snd x = []) = (ec_payload c = [])" "ec_payload c \<noteq> [] \<Longrightarrow> re_zstd renv (snd x) = (ec_payload c, True)"
    using p st by (auto simp: compress_payload_def stored_hour_def zstd_lossless_def ok_or_eq_Inr split: if_splits)
qed

lemma canonical_lens:
  assumes "stored_hour env renv w es mb"
  shows "\<forall>x \<in> set (canonical es). unat (cr_len (fst x)) = length (snd x)"
  using file_chunk_of [OF assms] file_chunk_payload(4) [OF assms] by metis

lemma stored_bounds:
  assumes st: "stored_hour env renv w es mb"
  shows "length (canonical es) \<le> 2 ^ 23" "unat (hd_payload_offset (file_header mb es)) = 64 + length mb + 64 * length (canonical es)"
    "64 + length mb + 64 * length (canonical es) + length (file_payload es) \<le> 2 ^ 36"
proof -
  show n: "length (canonical es) \<le> 2 ^ 23"
    using length_canonical [of es env "hw_nx w" "hw_ny w"] chunk_count_ordered st by (simp add: stored_hour_def within_ceilings_def)
  have m: "length mb \<le> 2 ^ 24" using st by (simp add: stored_hour_def)
  have "header_layout (file_header mb es)"
    unfolding file_header_def using m n by (intro for_layout_header_layout) (simp add: unat_of_nat)
  then show "unat (hd_payload_offset (file_header mb es)) = 64 + length mb + 64 * length (canonical es)"
    using m n by (simp add: header_layout_def file_header_def for_layout_def Let_def unat_of_nat)
  show "64 + length mb + 64 * length (canonical es) + length (file_payload es) \<le> 2 ^ 36"
    using st by (simp add: stored_hour_def length_hour_file file_records_def)
qed

text \<open>The record of chunk \<open>j\<close>, its offset and its payload.\<close>

lemma stored_record:
  assumes st: "stored_hour env renv w es mb" and j: "j < length (canonical es)"
  shows "file_records mb es ! j = (fst (canonical es ! j))\<lparr>cr_offset := hd_payload_offset (file_header mb es) + of_nat (start (canonical es) j)\<rparr>"
    "unat (cr_offset (file_records mb es ! j)) = 64 + length mb + 64 * length (canonical es) + start (canonical es) j"
    "subslice (unat (cr_offset (file_records mb es ! j))) (unat (cr_offset (file_records mb es ! j)) + length (snd (canonical es ! j)))
      (hour_file mb (file_records mb es) (file_payload es)) = snd (canonical es ! j)"
    "unat (cr_offset (file_records mb es ! j)) + length (snd (canonical es ! j)) \<le> length (hour_file mb (file_records mb es) (file_payload es))"
proof -
  let ?po = "64 + length mb + 64 * length (canonical es)" and ?s = "start (canonical es) j" and ?file = "hour_file mb (file_records mb es) (file_payload es)"
  show r: "file_records mb es ! j = (fst (canonical es ! j))\<lparr>cr_offset := hd_payload_offset (file_header mb es) + of_nat ?s\<rparr>"
    unfolding file_records_def by (rule place_nth [OF canonical_lens [OF st] j])
  note b = stored_bounds [OF st] and sl = start_slice [OF j]
  have s: "?s \<le> length (file_payload es)" using sl(2) by (simp add: file_payload_def)
  have "unat (hd_payload_offset (file_header mb es) + of_nat ?s) = ?po + ?s"
    using b s by (simp add: unat_word_ariths unat_of_nat)
  then show o: "unat (cr_offset (file_records mb es ! j)) = ?po + ?s" by (simp add: r)
  have f: "?file = (pack_header (file_header mb es) @ mb @ concat (map pack_record (file_records mb es))) @ file_payload es"
    by (simp add: hour_file_def file_header_def file_records_def)
  have l: "length (pack_header (file_header mb es) @ mb @ concat (map pack_record (file_records mb es))) = ?po"
    by (simp add: recc.enc_array_length file_records_def)
  show "subslice (unat (cr_offset (file_records mb es ! j))) (unat (cr_offset (file_records mb es ! j)) + length (snd (canonical es ! j))) ?file =
      snd (canonical es ! j)"
    using slice_append_right [of "pack_header (file_header mb es) @ mb @ concat (map pack_record (file_records mb es))" ?s
        "?s + length (snd (canonical es ! j))" "file_payload es"] sl(1) unfolding o f l by (simp add: file_payload_def add.assoc)
  show "unat (cr_offset (file_records mb es ! j)) + length (snd (canonical es ! j)) \<le> length ?file"
    unfolding o using sl(2) by (simp add: length_hour_file file_records_def file_payload_def)
qed

lemma coords_mem: "(ty, tx) \<in> set (op_coords nx ny op) \<longleftrightarrow> ty < div_ceil ny (op_h op) \<and> tx < div_ceil nx (op_w op)"
  by (auto simp: op_coords_def)

lemma piece_pos:
  assumes v: "op_valid nx ny op" and "(ty, tx) \<in> set (op_coords nx ny op)"
  shows "0 < length (op_piece nx ny op ty tx)"
proof -
  have "0 < op_h op" "0 < op_w op" by (simp_all add: op_geometry geometry_consts)
  then have "ty * op_h op < ny" "tx * op_w op < nx" using assms(2) by (simp_all add: coords_mem less_div_ceil_iff mult.commute)
  moreover have "0 < op_depth op" using v by (cases op) (auto simp: op_depth_def)
  ultimately show ?thesis using \<open>0 < op_h op\<close> \<open>0 < op_w op\<close> by (simp add: length_op_piece)
qed

lemma stored_record_valid:
  assumes st: "stored_hour env renv w es mb" and j: "j < length (canonical es)"
    and f: "file_chunk env w es (canonical es ! j) i ty tx c"
  shows "record_valid (file_meta env w es) (file_header mb es) (of_nat (length (hour_file mb (file_records mb es) (file_payload es))))
    (op_meta (of_nat i) (fst (ordered es ! i))) (file_records mb es ! j)"
proof -
  let ?op = "fst (ordered es ! i)" and ?x = "canonical es ! j" and ?r = "file_records mb es ! j"
  let ?file = "hour_file mb (file_records mb es) (file_payload es)" and ?m = "file_meta env w es"
  note v = file_chunk_valid [OF st f] and sh = file_chunk_shape [OF st f] and pl = file_chunk_payload [OF st f] and sr = stored_record [OF st j]
  have m: "hm_nx ?m = hw_nx w" "hm_ny ?m = hw_ny w" by (simp_all add: file_meta_def hour_meta_of_def)
  have c: "(ty, tx) \<in> set (op_coords (hw_nx w) (hw_ny w) ?op)" "fst ?x = sk_record (chunk_of (of_nat i) (op_kind ?op) ty tx c (snd ?x) None)"
    using f by (simp_all add: file_chunk_def Let_def)
  have t: "ty < 2 ^ 32" "tx < 2 ^ 32" using coords_small [OF stored_hour_small [OF st] c(1)] .
  have r: "cr_kind ?r = op_kind ?op" "cr_flags ?r = ec_flags c" "unat (cr_tile_y ?r) = ty" "unat (cr_tile_x ?r) = tx"
      "cr_valid_count ?r = ec_valid_count c" "cr_len ?r = cr_len (fst ?x)" "cr_raw_len ?r = cr_raw_len (fst ?x)"
    using t by (simp_all add: sr(1) c(2) chunk_of_def unat_of_nat)
  have n: "chunk_values ?m (op_meta (of_nat i) ?op) ty tx = length (op_piece (hw_nx w) (hw_ny w) ?op ty tx)"
    by (simp add: chunk_values_def chunk_rows_def chunk_cols_def var_geometry(2,3) var_geometry(5) [OF v] m length_op_piece)
  have fl: "unat (of_nat (length ?file) :: u64) = length ?file" using st by (simp add: stored_hour_def unat_of_nat)
  have off: "hd_payload_offset (file_header mb es) \<le> cr_offset ?r"
    using sr(2) stored_bounds(2) [OF st] by (simp add: word_le_nat_alt)
  have len0: "cr_len ?r = 0 \<longleftrightarrow> snd ?x = []" using pl(4) r(6) by (simp add: unat_eq_zero [symmetric] del: unat_eq_zero)
  have raw0: "cr_raw_len ?r = 0 \<longleftrightarrow> ec_payload c = []" using pl(5) r(7) by (simp add: unat_eq_zero [symmetric] del: unat_eq_zero)
  have np: "ec_payload c \<noteq> []" if "length (ec_payload c) = length (op_piece (hw_nx w) (hw_ny w) ?op ty tx) * op_bpv ?op"
    using piece_pos [OF v c(1)] that by (auto simp: op_bpv_def split: if_splits)
  show ?thesis unfolding record_valid_def Let_def r(3,4) n
  proof (intro conjI)
    show "ty < chunks_y ?m (op_meta (of_nat i) ?op)" "tx < chunks_x ?m (op_meta (of_nat i) ?op)"
      using c(1) by (simp_all add: chunks_y_def chunks_x_def var_geometry m coords_mem)
    show "if payload_free ?r then cr_len ?r = 0 \<and> cr_raw_len ?r = 0
      else cr_len ?r \<noteq> 0 \<and> unat (cr_raw_len ?r) = length (op_piece (hw_nx w) (hw_ny w) ?op ty tx) * value_bytes (op_meta (of_nat i) ?op) \<and>
        unat (cr_len ?r) \<le> length (op_piece (hw_nx w) (hw_ny w) ?op ty tx) * value_bytes (op_meta (of_nat i) ?op) + 2 ^ 20 \<and>
        hd_payload_offset (file_header mb es) \<le> cr_offset ?r \<and> unat (cr_offset ?r) + unat (cr_len ?r) \<le> unat (of_nat (length ?file) :: u64)"
      using sh np pl len0 raw0 off sr(4) r fl by (simp add: payload_free_def enc_shape_def var_geometry split: if_splits)
  qed (use sh r in \<open>simp_all add: enc_shape_def var_geometry\<close>)
qed

section \<open>The file opens\<close>

lemma stored_sorted:
  assumes st: "stored_hour env renv w es mb"
  shows "sorted_wrt (<) (map sort_key (file_records mb es))"
proof -
  have "map sort_key (place cursor ps) = map (\<lambda>x. sort_key (fst x)) ps" for cursor ps
    by (induction cursor ps rule: place.induct) (simp_all add: sort_key_def)
  then show ?thesis using canonical_sorted [OF _ stored_hour_small [OF st], of es env] st
    by (simp add: file_records_def stored_hour_def)
qed

lemma stored_meta_valid:
  assumes st: "stored_hour env renv w es mb"
  shows "meta_valid (file_meta env w es)" "expected_records (file_meta env w es) = length (canonical es)"
proof -
  let ?m = "file_meta env w es"
  have g: "hm_nx ?m = hw_nx w" "hm_ny ?m = hw_ny w" by (simp_all add: file_meta_def hour_meta_of_def)
  have t: "\<exists>t. validate_time_schema ?m = Inr t"
  proof (cases "hw_exact_time w")
    case (Some t)
    then have "origin_unix t \<noteq> None" using st by (simp add: stored_hour_def)
    moreover obtain l v where "t = \<lparr>et_lead_seconds = l, et_valid_unix = v\<rparr>" by (cases t)
    ultimately show ?thesis using Some
      by (auto simp: validate_time_schema_def file_meta_def hour_meta_of_def SCHEMA_HOUR_def SCHEMA_HOUR_V2_def)
  qed (simp add: validate_time_schema_def file_meta_def hour_meta_of_def)
  have n: "length (ordered es) \<le> 65536" using st by (simp add: stored_hour_def)
  have "map vm_id (numbered 0 (ordered es)) = map of_nat [0..<length (ordered es)]"
    by (rule nth_equalityI) (simp_all add: numbered_nth)
  then have ids: "distinct (map vm_id (numbered 0 (ordered es)))"
    using n by (auto simp: distinct_map intro!: inj_onI dest!: arg_cong [of _ _ unat] simp: unat_of_nat)
  have "distinct (map (op_name \<circ> fst) (ordered es)) = distinct (map (op_name \<circ> fst) es)"
    by (rule mset_eq_imp_distinct_iff) (simp add: mset_ordered)
  then have names: "distinct (map vm_name (numbered 0 (ordered es)))" using st by (simp add: names_numbered stored_hour_def)
  have vars: "var_valid (hw_nx w * hw_ny w) var" if "var \<in> set (numbered 0 (ordered es))" for var
  proof -
    obtain i where i: "i < length (ordered es)" "var = op_meta (of_nat i) (fst (ordered es ! i))"
      using \<open>var \<in> set (numbered 0 (ordered es))\<close> by (auto simp: in_set_conv_nth numbered_nth)
    let ?op = "fst (ordered es ! i)"
    have e: "ordered es ! i \<in> set es" using i(1) by (metis nth_mem set_ordered(1))
    have "op_valid (hw_nx w) (hw_ny w) ?op" using st e by (simp add: stored_hour_def)
    moreover have "is_surface ?op \<or> length (op_levels ?op) \<le> MAX_PRESSURE_LEVELS \<and> length (op_levels ?op) * (hw_nx w * hw_ny w) \<le> MAX_VOLUME_ELEMENTS"
      using st e by (simp add: stored_hour_def within_ceilings_def)
    ultimately show ?thesis unfolding i(2) by (cases ?op) (simp_all add: var_valid_def pressure_meta_def)
  qed
  show "meta_valid ?m" unfolding meta_valid_def meta_variables g
    using t ids names vars st by (simp add: stored_hour_def within_ceilings_def file_meta_def hour_meta_of_def)
  have "map (\<lambda>var. chunks_y ?m var * chunks_x ?m var) (numbered 0 (ordered es)) =
      map (\<lambda>op. length (op_coords (hw_nx w) (hw_ny w) op)) (map fst (ordered es))"
    by (rule nth_equalityI) (simp_all add: numbered_nth chunks_y_def chunks_x_def var_geometry g op_coords_def)
  then show "expected_records ?m = length (canonical es)"
    using length_canonical [of es env "hw_nx w" "hw_ny w"] st by (simp add: expected_records_def meta_variables chunk_count_def stored_hour_def)
qed

lemma stored_index_ok:
  assumes st: "stored_hour env renv w es mb"
  shows "index_ok (file_meta env w es) (file_header mb es)
    (of_nat (length (hour_file mb (file_records mb es) (file_payload es)))) (file_records mb es)"
  unfolding index_ok_def
proof (intro conjI ballI)
  show "length (file_records mb es) = expected_records (file_meta env w es)" using stored_meta_valid [OF st] by (simp add: file_records_def)
  fix r assume "r \<in> set (file_records mb es)"
  then obtain j where j: "j < length (canonical es)" "r = file_records mb es ! j" by (auto simp: in_set_conv_nth file_records_def)
  obtain i ty tx c where f: "file_chunk env w es (canonical es ! j) i ty tx c" using file_chunk_of [OF st nth_mem [OF j(1)]] .
  then have i: "i < length (ordered es)" "cr_var_id r = of_nat i"
    using stored_record(1) [OF st j(1)] by (simp_all add: file_chunk_def Let_def j(2) chunk_of_def)
  show "\<exists>var \<in> set (hm_variables (file_meta env w es)). vm_id var = cr_var_id r \<and> record_valid (file_meta env w es) (file_header mb es)
      (of_nat (length (hour_file mb (file_records mb es) (file_payload es)))) var r"
  proof (rule bexI)
    show "op_meta (of_nat i) (fst (ordered es ! i)) \<in> set (hm_variables (file_meta env w es))"
      unfolding meta_variables using i(1) by (metis numbered_simps(3) numbered_nth nth_mem)
  qed (use stored_record_valid [OF st j(1) f] i j in simp)
qed (use stored_sorted [OF st] stored_meta_valid [OF st] in simp_all)

end
