(* ===== verification/Rw_Round_Trip.thy ===== *)
theory Rw_Round_Trip
  imports Rw_Stored_Hours Rw_Publish
begin

text \<open>
  Writing and reading back: what the reader returns for a field is the field the writer was
  given, up to the documented losses of the two codecs.
\<close>

unbundle bit_operations_syntax

section \<open>Decoding a stored chunk\<close>

definition reads_stored :: "write_env \<Rightarrow> hour_writer \<Rightarrow> entry list \<Rightarrow> u8 list \<Rightarrow> hour_reader \<Rightarrow> bool" where
  "reads_stored env w es mb rd \<longleftrightarrow> hr_bytes rd = Mmap (hour_file mb (file_records mb es) (file_payload es)) \<and>
     hr_meta rd = file_meta env w es \<and> hr_records rd = file_records mb es \<and> reader_ok (file_header mb es) rd"

lemma stored_opens:
  assumes st: "stored_hour env renv w es mb" and json: "from_json mb = Some (file_meta env w es)"
  obtains rd where "open_with_tile_cache_bytes from_json
      (Some (stored_file handle (hour_file mb (file_records mb es) (file_payload es)))) cap = Inr rd" "reads_stored env w es mb rd"
proof -
  have m: "length mb \<le> 2 ^ 24" "length (hour_file mb (file_records mb es) (file_payload es)) \<le> 2 ^ 36"
      "length (hm_variables (file_meta env w es)) \<le> 65536"
    using st by (simp_all add: stored_hour_def meta_variables)
  have h: "file_header mb es = for_layout (of_nat (length mb)) (of_nat (length (file_records mb es)))"
    by (simp add: file_header_def file_records_def)
  have n: "length (file_records mb es) \<le> 2 ^ 23" using stored_bounds(1) [OF st] by (simp add: file_records_def)
  obtain ranges where r: "ranges_ok (file_records mb es) (length (file_records mb es)) ranges"
      "open_with_tile_cache_bytes from_json (Some (stored_file handle (hour_file mb (file_records mb es) (file_payload es)))) cap =
        Inr \<lparr>hr_bytes = Mmap (hour_file mb (file_records mb es) (file_payload es)), hr_source = handle, hr_meta = file_meta env w es,
          hr_records = file_records mb es, hr_var_ranges = ranges, hr_tile_cache = cache_new cap\<rparr>"
    using stored_file_opens [where from_json = from_json, OF h m(1,2) json m(3) stored_index_ok [OF st] n] by blast
  have "header_layout (file_header mb es)"
    unfolding h using m n by (intro for_layout_header_layout) (simp add: unat_of_nat)
  then show thesis using r stored_index_ok [OF st] by (intro that [OF r(2)]) (simp add: reads_stored_def reader_ok_def)
qed

lemma stored_payload_slice:
  assumes st: "stored_hour env renv w es mb" and rd: "reads_stored env w es mb rd" and j: "j < length (canonical es)"
  shows "payload_slice rd (file_records mb es ! j) = Inr (snd (canonical es ! j))"
proof -
  let ?r = "file_records mb es ! j" and ?file = "hour_file mb (file_records mb es) (file_payload es)"
  note sr = stored_record [OF st j]
  have l: "unat (cr_len ?r) = length (snd (canonical es ! j))"
    using canonical_lens [OF st] j by (simp add: sr(1))
  have fl: "length ?file \<le> 2 ^ 36" using st by (simp add: stored_hour_def)
  have u: "unat (cr_offset ?r + ucast (cr_len ?r)) = unat (cr_offset ?r) + length (snd (canonical es ! j))"
    using sr(4) fl l by (simp add: unat_word_ariths)
  then have "u64_checked_add (cr_offset ?r) (ucast (cr_len ?r)) = Some (cr_offset ?r + ucast (cr_len ?r))"
    using l by (simp add: u64_checked_add_eq_Some)
  moreover have "\<not> cr_offset ?r + ucast (cr_len ?r) > of_nat (length ?file)"
    using u sr(4) fl by (simp add: word_less_nat_alt unat_of_nat)
  ultimately show ?thesis using rd sr(3,4) by (simp add: payload_slice_def reads_stored_def Let_def u r_slice_def subslice_ok_def)
qed

lemma stored_decompress:
  assumes st: "stored_hour env renv w es mb" and f: "file_chunk env w es x i ty tx c" and p: "ec_payload c \<noteq> []"
  shows "decompress_chunk renv (snd x) (length (ec_payload c)) = Inr (ec_payload c)"
  using file_chunk_payload(6) [OF st f p] by (simp add: decompress_chunk_def)

lemma stored_chunk_fields:
  assumes st: "stored_hour env renv w es mb" and j: "j < length (canonical es)" and f: "file_chunk env w es (canonical es ! j) i ty tx c"
  shows "cr_flags (file_records mb es ! j) = ec_flags c" "cr_center (file_records mb es ! j) = ec_center c"
    "cr_scale (file_records mb es ! j) = ec_scale c" "cr_len (file_records mb es ! j) = 0 \<longleftrightarrow> ec_payload c = []"
    "unat (cr_raw_len (file_records mb es ! j)) = length (ec_payload c)"
proof -
  have x: "fst (canonical es ! j) = sk_record (chunk_of (of_nat i) (op_kind (fst (ordered es ! i))) ty tx c (snd (canonical es ! j)) None)"
    using f by (simp add: file_chunk_def Let_def)
  note sr = stored_record(1) [OF st j] and pl = file_chunk_payload [OF st f]
  show "cr_flags (file_records mb es ! j) = ec_flags c" "cr_center (file_records mb es ! j) = ec_center c"
    "cr_scale (file_records mb es ! j) = ec_scale c" unfolding sr x by (simp_all add: chunk_of_def)
  show "unat (cr_raw_len (file_records mb es ! j)) = length (ec_payload c)" using pl(5) by (simp add: sr)
  have "cr_len (file_records mb es ! j) = 0 \<longleftrightarrow> unat (cr_len (fst (canonical es ! j))) = 0" by (simp add: sr unat_eq_0)
  then show "cr_len (file_records mb es ! j) = 0 \<longleftrightarrow> ec_payload c = []" using pl(3,4) by simp
qed

lemma stored_decode_tile:
  assumes st: "stored_hour env renv w es mb" and rd: "reads_stored env w es mb rd" and j: "j < length (canonical es)"
    and f: "file_chunk env w es (canonical es ! j) i ty tx c" and s: "is_surface (fst (ordered es ! i))"
  shows "decode_tile renv rd (file_records mb es ! j) (length (op_piece (hw_nx w) (hw_ny w) (fst (ordered es ! i)) ty tx)) =
    decode_encoded_tile c (length (op_piece (hw_nx w) (hw_ny w) (fst (ordered es ! i)) ty tx))"
proof -
  let ?n = "length (op_piece (hw_nx w) (hw_ny w) (fst (ordered es ! i)) ty tx)"
  have n: "?n \<le> 2 ^ 24" using op_piece_small [OF file_chunk_valid [OF st f]] .
  note sh = file_chunk_shape [OF st f] and cf = stored_chunk_fields [OF st j f]
  consider (free) "ec_flags c AND FLAG_EMPTY \<noteq> 0 \<or> ec_flags c AND FLAG_CONSTANT \<noteq> 0 \<and> ec_payload c = []"
    | (dense) "ec_flags c AND FLAG_EMPTY = 0" "\<not> (ec_flags c AND FLAG_CONSTANT \<noteq> 0 \<and> ec_payload c = [])" by blast
  then show ?thesis
  proof cases
    case free
    then show ?thesis using cf by (auto simp: decode_tile_def decode_encoded_tile_def decode_f32_tile_def)
  next
    case dense
    have p: "length (ec_payload c) = ?n * 4" "ec_payload c \<noteq> []"
    proof -
      show l: "length (ec_payload c) = ?n * 4" using sh dense s by (auto simp: enc_shape_def op_bpv_def split: if_splits)
      have "0 < ?n" using piece_pos [OF file_chunk_valid [OF st f]] f by (simp add: file_chunk_def Let_def)
      then show "ec_payload c \<noteq> []" using l by auto
    qed
    then show ?thesis using dense cf n stored_payload_slice [OF st rd j] stored_decompress [OF st f p(2)]
      by (simp add: decode_tile_def decode_encoded_tile_def decode_f32_tile_def usize_checked_mul_def usize_bound_def)
  qed
qed

lemma stored_decode_column:
  assumes st: "stored_hour env renv w es mb" and rd: "reads_stored env w es mb rd" and j: "j < length (canonical es)"
    and f: "file_chunk env w es (canonical es ! j) i ty tx c" and s: "\<not> is_surface (fst (ordered es ! i))"
  shows "decode_column_chunk renv rd (file_records mb es ! j) n = decode_affine_i16 (ec_flags c) (ec_center c) (ec_scale c) (ec_payload c) n"
proof -
  note sh = file_chunk_shape [OF st f] and cf = stored_chunk_fields [OF st j f]
  have "0 < length (op_piece (hw_nx w) (hw_ny w) (fst (ordered es ! i)) ty tx)"
    using piece_pos [OF file_chunk_valid [OF st f]] f by (simp add: file_chunk_def Let_def)
  then have p: "ec_payload c \<noteq> []" if "ec_flags c AND FLAG_EMPTY = 0" "\<not> (ec_flags c AND FLAG_CONSTANT \<noteq> 0 \<and> ec_payload c = [])"
    using that sh s by (auto simp: enc_shape_def op_bpv_def split: if_splits)
  show ?thesis using cf p stored_payload_slice [OF st rd j] stored_decompress [OF st f]
    by (auto simp: decode_column_chunk_def decode_affine_i16_def)
qed

section \<open>The value of a cell\<close>

text \<open>The reader finds, for a chunk of a variable, the record and bytes the writer staged for it.\<close>

lemma find_stored:
  assumes st: "stored_hour env renv w es mb" and rd: "reads_stored env w es mb rd" and i: "i < length es"
    and t: "(ty, tx) \<in> set (op_coords (hw_nx w) (hw_ny w) (fst (ordered es ! i)))"
  obtains j c where "j < length (canonical es)" "file_chunk env w es (canonical es ! j) i ty tx c"
    "find_chunk_record rd (op_meta (of_nat i) (fst (ordered es ! i))) (op_kind (fst (ordered es ! i))) ty tx = Inr (file_records mb es ! j)"
proof -
  let ?op = "fst (ordered es ! i)"
  let ?var = "op_meta (of_nat i) ?op"
  have m: "hr_meta rd = file_meta env w es" "hr_records rd = file_records mb es" "reader_ok (file_header mb es) rd"
    using rd by (simp_all add: reads_stored_def)
  have g: "hm_nx (file_meta env w es) = hw_nx w" "hm_ny (file_meta env w es) = hw_ny w" by (simp_all add: file_meta_def hour_meta_of_def)
  have var: "?var \<in> set (hm_variables (hr_meta rd))"
    unfolding m(1) meta_variables using i by (metis numbered_nth numbered_simps(3) nth_mem set_ordered(2))
  have "ty < chunks_y (hr_meta rd) ?var" "tx < chunks_x (hr_meta rd) ?var"
    using t by (simp_all add: m(1) g chunks_y_def chunks_x_def var_geometry coords_mem)
  from find_chunk_record_ok [OF m(3) var this] obtain r where r: "find_chunk_record rd ?var (op_kind ?op) ty tx = Inr r"
      "r \<in> set (file_records mb es)" "cr_var_id r = of_nat i" "unat (cr_tile_y r) = ty" "unat (cr_tile_x r) = tx"
    unfolding var_geometry m(2) op_meta_simps by blast
  obtain j where j: "j < length (canonical es)" "r = file_records mb es ! j" using r(2) by (auto simp: in_set_conv_nth file_records_def)
  obtain i' ty' tx' c where f: "file_chunk env w es (canonical es ! j) i' ty' tx' c" using file_chunk_of [OF st nth_mem [OF j(1)]] .
  have x: "fst (canonical es ! j) = sk_record (chunk_of (of_nat i') (op_kind (fst (ordered es ! i'))) ty' tx' c (snd (canonical es ! j)) None)"
      "i' < length es" "(ty', tx') \<in> set (op_coords (hw_nx w) (hw_ny w) (fst (ordered es ! i')))"
    using f by (simp_all add: file_chunk_def Let_def)
  have "ty' < 2 ^ 32" "tx' < 2 ^ 32" using coords_small [OF stored_hour_small [OF st] x(3)] .
  then have "ty' = ty" "tx' = tx" using r(4,5) stored_record(1) [OF st j(1)] by (simp_all add: j(2) x(1) chunk_of_def unat_of_nat)
  moreover have "(of_nat i' :: u16) = of_nat i" using r(3) stored_record(1) [OF st j(1)] by (simp add: j(2) x(1) chunk_of_def)
  then have "unat (of_nat i' :: u16) = unat (of_nat i :: u16)" by simp
  then have "i' = i" using x(2) i st by (simp add: stored_hour_def unat_of_nat)
  ultimately show thesis using that [OF j(1)] f r(1) j(2) by simp
qed

text \<open>The position of a cell inside its piece.\<close>

lemma offset_split: "(a * n + b) div n = a" "(a * n + b) mod n = b" if "b < n" for a b n :: nat
  using that by simp_all

lemma piece_cell:
  assumes "y < ny" "x < nx" and h: "0 < h" "0 < w"
  shows "y mod h * min (nx - x div w * w) w + x mod w < length (piece_cells h w nx ny (y div h) (x div w))"
    "piece_cells h w nx ny (y div h) (x div w) ! (y mod h * min (nx - x div w * w) w + x mod w) = (y, x)"
proof -
  let ?c = "min (nx - x div w * w) w" and ?r = "min (ny - y div h * h) h"
  have "x div w * w + x mod w < nx" "y div h * h + y mod h < ny" using assms(1,2) by simp_all
  then have c: "x mod w < ?c" "y mod h < ?r" using mod_less_divisor [OF h(1), of y] mod_less_divisor [OF h(2), of x] by linarith+
  then show i: "y mod h * ?c + x mod w < length (piece_cells h w nx ny (y div h) (x div w))"
    unfolding length_piece_cells using cell_index [of "y mod h" ?r "x mod w" ?c] by (simp add: mult.commute)
  let ?xs = "[x div w * w..<min (x div w * w + w) nx]" and ?ys = "[y div h * h..<min (y div h * h + h) ny]"
  have len: "length ?xs = ?c" "length ?ys = ?r" by (auto simp: min_def)
  have upt: "[a..<b] ! k = a + k" if "k < length [a..<b]" for a b k using that by (simp add: less_diff_conv add.commute)
  have at: "?xs ! (x mod w) = x" "?ys ! (y mod h) = y"
    using upt [of "x mod w" "x div w * w" "min (x div w * w + w) nx"] upt [of "y mod h" "y div h * h" "min (y div h * h + h) ny"] c
    unfolding len by (simp_all only: div_mult_mod_eq)
  note k = offset_split [OF c(1), of "y mod h"]
  have "List.product ?ys ?xs ! (y mod h * ?c + x mod w) = (?ys ! ((y mod h * ?c + x mod w) div ?c), ?xs ! ((y mod h * ?c + x mod w) mod ?c))"
    using product_nth [of "y mod h * ?c + x mod w" ?ys ?xs] i unfolding piece_cells_def length_product len .
  then show "piece_cells h w nx ny (y div h) (x div w) ! (y mod h * ?c + x mod w) = (y, x)"
    unfolding piece_cells_def k at .
qed

lemma nth_concat_uniform:
  "(\<And>x. length (f x) = n) \<Longrightarrow> k < length xs \<Longrightarrow> z < n \<Longrightarrow> concat (map f xs) ! (k * n + z) = f (xs ! k) ! z"
proof (induction xs arbitrary: k)
  case (Cons x xs)
  then show ?case by (cases k) (simp_all add: nth_append add.assoc)
qed simp

lemma stored_cell_2d:
  assumes st: "stored_hour env renv w es mb" and rd: "reads_stored env w es mb rd" and i: "i < length es"
    and op: "fst (ordered es ! i) = Surface n u s vs" and y: "y < hw_ny w" "x < hw_nx w"
  shows "\<exists>v. cell_2d renv rd (op_meta (of_nat i) (fst (ordered es ! i))) y x = Inr v \<and> tile_same (vs ! (y * hw_nx w + x)) v"
proof -
  let ?op = "fst (ordered es ! i)" and ?ty = "y div TILE_Y" and ?tx = "x div TILE_X" and ?nx = "hw_nx w" and ?ny = "hw_ny w"
  have g: "hm_nx (hr_meta rd) = ?nx" "hm_ny (hr_meta rd) = ?ny" using rd by (simp_all add: reads_stored_def file_meta_def hour_meta_of_def)
  have h: "0 < TILE_Y" "0 < TILE_X" by (simp_all add: geometry_consts)
  have geo: "op_h ?op = TILE_Y" "op_w ?op = TILE_X" "op_kind ?op = KIND_TILE2D" "is_surface ?op" by (simp_all add: op op_geometry)
  have t: "(?ty, ?tx) \<in> set (op_coords ?nx ?ny ?op)"
    unfolding coords_mem geo using tile_y.piece_of [OF y(1)] tile_x.piece_of [OF y(2)] by simp
  obtain j c where j: "j < length (canonical es)" "file_chunk env w es (canonical es ! j) i ?ty ?tx c"
      "find_chunk_record rd (op_meta (of_nat i) ?op) (op_kind ?op) ?ty ?tx = Inr (file_records mb es ! j)"
    using find_stored [OF st rd i t] .
  let ?p = "op_piece ?nx ?ny ?op ?ty ?tx" and ?d = "tile_dims rd ?ty ?tx"
  have n: "fst ?d * snd ?d = length ?p" by (simp add: tile_dims_def length_op_piece geo g op_depth_def)
  have "c = encode_f32_tile ?p" using j(2) geo(4) by (simp add: file_chunk_def Let_def op_encoded_def)
  then obtain ws where ws: "decode_encoded_tile c (length ?p) = Inr ws" "list_all2 tile_same ?p ws" using tile_round_trip_same by blast
  have "tile_values renv rd (op_meta (of_nat i) ?op) ?ty ?tx = Inr ws"
    using j(3) stored_decode_tile [OF st rd j(1,2) geo(4)] ws(1) by (simp add: tile_values_def n geo(3))
  moreover have "tile_same (vs ! (y * ?nx + x)) (tile_cell rd ws y x)"
  proof -
    note pc = piece_cell [OF y h]
    let ?k = "y mod TILE_Y * min (?nx - ?tx * TILE_X) TILE_X + x mod TILE_X"
    have "?p ! ?k = vs ! (y * ?nx + x)" using pc by (simp add: op_piece_def op)
    moreover have "?k < length ?p" using pc(1) by (simp add: op_piece_def op)
    ultimately show ?thesis using list_all2_nthD [OF ws(2), of ?k] by (simp add: tile_cell_def tile_dims_def g)
  qed
  ultimately show ?thesis by (simp add: cell_2d_def)
qed

lemma stored_cell_3d:
  assumes st: "stored_hour env renv w es mb" and rd: "reads_stored env w es mb rd" and i: "i < length es"
    and op: "\<not> is_surface (fst (ordered es ! i))" and z: "z < length (op_planes (fst (ordered es ! i)))" and y: "y < hw_ny w" "x < hw_nx w"
  shows "\<exists>v. cell_3d renv rd (op_meta (of_nat i) (fst (ordered es ! i))) z y x = Inr v \<and>
    (f32_is_nan v \<longleftrightarrow> \<not> f32_is_finite (op_planes (fst (ordered es ! i)) ! z ! (y * hw_nx w + x)))"
proof -
  let ?op = "fst (ordered es ! i)" and ?ty = "y div COL_Y" and ?tx = "x div COL_X" and ?nx = "hw_nx w" and ?ny = "hw_ny w"
  let ?var = "op_meta (of_nat i) ?op" and ?ps = "op_planes ?op"
  have g: "hm_nx (hr_meta rd) = ?nx" "hm_ny (hr_meta rd) = ?ny" using rd by (simp_all add: reads_stored_def file_meta_def hour_meta_of_def)
  have h: "0 < COL_Y" "0 < COL_X" by (simp_all add: geometry_consts)
  have geo: "op_h ?op = COL_Y" "op_w ?op = COL_X" "op_kind ?op = KIND_COLUMN3D" using op by (simp_all add: op_geometry)
  have t: "(?ty, ?tx) \<in> set (op_coords ?nx ?ny ?op)"
    unfolding coords_mem geo using col_y.piece_of [OF y(1)] col_x.piece_of [OF y(2)] by simp
  obtain j c where j: "j < length (canonical es)" "file_chunk env w es (canonical es ! j) i ?ty ?tx c"
      "find_chunk_record rd ?var (op_kind ?op) ?ty ?tx = Inr (file_records mb es ! j)"
    using find_stored [OF st rd i t] .
  have lv: "levels_of ?var = length ?ps"
    using file_chunk_valid [OF st j(2)] op by (cases ?op) (simp_all add: levels_of_def pressure_meta_def)
  let ?p = "op_piece ?nx ?ny ?op ?ty ?tx" and ?d = "col_chunk_dims rd ?ty ?tx"
  have n: "fst ?d * snd ?d * levels_of ?var = length ?p" using op by (simp add: col_chunk_dims_def length_op_piece geo g op_depth_def lv)
  have "encode_affine_i16 ?p = Inr c" using j(2) op by (simp add: file_chunk_def Let_def op_encoded_def)
  then obtain ws where ws: "decode_affine_i16 (ec_flags c) (ec_center c) (ec_scale c) (ec_payload c) (length ?p) = Inr ws"
      "list_all2 (\<lambda>v w. f32_is_nan w \<longleftrightarrow> \<not> f32_is_finite v) ?p ws" using affine_round_trip_missing by blast
  have "column_values renv rd ?var ?ty ?tx = Inr ws"
    using j(3) stored_decode_column [OF st rd j(1,2) op] ws(1) by (simp add: column_values_def n geo(3))
  moreover have "f32_is_nan (ws ! (column_index rd ?var y x + z)) \<longleftrightarrow> \<not> f32_is_finite (?ps ! z ! (y * ?nx + x))"
  proof -
    note pc = piece_cell [OF y h]
    let ?k = "y mod COL_Y * min (?nx - ?tx * COL_X) COL_X + x mod COL_X"
    have k: "column_index rd ?var y x + z = ?k * length ?ps + z" by (simp add: column_index_def col_chunk_dims_def g lv)
    have "?p ! (?k * length ?ps + z) = (\<lambda>(y, x). map (\<lambda>p. p ! (y * ?nx + x)) ?ps) (piece_cells COL_Y COL_X ?nx ?ny ?ty ?tx ! ?k) ! z"
      using op z pc(1) by (simp only: op_piece_def if_False) (rule nth_concat_uniform, auto)
    then have "?p ! (?k * length ?ps + z) = ?ps ! z ! (y * ?nx + x)" using pc(2) z by simp
    moreover have "?k * length ?ps + z < length ?p"
      using cell_index [OF pc(1) z] op by (simp add: op_piece_def length_concat_columns)
    ultimately show ?thesis using list_all2_nthD [OF ws(2), of "?k * length ?ps + z"] by (simp add: k)
  qed
  ultimately show ?thesis by (simp add: cell_3d_def)
qed

lemma full_read_same:
  assumes ok: "reader_ok header rd" and look: "lookup_2d rd n = Inr var" and len: "length vs = nx * ny"
    and cells: "\<And>y x. y < ny \<Longrightarrow> x < nx \<Longrightarrow> \<exists>v. cell_2d renv rd var y x = Inr v \<and> R (vs ! (y * nx + x)) v"
    and g: "hm_nx (hr_meta rd) = nx" "hm_ny (hr_meta rd) = ny"
  shows "\<exists>ws. read_full_2d renv rd n = Inr ws \<and> list_all2 R vs ws"
proof -
  have nx: "0 < nx" using reader_grid(1) [OF ok] g by simp
  define ws where "ws = map (\<lambda>k. projr (cell_2d renv rd var (k div nx) (k mod nx))) [0..<ny * nx]"
  have yx: "k div nx < ny" "k mod nx < nx" if "k < ny * nx" for k using that nx by (simp_all add: less_mult_imp_div_less)
  have cell: "cell_2d renv rd var y x = Inr (ws ! (y * nx + x))" if "y < ny" "x < nx" for y x
    using cells [OF that] cell_index [OF that] nx that by (auto simp: ws_def mult.commute [of ny])
  then have "read_full_2d renv rd n = Inr ws"
    using read_full_field [OF ok look] field_2d_eq_Inr [of rd renv var ws] nx g by (auto simp: ws_def)
  moreover have "list_all2 R vs ws"
  proof (rule list_all2_all_nthI)
    fix k assume "k < length vs"
    then have "k < ny * nx" using len by (simp add: mult.commute)
    then show "R (vs ! k) (ws ! k)" using cells [OF yx] cell [OF yx] by fastforce
  qed (simp add: ws_def len mult.commute)
  ultimately show ?thesis by blast
qed

lemma volume_read_same:
  assumes ok: "reader_ok header rd" and look: "lookup_3d rd n = Inr var" and lv: "levels_of var = nz"
    and cells: "\<And>z y x. z < nz \<Longrightarrow> y < ny \<Longrightarrow> x < nx \<Longrightarrow> \<exists>v. cell_3d renv rd var z y x = Inr v \<and> R z y x v"
    and g: "hm_nx (hr_meta rd) = nx" "hm_ny (hr_meta rd) = ny"
  shows "\<exists>vs. read_full_3d renv rd n = Inr vs \<and> length vs = nz * ny * nx \<and>
    (\<forall>z < nz. \<forall>y < ny. \<forall>x < nx. R z y x (vs ! (z * ny * nx + y * nx + x)))"
proof -
  define vs where "vs = map (\<lambda>k. projr (cell_3d renv rd var (k div (ny * nx)) (k mod (ny * nx) div nx) (k mod nx))) [0..<nz * ny * nx]"
  have cell: "cell_3d renv rd var z y x = Inr (vs ! (z * ny * nx + y * nx + x))" if zyx: "z < nz" "y < ny" "x < nx" for z y x
  proof -
    have yx: "y * nx + x < ny * nx" using cell_index [OF zyx(2,3)] by (simp add: mult.commute)
    then have "z * (ny * nx) + (y * nx + x) < ny * nx * nz" using cell_index [OF zyx(1) yx] by simp
    then have k: "z * ny * nx + y * nx + x < nz * ny * nx" by (simp add: algebra_simps)
    note offset_split [OF yx, of z]
    moreover have "(z * (ny * nx) + (y * nx + x)) mod nx = x" using zyx(3) by (simp add: mult.assoc [symmetric])
    ultimately show ?thesis using cells [OF zyx] k zyx(3) by (auto simp: vs_def mult.assoc add.assoc)
  qed
  then have "read_full_3d renv rd n = Inr vs" using read_full_3d_correct [OF ok look] g lv by (auto simp: vs_def)
  then show ?thesis using cells cell by (intro exI [of _ vs]) (fastforce simp: vs_def)
qed

section \<open>Writing, then reading\<close>

text \<open>The documented contract of the JSON library on this type: parsing the serialised metadata gives it back.\<close>

definition json_lossless :: "write_env \<Rightarrow> json_parser \<Rightarrow> bool" where
  "json_lossless env from_json \<longleftrightarrow> (\<forall>meta mb. we_to_json env meta = Some mb \<longrightarrow> from_json mb = Some meta)"

lemma ceilings_small: "within_ceilings nx ny ops \<Longrightarrow> grid_small nx ny" "within_ceilings nx ny ops \<Longrightarrow> chunk_count nx ny ops < 2 ^ 32"
  using grid_cells_usize by (simp_all add: within_ceilings_def grid_small_def)

text \<open>A session that succeeds leaves a stored hour at its path.\<close>

lemma written_hour:
  assumes wr: "write_hour env ops os pid path w fs = (Inr meta, fs')" and "fresh w" and path: "\<not> hidden path"
    and z: "zstd_bound env" "zstd_lossless env renv" and ceil: "within_ceilings (hw_nx w) (hw_ny w) ops"
    and mb: "we_to_json env meta = Some mb" "length mb \<le> 2 ^ 24"
    and data: "fs_content fs' path = Some data" "length data \<le> 2 ^ 36"
  obtains es where "map fst es = ops" "stored_hour env renv w es mb" "data = hour_file mb (file_records mb es) (file_payload es)"
    "meta = file_meta env w es"
proof -
  note g = ceilings_small [OF ceil]
  obtain w1 where a: "add_all env ops w = (Inr (), w1)" and f: "finish env os pid path w1 fs = (Inr meta, fs')"
    using wr by (auto simp: write_hour_def split: prod.splits sum.splits)
  obtain es where es: "map fst es = ops" "writer_inv env w es w1" by (rule add_all_inv [OF assms(2) a z(1) g])
  obtain mb' header chunks where l: "finish_layout env w1 = Inr (meta, mb', header, chunks)"
      and at: "atomic_write_with os pid path (emit_file env (hw_spill w1) mb' header chunks) fs = (Inr (), fs')"
    using f by (auto simp: finish_def split: sum.splits prod.splits)
  obtain bytes own where e: "emit_file env (hw_spill w1) mb' header chunks = (bytes, own)" by fastforce
  have v: "visible fs' = (visible fs)(path \<mapsto> bytes)" "own = Inr ()" using atomic_write_visible(1) [OF at [unfolded e] path] by simp_all
  have "fs_content fs' path = Some bytes" using fun_cong [OF v(1), of path] path by (simp add: visible_def)
  then have d: "bytes = data" using data(1) by simp
  have spec: "file_spec env w es = Inr (meta, data)"
    using finish_layout_spec [OF es(2) z(1) g(1)] l e v(2) d by auto
  then have fs: "0 < hw_nx w" "0 < hw_ny w" "\<forall>t. hw_exact_time w = Some t \<longrightarrow> origin_unix t \<noteq> None" "length es \<le> 65536"
      "meta = file_meta env w es" "data = hour_file mb (file_records mb es) (file_payload es)"
    using mb(1) by (auto simp: file_spec_def r_bind_eq_Inr ok_or_eq_Inr split: if_splits)
  have "stored_hour env renv w es mb"
    using es(2) fs(1-4) z ceil mb(2) data(2) unfolding stored_hour_def es(1) fs(6) by (simp add: writer_inv_def)
  then show thesis using that [OF es(1) _ fs(6,5)] by blast
qed

lemma stored_lookup:
  assumes st: "stored_hour env renv w es mb" and rd: "reads_stored env w es mb rd" and op: "op \<in> set (map fst es)"
  obtains i where "i < length es" "fst (ordered es ! i) = op" "find_variable rd (op_name op) = Some (op_meta (of_nat i) op)"
proof -
  obtain e where e: "e \<in> set (ordered es)" "fst e = op" using op by auto
  obtain i where i: "i < length (ordered es)" "fst (ordered es ! i) = op" using e unfolding in_set_conv_nth by blast
  have vars: "hm_variables (hr_meta rd) = numbered 0 (ordered es)" using rd by (simp add: reads_stored_def meta_variables)
  let ?xs = "numbered 0 (ordered es)"
  have dist: "distinct (map vm_name ?xs)" using stored_meta_valid(1) [OF st] by (simp add: meta_valid_def meta_variables)
  have var: "?xs ! i = op_meta (of_nat i) op" using numbered_nth [OF i(1)] i(2) by simp
  have "vm_name (?xs ! j) \<noteq> op_name op" if "j < i" for j
    using nth_eq_iff_index_eq [OF dist, of j i] that i(1) var by simp
  then have "find (\<lambda>v. vm_name v = op_name op) ?xs = Some (op_meta (of_nat i) op)"
    unfolding find_Some_iff using i(1) var by (intro exI [of _ i]) simp
  then show thesis using i by (intro that [of i]) (simp_all add: find_variable_def vars)
qed

section \<open>A small hour\<close>

definition sample_read_env :: read_env where
  "sample_read_env = \<lparr>re_zstd = (\<lambda>c. (c, True)), re_reserve = (\<lambda>_. True)\<rparr>"

definition sample_path :: file_path where "sample_path = (''hrrr'', ''f003.rws'')"

lemma file_payload_le:
  assumes "\<forall>e \<in> set es. \<forall>c \<in> set (snd e). len_ok c"
  shows "length (file_payload es) \<le> length (canonical es) * 2 ^ 32"
proof -
  have "length (snd x) \<le> 2 ^ 32" if x: "x \<in> set (canonical es)" for x
  proof -
    obtain i k where i: "i < length es" "k \<in> set (snd (ordered es ! i))" "x = ((sk_record k)\<lparr>cr_var_id := of_nat i\<rparr>, sk_compressed k)"
      using canonical_member [OF x] .
    have "ordered es ! i \<in> set es" using i(1) by (metis nth_mem set_ordered)
    then have "len_ok k" using assms i(2) by blast
    then show ?thesis using i(3) unat_bounds(3) [of "cr_len (sk_record k)"] by (simp add: len_ok_def)
  qed
  then have "sum_list (map (\<lambda>x. length (snd x)) (canonical es)) \<le> sum_list (map (\<lambda>x. 2 ^ 32) (canonical es))" by (intro sum_list_mono) auto
  then show ?thesis by (simp add: file_payload_def length_concat sum_list_triv o_def)
qed

lemma sample_written:
  obtains fs' data where "write_hour sample_write_env sample_adds_list sample_os 7 sample_path sample_writer sample_fs = (Inr sample_hour_meta, fs')"
    "fs_content fs' sample_path = Some data" "length data \<le> 2 ^ 36"
proof -
  let ?env = sample_write_env and ?w = sample_writer and ?ops = sample_adds_list
  note ss = sample_session
  obtain w1 where a: "add_all ?env ?ops ?w = (Inr (), w1)" using sample_adds by blast
  obtain es where es: "map fst es = ?ops" "writer_inv ?env ?w es w1" by (rule add_all_inv [OF ss(1) a ss(4,5,6)])
  obtain a b where e: "es = [a, b]" "fst a = ?ops ! 0" "fst b = ?ops ! 1"
    using es(1) by (auto simp: sample_adds_list_def map_eq_Cons_conv)
  have ord: "normals es = [b]" "defers es = [a]" using e by (simp_all add: sample_adds_list_def)
  have meta: "file_meta ?env ?w es = sample_hour_meta"
    unfolding file_meta_def ord using e(2,3)
    by (simp add: numbered_def sample_adds_list_def hour_meta_of_def sample_hour_meta_def sample_writer_def new_writer_def new_with_time_def
        sample_write_env_def pressure_meta_def)
  let ?data = "hour_file [] (file_records [] es) (file_payload es)"
  have spec: "file_spec ?env ?w es = Inr (sample_hour_meta, ?data)"
    unfolding file_spec_def meta by (simp add: sample_write_env_def sample_writer_def new_writer_def new_with_time_def e(1))
  have path: "\<not> hidden sample_path" by (simp add: sample_path_def hidden_def)
  obtain r fs' where at: "atomic_write_with sample_os 7 sample_path (?data, Inr ()) sample_fs = (r, fs')" by fastforce
  have "fst (atomic_write_with sample_os 7 sample_path (?data, Inr ()) sample_fs) = Inr ()"
    by (rule atomic_write_free) (simp_all add: sample_os_def sample_fs_def fs_exists_def path)
  then have r: "r = Inr ()" using at by simp
  have "visible fs' = (visible sample_fs)(sample_path \<mapsto> ?data)" using atomic_write_visible(1) [OF at path] r by simp
  from fun_cong [OF this, of sample_path] have c: "fs_content fs' sample_path = Some ?data" using path by (simp add: visible_def)
  have "write_hour ?env ?ops sample_os 7 sample_path ?w sample_fs = (Inr sample_hour_meta, fs')"
    using finish_file [OF es(2) ss(4,5) writer_inv_no_spill [OF es(2) ss(3)], of sample_os 7 sample_path sample_fs] spec at r
    by (simp add: write_hour_def a)
  moreover have "length ?data \<le> 2 ^ 36"
  proof -
    have b: "\<forall>e \<in> set es. op_base ?env (hw_nx ?w) (hw_ny ?w) (fst e) = Inr (snd e)" using es(2) by (simp add: writer_inv_def)
    have "length (canonical es) = 2"
      using length_canonical [OF b] e by (simp add: chunk_count_ordered es(1))
        (simp add: chunk_count_def sample_adds_list_def op_geometry geometry_consts div_ceil_def sample_writer_def new_writer_def new_with_time_def)
    moreover have "\<forall>e \<in> set es. \<forall>c \<in> set (snd e). len_ok c"
      using op_base_len_ok [OF _ ss(4)] es(2) ss(5) by (auto simp: writer_inv_def grid_small_def)
    ultimately show ?thesis using file_payload_le [of es] by (simp add: length_hour_file file_records_def)
  qed
  ultimately show thesis using that c by blast
qed

lemma sample_contracts:
  "\<not> hidden sample_path" "zstd_lossless sample_write_env sample_read_env" "json_lossless sample_write_env (\<lambda>_. Some sample_hour_meta)"
  "within_ceilings (hw_nx sample_writer) (hw_ny sample_writer) sample_adds_list" "we_to_json sample_write_env sample_hour_meta = Some []"
  by (simp_all add: sample_path_def hidden_def zstd_lossless_def sample_write_env_def sample_read_env_def json_lossless_def within_ceilings_def
      sample_writer_def new_writer_def new_with_time_def sample_adds_list_def chunk_count_def op_geometry geometry_consts div_ceil_def ceiling_consts)

section \<open>The properties\<close>

text \<open>C1. The store keeps surface fields. Whenever a session of the hour writer succeeds, with
  any additions in any order, spilled or not, and the file is within the ceilings of the
  reader, the reader opens what is at the path with the metadata \<open>finish\<close> returned, and the
  full read of every surface variable returns the values that were added, bit for bit up to
  the two documented exceptions of the 2D codec (\<open>tile_same\<close>).\<close>

theorem surface_store_round_trip:
  assumes "write_hour env ops os pid path w fs = (Inr meta, fs')" and "fresh w" and "\<not> hidden path"
    and "zstd_bound env" and "zstd_lossless env renv" and "json_lossless env from_json"
    and "within_ceilings (hw_nx w) (hw_ny w) ops" and "we_to_json env meta = Some mb" and "length mb \<le> 2 ^ 24"
    and "fs_content fs' path = Some data" and "length data \<le> 2 ^ 36"
  shows "\<exists>rd. open_with_tile_cache_bytes from_json (Some (stored_file handle data)) cap = Inr rd \<and> hr_meta rd = meta \<and>
    (\<forall>n u s vs. Surface n u s vs \<in> set ops \<longrightarrow> (\<exists>ws. read_full_2d renv rd n = Inr ws \<and> list_all2 tile_same vs ws))"
proof -
  obtain es where es: "map fst es = ops" "stored_hour env renv w es mb" "data = hour_file mb (file_records mb es) (file_payload es)"
      "meta = file_meta env w es"
    by (rule written_hour [OF assms(1-5,7-11)])
  have js: "from_json mb = Some (file_meta env w es)" using assms(6,8) es(4) by (simp add: json_lossless_def)
  obtain rd where rd: "open_with_tile_cache_bytes from_json (Some (stored_file handle data)) cap = Inr rd" "reads_stored env w es mb rd"
    unfolding es(3) by (rule stored_opens [where from_json = from_json, OF es(2) js])
  have m: "hr_meta rd = meta" "reader_ok (file_header mb es) rd" using rd(2) es(4) by (simp_all add: reads_stored_def)
  have g: "hm_nx (hr_meta rd) = hw_nx w" "hm_ny (hr_meta rd) = hw_ny w" by (simp_all add: m(1) es(4) file_meta_def hour_meta_of_def)
  have "\<exists>ws. read_full_2d renv rd n = Inr ws \<and> list_all2 tile_same vs ws" if op: "Surface n u s vs \<in> set ops" for n u s vs
  proof -
    have mem: "Surface n u s vs \<in> set (map fst es)" using op es(1) by simp
    obtain i where i: "i < length es" "fst (ordered es ! i) = Surface n u s vs"
        "find_variable rd (op_name (Surface n u s vs)) = Some (op_meta (of_nat i) (Surface n u s vs))"
      using stored_lookup [OF es(2) rd(2) mem] .
    let ?var = "op_meta (of_nat i) (Surface n u s vs)"
    have look: "lookup_2d rd n = Inr ?var" using i(3) by (simp add: lookup_2d_Inr)
    have len: "length vs = hw_nx w * hw_ny w"
    proof -
      obtain e where "e \<in> set es" "fst e = Surface n u s vs" using mem by auto
      then have "op_valid (hw_nx w) (hw_ny w) (Surface n u s vs)" using es(2) unfolding stored_hour_def by metis
      then show ?thesis using usize_wrap_small [OF stored_hour_grid [OF es(2)]] by simp
    qed
    have cells: "\<exists>v. cell_2d renv rd ?var y x = Inr v \<and> tile_same (vs ! (y * hw_nx w + x)) v" if "y < hw_ny w" "x < hw_nx w" for y x
      using stored_cell_2d [OF es(2) rd(2) i(1,2) that] unfolding i(2) .
    show ?thesis by (rule full_read_same [OF m(2) look len cells g])
  qed
  then show ?thesis by (intro exI [of _ rd] conjI rd(1) m(1) allI impI)
qed

theorem surface_store_round_trip_witness:
  "\<exists>fs' data rd ws. write_hour sample_write_env sample_adds_list sample_os 7 sample_path sample_writer sample_fs = (Inr sample_hour_meta, fs') \<and>
     fs_content fs' sample_path = Some data \<and>
     open_with_tile_cache_bytes (\<lambda>_. Some sample_hour_meta) (Some (stored_file 1 data)) 4096 = Inr rd \<and>
     read_full_2d sample_read_env rd ''t2m'' = Inr ws \<and> list_all2 tile_same [0x3F800000, 0x40000000, 0x7FC00000] ws"
proof -
  obtain fs' data where w: "write_hour sample_write_env sample_adds_list sample_os 7 sample_path sample_writer sample_fs = (Inr sample_hour_meta, fs')"
    and d: "fs_content fs' sample_path = Some data" "length data \<le> 2 ^ 36" by (rule sample_written)
  have "length ([] :: u8 list) \<le> 2 ^ 24" by simp
  from surface_store_round_trip [where from_json = "\<lambda>_. Some sample_hour_meta", OF w sample_session(1) sample_contracts(1) sample_session(4) sample_contracts(2-5) this d, of 1 4096]
  obtain rd where rd: "open_with_tile_cache_bytes (\<lambda>_. Some sample_hour_meta) (Some (stored_file 1 data)) 4096 = Inr rd"
    "\<forall>n u s vs. Surface n u s vs \<in> set sample_adds_list \<longrightarrow> (\<exists>ws. read_full_2d sample_read_env rd n = Inr ws \<and> list_all2 tile_same vs ws)" by blast
  have "Surface ''t2m'' ''K'' JNull [0x3F800000, 0x40000000, 0x7FC00000] \<in> set sample_adds_list" by (simp add: sample_adds_list_def)
  with rd(2) obtain ws where "read_full_2d sample_read_env rd ''t2m'' = Inr ws" "list_all2 tile_same [0x3F800000, 0x40000000, 0x7FC00000] ws" by blast
  with w d(1) rd(1) show ?thesis by blast
qed

text \<open>C2. The store keeps pressure volumes. Whenever a session of the hour writer succeeds and
  the file is within the ceilings of the reader, the full read of every volume, added
  directly or deferred, succeeds with one value per level and cell, and a value is missing
  (NaN) exactly where the value that was added is not finite.\<close>

theorem volume_store_round_trip:
  assumes "write_hour env ops os pid path w fs = (Inr meta, fs')" and "fresh w" and "\<not> hidden path"
    and "zstd_bound env" and "zstd_lossless env renv" and "json_lossless env from_json"
    and "within_ceilings (hw_nx w) (hw_ny w) ops" and "we_to_json env meta = Some mb" and "length mb \<le> 2 ^ 24"
    and "fs_content fs' path = Some data" and "length data \<le> 2 ^ 36"
  shows "\<exists>rd. open_with_tile_cache_bytes from_json (Some (stored_file handle data)) cap = Inr rd \<and>
    (\<forall>op \<in> set ops. is_surface op \<or> (\<exists>vs. read_full_3d renv rd (op_name op) = Inr vs \<and>
      length vs = length (op_planes op) * hw_ny w * hw_nx w \<and>
      (\<forall>z < length (op_planes op). \<forall>y < hw_ny w. \<forall>x < hw_nx w.
        f32_is_nan (vs ! (z * hw_ny w * hw_nx w + y * hw_nx w + x)) \<longleftrightarrow> \<not> f32_is_finite (op_planes op ! z ! (y * hw_nx w + x)))))"
proof -
  obtain es where es: "map fst es = ops" "stored_hour env renv w es mb" "data = hour_file mb (file_records mb es) (file_payload es)"
      "meta = file_meta env w es"
    by (rule written_hour [OF assms(1-5,7-11)])
  have js: "from_json mb = Some (file_meta env w es)" using assms(6,8) es(4) by (simp add: json_lossless_def)
  obtain rd where rd: "open_with_tile_cache_bytes from_json (Some (stored_file handle data)) cap = Inr rd" "reads_stored env w es mb rd"
    unfolding es(3) by (rule stored_opens [where from_json = from_json, OF es(2) js])
  have ok: "reader_ok (file_header mb es) rd" and g: "hm_nx (hr_meta rd) = hw_nx w" "hm_ny (hr_meta rd) = hw_ny w"
    using rd(2) by (simp_all add: reads_stored_def file_meta_def hour_meta_of_def)
  have "\<exists>vs. read_full_3d renv rd (op_name op) = Inr vs \<and> length vs = length (op_planes op) * hw_ny w * hw_nx w \<and>
      (\<forall>z < length (op_planes op). \<forall>y < hw_ny w. \<forall>x < hw_nx w.
        f32_is_nan (vs ! (z * hw_ny w * hw_nx w + y * hw_nx w + x)) \<longleftrightarrow> \<not> f32_is_finite (op_planes op ! z ! (y * hw_nx w + x)))"
    if op: "op \<in> set ops" and s: "\<not> is_surface op" for op
  proof -
    have mem: "op \<in> set (map fst es)" using op es(1) by simp
    obtain i where i: "i < length es" "fst (ordered es ! i) = op" "find_variable rd (op_name op) = Some (op_meta (of_nat i) op)"
      using stored_lookup [OF es(2) rd(2) mem] .
    have look: "lookup_3d rd (op_name op) = Inr (op_meta (of_nat i) op)"
      using i(3) s by (cases op) (simp_all add: lookup_3d_Inr pressure_meta_def)
    have "op_valid (hw_nx w) (hw_ny w) op" using es(2) mem unfolding stored_hour_def by auto
    then have lv: "levels_of (op_meta (of_nat i) op) = length (op_planes op)"
      using s by (cases op) (simp_all add: levels_of_def pressure_meta_def)
    have cells: "\<exists>v. cell_3d renv rd (op_meta (of_nat i) op) z y x = Inr v \<and> (f32_is_nan v \<longleftrightarrow> \<not> f32_is_finite (op_planes op ! z ! (y * hw_nx w + x)))"
      if "z < length (op_planes op)" "y < hw_ny w" "x < hw_nx w" for z y x
      using stored_cell_3d [OF es(2) rd(2) i(1)] s that unfolding i(2) by blast
    show ?thesis by (rule volume_read_same [OF ok look lv cells g])
  qed
  then show ?thesis using rd(1) by blast
qed

theorem volume_store_round_trip_witness:
  "\<exists>fs' data rd vs. write_hour sample_write_env sample_adds_list sample_os 7 sample_path sample_writer sample_fs = (Inr sample_hour_meta, fs') \<and>
     fs_content fs' sample_path = Some data \<and>
     open_with_tile_cache_bytes (\<lambda>_. Some sample_hour_meta) (Some (stored_file 1 data)) 4096 = Inr rd \<and>
     read_full_3d sample_read_env rd ''t'' = Inr vs \<and> length vs = 6 \<and> f32_is_nan (vs ! 4)"
proof -
  obtain fs' data where w: "write_hour sample_write_env sample_adds_list sample_os 7 sample_path sample_writer sample_fs = (Inr sample_hour_meta, fs')"
    and d: "fs_content fs' sample_path = Some data" "length data \<le> 2 ^ 36" by (rule sample_written)
  have "length ([] :: u8 list) \<le> 2 ^ 24" by simp
  from volume_store_round_trip [where from_json = "\<lambda>_. Some sample_hour_meta", OF w sample_session(1) sample_contracts(1) sample_session(4) sample_contracts(2-5) this d, of 1 4096]
  obtain rd where rd: "open_with_tile_cache_bytes (\<lambda>_. Some sample_hour_meta) (Some (stored_file 1 data)) 4096 = Inr rd"
    and r: "\<forall>op \<in> set sample_adds_list. is_surface op \<or> (\<exists>vs. read_full_3d sample_read_env rd (op_name op) = Inr vs \<and>
      length vs = length (op_planes op) * hw_ny sample_writer * hw_nx sample_writer \<and>
      (\<forall>z < length (op_planes op). \<forall>y < hw_ny sample_writer. \<forall>x < hw_nx sample_writer.
        f32_is_nan (vs ! (z * hw_ny sample_writer * hw_nx sample_writer + y * hw_nx sample_writer + x)) \<longleftrightarrow>
          \<not> f32_is_finite (op_planes op ! z ! (y * hw_nx sample_writer + x))))" by blast
  have nx: "hw_nx sample_writer = 3" "hw_ny sample_writer = 1" by (simp_all add: sample_writer_def new_writer_def new_with_time_def)
  obtain vs where vs: "read_full_3d sample_read_env rd ''t'' = Inr vs" "length vs = 6"
    "\<forall>z < 2. \<forall>y < 1. \<forall>x < 3. f32_is_nan (vs ! (z * 1 * 3 + y * 3 + x)) \<longleftrightarrow> \<not> f32_is_finite ([replicate 3 f32_NAN, replicate 3 f32_NAN] ! z ! (y * 3 + x))"
    using r unfolding nx by (auto simp: sample_adds_list_def)
  have "f32_is_nan (vs ! (1 * 1 * 3 + 0 * 3 + 1)) \<longleftrightarrow> \<not> f32_is_finite ([replicate 3 f32_NAN, replicate 3 f32_NAN] ! 1 ! (0 * 3 + 1))"
    by (rule vs(3) [rule_format]) simp_all
  then have "f32_is_nan (vs ! 4)" by (simp add: f32_consts)
  with w d(1) rd vs(1,2) show ?thesis by blast
qed

end
