(* ===== verification/Rw_Lock.thy ===== *)
theory Rw_Lock
  imports Rw_Files
begin

text \<open>
  The advisory lock of a run directory (\<^verbatim>\<open>rw-store/src/lock.rs\<close>). The kernel keeps for each
  lock file the open file that holds its exclusive lock; \<open>try_acquire\<close> opens the lock file and
  asks for the lock without waiting, \<open>acquire\<close> polls it until a timeout, and dropping the guard
  or the death of the process releases it. Times are nanoseconds.
\<close>

section \<open>The lock table\<close>

definition LOCK_FILE_NAME :: string where "LOCK_FILE_NAME = ''.rw-lock''"
definition POLL_INTERVAL :: nat where "POLL_INTERVAL = 100 * 1000000"

record lock_world =
  lw_fs :: file_system
  lw_holder :: "(file_path, nat) fmap"
  lw_next :: nat

record run_lock =
  rl_file :: nat
  rl_path :: file_path

text \<open>What the operating system answers: whether the file opens, whether the lock call fails.\<close>

record lock_os =
  lo_open :: bool
  lo_lock :: bool

definition open_lock_file :: "file_path \<Rightarrow> lock_world \<Rightarrow> nat \<times> lock_world" where
  "open_lock_file path w =
     (lw_next w, w\<lparr>lw_next := Suc (lw_next w),
        lw_fs := (if fs_exists (lw_fs w) path then lw_fs w else fs_create path (lw_fs w))\<rparr>)"

definition try_acquire :: "lock_os \<Rightarrow> string \<Rightarrow> lock_world \<Rightarrow> run_lock option rw_result \<times> lock_world" where
  "try_acquire os dir w =
     (let path = (dir, LOCK_FILE_NAME)
      in if \<not> lo_open os \<or> fmlookup (fs_nodes (lw_fs w)) path = Some Directory then (Inl (Io ''open''), w)
         else
           let (handle, w) = open_lock_file path w
           in if \<not> lo_lock os then (Inl (Io ''lock''), w)
              else if fmlookup (lw_holder w) path \<noteq> None then (Inr None, w)
              else (Inr (Some \<lparr>rl_file = handle, rl_path = path\<rparr>), w\<lparr>lw_holder := fmupd path handle (lw_holder w)\<rparr>))"

definition unlock :: "nat \<Rightarrow> lock_world \<Rightarrow> lock_world" where
  "unlock handle w = w\<lparr>lw_holder := fmfilter (\<lambda>p. fmlookup (lw_holder w) p \<noteq> Some handle) (lw_holder w)\<rparr>"

definition drop_lock :: "run_lock \<Rightarrow> lock_world \<Rightarrow> lock_world" where
  "drop_lock l w = unlock (rl_file l) w"

section \<open>Waiting\<close>

text \<open>
  The surroundings of a waiting process at its \<open>k\<close>-th attempt: the answers of the operating
  system, the time the attempt and the clock readings take, how much longer than asked the
  sleep lasts, and what other processes do to the lock table meanwhile. The clock is
  monotone and a sleep lasts at least the duration asked for.
\<close>

record wait_env =
  wt_os :: "nat \<Rightarrow> lock_os"
  wt_attempt :: "nat \<Rightarrow> nat"
  wt_reading :: "nat \<Rightarrow> nat"
  wt_oversleep :: "nat \<Rightarrow> nat"
  wt_others :: "nat \<Rightarrow> lock_world \<Rightarrow> lock_world"

record wait_result =
  wr_lock :: "run_lock rw_result"
  wr_attempts :: nat
  wr_elapsed :: nat
  wr_world :: lock_world

function acquire_from :: "wait_env \<Rightarrow> string \<Rightarrow> nat \<Rightarrow> nat \<Rightarrow> nat \<Rightarrow> lock_world \<Rightarrow> wait_result" where
  "acquire_from env dir timeout k now w =
     (let (attempt, w) = try_acquire (wt_os env k) dir w;
          now = now + wt_attempt env k
      in case attempt of
           Inl e \<Rightarrow> \<lparr>wr_lock = Inl e, wr_attempts = Suc k, wr_elapsed = now, wr_world = w\<rparr>
         | Inr (Some l) \<Rightarrow> \<lparr>wr_lock = Inr l, wr_attempts = Suc k, wr_elapsed = now, wr_world = w\<rparr>
         | Inr None \<Rightarrow>
             if now \<ge> timeout then \<lparr>wr_lock = Inl (Locked dir), wr_attempts = Suc k, wr_elapsed = now, wr_world = w\<rparr>
             else
               let now = now + wt_reading env k;
                   remaining = timeout - now;
                   now = now + min POLL_INTERVAL remaining + wt_oversleep env k
               in acquire_from env dir timeout (Suc k) now (wt_others env k w))"
  by auto
termination
  by (relation "measure (\<lambda>(env, dir, timeout, k, now, w). timeout - now)") (auto simp: POLL_INTERVAL_def)

declare acquire_from.simps [simp del]

definition acquire :: "wait_env \<Rightarrow> string \<Rightarrow> nat \<Rightarrow> lock_world \<Rightarrow> wait_result" where
  "acquire env dir timeout w = acquire_from env dir timeout 0 0 w"

definition delays :: "wait_env \<Rightarrow> nat \<Rightarrow> nat" where
  "delays env k = (\<Sum>i<k. wt_attempt env i + wt_reading env i + wt_oversleep env i)"

lemma acquire_from_result:
  assumes "now \<le> timeout + delays env k"
  shows "let r = acquire_from env dir timeout k now w in
    wr_attempts r \<le> k + (if now \<ge> timeout then 1 else (timeout - now) div POLL_INTERVAL + 2)
    \<and> wr_elapsed r \<le> timeout + delays env (wr_attempts r)
    \<and> (\<forall>m. wr_lock r = Inl (Locked m) \<longrightarrow> timeout \<le> wr_elapsed r \<and> fmlookup (lw_holder (wr_world r)) (dir, LOCK_FILE_NAME) \<noteq> None)
    \<and> (\<forall>l. wr_lock r = Inr l \<longrightarrow> rl_path l = (dir, LOCK_FILE_NAME) \<and>
         fmlookup (lw_holder (wr_world r)) (dir, LOCK_FILE_NAME) = Some (rl_file l))"
  using assms
proof (induction env dir timeout k now w rule: acquire_from.induct)
  case (1 env dir timeout k now w)
  obtain attempt w1 where asked: "try_acquire (wt_os env k) dir w = (attempt, w1)" by fastforce
  let ?now = "now + wt_attempt env k"
  have step: "delays env (Suc k) = delays env k + wt_attempt env k + wt_reading env k + wt_oversleep env k"
    by (simp add: delays_def)
  show ?case
  proof (cases "attempt = Inr None \<and> ?now < timeout")
    case False
    have "?now \<le> timeout + delays env (Suc k)" using 1(2) step by linarith
    moreover have "fmlookup (lw_holder w1) (dir, LOCK_FILE_NAME) \<noteq> None" if "attempt = Inr None"
      using asked that by (auto simp: try_acquire_def Let_def split: if_splits prod.splits)
    moreover have "rl_path l = (dir, LOCK_FILE_NAME) \<and> fmlookup (lw_holder w1) (dir, LOCK_FILE_NAME) = Some (rl_file l)"
      if "attempt = Inr (Some l)" for l
      using asked that by (auto simp: try_acquire_def Let_def split: if_splits prod.splits)
    moreover have "attempt \<noteq> Inl (Locked m)" for m
      using asked by (auto simp: try_acquire_def Let_def split: if_splits prod.splits)
    ultimately show ?thesis
      using False by (subst acquire_from.simps) (auto simp: asked Let_def split: sum.split option.split)
  next
    case True
    let ?read = "?now + wt_reading env k"
    let ?next = "?read + min POLL_INTERVAL (timeout - ?read) + wt_oversleep env k"
    have eq: "acquire_from env dir timeout k now w = acquire_from env dir timeout (Suc k) ?next (wt_others env k w1)"
      using True by (subst acquire_from.simps) (simp add: asked Let_def)
    have bound: "?next \<le> timeout + delays env (Suc k)" using 1(2) step by linarith
    have "Suc (if timeout \<le> ?next then 1 else (timeout - ?next) div POLL_INTERVAL + 2)
        \<le> (timeout - now) div POLL_INTERVAL + 2"
    proof (cases "timeout \<le> ?next")
      case before: False
      then have "timeout - ?next + POLL_INTERVAL \<le> timeout - now" by linarith
      then have "(timeout - ?next + POLL_INTERVAL) div POLL_INTERVAL \<le> (timeout - now) div POLL_INTERVAL"
        by (rule div_le_mono)
      then show ?thesis using before by (simp add: POLL_INTERVAL_def)
    qed simp
    moreover note 1(1) [OF asked [symmetric] refl refl conjunct1 [OF True] refl _ refl refl refl bound]
    ultimately show ?thesis
      unfolding eq using True by (auto simp: Let_def)
  qed
qed

section \<open>Exclusion\<close>

text \<open>
  Any number of processes take, drop and lose locks; a state is the lock table and the guards
  that live, each with its process.
\<close>

type_synonym lock_state = "lock_world \<times> (nat \<times> run_lock) list"

inductive lock_step :: "lock_state \<Rightarrow> lock_state \<Rightarrow> bool" where
  taken: "try_acquire os dir w = (Inr (Some l), w') \<Longrightarrow> lock_step (w, gs) (w', (p, l) # gs)"
| refused: "try_acquire os dir w = (r, w') \<Longrightarrow> (\<And>l. r \<noteq> Inr (Some l)) \<Longrightarrow> lock_step (w, gs) (w', gs)"
| dropped: "(p, l) \<in> set gs \<Longrightarrow> lock_step (w, gs) (drop_lock l w, removeAll (p, l) gs)"
| died: "lock_step (w, gs) (fold (\<lambda>(_, l). drop_lock l) (filter (\<lambda>g. fst g = p) gs) w, filter (\<lambda>g. fst g \<noteq> p) gs)"

definition locks_inv :: "lock_state \<Rightarrow> bool" where
  "locks_inv = (\<lambda>(w, gs). distinct (map (rl_path \<circ> snd) gs) \<and> distinct (map (rl_file \<circ> snd) gs)
     \<and> (\<forall>path h. fmlookup (lw_holder w) path = Some h \<longleftrightarrow> (\<exists>p l. (p, l) \<in> set gs \<and> rl_path l = path \<and> rl_file l = h))
     \<and> (\<forall>p l. (p, l) \<in> set gs \<longrightarrow> rl_file l < lw_next w))"

lemma try_acquire_taken:
  assumes "try_acquire os dir w = (Inr (Some l), w')"
  shows "l = \<lparr>rl_file = lw_next w, rl_path = (dir, LOCK_FILE_NAME)\<rparr>" "fmlookup (lw_holder w) (dir, LOCK_FILE_NAME) = None"
    "lw_holder w' = fmupd (dir, LOCK_FILE_NAME) (lw_next w) (lw_holder w)" "lw_next w' = Suc (lw_next w)"
  using assms by (auto simp: try_acquire_def open_lock_file_def Let_def split: if_splits)

lemma try_acquire_refused:
  assumes "try_acquire os dir w = (r, w')" and "\<And>l. r \<noteq> Inr (Some l)"
  shows "lw_holder w' = lw_holder w" "lw_next w \<le> lw_next w'"
  using assms by (auto simp: try_acquire_def open_lock_file_def Let_def split: if_splits)

lemma locks_inv_drop:
  assumes inv: "locks_inv (w, gs)" and g: "(p, l) \<in> set gs"
  shows "locks_inv (drop_lock l w, removeAll (p, l) gs)"
proof -
  have path: "q = p \<and> m = l" if "(q, m) \<in> set gs" "rl_file m = rl_file l" for q m
  proof -
    have "inj_on (rl_file \<circ> snd) (set gs)" using inv by (simp add: locks_inv_def distinct_map)
    from inj_onD [OF this, of "(q, m)" "(p, l)"] that g show ?thesis by simp
  qed
  have held: "fmlookup (lw_holder w) x = Some h \<longleftrightarrow> (\<exists>q m. (q, m) \<in> set gs \<and> rl_path m = x \<and> rl_file m = h)" for x h
    using inv unfolding locks_inv_def by blast
  have rest: "fmlookup (lw_holder (drop_lock l w)) x = Some h \<longleftrightarrow> fmlookup (lw_holder w) x = Some h \<and> h \<noteq> rl_file l" for x h
    by (cases x) (auto simp: drop_lock_def unlock_def)
  have "fmlookup (lw_holder (drop_lock l w)) x = Some h \<longleftrightarrow>
      (\<exists>q m. (q, m) \<in> set (removeAll (p, l) gs) \<and> rl_path m = x \<and> rl_file m = h)" for x h
    unfolding rest held set_removeAll Diff_iff singleton_iff prod.inject using path by blast
  moreover have "distinct (map (rl_path \<circ> snd) (removeAll (p, l) gs))" "distinct (map (rl_file \<circ> snd) (removeAll (p, l) gs))"
    using inv by (simp_all add: locks_inv_def removeAll_filter_not_eq distinct_map_filter)
  moreover have "lw_next (drop_lock l w) = lw_next w" by (simp add: drop_lock_def unlock_def)
  ultimately show ?thesis
    using inv unfolding locks_inv_def by (simp; blast)
qed

lemma locks_inv_drops:
  assumes "locks_inv (w, gs)" and "set ds \<subseteq> set gs" and "distinct ds"
  shows "locks_inv (fold (\<lambda>(_, l). drop_lock l) ds w, filter (\<lambda>g. g \<notin> set ds) gs)"
  using assms
proof (induction ds arbitrary: w gs)
  case (Cons d ds)
  obtain p l where d: "d = (p, l)" by (cases d)
  have "locks_inv (drop_lock l w, removeAll d gs)"
    using Cons.prems locks_inv_drop d by auto
  then have "locks_inv (fold (\<lambda>(_, l). drop_lock l) ds (drop_lock l w), filter (\<lambda>g. g \<notin> set ds) (removeAll d gs))"
    using Cons.prems by (intro Cons.IH) auto
  moreover have "filter (\<lambda>g. g \<notin> set ds) (removeAll d gs) = filter (\<lambda>g. g \<notin> set (d # ds)) gs"
    by (auto simp: removeAll_filter_not_eq intro: filter_cong)
  ultimately show ?case by (simp add: d)
qed simp

lemma locks_inv_step: "lock_step s s' \<Longrightarrow> locks_inv s \<Longrightarrow> locks_inv s'"
proof (induction rule: lock_step.induct)
  case (taken os dir w l w' gs p)
  note t = try_acquire_taken [OF taken(1)]
  have held: "fmlookup (lw_holder w) path = Some h \<longleftrightarrow> (\<exists>p l. (p, l) \<in> set gs \<and> rl_path l = path \<and> rl_file l = h)" for path h
    using taken(2) unfolding locks_inv_def by blast
  have below: "rl_file m < lw_next w" if "(q, m) \<in> set gs" for q m
    using taken(2) that unfolding locks_inv_def by blast
  have "(dir, LOCK_FILE_NAME) \<notin> (rl_path \<circ> snd) ` set gs"
    using t(2) held [of "(dir, LOCK_FILE_NAME)"] by (force simp del: split_paired_All)
  moreover have "lw_next w \<notin> (rl_file \<circ> snd) ` set gs"
    using below by fastforce
  moreover have "fmlookup (lw_holder w') path = Some h \<longleftrightarrow>
      (\<exists>q m. (q, m) \<in> set ((p, l) # gs) \<and> rl_path m = path \<and> rl_file m = h)" for path h
    using t(1-3) held [of path h] calculation(1)
    by (cases "path = (dir, LOCK_FILE_NAME)") (force simp: image_iff)+
  moreover have "rl_file m < lw_next w'" if "(q, m) \<in> set ((p, l) # gs)" for q m
    using that below [of q m] t(1,4) by auto
  ultimately show ?case
    using taken(2) t(1) unfolding locks_inv_def by simp
next
  case (refused os dir w r w' gs)
  then show ?case using try_acquire_refused [OF refused(1)] by (fastforce simp: locks_inv_def)
next
  case (dropped p l gs w)
  then show ?case by (simp add: locks_inv_drop)
next
  case (died w gs p)
  have "distinct gs" using died by (auto simp: locks_inv_def distinct_map)
  then have "locks_inv (fold (\<lambda>(_, l). drop_lock l) (filter (\<lambda>g. fst g = p) gs) w,
      filter (\<lambda>g. g \<notin> set (filter (\<lambda>g. fst g = p) gs)) gs)"
    using died by (intro locks_inv_drops) auto
  then show ?case by (simp cong: filter_cong)
qed

lemma locks_inv_reachable: "lock_step\<^sup>*\<^sup>* s s' \<Longrightarrow> locks_inv s \<Longrightarrow> locks_inv s'"
  by (induction rule: rtranclp_induct) (auto dest: locks_inv_step)

lemma locks_inv_start: "lw_holder w = fmempty \<Longrightarrow> locks_inv (w, [])"
  by (simp add: locks_inv_def)


text \<open>A process takes the lock of a directory and dies; another one gets it.\<close>

definition empty_locks :: lock_world where
  "empty_locks = \<lparr>lw_fs = \<lparr>fs_nodes = fmempty, fs_synced = {}, fs_left = \<lambda>_. {None}, fs_seq = \<lambda>_. 0\<rparr>,
     lw_holder = fmempty, lw_next = 0\<rparr>"

definition sample_lock_os :: lock_os where
  "sample_lock_os = \<lparr>lo_open = True, lo_lock = True\<rparr>"


text \<open>C29. Waiting ends. \<open>acquire\<close> asks for the lock at most \<open>timeout / 100 ms + 2\<close> times, whatever
  the other processes do, and never naps past the deadline: it is over by the timeout plus
  what the attempts, clock readings and late wake-ups take. It reports \<open>Locked\<close> only when the
  timeout is over and the last attempt found the lock held, and a guard it returns holds the
  lock of the directory asked for.\<close>

theorem acquire_bounded:
  "let r = acquire env dir timeout w in
     wr_attempts r \<le> timeout div POLL_INTERVAL + 2
   \<and> wr_elapsed r \<le> timeout + delays env (wr_attempts r)
   \<and> (\<forall>m. wr_lock r = Inl (Locked m) \<longrightarrow> timeout \<le> wr_elapsed r \<and>
        fmlookup (lw_holder (wr_world r)) (dir, LOCK_FILE_NAME) \<noteq> None)
   \<and> (\<forall>l. wr_lock r = Inr l \<longrightarrow> rl_path l = (dir, LOCK_FILE_NAME) \<and>
        fmlookup (lw_holder (wr_world r)) (dir, LOCK_FILE_NAME) = Some (rl_file l))"
  using acquire_from_result [of 0 timeout env 0 dir w]
  by (auto simp: acquire_def delays_def Let_def split: if_splits)

text \<open>The holder is alive for the whole wait of 250 ms: four attempts.\<close>

definition sample_wait :: wait_env where
  "sample_wait = \<lparr>wt_os = \<lambda>_. sample_lock_os, wt_attempt = \<lambda>_. 0, wt_reading = \<lambda>_. 0, wt_oversleep = \<lambda>_. 0, wt_others = \<lambda>_ w. w\<rparr>"

definition held_locks :: lock_world where
  "held_locks = empty_locks\<lparr>lw_holder := fmupd (''hrrr/00z'', LOCK_FILE_NAME) 0 fmempty, lw_next := 1\<rparr>"

theorem acquire_bounded_witness:
  "wr_lock (acquire sample_wait ''hrrr/00z'' 250000000 held_locks) = Inl (Locked ''hrrr/00z'')
   \<and> wr_attempts (acquire sample_wait ''hrrr/00z'' 250000000 held_locks) = 4
   \<and> wr_elapsed (acquire sample_wait ''hrrr/00z'' 250000000 held_locks) = 250000000"
proof -
  let ?r = "acquire sample_wait ''hrrr/00z'' 250000000 held_locks"
  note defs = acquire_def sample_wait_def sample_lock_os_def held_locks_def empty_locks_def try_acquire_def open_lock_file_def
    fs_exists_def POLL_INTERVAL_def Let_def
  have locked: "wr_lock ?r = Inl (Locked ''hrrr/00z'')" and "wr_attempts ?r = 4"
    by (simp_all add: defs acquire_from.simps)
  moreover have "wr_elapsed ?r = 250000000"
    using acquire_bounded [of sample_wait "''hrrr/00z''" 250000000 held_locks] locked
    by (simp add: Let_def delays_def sample_wait_def)
  ultimately show ?thesis by simp
qed

end
