(* ===== verification/Rw_Run.thy ===== *)
theory Rw_Run
  imports Rw_Format Rw_Atomic Rw_Open "HOL-Library.Sublist" "HOL-Library.Char_ord" "HOL-Library.List_Lexorder"
    "HOL-Library.Option_ord" "HOL-Library.Product_Lexorder"
begin

text \<open>
  The run manifest \<open>run.json\<close> (\<^verbatim>\<open>rw-store/src/run.rs\<close>): source provenance and its
  normal form, the check that a name is one path component, the manifest with its hours, its
  validation, and how it is loaded, updated and saved. A string is the list of its UTF-8
  bytes; a \<open>BTreeMap\<close> is a finite map read in key order and a \<open>BTreeSet\<close> a finite set read
  in element order. The JSON functions of serde are parameters. Allocations succeed.
\<close>

section \<open>Strings\<close>

text \<open>
  \<open>str::trim\<close> removes the characters with the Unicode property White\_Space; these are their
  UTF-8 encodings. In valid UTF-8 an encoding that is a prefix or a suffix of the bytes is
  the first or the last character.
\<close>

definition utf8 :: "nat list \<Rightarrow> string" where
  "utf8 = map char_of"

definition white_space :: "string list" where
  "white_space = map (\<lambda>b. utf8 [b]) [9, 10, 11, 12, 13, 32]
     @ map utf8 [[0xC2, 0x85], [0xC2, 0xA0], [0xE1, 0x9A, 0x80]]
     @ map (\<lambda>b. utf8 [0xE2, 0x80, b]) [0x80..<0x8B]
     @ map utf8 [[0xE2, 0x80, 0xA8], [0xE2, 0x80, 0xA9], [0xE2, 0x80, 0xAF], [0xE2, 0x81, 0x9F], [0xE3, 0x80, 0x80]]"

function trim_with :: "string list \<Rightarrow> string \<Rightarrow> string" where
  "trim_with ws s = (case find (\<lambda>w. w \<noteq> [] \<and> prefix w s) ws of
     Some w \<Rightarrow> trim_with ws (drop (length w) s) | None \<Rightarrow> s)"
  by auto
termination
proof (relation "measure (\<lambda>(ws, s). length s)", simp)
  fix ws s and w :: string
  assume "find (\<lambda>w. w \<noteq> [] \<and> prefix w s) ws = Some w"
  then have "w \<noteq> []" "prefix w s" by (auto simp: find_Some_iff)
  then show "((ws, drop (length w) s), ws, s) \<in> measure (\<lambda>(ws, s). length s)"
    by (auto simp: prefix_def)
qed

declare trim_with.simps [simp del]

definition trim :: "string \<Rightarrow> string" where
  "trim s = rev (trim_with (map rev white_space) (rev (trim_with white_space s)))"

definition between :: "nat \<Rightarrow> nat \<Rightarrow> char \<Rightarrow> bool" where
  "between a b c = (a \<le> of_char c \<and> of_char c \<le> b)"

definition ascii_lowercase :: "char \<Rightarrow> char" where
  "ascii_lowercase c = (if between 65 90 c then char_of (of_char c + 32 :: nat) else c)"

definition ascii_uppercase :: "char \<Rightarrow> char" where
  "ascii_uppercase c = (if between 97 122 c then char_of (of_char c - 32 :: nat) else c)"

definition ascii_alphanumeric :: "char \<Rightarrow> bool" where
  "ascii_alphanumeric c = (between 48 57 c \<or> between 65 90 c \<or> between 97 122 c)"

text \<open>The control characters are U+0000 to U+001F and U+007F to U+009F.\<close>

fun has_control :: "string \<Rightarrow> bool" where
  "has_control [] = False"
| "has_control (c # s) = (between 0 31 c \<or> of_char c = (127 :: nat)
     \<or> (of_char c = (0xC2 :: nat) \<and> s \<noteq> [] \<and> between 0x80 0x9F (hd s)) \<or> has_control s)"

section \<open>Source provenance\<close>

definition MAX_SOURCE_TOKEN_BYTES :: nat where "MAX_SOURCE_TOKEN_BYTES = 96"

record rws_source_provenance =
  sp_provider :: string
  sp_forecast_producer :: "string option"
  sp_licensing_publisher :: "string option"
  sp_transport_provider :: "string option"
  sp_transport_is_mirror :: bool
  sp_roles :: "string list"
  sp_products :: "string list"

definition token_char :: "char \<Rightarrow> bool" where
  "token_char c = (ascii_alphanumeric c \<or> c \<in> {CHR ''-'', CHR ''_'', CHR ''.''})"

definition normalize_source_token :: "string \<Rightarrow> string rw_result" where
  "normalize_source_token value =
     (let value = map ascii_lowercase (trim value)
      in if value = [] \<or> length value > MAX_SOURCE_TOKEN_BYTES \<or> \<not> list_all token_char value
         then Inl (Meta ''source provenance'') else Inr value)"

definition normalize_optional_source_token :: "string option \<Rightarrow> string option rw_result" where
  "normalize_optional_source_token value =
     (case value of None \<Rightarrow> Inr None | Some v \<Rightarrow> r_bind (normalize_source_token v) (\<lambda>v. Inr (Some v)))"

definition normalize_source_tokens :: "string list \<Rightarrow> string list rw_result" where
  "normalize_source_tokens values =
     r_bind (r_map normalize_source_token values) (\<lambda>normalized. Inr (remdups_adj (sort normalized)))"

definition normalize_source_entry :: "rws_source_provenance \<Rightarrow> rws_source_provenance rw_result" where
  "normalize_source_entry entry =
     r_bind (normalize_source_token (sp_provider entry)) (\<lambda>provider.
     let structured_fields = [sp_forecast_producer entry \<noteq> None, sp_licensing_publisher entry \<noteq> None,
           sp_transport_provider entry \<noteq> None]
     in if list_ex (\<lambda>present. present) structured_fields \<and> list_ex (\<lambda>present. \<not> present) structured_fields
        then Inl (Meta ''source provenance forecast_producer, licensing_publisher, and transport_provider must be supplied together'')
        else if \<not> structured_fields ! 0 \<and> sp_transport_is_mirror entry
        then Inl (Meta ''source provenance transport_is_mirror requires complete structured identity'')
        else
          r_bind (normalize_optional_source_token (sp_forecast_producer entry)) (\<lambda>producer.
          r_bind (normalize_optional_source_token (sp_licensing_publisher entry)) (\<lambda>publisher.
          r_bind (normalize_optional_source_token (sp_transport_provider entry)) (\<lambda>transport.
          r_bind (normalize_source_tokens (sp_roles entry)) (\<lambda>roles.
          r_bind (normalize_source_tokens (sp_products entry)) (\<lambda>products.
          Inr \<lparr>sp_provider = provider, sp_forecast_producer = producer, sp_licensing_publisher = publisher,
            sp_transport_provider = transport, sp_transport_is_mirror = sp_transport_is_mirror entry,
            sp_roles = roles, sp_products = products\<rparr>))))))"

definition new_provenance :: "string \<Rightarrow> string list \<Rightarrow> string list \<Rightarrow> rws_source_provenance rw_result" where
  "new_provenance provider roles products =
     normalize_source_entry \<lparr>sp_provider = provider, sp_forecast_producer = None, sp_licensing_publisher = None,
       sp_transport_provider = None, sp_transport_is_mirror = False, sp_roles = roles, sp_products = products\<rparr>"

definition new_structured :: "string \<Rightarrow> string \<Rightarrow> string \<Rightarrow> string \<Rightarrow> bool \<Rightarrow> string list \<Rightarrow> string list
    \<Rightarrow> rws_source_provenance rw_result" where
  "new_structured provider producer publisher transport mirror roles products =
     normalize_source_entry \<lparr>sp_provider = provider, sp_forecast_producer = Some producer,
       sp_licensing_publisher = Some publisher, sp_transport_provider = Some transport,
       sp_transport_is_mirror = mirror, sp_roles = roles, sp_products = products\<rparr>"

definition has_structured_identity :: "rws_source_provenance \<Rightarrow> bool" where
  "has_structured_identity p = (sp_forecast_producer p \<noteq> None)"

definition unwrap_or :: "'a option \<Rightarrow> 'a \<Rightarrow> 'a" where
  "unwrap_or x d = (case x of Some v \<Rightarrow> v | None \<Rightarrow> d)"

definition effective_forecast_producer :: "rws_source_provenance \<Rightarrow> string" where
  "effective_forecast_producer p = unwrap_or (sp_forecast_producer p) (sp_provider p)"

definition effective_licensing_publisher :: "rws_source_provenance \<Rightarrow> string" where
  "effective_licensing_publisher p = unwrap_or (sp_licensing_publisher p) (sp_provider p)"

definition effective_transport_provider :: "rws_source_provenance \<Rightarrow> string" where
  "effective_transport_provider p = unwrap_or (sp_transport_provider p) (sp_provider p)"

text \<open>The entries of a \<open>BTreeMap\<close> in key order.\<close>

definition bt_entries :: "('k :: linorder, 'v) fmap \<Rightarrow> ('k \<times> 'v) list" where
  "bt_entries m = map (\<lambda>k. (k, the (fmlookup m k))) (sorted_list_of_fset (fmdom m))"

type_synonym source_identity = "string \<times> string option \<times> string option \<times> string option \<times> bool"
type_synonym merged_sources = "(source_identity, string fset \<times> string fset) fmap"

definition identity_of :: "rws_source_provenance \<Rightarrow> source_identity" where
  "identity_of e = (sp_provider e, sp_forecast_producer e, sp_licensing_publisher e, sp_transport_provider e,
     sp_transport_is_mirror e)"

definition merge_source :: "rws_source_provenance \<Rightarrow> merged_sources \<Rightarrow> merged_sources rw_result" where
  "merge_source entry merged =
     r_bind (normalize_source_entry entry) (\<lambda>entry.
     let (roles, products) = unwrap_or (fmlookup merged (identity_of entry)) ({||}, {||})
     in Inr (fmupd (identity_of entry)
          (roles |\<union>| fset_of_list (sp_roles entry), products |\<union>| fset_of_list (sp_products entry)) merged))"

definition merged_entry :: "source_identity \<times> string fset \<times> string fset \<Rightarrow> rws_source_provenance" where
  "merged_entry = (\<lambda>((provider, producer, publisher, transport, mirror), roles, products).
     \<lparr>sp_provider = provider, sp_forecast_producer = producer, sp_licensing_publisher = publisher,
      sp_transport_provider = transport, sp_transport_is_mirror = mirror,
      sp_roles = sorted_list_of_fset roles, sp_products = sorted_list_of_fset products\<rparr>)"

definition normalize_source_provenance :: "rws_source_provenance list \<Rightarrow> rws_source_provenance list rw_result" where
  "normalize_source_provenance entries =
     r_bind (r_fold merge_source entries fmempty) (\<lambda>merged. Inr (map merged_entry (bt_entries merged)))"

section \<open>Path components\<close>

text \<open>
  \<open>Path::components\<close> on Unix: empty parts and \<open>.\<close> parts are dropped, but a leading \<open>.\<close> is
  the current directory and a leading slash the root.
\<close>

datatype path_component = RootDir | CurDir | ParentDir | Normal string

fun split_on :: "char \<Rightarrow> string \<Rightarrow> string list" where
  "split_on d [] = [[]]"
| "split_on d (c # s) = (if c = d then [] # split_on d s
     else (case split_on d s of p # ps \<Rightarrow> (c # p) # ps | [] \<Rightarrow> [[c]]))"

definition part_components :: "string \<Rightarrow> path_component list" where
  "part_components p = (if p = [] \<or> p = ''.'' then [] else if p = ''..'' then [ParentDir] else [Normal p])"

definition path_components :: "string \<Rightarrow> path_component list" where
  "path_components s =
     (if s \<noteq> [] \<and> hd s = CHR ''/'' then [RootDir]
      else if hd (split_on (CHR ''/'') s) = ''.'' then [CurDir] else [])
     @ concat (map part_components (split_on (CHR ''/'') s))"

definition trim_end_chars :: "char set \<Rightarrow> string \<Rightarrow> string" where
  "trim_end_chars cs s = rev (dropWhile (\<lambda>c. c \<in> cs) (rev s))"

definition is_windows_device_name :: "string \<Rightarrow> bool" where
  "is_windows_device_name value =
     (let stem = map ascii_uppercase (trim_end_chars {CHR '' '', CHR ''.''} (hd (split_on (CHR ''.'') value)));
          suffix = (if prefix ''COM'' stem then Some (drop 3 stem)
                    else if prefix ''LPT'' stem then Some (drop 3 stem) else None)
      in stem \<in> {''CON'', ''PRN'', ''AUX'', ''NUL'', ''CONIN$'', ''CONOUT$'', ''CLOCK$''}
         \<or> (case suffix of None \<Rightarrow> False | Some x \<Rightarrow> length x = 1 \<and> between 49 57 (x ! 0)))"

definition ends_with :: "string \<Rightarrow> char \<Rightarrow> bool" where
  "ends_with s c = (s \<noteq> [] \<and> last s = c)"

definition validate_store_component :: "string \<Rightarrow> unit rw_result" where
  "validate_store_component value =
     (let components = path_components value;
          first_is_exact_normal = (case components of Normal c # _ \<Rightarrow> c = value | _ \<Rightarrow> False)
      in if \<not> first_is_exact_normal \<or> tl components \<noteq> []
            \<or> CHR 0x5C \<in> set value \<or> CHR 0x00 \<in> set value \<or> CHR '':'' \<in> set value
            \<or> list_ex (\<lambda>c. c \<in> {CHR ''<'', CHR ''>'', CHR 0x22, CHR ''|'', CHR ''?'', CHR ''*''}) value
            \<or> ends_with value (CHR ''.'') \<or> ends_with value (CHR '' '')
            \<or> has_control value \<or> is_windows_device_name value
         then Inl (Meta ''must be exactly one normal path component'') else Inr ())"

section \<open>The manifest\<close>

definition SCHEMA_RUN :: string where "SCHEMA_RUN = ''rw-store.run.v1''"
definition SCHEMA_RUN_V2 :: string where "SCHEMA_RUN_V2 = ''rw-store.run.v2''"
definition MAX_RUN_MANIFEST_BYTES :: nat where "MAX_RUN_MANIFEST_BYTES = 16 * 1024 * 1024"
definition MAX_GRID_COORD_RAW_BYTES :: nat where "MAX_GRID_COORD_RAW_BYTES = MAX_GRID_CELLS * 4"

record rws_hour_entry =
  he_file :: string
  he_lead_seconds :: "u64 option"
  he_valid_unix :: "i64 option"
  he_written_unix :: u64
  he_encode_ms :: u64
  he_variables :: "string list"
  he_source_provenance :: "rws_source_provenance list"

definition entry_exact_time :: "rws_hour_entry \<Rightarrow> rws_exact_time option" where
  "entry_exact_time e = (case he_lead_seconds e of None \<Rightarrow> None
     | Some l \<Rightarrow> (case he_valid_unix e of None \<Rightarrow> None
       | Some v \<Rightarrow> Some \<lparr>et_lead_seconds = l, et_valid_unix = v\<rparr>))"

record rws_run_manifest =
  rm_schema :: string
  rm_model :: string
  rm_run :: string
  rm_grid_hash :: string
  rm_nx :: nat
  rm_ny :: nat
  rm_hours :: "(u16, rws_hour_entry) fmap"
  rm_writer :: rws_writer_info

definition validate_identity :: "rws_run_manifest \<Rightarrow> string \<Rightarrow> string \<Rightarrow> unit rw_result" where
  "validate_identity m model run =
     r_bind (validate_store_component model) (\<lambda>_.
     r_bind (validate_store_component run) (\<lambda>_.
     if rm_model m \<noteq> model \<or> rm_run m \<noteq> run then Inl (Meta ''manifest identity'') else Inr ()))"

definition validate_grid :: "rws_run_manifest \<Rightarrow> string \<Rightarrow> nat \<Rightarrow> nat \<Rightarrow> unit rw_result" where
  "validate_grid m grid_hash nx ny =
     (if rm_grid_hash m \<noteq> grid_hash \<or> rm_nx m \<noteq> nx \<or> rm_ny m \<noteq> ny then Inl (Meta ''manifest grid'') else Inr ())"

definition is_exact_time_axis :: "rws_run_manifest \<Rightarrow> bool" where
  "is_exact_time_axis m = (rm_schema m = SCHEMA_RUN_V2)"

definition exact_times :: "rws_run_manifest \<Rightarrow> (u16 \<times> rws_exact_time) list" where
  "exact_times m = List.map_filter (\<lambda>(slot, e). map_option (Pair slot) (entry_exact_time e)) (bt_entries (rm_hours m))"

definition source_provenance :: "rws_run_manifest \<Rightarrow> rws_source_provenance list rw_result" where
  "source_provenance m =
     r_bind (ok_or (fold (\<lambda>(_, e) count. Option.bind count (\<lambda>c. usize_checked_add c (length (he_source_provenance e))))
         (bt_entries (rm_hours m)) (Some 0))
       (Meta ''source provenance entry count overflows usize'')) (\<lambda>_.
     normalize_source_provenance (concat (map (\<lambda>(_, e). he_source_provenance e) (bt_entries (rm_hours m)))))"

text \<open>The pair of time fields, both or neither.\<close>

definition timing_pair :: "rws_hour_entry \<Rightarrow> string \<Rightarrow> rws_exact_time option rw_result" where
  "timing_pair e msg = (case (he_lead_seconds e, he_valid_unix e) of
     (Some l, Some v) \<Rightarrow> Inr (Some \<lparr>et_lead_seconds = l, et_valid_unix = v\<rparr>)
   | (None, None) \<Rightarrow> Inr None
   | _ \<Rightarrow> Inl (Meta msg))"

definition manifest_hour_meta :: "rws_run_manifest \<Rightarrow> u16 \<Rightarrow> rws_hour_meta \<Rightarrow> rws_hour_entry rw_result" where
  "manifest_hour_meta m slot meta =
     r_bind (ok_or (fmlookup (rm_hours m) slot) (Meta ''storage slot is absent from the run manifest'')) (\<lambda>entry.
     r_bind (if rm_schema m = SCHEMA_RUN then Inr SCHEMA_HOUR
             else if rm_schema m = SCHEMA_RUN_V2 then Inr SCHEMA_HOUR_V2
             else Inl (Meta ''unexpected manifest schema'')) (\<lambda>expected_hour_schema.
     if hm_schema meta \<noteq> expected_hour_schema then Inl (Meta ''hour schema does not match manifest schema'') else
     r_bind (case validate_time_schema meta of Inl msg \<Rightarrow> Inl (Meta msg) | Inr t \<Rightarrow> Inr t) (\<lambda>meta_time.
     r_bind (timing_pair entry ''manifest entry must contain both lead_seconds and valid_unix or neither'') (\<lambda>entry_time.
     if is_exact_time_axis m \<noteq> (entry_time \<noteq> None) then Inl (Meta ''timing does not satisfy manifest schema'')
     else if hm_forecast_hour meta \<noteq> slot then Inl (Meta ''contains hour metadata slot'')
     else if hm_model meta \<noteq> rm_model m \<or> hm_run meta \<noteq> rm_run m then Inl (Meta ''hour identity'')
     else if hm_grid_hash meta \<noteq> rm_grid_hash m \<or> hm_nx meta \<noteq> rm_nx m \<or> hm_ny meta \<noteq> rm_ny m
     then Inl (Meta ''hour grid'')
     else if meta_time \<noteq> entry_time then Inl (Meta ''hour exact time does not match manifest'')
     else Inr entry))))"

text \<open>
  One iteration of the loop of \<open>validate_contents\<close>: the file names seen, the previous exact
  time and the run origin are the loop's variables.
\<close>

definition hour_file_name :: "u16 \<Rightarrow> string" where
  "hour_file_name slot = ''f'' @ decimal3 (unat slot) @ ''.rws''"

record contents_state =
  cs_files :: "string fset"
  cs_previous :: "(u64 \<times> i64) option"
  cs_origin :: "i64 option"

definition contents_step :: "bool \<Rightarrow> u16 \<times> rws_hour_entry \<Rightarrow> contents_state \<Rightarrow> contents_state rw_result" where
  "contents_step exact_axis = (\<lambda>(slot, entry) st.
     r_bind (validate_store_component (he_file entry)) (\<lambda>_.
     r_bind (normalize_source_provenance (he_source_provenance entry)) (\<lambda>normalized_sources.
     if normalized_sources \<noteq> he_source_provenance entry
     then Inl (Meta ''source provenance must be normalized, sorted, and deduplicated'')
     else if he_file entry |\<in>| cs_files st then Inl (Meta ''reuses file already registered to another slot'')
     else
       let st = st\<lparr>cs_files := finsert (he_file entry) (cs_files st)\<rparr> in
       r_bind (timing_pair entry ''must contain both lead_seconds and valid_unix or neither'') (\<lambda>timing.
       if \<not> exact_axis then
         (if timing \<noteq> None then Inl (Meta ''must not contain exact-time metadata'') else Inr st)
       else
         r_bind (ok_or timing (Meta ''requires lead_seconds and valid_unix'')) (\<lambda>t.
         if he_file entry \<noteq> hour_file_name slot then Inl (Meta ''must use ordinal filename'') else
         r_bind (ok_or (origin_unix t) (Meta ''exact time cannot represent valid_unix - lead_seconds'')) (\<lambda>this_origin.
         r_bind (case cs_origin st of
                   Some expected \<Rightarrow> if this_origin \<noteq> expected then Inl (Meta ''implies origin'') else Inr st
                 | None \<Rightarrow> Inr (st\<lparr>cs_origin := Some this_origin\<rparr>)) (\<lambda>st.
         case cs_previous st of
           Some (previous_lead, previous_valid) \<Rightarrow>
             if et_lead_seconds t \<le> previous_lead \<or> sint (et_valid_unix t) \<le> sint previous_valid
             then Inl (Meta ''exact times must increase strictly by storage slot'')
             else Inr (st\<lparr>cs_previous := Some (et_lead_seconds t, et_valid_unix t)\<rparr>)
         | None \<Rightarrow> Inr (st\<lparr>cs_previous := Some (et_lead_seconds t, et_valid_unix t)\<rparr>))))))))"

definition validate_contents :: "rws_run_manifest \<Rightarrow> unit rw_result" where
  "validate_contents m =
     (if rm_schema m \<noteq> SCHEMA_RUN \<and> rm_schema m \<noteq> SCHEMA_RUN_V2 then Inl (Meta ''unexpected schema'') else
      r_bind (validate_store_component (rm_model m)) (\<lambda>_.
      r_bind (validate_store_component (rm_run m)) (\<lambda>_.
      if trim (rm_grid_hash m) = [] then Inl (Meta ''manifest grid_hash must not be empty'')
      else if rm_nx m = 0 \<or> rm_ny m = 0 then Inl (Meta ''degenerate manifest grid'') else
      r_bind (ok_or
          (case usize_checked_mul (rm_nx m) (rm_ny m) of None \<Rightarrow> None
           | Some cells \<Rightarrow> (case usize_checked_mul cells 4 of None \<Rightarrow> None
             | Some bytes \<Rightarrow> if bytes \<le> MAX_GRID_COORD_RAW_BYTES then Some bytes else None))
          (Meta ''exceeds the supported coordinate array size'')) (\<lambda>_.
      r_bind (r_fold (contents_step (rm_schema m = SCHEMA_RUN_V2)) (bt_entries (rm_hours m))
          \<lparr>cs_files = {||}, cs_previous = None, cs_origin = None\<rparr>) (\<lambda>_. Inr ())))))"

section \<open>Loading and saving\<close>

text \<open>
  What \<open>load_bounded\<close> observes of the path: the node at the first metadata call, then of the
  opened handle whether it is a file and its length, and the bytes a read to the end gives.
  The file may change between these.
\<close>

record manifest_file =
  mf_initial :: "file_node option"
  mf_opened :: "(bool \<times> nat) option"
  mf_bytes :: "u8 list"

type_synonym manifest_parser = "u8 list \<Rightarrow> rws_run_manifest option"
type_synonym manifest_printer = "rws_run_manifest \<Rightarrow> u8 list option"

definition load_bounded :: "manifest_parser \<Rightarrow> manifest_file \<Rightarrow> rws_run_manifest rw_result" where
  "load_bounded from_json f =
     r_bind (ok_or (mf_initial f) (Io ''metadata'')) (\<lambda>node.
     if node = Directory then Inl (Meta ''run manifest is not a regular file'') else
     r_bind (ok_or (mf_opened f) (Io ''open'')) (\<lambda>(is_file, file_len).
     if \<not> is_file then Inl (Meta ''run manifest changed to a non-file before it was opened'')
     else if file_len > MAX_RUN_MANIFEST_BYTES then Inl (Meta ''run manifest'')
     else
       let bytes = take (MAX_RUN_MANIFEST_BYTES + 1) (mf_bytes f)
       in if length bytes > MAX_RUN_MANIFEST_BYTES then Inl (Meta ''run manifest grew beyond the limit while reading'')
          else ok_or (from_json bytes) (Meta ''run manifest JSON'')))"

definition load_manifest :: "manifest_parser \<Rightarrow> manifest_file \<Rightarrow> rws_run_manifest rw_result" where
  "load_manifest from_json f =
     r_bind (load_bounded from_json f) (\<lambda>manifest. r_bind (validate_contents manifest) (\<lambda>_. Inr manifest))"

definition load_for_run :: "manifest_parser \<Rightarrow> manifest_file \<Rightarrow> string \<Rightarrow> string \<Rightarrow> rws_run_manifest rw_result" where
  "load_for_run from_json f model run =
     r_bind (validate_store_component model) (\<lambda>_.
     r_bind (validate_store_component run) (\<lambda>_.
     r_bind (load_manifest from_json f) (\<lambda>manifest.
     r_bind (validate_identity manifest model run) (\<lambda>_. Inr manifest))))"

text \<open>A path that nobody changes during the load is observed as it is.\<close>

definition manifest_file_at :: "file_system \<Rightarrow> file_path \<Rightarrow> manifest_file" where
  "manifest_file_at fs path = (case fmlookup (fs_nodes fs) path of
     None \<Rightarrow> \<lparr>mf_initial = None, mf_opened = None, mf_bytes = []\<rparr>
   | Some (File c) \<Rightarrow> \<lparr>mf_initial = Some (File c), mf_opened = Some (True, length c), mf_bytes = c\<rparr>
   | Some Directory \<Rightarrow> \<lparr>mf_initial = Some Directory, mf_opened = None, mf_bytes = []\<rparr>)"

definition load_or_new_schema :: "manifest_parser \<Rightarrow> file_system \<Rightarrow> file_path \<Rightarrow> string \<Rightarrow> string \<Rightarrow> string \<Rightarrow> nat \<Rightarrow> nat
    \<Rightarrow> rws_writer_info \<Rightarrow> string \<Rightarrow> rws_run_manifest rw_result" where
  "load_or_new_schema from_json fs path model run grid_hash nx ny writer schema =
     (if fs_exists fs path then
        r_bind (load_for_run from_json (manifest_file_at fs path) model run) (\<lambda>manifest.
        r_bind (validate_grid manifest grid_hash nx ny) (\<lambda>_.
        if rm_schema manifest \<noteq> schema then Inl (Meta ''existing manifest schema'') else Inr manifest))
      else
        let manifest = \<lparr>rm_schema = schema, rm_model = model, rm_run = run, rm_grid_hash = grid_hash,
              rm_nx = nx, rm_ny = ny, rm_hours = fmempty, rm_writer = writer\<rparr>
        in r_bind (validate_contents manifest) (\<lambda>_. Inr manifest))"

definition load_or_new :: "manifest_parser \<Rightarrow> file_system \<Rightarrow> file_path \<Rightarrow> string \<Rightarrow> string \<Rightarrow> string \<Rightarrow> nat \<Rightarrow> nat
    \<Rightarrow> rws_writer_info \<Rightarrow> rws_run_manifest rw_result" where
  "load_or_new from_json fs path model run grid_hash nx ny writer =
     load_or_new_schema from_json fs path model run grid_hash nx ny writer SCHEMA_RUN"

definition load_or_new_exact :: "manifest_parser \<Rightarrow> file_system \<Rightarrow> file_path \<Rightarrow> string \<Rightarrow> string \<Rightarrow> string \<Rightarrow> nat \<Rightarrow> nat
    \<Rightarrow> rws_writer_info \<Rightarrow> rws_run_manifest rw_result" where
  "load_or_new_exact from_json fs path model run grid_hash nx ny writer =
     load_or_new_schema from_json fs path model run grid_hash nx ny writer SCHEMA_RUN_V2"

definition register_hour :: "u16 \<Rightarrow> rws_hour_entry \<Rightarrow> rws_run_manifest \<Rightarrow> rws_run_manifest" where
  "register_hour hour entry m = m\<lparr>rm_hours := fmupd hour entry (rm_hours m)\<rparr>"

definition save_manifest :: "manifest_printer \<Rightarrow> os_outcomes \<Rightarrow> nat \<Rightarrow> rws_run_manifest \<Rightarrow> file_path \<Rightarrow> file_system
    \<Rightarrow> unit rw_result \<times> file_system" where
  "save_manifest to_json os pid m path fs =
     (case r_bind (validate_contents m) (\<lambda>_.
           r_bind (ok_or (to_json m) (Meta ''JSON'')) (\<lambda>bytes.
           let bytes = bytes @ [0x0A]
           in if length bytes > MAX_RUN_MANIFEST_BYTES then Inl (Meta ''serialized run manifest'') else Inr bytes)) of
        Inl e \<Rightarrow> (Inl e, fs)
      | Inr bytes \<Rightarrow> atomic_write_bytes os pid path bytes fs)"

end
