(* ===== verification/Rw_Manifest.thy ===== *)
theory Rw_Manifest
  imports Rw_Run_Facts
begin

text \<open>
  Well-formed manifests. The loop of \<open>validate_contents\<close> looks at one hour at a time and at the
  hour before it; it decides a property of all hours and all pairs of hours. Names that pass
  \<open>validate_store_component\<close> stay below the directory they are joined to.
\<close>

section \<open>The loop of the validation\<close>

definition entry_ok :: "bool \<Rightarrow> u16 \<times> rws_hour_entry \<Rightarrow> bool" where
  "entry_ok exact = (\<lambda>(slot, e). validate_store_component (he_file e) = Inr ()
     \<and> normalize_source_provenance (he_source_provenance e) = Inr (he_source_provenance e)
     \<and> (if exact then he_file e = hour_file_name slot \<and> (\<exists>t. entry_exact_time e = Some t \<and> origin_unix t \<noteq> None)
        else he_lead_seconds e = None \<and> he_valid_unix e = None))"

definition time_of :: "rws_hour_entry \<Rightarrow> rws_exact_time" where
  "time_of e = the (entry_exact_time e)"

definition later_ok :: "bool \<Rightarrow> u16 \<times> rws_hour_entry \<Rightarrow> u16 \<times> rws_hour_entry \<Rightarrow> bool" where
  "later_ok exact = (\<lambda>(_, e) (_, e'). he_file e \<noteq> he_file e'
     \<and> (exact \<longrightarrow> et_lead_seconds (time_of e) < et_lead_seconds (time_of e')
          \<and> sint (et_valid_unix (time_of e)) < sint (et_valid_unix (time_of e'))
          \<and> origin_unix (time_of e) = origin_unix (time_of e')))"

definition after_state :: "bool \<Rightarrow> contents_state \<Rightarrow> u16 \<times> rws_hour_entry \<Rightarrow> bool" where
  "after_state exact st = (\<lambda>(_, e). \<not> he_file e |\<in>| cs_files st
     \<and> (exact \<longrightarrow> (\<forall>l v. cs_previous st = Some (l, v) \<longrightarrow>
            l < et_lead_seconds (time_of e) \<and> sint v < sint (et_valid_unix (time_of e)))
          \<and> (\<forall>o0. cs_origin st = Some o0 \<longrightarrow> origin_unix (time_of e) = Some o0)))"

definition advance_state :: "bool \<Rightarrow> contents_state \<Rightarrow> u16 \<times> rws_hour_entry \<Rightarrow> contents_state" where
  "advance_state exact st = (\<lambda>(_, e).
     \<lparr>cs_files = finsert (he_file e) (cs_files st),
      cs_previous = (if exact then Some (et_lead_seconds (time_of e), et_valid_unix (time_of e)) else cs_previous st),
      cs_origin = (if exact then origin_unix (time_of e) else cs_origin st)\<rparr>)"

lemma timing_pair_eq:
  "timing_pair e msg = (case entry_exact_time e of Some t \<Rightarrow> Inr (Some t)
     | None \<Rightarrow> if he_lead_seconds e = None \<and> he_valid_unix e = None then Inr None else Inl (Meta msg))"
  by (auto simp: timing_pair_def entry_exact_time_def split: option.splits)

lemma contents_step_iff:
  "contents_step exact x st = Inr st' \<longleftrightarrow> entry_ok exact x \<and> after_state exact st x \<and> st' = advance_state exact st x"
proof -
  obtain slot e where x: "x = (slot, e)" by (cases x)
  obtain files prev orig where st: "st = \<lparr>cs_files = files, cs_previous = prev, cs_origin = orig\<rparr>"
    by (cases st) auto
  note defs = x st contents_step_def entry_ok_def after_state_def advance_state_def Let_def timing_pair_eq
  show ?thesis
  proof (cases "validate_store_component (he_file e) = Inr () \<and>
      normalize_source_provenance (he_source_provenance e) = Inr (he_source_provenance e) \<and> \<not> he_file e |\<in>| files")
    case False
    then show ?thesis
      by (cases "validate_store_component (he_file e)"; cases "normalize_source_provenance (he_source_provenance e)"; simp add: defs)
  next
    case head: True
    show ?thesis
    proof (cases "entry_exact_time e")
      case None
      with head show ?thesis
        by (cases exact; auto simp: defs ok_or_def)
    next
      case (Some t)
      then have "\<not> (he_lead_seconds e = None \<and> he_valid_unix e = None)" by (auto simp: entry_exact_time_def)
      with head Some show ?thesis
        by (cases exact; cases prev; cases orig; cases "origin_unix t"; auto simp: defs ok_or_def time_of_def not_le split: if_splits)
    qed
  qed
qed

lemma after_advance:
  assumes "entry_ok exact x" and "after_state exact st x"
  shows "after_state exact (advance_state exact st x) y \<longleftrightarrow> after_state exact st y \<and> later_ok exact x y"
  using assms
  by (cases x; cases y) (auto simp: entry_ok_def after_state_def advance_state_def later_ok_def time_of_def
      dest: order.strict_trans)

lemma contents_fold_iff:
  "(\<exists>st'. r_fold (contents_step exact) es st = Inr st') \<longleftrightarrow>
     (\<forall>x \<in> set es. entry_ok exact x \<and> after_state exact st x) \<and> sorted_wrt (later_ok exact) es"
proof (induction es arbitrary: st)
  case Nil
  then show ?case by simp
next
  case (Cons x es)
  show ?case
  proof (cases "entry_ok exact x \<and> after_state exact st x")
    case True
    then show ?thesis
      by (auto simp: contents_step_iff Cons.IH r_bind_eq_Inr after_advance)
  next
    case False
    then show ?thesis by (auto simp: r_bind_eq_Inr contents_step_iff)
  qed
qed

lemma after_initial [simp]: "after_state exact \<lparr>cs_files = {||}, cs_previous = None, cs_origin = None\<rparr> x"
  by (cases x) (simp add: after_state_def)

section \<open>Well-formed manifests\<close>

lemma sorted_wrt_strict:
  assumes "sorted_wrt (<) (xs :: 'a :: linorder list)"
  shows "sorted_wrt P xs \<longleftrightarrow> (\<forall>x \<in> set xs. \<forall>y \<in> set xs. x < y \<longrightarrow> P x y)"
  using assms by (induction xs) (auto dest: less_asym)

lemma set_bt_entries: "set (bt_entries m) = {(k, v). fmlookup m k = Some v}"
  by (auto simp: bt_entries_def image_iff fmlookup_dom_iff)

lemma sorted_bt_entries:
  "sorted_wrt P (bt_entries m) \<longleftrightarrow>
     (\<forall>s t e e'. s < t \<longrightarrow> fmlookup m s = Some e \<longrightarrow> fmlookup m t = Some e' \<longrightarrow> P (s, e) (t, e'))"
  unfolding bt_entries_def sorted_wrt_map sorted_wrt_strict [OF strict_sorted_fset]
  by (auto simp: Ball_def fmlookup_dom_iff) (metis option.sel)

definition wf_hour :: "bool \<Rightarrow> u16 \<Rightarrow> rws_hour_entry \<Rightarrow> bool" where
  "wf_hour exact slot e \<longleftrightarrow> validate_store_component (he_file e) = Inr ()
     \<and> normalize_source_provenance (he_source_provenance e) = Inr (he_source_provenance e)
     \<and> (if exact then he_file e = hour_file_name slot
          \<and> (\<exists>l v. he_lead_seconds e = Some l \<and> he_valid_unix e = Some v
               \<and> - (2 ^ 63) \<le> sint v - uint l \<and> sint v - uint l < 2 ^ 63)
        else he_lead_seconds e = None \<and> he_valid_unix e = None)"

definition wf_hours :: "bool \<Rightarrow> (u16, rws_hour_entry) fmap \<Rightarrow> bool" where
  "wf_hours exact hs \<longleftrightarrow> (\<forall>s e. fmlookup hs s = Some e \<longrightarrow> wf_hour exact s e)
     \<and> (\<forall>s t e e'. fmlookup hs s = Some e \<longrightarrow> fmlookup hs t = Some e' \<longrightarrow> he_file e = he_file e' \<longrightarrow> s = t)
     \<and> (exact \<longrightarrow> (\<forall>s t e e' l v l' v'. s < t \<longrightarrow>
          fmlookup hs s = Some e \<longrightarrow> he_lead_seconds e = Some l \<longrightarrow> he_valid_unix e = Some v \<longrightarrow>
          fmlookup hs t = Some e' \<longrightarrow> he_lead_seconds e' = Some l' \<longrightarrow> he_valid_unix e' = Some v' \<longrightarrow>
            l < l' \<and> sint v < sint v' \<and> sint v - uint l = sint v' - uint l'))"

definition wf_manifest :: "rws_run_manifest \<Rightarrow> bool" where
  "wf_manifest m \<longleftrightarrow> rm_schema m \<in> {SCHEMA_RUN, SCHEMA_RUN_V2}
     \<and> validate_store_component (rm_model m) = Inr () \<and> validate_store_component (rm_run m) = Inr ()
     \<and> trim (rm_grid_hash m) \<noteq> [] \<and> 0 < rm_nx m \<and> 0 < rm_ny m \<and> rm_nx m * rm_ny m \<le> MAX_GRID_CELLS
     \<and> wf_hours (rm_schema m = SCHEMA_RUN_V2) (rm_hours m)"

lemma coord_bytes_ok:
  "(case usize_checked_mul a b of None \<Rightarrow> None | Some cells \<Rightarrow> (case usize_checked_mul cells 4 of None \<Rightarrow> None
      | Some bytes \<Rightarrow> if bytes \<le> MAX_GRID_COORD_RAW_BYTES then Some bytes else None)) \<noteq> None
    \<longleftrightarrow> a * b \<le> MAX_GRID_CELLS"
  by (auto simp: usize_checked_mul_def MAX_GRID_COORD_RAW_BYTES_def MAX_GRID_CELLS_def usize_bound_def)

lemma origin_unix_eq:
  assumes "origin_unix t = Some w" and "origin_unix t' = Some w'"
  shows "w = w' \<longleftrightarrow> sint (et_valid_unix t) - uint (et_lead_seconds t) = sint (et_valid_unix t') - uint (et_lead_seconds t')"
  using origin_unix_Some [OF assms(1)] origin_unix_Some [OF assms(2)] by (metis signed_word_eqI)

lemma wf_hour_entry: "wf_hour exact s e \<longleftrightarrow> entry_ok exact (s, e)"
proof -
  have "(\<exists>t. entry_exact_time e = Some t \<and> origin_unix t \<noteq> None) \<longleftrightarrow>
      (\<exists>l v. he_lead_seconds e = Some l \<and> he_valid_unix e = Some v \<and> - (2 ^ 63) \<le> sint v - uint l \<and> sint v - uint l < 2 ^ 63)"
    by (cases "he_lead_seconds e"; cases "he_valid_unix e")
      (simp_all add: entry_exact_time_def origin_unix_def Let_def)
  then show ?thesis by (simp add: wf_hour_def entry_ok_def)
qed

lemma later_ok_wf:
  assumes "wf_hour exact s e" and "wf_hour exact t e'"
  shows "later_ok exact (s, e) (t, e') \<longleftrightarrow> he_file e \<noteq> he_file e' \<and>
    (exact \<longrightarrow> (\<forall>l v l' v'. he_lead_seconds e = Some l \<longrightarrow> he_valid_unix e = Some v \<longrightarrow>
       he_lead_seconds e' = Some l' \<longrightarrow> he_valid_unix e' = Some v' \<longrightarrow>
         l < l' \<and> sint v < sint v' \<and> sint v - uint l = sint v' - uint l'))"
proof (cases exact)
  case True
  obtain l v where e: "he_lead_seconds e = Some l" "he_valid_unix e = Some v"
    and "- (2 ^ 63) \<le> sint v - uint l" "sint v - uint l < 2 ^ 63"
    using assms(1) True by (auto simp: wf_hour_def)
  then obtain w where w: "origin_unix \<lparr>et_lead_seconds = l, et_valid_unix = v\<rparr> = Some w"
    by (auto simp: origin_unix_def)
  obtain l' v' where e': "he_lead_seconds e' = Some l'" "he_valid_unix e' = Some v'"
    and "- (2 ^ 63) \<le> sint v' - uint l'" "sint v' - uint l' < 2 ^ 63"
    using assms(2) True by (auto simp: wf_hour_def)
  then obtain w' where w': "origin_unix \<lparr>et_lead_seconds = l', et_valid_unix = v'\<rparr> = Some w'"
    by (auto simp: origin_unix_def)
  show ?thesis
    using origin_unix_eq [OF w w'] by (simp add: later_ok_def time_of_def entry_exact_time_def True e e' w w')
qed (simp add: later_ok_def)

lemma contents_ok_wf:
  "(\<exists>st. r_fold (contents_step exact) (bt_entries hs) \<lparr>cs_files = {||}, cs_previous = None, cs_origin = None\<rparr> = Inr st)
    \<longleftrightarrow> wf_hours exact hs"
proof -
  let ?hours = "\<forall>s e. fmlookup hs s = Some e \<longrightarrow> wf_hour exact s e"
  let ?files = "\<forall>s t e e'. fmlookup hs s = Some e \<longrightarrow> fmlookup hs t = Some e' \<longrightarrow> he_file e = he_file e' \<longrightarrow> s = t"
  let ?ordered = "\<lambda>e e'. \<forall>l v l' v'. he_lead_seconds e = Some l \<longrightarrow> he_valid_unix e = Some v \<longrightarrow>
    he_lead_seconds e' = Some l' \<longrightarrow> he_valid_unix e' = Some v' \<longrightarrow>
      l < l' \<and> sint v < sint v' \<and> sint v - uint l = sint v' - uint l'"
  let ?pair = "\<lambda>s t e e'. s < t \<and> fmlookup hs s = Some e \<and> fmlookup hs t = Some e'"
  have wf: "wf_hours exact hs \<longleftrightarrow> ?hours \<and> ?files \<and> (exact \<longrightarrow> (\<forall>s t e e'. ?pair s t e e' \<longrightarrow> ?ordered e e'))"
    unfolding wf_hours_def by blast
  have files: "?files \<longleftrightarrow> (\<forall>s t e e'. ?pair s t e e' \<longrightarrow> he_file e \<noteq> he_file e')"
  proof
    assume distinct: "\<forall>s t e e'. ?pair s t e e' \<longrightarrow> he_file e \<noteq> he_file e'"
    show ?files
    proof (intro allI impI)
      fix s t e e' assume "fmlookup hs s = Some e" "fmlookup hs t = Some e'" "he_file e = he_file e'"
      then show "s = t" using distinct by (cases s t rule: linorder_cases) fastforce+
    qed
  qed auto
  have "sorted_wrt (later_ok exact) (bt_entries hs) \<longleftrightarrow> (\<forall>s t e e'. ?pair s t e e' \<longrightarrow> later_ok exact (s, e) (t, e'))"
    unfolding sorted_bt_entries by blast
  also have "\<dots> \<longleftrightarrow> (\<forall>s t e e'. ?pair s t e e' \<longrightarrow> he_file e \<noteq> he_file e' \<and> (exact \<longrightarrow> ?ordered e e'))" if ?hours
    using that by (intro all_cong1 imp_cong refl later_ok_wf) blast+
  finally show ?thesis
    unfolding contents_fold_iff wf files by (auto simp: set_bt_entries wf_hour_entry)
qed

lemma validate_contents_wf: "validate_contents m = Inr () \<longleftrightarrow> wf_manifest m"
proof -
  have coord: "(\<exists>y. ok_or (case usize_checked_mul (rm_nx m) (rm_ny m) of None \<Rightarrow> None
      | Some cells \<Rightarrow> (case usize_checked_mul cells 4 of None \<Rightarrow> None
      | Some bytes \<Rightarrow> if bytes \<le> MAX_GRID_COORD_RAW_BYTES then Some bytes else None)) err = Inr y)
    \<longleftrightarrow> rm_nx m * rm_ny m \<le> MAX_GRID_CELLS" for err
    using coord_bytes_ok [of "rm_nx m" "rm_ny m"] by (simp add: ok_or_eq_Inr)
  show ?thesis
    by (simp add: validate_contents_def wf_manifest_def r_bind_eq_Inr coord contents_ok_wf)
qed

section \<open>Path components\<close>

lemma split_on_Cons: "\<exists>p ps. split_on d s = p # ps"
  by (induction s) (auto split: list.splits)

lemma split_on_append: "split_on d (a @ d # b) = split_on d a @ split_on d b"
proof (induction a)
  case (Cons c a)
  then show ?case using split_on_Cons [of d a] by auto
qed simp

lemma split_on_free: "d \<notin> set s \<Longrightarrow> split_on d s = [s]"
  by (induction s) auto

lemma split_on_parts: "p \<in> set (split_on d s) \<Longrightarrow> d \<notin> set p"
proof (induction s arbitrary: p)
  case (Cons c s)
  obtain q qs where "split_on d s = q # qs" using split_on_Cons by blast
  with Cons show ?case by (auto split: if_splits)
qed simp

lemma store_component_normal:
  assumes "validate_store_component v = Inr ()"
  shows "path_components v = [Normal v]"
  using assms by (auto simp: validate_store_component_def Let_def split: if_splits list.splits path_component.splits)

lemma normal_component:
  assumes "path_components v = [Normal v]"
  shows "CHR ''/'' \<notin> set v" "part_components v = [Normal v]"
proof -
  have parts: "concat (map part_components (split_on (CHR ''/'') v)) = [Normal v]"
    using assms by (simp add: path_components_def split: if_splits)
  have "Normal v \<in> set (concat (map part_components (split_on (CHR ''/'') v)))"
    unfolding parts by simp
  then obtain p where p: "p \<in> set (split_on (CHR ''/'') v)" "Normal v \<in> set (part_components p)" by auto
  then show "CHR ''/'' \<notin> set v" "part_components v = [Normal v]"
    using split_on_parts [OF p(1)] by (auto simp: part_components_def split: if_splits)
qed

lemma joined_components:
  assumes "path_components v = [Normal v]" and "dir \<noteq> []"
  shows "path_components (dir @ ''/'' @ v) = path_components dir @ [Normal v]"
proof -
  have "split_on (CHR ''/'') (dir @ ''/'' @ v) = split_on (CHR ''/'') dir @ [v]"
    using normal_component(1) [OF assms(1)] by (simp add: split_on_append split_on_free)
  moreover have "hd (split_on (CHR ''/'') dir @ [v]) = hd (split_on (CHR ''/'') dir)"
    using split_on_Cons [of "CHR ''/''" dir] by auto
  ultimately show ?thesis
    using assms(2) normal_component(2) [OF assms(1)] by (simp add: path_components_def)
qed

end
