(* ===== verification/Rw_Run_Props.thy ===== *)
theory Rw_Run_Props
  imports Rw_Manifest Rw_Publish
begin

text \<open>
  What the run manifest promises: only well-formed manifests are loaded or saved, a saved
  manifest loads back, names that pass the component check stay below their directory, and
  provenance has a normal form.
\<close>

section \<open>Loading and saving\<close>

lemma load_manifest_wf: "load_manifest from_json f = Inr m \<Longrightarrow> wf_manifest m"
  by (auto simp: load_manifest_def r_bind_eq_Inr validate_contents_wf)

lemma validate_identity_iff:
  "validate_identity m model run = Inr () \<longleftrightarrow> validate_store_component model = Inr () \<and> validate_store_component run = Inr () \<and>
     rm_model m = model \<and> rm_run m = run"
  by (auto simp: validate_identity_def r_bind_eq_Inr)

lemma load_for_run_Inr:
  assumes "load_for_run from_json f model run = Inr m"
  shows "wf_manifest m" "rm_model m = model" "rm_run m = run"
  using assms by (auto simp: load_for_run_def r_bind_eq_Inr validate_identity_iff dest: load_manifest_wf)

lemma load_or_new_Inr:
  assumes "load_or_new_schema from_json fs path model run grid_hash nx ny writer schema = Inr m"
  shows "wf_manifest m" "rm_schema m = schema" "rm_model m = model" "rm_run m = run"
    "rm_grid_hash m = grid_hash" "rm_nx m = nx" "rm_ny m = ny"
    "\<not> fs_exists fs path \<Longrightarrow> rm_hours m = fmempty"
    "fs_exists fs path \<Longrightarrow> load_for_run from_json (manifest_file_at fs path) model run = Inr m"
  using assms
  by (auto simp: load_or_new_schema_def r_bind_eq_Inr validate_grid_def validate_contents_wf Let_def split: if_splits dest: load_for_run_Inr)

lemma save_manifest_visible:
  assumes "save_manifest to_json os pid m path fs = (r, fs')" and "\<not> hidden path"
  shows "visible fs' = visible fs \<and> r \<noteq> Inr () \<or>
    wf_manifest m \<and> (\<exists>bs. to_json m = Some bs \<and> length bs < MAX_RUN_MANIFEST_BYTES \<and> visible fs' = (visible fs)(path \<mapsto> bs @ [0x0A]))"
proof (cases "wf_manifest m \<and> (\<exists>bs. to_json m = Some bs \<and> length bs < MAX_RUN_MANIFEST_BYTES)")
  case True
  then obtain bs where bs: "wf_manifest m" "to_json m = Some bs" "length bs < MAX_RUN_MANIFEST_BYTES" by blast
  have "atomic_write_with os pid path (bs @ [0x0A], Inr ()) fs = (r, fs')"
    using assms(1) bs by (simp add: save_manifest_def validate_contents_wf [symmetric] Let_def atomic_write_bytes_def)
  from atomic_write_visible(1) [OF this assms(2)] bs show ?thesis by blast
next
  case False
  then have "\<exists>e. r_bind (validate_contents m) (\<lambda>_. r_bind (ok_or (to_json m) (Meta ''JSON'')) (\<lambda>bytes.
      let bytes = bytes @ [0x0A] in if length bytes > MAX_RUN_MANIFEST_BYTES then Inl (Meta ''serialized run manifest'') else Inr bytes)) = Inl e"
    by (cases "validate_contents m"; cases "to_json m") (auto simp: validate_contents_wf [symmetric] Let_def)
  then show ?thesis using assms(1) by (auto simp: save_manifest_def)
qed

lemma load_saved:
  assumes "fs_content fs path = Some (bs @ [0x0A])" and "length bs < MAX_RUN_MANIFEST_BYTES"
    and "from_json (bs @ [0x0A]) = Some m" and "wf_manifest m"
  shows "load_for_run from_json (manifest_file_at fs path) (rm_model m) (rm_run m) = Inr m"
proof -
  have "fmlookup (fs_nodes fs) path = Some (File (bs @ [0x0A]))"
    using assms(1) by (auto simp: fs_content_def split: option.splits file_node.splits)
  then have "load_bounded from_json (manifest_file_at fs path) = Inr m"
    using assms(2,3) by (simp add: load_bounded_def manifest_file_at_def Let_def)
  moreover have "validate_contents m = Inr ()" "validate_store_component (rm_model m) = Inr ()" "validate_store_component (rm_run m) = Inr ()"
    using assms(4) by (simp_all add: validate_contents_wf, simp_all add: wf_manifest_def)
  ultimately show ?thesis
    by (simp add: load_for_run_def load_manifest_def validate_identity_def)
qed

section \<open>The properties\<close>

text \<open>C11. The type of manifests. \<open>validate_contents\<close> accepts exactly the well-formed manifests: a
  known schema, model and run names that are single path components, a grid within the
  ceiling, hours with normal provenance and pairwise different files, and for an exact-time
  run complete times that increase strictly with the slot and imply one origin, in the file
  named after the slot. No operation lets another manifest in or out: what is loaded is
  well-formed and is the run that was asked for, and saving either changes no visible file or
  replaces the manifest by the serialisation of a well-formed one.\<close>

theorem manifest_well_formed:
  "(validate_contents m = Inr () \<longleftrightarrow> wf_manifest m) \<and>
   (load_for_run from_json f model run = Inr m \<longrightarrow> wf_manifest m \<and> rm_model m = model \<and> rm_run m = run) \<and>
   (load_or_new_schema from_json fs path model run grid_hash nx ny writer schema = Inr m \<longrightarrow>
      wf_manifest m \<and> rm_schema m = schema \<and> rm_model m = model \<and> rm_run m = run \<and>
      rm_grid_hash m = grid_hash \<and> rm_nx m = nx \<and> rm_ny m = ny) \<and>
   (\<not> hidden path \<longrightarrow> (case save_manifest to_json os pid m path fs of (r, fs') \<Rightarrow>
      visible fs' = visible fs \<and> r \<noteq> Inr () \<or>
      wf_manifest m \<and> (\<exists>bs. to_json m = Some bs \<and> visible fs' = (visible fs)(path \<mapsto> bs @ [0x0A]))))"
proof (intro conjI impI)
  assume "\<not> hidden path"
  from save_manifest_visible [OF _ this, of to_json os pid m fs]
  show "case save_manifest to_json os pid m path fs of (r, fs') \<Rightarrow> visible fs' = visible fs \<and> r \<noteq> Inr () \<or>
      wf_manifest m \<and> (\<exists>bs. to_json m = Some bs \<and> visible fs' = (visible fs)(path \<mapsto> bs @ [0x0A]))"
    by (cases "save_manifest to_json os pid m path fs") auto
qed (simp_all only: validate_contents_wf load_for_run_Inr load_or_new_Inr(1-7))

text \<open>An exact-time run with one stored slot, half an hour into the run.\<close>

definition sample_entry :: rws_hour_entry where
  "sample_entry = \<lparr>he_file = ''f007.rws'', he_lead_seconds = Some 1800, he_valid_unix = Some 1704069000, he_written_unix = 1704070000,
     he_encode_ms = 12, he_variables = [''t2m''], he_source_provenance = []\<rparr>"

definition sample_manifest :: rws_run_manifest where
  "sample_manifest = \<lparr>rm_schema = SCHEMA_RUN_V2, rm_model = ''hrrr'', rm_run = ''20240101_00z'', rm_grid_hash = ''ab'', rm_nx = 2, rm_ny = 1,
     rm_hours = fmupd 7 sample_entry fmempty, rm_writer = \<lparr>wi_name = ''rw-store'', wi_version = ''0.1.0'', wi_build = ''test''\<rparr>\<rparr>"

lemma sample_components:
  "validate_store_component ''hrrr'' = Inr ()" "validate_store_component ''20240101_00z'' = Inr ()" "validate_store_component ''f007.rws'' = Inr ()"
  by code_simp+

lemma sample_hash: "trim ''ab'' = ''ab''"
  by (rule trim_tokens) (simp add: token_char_def ascii_alphanumeric_def between_def)

lemma sample_manifest_wf: "wf_manifest sample_manifest"
proof -
  have "hour_file_name 7 = ''f007.rws''"
    by (simp add: hour_file_name_def decimal3_def decimal.simps digit_char_def Let_def) code_simp
  then have "wf_hour True 7 sample_entry"
    by (simp add: wf_hour_def sample_entry_def sample_components normalize_source_provenance_def bt_entries_def sorted_list_of_fset.rep_eq)
  then show ?thesis
    by (auto simp: wf_manifest_def sample_manifest_def sample_components sample_hash wf_hours_def MAX_GRID_CELLS_def)
qed

theorem manifest_well_formed_witness:
  "wf_manifest sample_manifest \<and> validate_contents sample_manifest = Inr () \<and>
   (\<exists>fs'. save_manifest (\<lambda>_. Some [0x7B, 0x7D]) sample_os 7 sample_manifest (''hrrr/00z'', ''run.json'') sample_fs = (Inr (), fs') \<and>
      visible fs' = (visible sample_fs)((''hrrr/00z'', ''run.json'') \<mapsto> [0x7B, 0x7D, 0x0A]))"
proof -
  let ?p = "(''hrrr/00z'', ''run.json'')"
  have p: "\<not> hidden ?p" by (simp add: hidden_def)
  have v: "validate_contents sample_manifest = Inr ()"
    using manifest_well_formed [of sample_manifest] sample_manifest_wf by blast
  obtain fs' where "atomic_write_with sample_os 7 ?p ([0x7B, 0x7D] @ [0x0A], Inr ()) sample_fs = (Inr (), fs')"
    using sample_write [OF p] by (metis prod.collapse)
  then have s: "save_manifest (\<lambda>_. Some [0x7B, 0x7D]) sample_os 7 sample_manifest ?p sample_fs = (Inr (), fs')"
    by (simp add: save_manifest_def v Let_def MAX_RUN_MANIFEST_BYTES_def atomic_write_bytes_def)
  have "case save_manifest (\<lambda>_. Some [0x7B, 0x7D]) sample_os 7 sample_manifest ?p sample_fs of (r, fs') \<Rightarrow>
      visible fs' = visible sample_fs \<and> r \<noteq> Inr () \<or> wf_manifest sample_manifest \<and>
      (\<exists>bs. Some [0x7B, 0x7D] = Some bs \<and> visible fs' = (visible sample_fs)(?p \<mapsto> bs @ [0x0A]))"
    by (rule mp [OF conjunct2 [OF conjunct2 [OF conjunct2 [OF manifest_well_formed]]] p])
  then show ?thesis using s v sample_manifest_wf by simp
qed

text \<open>C12. A manifest that \<open>save\<close> reports as saved is the one the next process loads: the loader's
  size limit accepts everything the saver lets through, and the parsed manifest passes the
  validation and the identity check again. The hypothesis is the contract of the JSON library
  on this type.\<close>

theorem manifest_round_trip:
  assumes "save_manifest to_json os pid m path fs = (Inr (), fs')" and "\<not> hidden path"
    and "\<forall>m bs. to_json m = Some bs \<longrightarrow> from_json (bs @ [0x0A]) = Some m"
  shows "load_for_run from_json (manifest_file_at fs' path) (rm_model m) (rm_run m) = Inr m"
proof -
  obtain bs where bs: "wf_manifest m" "to_json m = Some bs" "length bs < MAX_RUN_MANIFEST_BYTES"
      "visible fs' = (visible fs)(path \<mapsto> bs @ [0x0A])"
    using save_manifest_visible [OF assms(1,2)] by blast
  have "fs_content fs' path = Some (bs @ [0x0A])"
    using fun_cong [OF bs(4), of path] assms(2) by (simp add: visible_def)
  then show ?thesis using load_saved bs assms(3) by blast
qed

theorem manifest_round_trip_witness:
  "\<exists>fs'. save_manifest (\<lambda>m. if m = sample_manifest then Some [] else None) sample_os 7 sample_manifest (''hrrr/00z'', ''run.json'') sample_fs = (Inr (), fs') \<and>
     load_for_run (\<lambda>_. Some sample_manifest) (manifest_file_at fs' (''hrrr/00z'', ''run.json'')) ''hrrr'' ''20240101_00z'' = Inr sample_manifest"
proof -
  let ?p = "(''hrrr/00z'', ''run.json'')" and ?to = "\<lambda>m. if m = sample_manifest then Some [] else None"
  have p: "\<not> hidden ?p" by (simp add: hidden_def)
  have v: "validate_contents sample_manifest = Inr ()" by (simp add: validate_contents_wf sample_manifest_wf)
  obtain fs' where "atomic_write_with sample_os 7 ?p ([] @ [0x0A], Inr ()) sample_fs = (Inr (), fs')"
    using sample_write [OF p] by (metis prod.collapse)
  then have s: "save_manifest ?to sample_os 7 sample_manifest ?p sample_fs = (Inr (), fs')"
    by (simp add: save_manifest_def v Let_def MAX_RUN_MANIFEST_BYTES_def atomic_write_bytes_def)
  from manifest_round_trip [OF s p, of "\<lambda>_. Some sample_manifest"] s show ?thesis
    by (auto simp: sample_manifest_def)
qed

text \<open>C30. Names cannot leave the store. A name that passes \<open>validate_store_component\<close> is one
  component below whatever directory it is joined to: no separator of either platform, no
  parent or current directory, no drive, no reserved or control character.\<close>

theorem store_component_contained:
  assumes "validate_store_component name = Inr ()" and "dir \<noteq> []"
  shows "path_components (dir @ ''/'' @ name) = path_components dir @ [Normal name] \<and>
    name \<notin> {[], ''.'', ''..''} \<and> set name \<inter> {CHR ''/'', CHR 0x5C, CHR '':'', CHR 0x00, CHR 0x0A, CHR 0x22, CHR ''*'', CHR ''?''} = {}"
proof -
  note n = store_component_normal [OF assms(1)]
  have "CHR ''/'' \<notin> set name" "name \<notin> {[], ''.'', ''..''}"
    using normal_component [OF n] by (auto simp: part_components_def)
  moreover have "\<not> has_control s" if "\<not> has_control (c # s)" for c s using that by simp
  then have "c = CHR 0x0A \<Longrightarrow> c \<in> set s \<Longrightarrow> has_control s" for c s
    by (induction s) (auto simp: between_def)
  ultimately show ?thesis
    using assms joined_components [OF n assms(2)]
    by (auto simp: validate_store_component_def Let_def list_ex_iff split: if_splits)
qed

theorem store_component_contained_witness:
  "path_components ''store/hrrr/f007.rws'' = path_components ''store/hrrr'' @ [Normal ''f007.rws'']"
  using store_component_contained [of "''f007.rws''" "''store/hrrr''"] sample_components by simp

end
