(* ===== verification/Rw_Grid.thy ===== *)
theory Rw_Grid
  imports Rw_Publish Rw_Format Wx_Grid
begin

text \<open>
  The grid file \<open>grid.rwg\<close> of a run (\<^verbatim>\<open>rw-store/src/grid.rs\<close>): its byte layout, the encoder,
  and the reader that validates every length before it trusts it. The zstd and SHA-256
  functions and the JSON functions of the grid metadata are fields of the grid environment.
  Allocations succeed.
\<close>

section \<open>Layout\<close>

definition GRID_MAGIC :: "u8 list" where
  "GRID_MAGIC = [0x52, 0x57, 0x53, 0x47, 0x52, 0x49, 0x44, 0x31]"
definition GRID_VERSION :: u32 where "GRID_VERSION = 1"
definition GRID_SUPPORTED_VERSIONS :: "u32 list" where "GRID_SUPPORTED_VERSIONS = [1]"
definition SCHEMA_GRID :: string where "SCHEMA_GRID = ''rw-store.grid.v1''"
definition MAX_GRID_META_LEN :: u64 where "MAX_GRID_META_LEN = 1024 * 1024"
definition MAX_COORD_RAW_LEN :: u64 where "MAX_COORD_RAW_LEN = of_nat MAX_GRID_CELLS * 4"
definition MAX_COORD_COMP_LEN :: u64 where "MAX_COORD_COMP_LEN = MAX_COORD_RAW_LEN + 1024 * 1024"
definition MAX_GRID_FILE_LEN :: u64 where
  "MAX_GRID_FILE_LEN = of_nat HEADER_LEN + MAX_GRID_META_LEN + 2 * MAX_COORD_COMP_LEN"

record grid_layout =
  gl_meta_end :: nat
  gl_lat_end :: nat
  gl_file_end :: nat

definition parse_grid_layout :: "u8 list \<Rightarrow> u64 \<Rightarrow> grid_layout rw_result" where
  "parse_grid_layout header file_len =
     (if subslice 0 8 header \<noteq> GRID_MAGIC then Inl (Format ''bad grid magic'')
      else
        let version = u32_of_le (subslice 8 12 header)
        in if version \<notin> set GRID_SUPPORTED_VERSIONS then Inl (UnsupportedVersion version)
           else
             let meta_len = ucast (u32_of_le (subslice 12 16 header)) :: u64;
                 lat_comp_len = u64_of_le (subslice 16 24 header);
                 lon_comp_len = u64_of_le (subslice 24 32 header)
             in if meta_len > MAX_GRID_META_LEN then Inl (Format ''grid meta JSON'')
                else if lat_comp_len > MAX_COORD_COMP_LEN then Inl (Format ''grid lat compressed section'')
                else if lon_comp_len > MAX_COORD_COMP_LEN then Inl (Format ''grid lon compressed section'')
                else
                  let meta_end = u64_checked_add (of_nat HEADER_LEN) meta_len;
                      lat_end = Option.bind meta_end (\<lambda>e. u64_checked_add e lat_comp_len);
                      file_end = Option.bind lat_end (\<lambda>e. u64_checked_add e lon_comp_len)
                  in (case (meta_end, lat_end, file_end) of
                        (Some meta_end, Some lat_end, Some file_end) \<Rightarrow>
                          if file_end \<noteq> file_len then Inl (Format ''grid file length mismatch'')
                          else Inr \<lparr>gl_meta_end = unat meta_end, gl_lat_end = unat lat_end, gl_file_end = unat file_end\<rparr>
                      | _ \<Rightarrow> Inl (Format ''grid section lengths overflow the file layout'')))"

definition validate_grid_file_len :: "u64 \<Rightarrow> unit rw_result" where
  "validate_grid_file_len file_len =
     (if file_len < of_nat HEADER_LEN then Inl (Format ''grid header requires'')
      else if file_len > MAX_GRID_FILE_LEN then Inl (Format ''grid file is'') else Inr ())"

text \<open>
  An opened grid file: the length its metadata reports and the bytes that reading it to the
  end delivers, which differ when the file is changed meanwhile.
\<close>

record grid_handle =
  gh_len :: u64
  gh_bytes :: "u8 list"

text \<open>A file that nobody changes.\<close>

definition at_rest :: "u8 list \<Rightarrow> grid_handle" where
  "at_rest bytes = \<lparr>gh_len = of_nat (length bytes), gh_bytes = bytes\<rparr>"

definition read_grid_bytes :: "grid_handle option \<Rightarrow> (u8 list \<times> grid_layout) rw_result" where
  "read_grid_bytes f =
     r_bind (ok_or f (Io ''open'')) (\<lambda>h.
     r_bind (validate_grid_file_len (gh_len h)) (\<lambda>_.
     if length (gh_bytes h) < HEADER_LEN then Inl (Io ''read'') else
     let header = take HEADER_LEN (gh_bytes h)
     in r_bind (parse_grid_layout header (gh_len h)) (\<lambda>layout.
        if gl_file_end layout < HEADER_LEN then Inl (Panicked ''slice'')
        else if length (gh_bytes h) < gl_file_end layout then Inl (Io ''read'')
        else if length (gh_bytes h) > gl_file_end layout then Inl (Format ''grid file grew while it was being read'')
        else Inr (header @ subslice HEADER_LEN (gl_file_end layout) (gh_bytes h), layout))))"

section \<open>Encoding\<close>

record rws_grid_meta =
  gm_schema :: string
  gm_nx :: nat
  gm_ny :: nat
  gm_lat_raw_len :: u64
  gm_lon_raw_len :: u64
  gm_projection :: "grid_projection option"

record grid_env =
  ge_zstd :: "u8 list \<Rightarrow> u8 list option"
  ge_unzstd :: "u8 list \<Rightarrow> u8 list \<times> bool"
  ge_to_json :: "rws_grid_meta \<Rightarrow> u8 list option"
  ge_from_json :: "u8 list \<Rightarrow> rws_grid_meta option"
  ge_sha256 :: "u8 list \<Rightarrow> u8 list"

definition hex_digit :: "nat \<Rightarrow> char" where
  "hex_digit d = char_of (if d < 10 then 48 + d else 87 + d)"

definition sha256_hex :: "grid_env \<Rightarrow> u8 list \<Rightarrow> string" where
  "sha256_hex env bytes = concat (map (\<lambda>b. [hex_digit (unat b div 16), hex_digit (unat b mod 16)]) (ge_sha256 env bytes))"

definition f32s_to_le_bytes :: "f32 list \<Rightarrow> u8 list" where
  "f32s_to_le_bytes values = concat (map u32_to_le values)"

definition grid_header :: "u32 \<Rightarrow> nat \<Rightarrow> nat \<Rightarrow> u8 list" where
  "grid_header meta_len lat_len lon_len =
     GRID_MAGIC @ u32_to_le GRID_VERSION @ u32_to_le meta_len @ u64_to_le (of_nat lat_len) @ u64_to_le (of_nat lon_len)
     @ replicate 32 0"

definition encode_grid_bytes :: "grid_env \<Rightarrow> lat_lon_grid \<Rightarrow> grid_projection option \<Rightarrow> (u8 list \<times> string) rw_result" where
  "encode_grid_bytes env grid projection =
     (let nx = gs_nx (lg_shape grid); ny = gs_ny (lg_shape grid)
      in if nx = 0 \<or> ny = 0 then Inl (Grid ''degenerate grid'') else
         r_bind (ok_or (usize_checked_mul nx ny) (Grid ''overflows the cell count'')) (\<lambda>cells.
         if cells > MAX_GRID_CELLS then Inl (Grid ''limit is'')
         else if length (lg_lat_deg grid) \<noteq> cells \<or> length (lg_lon_deg grid) \<noteq> cells
         then Inl (Grid ''coordinate arrays must hold'')
         else
           let lat_raw = f32s_to_le_bytes (lg_lat_deg grid); lon_raw = f32s_to_le_bytes (lg_lon_deg grid)
           in r_bind (ok_or (ge_zstd env lat_raw) (Io ''zstd'')) (\<lambda>lat_comp.
              r_bind (ok_or (ge_zstd env lon_raw) (Io ''zstd'')) (\<lambda>lon_comp.
              let meta = \<lparr>gm_schema = SCHEMA_GRID, gm_nx = nx, gm_ny = ny, gm_lat_raw_len = of_nat (length lat_raw),
                    gm_lon_raw_len = of_nat (length lon_raw), gm_projection = projection\<rparr>
              in r_bind (ok_or (ge_to_json env meta) (Meta ''JSON'')) (\<lambda>meta_bytes.
                 if length meta_bytes \<ge> 2 ^ 32 then Inl (Format ''grid meta JSON too large'')
                 else
                   let bytes = grid_header (of_nat (length meta_bytes)) (length lat_comp) (length lon_comp)
                         @ meta_bytes @ lat_comp @ lon_comp
                   in Inr (bytes, sha256_hex env bytes))))))"

definition write_grid :: "grid_env \<Rightarrow> os_outcomes \<Rightarrow> nat \<Rightarrow> file_path \<Rightarrow> lat_lon_grid \<Rightarrow> grid_projection option \<Rightarrow> file_system
    \<Rightarrow> string rw_result \<times> file_system" where
  "write_grid env os pid path grid projection fs =
     (case encode_grid_bytes env grid projection of
        Inl e \<Rightarrow> (Inl e, fs)
      | Inr (bytes, hash) \<Rightarrow>
          (case atomic_write_bytes os pid path bytes fs of
             (Inl e, fs) \<Rightarrow> (Inl e, fs)
           | (Inr _, fs) \<Rightarrow> (Inr hash, fs)))"

section \<open>Reading\<close>

record grid_file =
  gf_nx :: nat
  gf_ny :: nat
  gf_lat :: "f32 list"
  gf_lon :: "f32 list"
  gf_projection :: "grid_projection option"
  gf_hash :: string

definition decompress_coords :: "grid_env \<Rightarrow> u8 list \<Rightarrow> nat \<Rightarrow> f32 list rw_result" where
  "decompress_coords env compressed raw_len =
     (let (out, ended) = ge_unzstd env compressed
      in if length out < raw_len then Inl (Format ''array decompress'')
         else if length out > raw_len then Inl (Format ''array decompressed beyond the expected bytes'')
         else if \<not> ended then Inl (Format ''array decompress'')
         else Inr (map u32_of_le (chunks_exact 4 out)))"

definition open_grid :: "grid_env \<Rightarrow> grid_handle option \<Rightarrow> grid_file rw_result" where
  "open_grid env f =
     r_bind (read_grid_bytes f) (\<lambda>(data, layout).
     r_bind (r_slice HEADER_LEN (gl_meta_end layout) data) (\<lambda>meta_bytes.
     r_bind (ok_or (ge_from_json env meta_bytes) (Meta ''grid meta JSON'')) (\<lambda>meta.
     if gm_schema meta \<noteq> SCHEMA_GRID then Inl (Meta ''unexpected schema'')
     else if gm_nx meta = 0 \<or> gm_ny meta = 0 then Inl (Meta ''degenerate grid'') else
     r_bind (ok_or (case usize_checked_mul (gm_nx meta) (gm_ny meta) of None \<Rightarrow> None
         | Some cells \<Rightarrow> if cells \<le> MAX_GRID_CELLS then Some cells else None)
       (Meta ''exceeds the supported ceiling'')) (\<lambda>cells.
     r_bind (ok_or (case u64_checked_mul (of_nat cells) 4 of None \<Rightarrow> None
         | Some len \<Rightarrow> if len \<le> MAX_COORD_RAW_LEN then Some len else None)
       (Meta ''exceeds the supported coordinate array size'')) (\<lambda>raw_len.
     if gm_lat_raw_len meta \<noteq> raw_len \<or> gm_lon_raw_len meta \<noteq> raw_len then Inl (Meta ''coordinate raw lengths'') else
     r_bind (r_slice (gl_meta_end layout) (gl_lat_end layout) data) (\<lambda>lat_comp.
     r_bind (decompress_coords env lat_comp (unat raw_len)) (\<lambda>lat.
     r_bind (r_slice (gl_lat_end layout) (gl_file_end layout) data) (\<lambda>lon_comp.
     r_bind (decompress_coords env lon_comp (unat raw_len)) (\<lambda>lon.
     Inr \<lparr>gf_nx = gm_nx meta, gf_ny = gm_ny meta, gf_lat = lat, gf_lon = lon, gf_projection = gm_projection meta,
       gf_hash = sha256_hex env data\<rparr>)))))))))"

text \<open>
  Whether row 0 is the northernmost: down each column in turn, the first pair of distinct
  finite latitudes decides.
\<close>

fun scan_column :: "grid_file \<Rightarrow> nat \<Rightarrow> nat list \<Rightarrow> f32 option \<Rightarrow> bool option rw_result" where
  "scan_column g x [] first = Inr None"
| "scan_column g x (y # ys) first =
     r_bind (r_nth (gf_lat g) (y * gf_nx g + x)) (\<lambda>lat.
     if \<not> f32_is_finite lat then scan_column g x ys first
     else (case first of
             None \<Rightarrow> scan_column g x ys (Some lat)
           | Some earlier \<Rightarrow> if \<not> f32_eq lat earlier then Inr (Some (f32_lt lat earlier)) else scan_column g x ys first))"

fun scan_columns :: "grid_file \<Rightarrow> nat list \<Rightarrow> bool option rw_result" where
  "scan_columns g [] = Inr None"
| "scan_columns g (x # xs) =
     r_bind (scan_column g x [0..<gf_ny g] None) (\<lambda>r. case r of Some b \<Rightarrow> Inr (Some b) | None \<Rightarrow> scan_columns g xs)"

definition lat_descending :: "grid_file \<Rightarrow> bool option rw_result" where
  "lat_descending g = scan_columns g [0..<gf_nx g]"

end
