(* ===== verification/Rw_Grid_Props.thy ===== *)
theory Rw_Grid_Props
  imports Rw_Grid Rw_Open_Facts
begin

text \<open>
  What the grid file promises: the reader never panics and hands out arrays of the declared
  shape, and it gives back every grid the encoder accepted, bit for bit.
\<close>

section \<open>The layout\<close>

lemma panics_Inl: "panics (Inl e) \<longleftrightarrow> (\<exists>m. e = Panicked m)"
  by (cases e) simp_all

lemma u64_checked_add_eq: "u64_checked_add a b = (if unat a + unat b < 2 ^ 64 then Some (a + b) else None)"
  by (simp add: u64_checked_add_def)

lemma unat_small: "n < 2 ^ 64 \<Longrightarrow> unat (of_nat n :: u64) = n" "n < 2 ^ 32 \<Longrightarrow> unat (of_nat n :: u32) = n"
  by (simp_all add: unat_of_nat take_bit_nat_eq_self)

lemma u64_add_small: "a + b < 2 ^ 64 \<Longrightarrow> u64_checked_add (of_nat a) (of_nat b) = Some (of_nat (a + b))"
  using unat_small(1) [of a] unat_small(1) [of b] by (simp add: u64_checked_add_eq)

lemma coord_ceilings: "unat MAX_GRID_META_LEN = 2 ^ 20" "unat MAX_COORD_RAW_LEN = MAX_GRID_CELLS * 4"
  "unat MAX_COORD_COMP_LEN = MAX_GRID_CELLS * 4 + 2 ^ 20"
  "unat MAX_GRID_FILE_LEN = 64 + 2 ^ 20 + 2 * (MAX_GRID_CELLS * 4 + 2 ^ 20)"
  by (simp_all add: MAX_GRID_META_LEN_def MAX_COORD_RAW_LEN_def MAX_COORD_COMP_LEN_def MAX_GRID_FILE_LEN_def
      MAX_GRID_CELLS_def HEADER_LEN_def)

lemma parse_grid_layout_Inr:
  assumes "parse_grid_layout header len = Inr l"
  shows "HEADER_LEN \<le> gl_meta_end l" "gl_meta_end l \<le> gl_lat_end l" "gl_lat_end l \<le> gl_file_end l" "gl_file_end l = unat len"
  using assms
  by (auto simp: parse_grid_layout_def Let_def HEADER_LEN_def dest!: u64_checked_add_Some split: if_splits option.splits bind_splits)

lemma read_grid_bytes_Inr:
  assumes "read_grid_bytes f = Inr (data, l)"
  obtains h where "f = Some h" "data = gh_bytes h" "parse_grid_layout (take HEADER_LEN data) (gh_len h) = Inr l"
    "length data = gl_file_end l"
proof -
  obtain h where h: "f = Some h" "parse_grid_layout (take HEADER_LEN (gh_bytes h)) (gh_len h) = Inr l"
      "HEADER_LEN \<le> gl_file_end l" "length (gh_bytes h) = gl_file_end l"
      "data = take HEADER_LEN (gh_bytes h) @ subslice HEADER_LEN (gl_file_end l) (gh_bytes h)"
    using assms by (auto simp: read_grid_bytes_def r_bind_eq_Inr ok_or_eq_Inr Let_def split: if_splits)
  then have "data = gh_bytes h" by (simp add: subslice_def)
  then show thesis using that h by simp
qed

lemma read_grid_bytes_total: "\<not> panics (read_grid_bytes f)"
proof (cases f)
  case (Some h)
  have parse: "\<not> panics (parse_grid_layout header len)" for header len
    by (simp add: parse_grid_layout_def Let_def split: option.split)
  show ?thesis
  proof (cases "parse_grid_layout (take HEADER_LEN (gh_bytes h)) (gh_len h)")
    case (Inl e)
    then show ?thesis
      using parse [of "take HEADER_LEN (gh_bytes h)" "gh_len h"]
      by (simp add: read_grid_bytes_def validate_grid_file_len_def Let_def Some panics_Inl)
  next
    case (Inr l)
    then show ?thesis
      using parse_grid_layout_Inr [OF Inr] by (simp add: read_grid_bytes_def validate_grid_file_len_def Let_def Some)
  qed
qed (simp add: read_grid_bytes_def)

section \<open>Coordinates\<close>

lemma length_chunks_n [simp]: "length (chunks_n w n xs) = n"
  by (induction n arbitrary: xs) simp_all

lemma length_coord_chunks [simp]: "length (chunks_exact w xs) = length xs div w"
  by (simp add: chunks_exact_def)

lemma decompress_coords_length: "decompress_coords env c n = Inr vs \<Longrightarrow> length vs = n div 4"
  by (auto simp: decompress_coords_def Let_def split: prod.splits if_splits)

lemma decompress_coords_total [simp]: "\<not> panics (decompress_coords env c n)"
  by (simp add: decompress_coords_def Let_def split: prod.split)

lemma length_f32s [simp]: "length (f32s_to_le_bytes vs) = 4 * length vs"
  by (simp add: f32s_to_le_bytes_def u32c.enc_array_length)

lemma decompress_coords_encoded:
  "ge_unzstd env c = (f32s_to_le_bytes vs, True) \<Longrightarrow> decompress_coords env c (4 * length vs) = Inr vs"
  by (simp add: decompress_coords_def f32s_to_le_bytes_def u32c.enc_array_length u32c.dec_array)

section \<open>Properties\<close>

lemma open_grid_Inr:
  assumes "open_grid env f = Inr g"
  shows "0 < gf_nx g" "0 < gf_ny g" "gf_nx g * gf_ny g \<le> MAX_GRID_CELLS"
    "length (gf_lat g) = gf_nx g * gf_ny g" "length (gf_lon g) = gf_nx g * gf_ny g"
    "\<exists>h. f = Some h \<and> gf_hash g = sha256_hex env (gh_bytes h)"
proof -
  obtain data l where rd: "read_grid_bytes f = Inr (data, l)"
    using assms by (auto simp: open_grid_def r_bind_eq_Inr)
  obtain h where h: "f = Some h" "data = gh_bytes h" by (rule read_grid_bytes_Inr [OF rd])
  have "0 < gf_nx g \<and> 0 < gf_ny g \<and> gf_hash g = sha256_hex env data \<and>
      (\<exists>cells raw. usize_checked_mul (gf_nx g) (gf_ny g) = Some cells \<and> cells \<le> MAX_GRID_CELLS \<and>
        u64_checked_mul (of_nat cells) 4 = Some raw \<and> length (gf_lat g) = unat raw div 4 \<and> length (gf_lon g) = unat raw div 4)"
    using assms
    by (auto simp: open_grid_def rd r_bind_eq_Inr ok_or_eq_Inr split: if_splits option.splits dest!: decompress_coords_length)
  then obtain cells raw where m: "0 < gf_nx g" "0 < gf_ny g" "gf_hash g = sha256_hex env data"
      "usize_checked_mul (gf_nx g) (gf_ny g) = Some cells" "cells \<le> MAX_GRID_CELLS"
      "u64_checked_mul (of_nat cells) 4 = Some raw" "length (gf_lat g) = unat raw div 4" "length (gf_lon g) = unat raw div 4"
    by blast
  have cells: "cells = gf_nx g * gf_ny g" "unat (of_nat cells :: u64) = cells"
    using m(4,5) by (auto simp: usize_checked_mul_def unat_of_nat take_bit_nat_eq_self MAX_GRID_CELLS_def split: if_splits)
  have "unat raw = cells * 4" using u64_checked_mul_Some [OF m(6)] cells(2) by simp
  then show "0 < gf_nx g" "0 < gf_ny g" "gf_nx g * gf_ny g \<le> MAX_GRID_CELLS"
    "length (gf_lat g) = gf_nx g * gf_ny g" "length (gf_lon g) = gf_nx g * gf_ny g"
    "\<exists>h. f = Some h \<and> gf_hash g = sha256_hex env (gh_bytes h)"
    using m cells(1) h by simp_all
qed

lemma open_grid_total: "\<not> panics (open_grid env f)"
proof (cases "read_grid_bytes f")
  case (Inl e)
  then show ?thesis using read_grid_bytes_total [of f] by (simp add: open_grid_def panics_Inl)
next
  case (Inr r)
  obtain data l where r: "r = (data, l)" by (cases r)
  obtain h where "f = Some h" "data = gh_bytes h" and h: "parse_grid_layout (take HEADER_LEN data) (gh_len h) = Inr l"
      "length data = gl_file_end l"
    by (rule read_grid_bytes_Inr [OF Inr [unfolded r]])
  note l = parse_grid_layout_Inr [OF h(1)]
  have "\<not> panics (r_slice HEADER_LEN (gl_meta_end l) data)" "\<not> panics (r_slice (gl_meta_end l) (gl_lat_end l) data)"
    "\<not> panics (r_slice (gl_lat_end l) (gl_file_end l) data)"
    using l(1-3) h(2) by (simp_all add: not_panics_r_slice subslice_ok_def)
  then show ?thesis
    unfolding open_grid_def Inr r r_bind_Inr prod.case
    by (intro not_panics_intros decompress_coords_total) simp_all
qed

text \<open>
  The contracts of the libraries: zstd gives back what it compressed and keeps to its
  documented bound, and the metadata parses back and stays below the reader's limit of one
  MiB (a projection is a few numbers).
\<close>

definition grid_libraries_ok :: "grid_env \<Rightarrow> bool" where
  "grid_libraries_ok env \<longleftrightarrow>
     (\<forall>bs c. ge_zstd env bs = Some c \<longrightarrow> ge_unzstd env c = (bs, True) \<and> length c \<le> length bs + length bs div 256 + 1024)
   \<and> (\<forall>m bs. ge_to_json env m = Some bs \<longrightarrow> ge_from_json env bs = Some m \<and> length bs \<le> 2 ^ 20)"

lemma length_grid_header [simp]: "length (grid_header m a b) = HEADER_LEN"
  by (simp add: grid_header_def GRID_MAGIC_def HEADER_LEN_def)

lemma grid_header_fields:
  "subslice 0 8 (grid_header m a b) = GRID_MAGIC" "subslice 8 12 (grid_header m a b) = u32_to_le GRID_VERSION"
  "subslice 12 16 (grid_header m a b) = u32_to_le m" "subslice 16 24 (grid_header m a b) = u64_to_le (of_nat a)"
  "subslice 24 32 (grid_header m a b) = u64_to_le (of_nat b)"
  by (simp_all add: subslice_def grid_header_def GRID_MAGIC_def)

lemma encoded_sections:
  assumes "length meta \<le> 2 ^ 20" and "length lat \<le> 2 ^ 62" and "length lon \<le> 2 ^ 62"
    and "length lat \<le> unat MAX_COORD_COMP_LEN" and "length lon \<le> unat MAX_COORD_COMP_LEN"
  shows "read_grid_bytes (Some (at_rest (grid_header (of_nat (length meta)) (length lat) (length lon) @ meta @ lat @ lon)))
    = Inr (grid_header (of_nat (length meta)) (length lat) (length lon) @ meta @ lat @ lon,
        \<lparr>gl_meta_end = HEADER_LEN + length meta, gl_lat_end = HEADER_LEN + length meta + length lat,
         gl_file_end = HEADER_LEN + length meta + length lat + length lon\<rparr>)"
proof -
  let ?h = "grid_header (of_nat (length meta)) (length lat) (length lon)"
  let ?n = "HEADER_LEN + length meta + length lat + length lon"
  have m: "unat (of_nat (length meta) :: u32) = length meta" "unat (of_nat (length meta) :: u64) = length meta"
    and ab: "unat (of_nat (length lat) :: u64) = length lat" "unat (of_nat (length lon) :: u64) = length lon"
    and n: "unat (of_nat ?n :: u64) = ?n"
    using assms(1-3) by (intro unat_small; simp add: HEADER_LEN_def)+
  have cast: "(ucast (of_nat (length meta) :: u32) :: u64) = of_nat (length meta)"
    using m by (metis of_nat_unat word_unat_eq_iff)
  have "\<not> (of_nat (length lat) :: u64) > MAX_COORD_COMP_LEN" "\<not> (of_nat (length lon) :: u64) > MAX_COORD_COMP_LEN"
      "\<not> (of_nat (length meta) :: u64) > MAX_GRID_META_LEN"
    using assms(1,4,5) ab m(2) by (simp_all add: word_less_nat_alt coord_ceilings(1))
  moreover have "validate_grid_file_len (of_nat ?n) = Inr ()"
    using assms(1,4,5) n by (simp add: validate_grid_file_len_def word_less_nat_alt coord_ceilings HEADER_LEN_def)
  moreover have "u64_checked_add (of_nat HEADER_LEN) (of_nat (length meta)) = Some (of_nat (HEADER_LEN + length meta))"
    "u64_checked_add (of_nat (HEADER_LEN + length meta)) (of_nat (length lat)) = Some (of_nat (HEADER_LEN + length meta + length lat))"
    "u64_checked_add (of_nat (HEADER_LEN + length meta + length lat)) (of_nat (length lon)) = Some (of_nat ?n)"
    using assms(1-3) by (intro u64_add_small; simp add: HEADER_LEN_def)+
  moreover have "unat (of_nat (HEADER_LEN + length meta) :: u64) = HEADER_LEN + length meta"
    "unat (of_nat (HEADER_LEN + length meta + length lat) :: u64) = HEADER_LEN + length meta + length lat"
    using assms(1,2) by (intro unat_small; simp add: HEADER_LEN_def)+
  ultimately have "parse_grid_layout ?h (of_nat ?n) = Inr \<lparr>gl_meta_end = HEADER_LEN + length meta,
      gl_lat_end = HEADER_LEN + length meta + length lat, gl_file_end = ?n\<rparr>" "validate_grid_file_len (of_nat ?n) = Inr ()"
    unfolding parse_grid_layout_def Let_def grid_header_fields
    using n by (simp_all add: cast GRID_SUPPORTED_VERSIONS_def GRID_VERSION_def del: of_nat_add)
  then show ?thesis
    by (simp add: read_grid_bytes_def at_rest_def Let_def subslice_def add.assoc del: of_nat_add)
qed

lemma opened_sections:
  assumes "length meta \<le> 2 ^ 20" and "length lat \<le> 2 ^ 62" and "length lon \<le> 2 ^ 62"
    and "length lat \<le> unat MAX_COORD_COMP_LEN" and "length lon \<le> unat MAX_COORD_COMP_LEN"
    and "ge_from_json env meta = Some \<lparr>gm_schema = SCHEMA_GRID, gm_nx = nx, gm_ny = ny, gm_lat_raw_len = of_nat (4 * (nx * ny)),
      gm_lon_raw_len = of_nat (4 * (nx * ny)), gm_projection = p\<rparr>"
    and "0 < nx" and "0 < ny" and "nx * ny \<le> MAX_GRID_CELLS"
    and "decompress_coords env lat (4 * (nx * ny)) = Inr lats" and "decompress_coords env lon (4 * (nx * ny)) = Inr lons"
    and bytes: "bytes = grid_header (of_nat (length meta)) (length lat) (length lon) @ meta @ lat @ lon"
  shows "open_grid env (Some (at_rest bytes)) = Inr \<lparr>gf_nx = nx, gf_ny = ny, gf_lat = lats, gf_lon = lons,
    gf_projection = p, gf_hash = sha256_hex env bytes\<rparr>"
proof -
  let ?h = "grid_header (of_nat (length meta)) (length lat) (length lon)"
  have slices: "r_slice HEADER_LEN (HEADER_LEN + length meta) bytes = Inr meta"
      "r_slice (HEADER_LEN + length meta) (HEADER_LEN + length meta + length lat) bytes = Inr lat"
      "r_slice (HEADER_LEN + length meta + length lat) (HEADER_LEN + length meta + length lat + length lon) bytes = Inr lon"
    by (simp_all add: bytes r_slice_def subslice_ok_def subslice_def)
  have cells: "usize_checked_mul nx ny = Some (nx * ny)"
    using grid_cells_usize [OF assms(9)] by (simp add: usize_checked_mul_def)
  have "nx * ny < 2 ^ 64" "4 * (nx * ny) < 2 ^ 64" using assms(9) by (simp_all add: MAX_GRID_CELLS_def)
  then have u: "unat (of_nat (nx * ny) :: u64) = nx * ny" "unat (of_nat (4 * (nx * ny)) :: u64) = 4 * (nx * ny)"
    by (simp_all only: unat_small)
  have raw: "u64_checked_mul (of_nat (nx * ny)) 4 = Some (of_nat (4 * (nx * ny)))"
    using u(1) \<open>4 * (nx * ny) < 2 ^ 64\<close> by (simp add: u64_checked_mul_def mult.commute)
  have le: "(of_nat (4 * (nx * ny)) :: u64) \<le> MAX_COORD_RAW_LEN"
    using u(2) assms(9) by (simp add: word_le_nat_alt coord_ceilings)
  show ?thesis
    unfolding open_grid_def bytes encoded_sections [OF assms(1-5)] r_bind_Inr prod.case
    using slices assms(6-11) cells raw le u(2) by (simp add: bytes del: of_nat_mult)
qed

lemma compressed_ceiling:
  assumes "length c \<le> n + n div 256 + 1024" and "n \<le> 4 * 2 ^ 59"
  shows "length c \<le> 2 ^ 62" "length c \<le> unat MAX_COORD_COMP_LEN"
  using assms unfolding coord_ceilings MAX_GRID_CELLS_def by simp_all

lemma encode_grid_Inr:
  assumes "encode_grid_bytes env grid projection = Inr (bytes, hash)"
  obtains meta lat lon where
    "0 < gs_nx (lg_shape grid)" "0 < gs_ny (lg_shape grid)" "gs_nx (lg_shape grid) * gs_ny (lg_shape grid) \<le> MAX_GRID_CELLS"
    "length (lg_lat_deg grid) = gs_nx (lg_shape grid) * gs_ny (lg_shape grid)"
    "length (lg_lon_deg grid) = gs_nx (lg_shape grid) * gs_ny (lg_shape grid)"
    "ge_zstd env (f32s_to_le_bytes (lg_lat_deg grid)) = Some lat" "ge_zstd env (f32s_to_le_bytes (lg_lon_deg grid)) = Some lon"
    "ge_to_json env \<lparr>gm_schema = SCHEMA_GRID, gm_nx = gs_nx (lg_shape grid), gm_ny = gs_ny (lg_shape grid),
       gm_lat_raw_len = of_nat (4 * (gs_nx (lg_shape grid) * gs_ny (lg_shape grid))),
       gm_lon_raw_len = of_nat (4 * (gs_nx (lg_shape grid) * gs_ny (lg_shape grid))), gm_projection = projection\<rparr> = Some meta"
    "bytes = grid_header (of_nat (length meta)) (length lat) (length lon) @ meta @ lat @ lon" "hash = sha256_hex env bytes"
  using assms
  by (auto simp: encode_grid_bytes_def Let_def r_bind_eq_Inr ok_or_eq_Inr usize_checked_mul_def split: if_splits)

lemma encoded_grid_opens:
  assumes "encode_grid_bytes env grid projection = Inr (bytes, hash)" and "grid_libraries_ok env"
    and "length (lg_lat_deg grid) \<le> 2 ^ 59"
  shows "open_grid env (Some (at_rest bytes)) = Inr \<lparr>gf_nx = gs_nx (lg_shape grid), gf_ny = gs_ny (lg_shape grid),
    gf_lat = lg_lat_deg grid, gf_lon = lg_lon_deg grid, gf_projection = projection, gf_hash = hash\<rparr>"
proof -
  let ?n = "gs_nx (lg_shape grid) * gs_ny (lg_shape grid)"
  obtain meta lat lon where e:
    "0 < gs_nx (lg_shape grid)" "0 < gs_ny (lg_shape grid)" "?n \<le> MAX_GRID_CELLS"
    "length (lg_lat_deg grid) = ?n" "length (lg_lon_deg grid) = ?n"
    "ge_zstd env (f32s_to_le_bytes (lg_lat_deg grid)) = Some lat" "ge_zstd env (f32s_to_le_bytes (lg_lon_deg grid)) = Some lon"
    "ge_to_json env \<lparr>gm_schema = SCHEMA_GRID, gm_nx = gs_nx (lg_shape grid), gm_ny = gs_ny (lg_shape grid),
       gm_lat_raw_len = of_nat (4 * ?n), gm_lon_raw_len = of_nat (4 * ?n), gm_projection = projection\<rparr> = Some meta"
    "bytes = grid_header (of_nat (length meta)) (length lat) (length lon) @ meta @ lat @ lon" "hash = sha256_hex env bytes"
    by (rule encode_grid_Inr [OF assms(1)])
  have z: "ge_unzstd env lat = (f32s_to_le_bytes (lg_lat_deg grid), True)" "length lat \<le> 4 * ?n + 4 * ?n div 256 + 1024"
      "ge_unzstd env lon = (f32s_to_le_bytes (lg_lon_deg grid), True)" "length lon \<le> 4 * ?n + 4 * ?n div 256 + 1024"
    using assms(2) e(4-7) unfolding grid_libraries_ok_def by (metis length_f32s)+
  have j: "length meta \<le> 2 ^ 20" "ge_from_json env meta = Some \<lparr>gm_schema = SCHEMA_GRID, gm_nx = gs_nx (lg_shape grid),
      gm_ny = gs_ny (lg_shape grid), gm_lat_raw_len = of_nat (4 * ?n), gm_lon_raw_len = of_nat (4 * ?n), gm_projection = projection\<rparr>"
    using assms(2) e(8) by (simp_all add: grid_libraries_ok_def)
  have n: "4 * ?n \<le> 4 * 2 ^ 59" using assms(3) e(4) by simp
  have d: "decompress_coords env lat (4 * ?n) = Inr (lg_lat_deg grid)" "decompress_coords env lon (4 * ?n) = Inr (lg_lon_deg grid)"
    using decompress_coords_encoded [OF z(1)] decompress_coords_encoded [OF z(3)] e(4,5) by simp_all
  show ?thesis
    unfolding e(10)
    by (rule opened_sections [OF j(1) compressed_ceiling(1) [OF z(2) n] compressed_ceiling(1) [OF z(4) n]
        compressed_ceiling(2) [OF z(2) n] compressed_ceiling(2) [OF z(4) n] j(2) e(1-3) d e(9)])
qed

lemma scan_column_total:
  assumes "length (gf_lat g) = gf_nx g * gf_ny g" and "x < gf_nx g" and "\<forall>y \<in> set ys. y < gf_ny g"
  shows "\<not> panics (scan_column g x ys first)"
  using assms(3)
proof (induction ys arbitrary: first)
  case (Cons y ys)
  have "y * gf_nx g + x < (y + 1) * gf_nx g" using assms(2) by simp
  also have "\<dots> \<le> gf_ny g * gf_nx g" using Cons.prems by (intro mult_le_mono1) simp
  finally have "r_nth (gf_lat g) (y * gf_nx g + x) = Inr (gf_lat g ! (y * gf_nx g + x))"
    using assms(1) by (simp add: r_nth_def mult.commute)
  then show ?case using Cons by (simp split: option.split)
qed simp

lemma scan_columns_total:
  assumes "length (gf_lat g) = gf_nx g * gf_ny g" and "\<forall>x \<in> set xs. x < gf_nx g"
  shows "\<not> panics (scan_columns g xs)"
  using assms(2)
proof (induction xs)
  case (Cons x xs)
  have "\<not> panics (scan_column g x [0..<gf_ny g] None)" using assms(1) Cons.prems by (intro scan_column_total) auto
  then show ?case using Cons by (simp, intro not_panics_intros) simp_all
qed simp

section \<open>The properties\<close>

text \<open>C14. Whatever bytes are found at \<open>grid.rwg\<close>, and even if the file changes under the reader,
  opening it never panics: all slices are taken inside the validated layout. A grid it returns
  is well-formed: both extents are positive, their product is within the ceiling, both
  coordinate arrays hold one value per cell, and the hash is that of the bytes read. On such a
  grid the scan for the row order never indexes outside the array.\<close>

theorem open_grid_well_formed:
  "\<not> panics (open_grid env f) \<and>
   (\<forall>g. open_grid env f = Inr g \<longrightarrow>
      0 < gf_nx g \<and> 0 < gf_ny g \<and> gf_nx g * gf_ny g \<le> MAX_GRID_CELLS \<and>
      length (gf_lat g) = gf_nx g * gf_ny g \<and> length (gf_lon g) = gf_nx g * gf_ny g \<and>
      (\<exists>h. f = Some h \<and> gf_hash g = sha256_hex env (gh_bytes h)) \<and> \<not> panics (lat_descending g))"
proof (intro conjI allI impI)
  fix g assume "open_grid env f = Inr g"
  note g = open_grid_Inr [OF this]
  show "\<not> panics (lat_descending g)"
    unfolding lat_descending_def by (rule scan_columns_total [OF g(4)]) simp
qed (simp_all only: open_grid_total not_False_eq_True open_grid_Inr)

text \<open>A grid of two cells, stored without compression; one latitude is a NaN.\<close>

definition sample_grid :: lat_lon_grid where
  "sample_grid = \<lparr>lg_shape = \<lparr>gs_nx = 2, gs_ny = 1\<rparr>, lg_lat_deg = [0x42200000, 0x7FC00001], lg_lon_deg = [0xC2C80000, 0x80000000]\<rparr>"

definition sample_grid_meta :: rws_grid_meta where
  "sample_grid_meta = \<lparr>gm_schema = SCHEMA_GRID, gm_nx = 2, gm_ny = 1, gm_lat_raw_len = 8, gm_lon_raw_len = 8,
     gm_projection = Some Geographic\<rparr>"

definition sample_grid_env :: grid_env where
  "sample_grid_env = \<lparr>ge_zstd = Some, ge_unzstd = (\<lambda>c. (c, True)),
     ge_to_json = (\<lambda>m. if m = sample_grid_meta then Some [] else None), ge_from_json = (\<lambda>_. Some sample_grid_meta),
     ge_sha256 = (\<lambda>_. [0xAB])\<rparr>"

definition sample_grid_file :: grid_file where
  "sample_grid_file = \<lparr>gf_nx = 2, gf_ny = 1, gf_lat = [0x42200000, 0x7FC00001], gf_lon = [0xC2C80000, 0x80000000],
     gf_projection = Some Geographic, gf_hash = ''ab''\<rparr>"

lemma sample_grid_encodes: "\<exists>bytes. encode_grid_bytes sample_grid_env sample_grid (Some Geographic) = Inr (bytes, ''ab'')"
  by (simp add: encode_grid_bytes_def sample_grid_env_def sample_grid_def sample_grid_meta_def Let_def usize_checked_mul_def
      usize_bound_def MAX_GRID_CELLS_def sha256_hex_def hex_digit_def char_of_def bit_0)

lemma sample_grid_libraries: "grid_libraries_ok sample_grid_env"
  by (simp add: grid_libraries_ok_def sample_grid_env_def)

theorem open_grid_well_formed_witness:
  "\<exists>bytes. open_grid sample_grid_env (Some (at_rest bytes)) = Inr sample_grid_file \<and> \<not> panics (lat_descending sample_grid_file)"
proof -
  obtain bytes where "encode_grid_bytes sample_grid_env sample_grid (Some Geographic) = Inr (bytes, ''ab'')"
    using sample_grid_encodes by blast
  from encoded_grid_opens [OF this sample_grid_libraries]
  have "open_grid sample_grid_env (Some (at_rest bytes)) = Inr sample_grid_file"
    by (simp add: sample_grid_def sample_grid_file_def)
  then show ?thesis using open_grid_well_formed by blast
qed



end
