(* ===== verification/Rw_Ingest.thy ===== *)
theory Rw_Ingest
  imports Rw_Writer Rw_Run Rw_Lock Rw_Grid Rw_Read2D
begin

text \<open>
  The ingest seam (\<^verbatim>\<open>rw-store/src/ingest.rs\<close>): one forecast hour goes into a run directory
  under the lock of the directory. \<open>begin_with_time\<close> takes the lock and settles the grid,
  the additions encode fields, and \<open>finish_ingest\<close> writes the grid file, the hour file and
  the manifest, in this order, each atomically.

  The world is the lock table with its file system. Files of the run directory are read
  while the lock is held and nobody changes them meanwhile. What the environment decides is
  in the ingest environment: the libraries, the outcomes of the system calls, and how long
  each encoding takes, in nanoseconds.
\<close>

section \<open>Inputs\<close>

definition LOCK_TIMEOUT :: nat where "LOCK_TIMEOUT = 60 * 1000000000"

definition wx_message :: "rustwx_error \<Rightarrow> string" where
  "wx_message e = (case e of InvalidGridShape _ _ \<Rightarrow> ''invalid grid shape'' | GridTooLarge _ _ _ \<Rightarrow> ''grid shape'' | _ \<Rightarrow> '''')"

definition validated_grid_cells :: "nat \<Rightarrow> nat \<Rightarrow> string + nat" where
  "validated_grid_cells nx ny =
     (case checked_len \<lparr>gs_nx = nx, gs_ny = ny\<rparr> of Inl e \<Rightarrow> Inl (wx_message e) | Inr cells \<Rightarrow> Inr cells)"

definition map_err :: "('e \<Rightarrow> 'f) \<Rightarrow> 'e + 'a \<Rightarrow> 'f + 'a" where
  "map_err f r = (case r of Inl e \<Rightarrow> Inl (f e) | Inr x \<Rightarrow> Inr x)"

definition validated_volume_elements :: "nat \<Rightarrow> nat \<Rightarrow> nat rw_result" where
  "validated_volume_elements levels cells =
     r_bind (ok_or (usize_checked_mul levels cells) (Format ''overflows the addressable element count'')) (\<lambda>elements.
     if elements > MAX_VOLUME_ELEMENTS then Inl (Format ''exceeds the supported ceiling'') else Inr elements)"

record pressure_volume_input =
  pv_name :: string
  pv_units :: string
  pv_selector_template :: json
  pv_levels :: "(u16 \<times> f32 list) list"

record derived_field_input =
  df_name :: string
  df_units :: string
  df_values :: "f32 list"

definition derived_selector :: "string \<Rightarrow> json" where
  "derived_selector slug = JObject [(''derived'', JString slug)]"

definition derived_selector_slug :: "json \<Rightarrow> string option" where
  "derived_selector_slug selector = (case selector of
     JObject obj \<Rightarrow> (case map_of obj ''derived'' of Some (JString s) \<Rightarrow> Some s | _ \<Rightarrow> None)
   | _ \<Rightarrow> None)"

record written_hour =
  wh_path :: file_path
  wh_encode_ms :: u64
  wh_bytes :: u64
  wh_vars :: "string list"

section \<open>The writer\<close>

record ingest_env =
  ie_write :: write_env
  ie_grid :: grid_env
  ie_from_json :: manifest_parser
  ie_to_json :: manifest_printer
  ie_pid :: nat
  ie_create_dir :: bool
  ie_wait :: wait_env
  ie_took :: "nat \<Rightarrow> nat"
  ie_grid_os :: os_outcomes
  ie_hour_os :: os_outcomes
  ie_stat :: bool
  ie_manifest_os :: os_outcomes

record hour_ingest_writer =
  hi_run_dir :: string
  hi_grid_hash :: string
  hi_pending_grid :: "u8 list option"
  hi_nx :: nat
  hi_ny :: nat
  hi_cells :: nat
  hi_forecast_hour :: u16
  hi_exact_time :: "rws_exact_time option"
  hi_model :: string
  hi_run :: string
  hi_writer_build :: string
  hi_writer :: hour_writer
  hi_vars_normal :: "string list"
  hi_vars_deferred :: "string list"
  hi_source_provenance :: "rws_source_provenance list"
  hi_encode_elapsed :: nat
  hi_lock :: run_lock

text \<open>\<open>Path::join\<close> on Unix.\<close>

definition path_join :: "string \<Rightarrow> string \<Rightarrow> string" where
  "path_join a b =
     (if b \<noteq> [] \<and> hd b = CHR ''/'' then b
      else if a = [] \<or> last a = CHR ''/'' then a @ b else a @ ''/'' @ b)"

definition grid_handle_at :: "file_system \<Rightarrow> file_path \<Rightarrow> grid_handle option" where
  "grid_handle_at fs path = map_option at_rest (fs_content fs path)"

text \<open>The grid of the run: the file that exists, bit for bit, or the image to write.\<close>

definition settle_grid :: "grid_env \<Rightarrow> file_system \<Rightarrow> file_path \<Rightarrow> lat_lon_grid \<Rightarrow> grid_projection option
    \<Rightarrow> (string \<times> u8 list option) rw_result" where
  "settle_grid env fs path grid projection =
     (if fs_exists fs path then
        r_bind (open_grid env (grid_handle_at fs path)) (\<lambda>existing.
        if (gf_nx existing, gf_ny existing) \<noteq> (gs_nx (lg_shape grid), gs_ny (lg_shape grid))
        then Inl (Meta ''existing grid.rwg holds'')
        else if \<not> (list_all (\<lambda>(a, b). a = b) (zip (gf_lat existing) (lg_lat_deg grid))
             \<and> list_all (\<lambda>(a, b). a = b) (zip (gf_lon existing) (lg_lon_deg grid)))
        then Inl (Meta ''existing grid.rwg and the input grid have the same dims but different coordinates'')
        else Inr (gf_hash existing, None))
      else r_bind (encode_grid_bytes env grid projection) (\<lambda>(bytes, hash). Inr (hash, Some bytes)))"

definition begin_with_time :: "ingest_env \<Rightarrow> string \<Rightarrow> string \<Rightarrow> string \<Rightarrow> u16 \<Rightarrow> rws_exact_time option \<Rightarrow> lat_lon_grid
    \<Rightarrow> grid_projection option \<Rightarrow> string \<Rightarrow> lock_world \<Rightarrow> hour_ingest_writer rw_result \<times> lock_world" where
  "begin_with_time env store_root model run storage_slot time grid projection writer_build w =
     (if (case time of None \<Rightarrow> False | Some t \<Rightarrow> origin_unix t = None)
      then (Inl (Meta ''exact hour cannot represent valid_unix - lead_seconds''), w)
      else
        let nx = gs_nx (lg_shape grid); ny = gs_ny (lg_shape grid)
        in case map_err Grid (validated_grid_cells nx ny) of
             Inl e \<Rightarrow> (Inl e, w)
           | Inr cells \<Rightarrow>
               if length (lg_lat_deg grid) \<noteq> cells \<or> length (lg_lon_deg grid) \<noteq> cells
               then (Inl (Grid ''hour grid coordinate arrays must hold''), w)
               else
                 let run_dir = path_join (path_join store_root model) run
                 in if \<not> ie_create_dir env then (Inl (Io ''create dir''), w)
                    else
                      let r = acquire (ie_wait env) run_dir LOCK_TIMEOUT w; w = wr_world r
                      in case wr_lock r of
                           Inl e \<Rightarrow> (Inl e, w)
                         | Inr lock \<Rightarrow>
                             (case settle_grid (ie_grid env) (lw_fs w) (run_dir, ''grid.rwg'') grid projection of
                                Inl e \<Rightarrow> (Inl e, drop_lock lock w)
                              | Inr (grid_hash, pending_grid) \<Rightarrow>
                                  let writer = with_spill_dir run_dir (case time of
                                        Some t \<Rightarrow> new_exact model run storage_slot t nx ny grid_hash writer_build
                                      | None \<Rightarrow> new_writer model run storage_slot nx ny grid_hash writer_build)
                                  in (Inr \<lparr>hi_run_dir = run_dir, hi_grid_hash = grid_hash, hi_pending_grid = pending_grid,
                                       hi_nx = nx, hi_ny = ny, hi_cells = cells, hi_forecast_hour = storage_slot,
                                       hi_exact_time = time, hi_model = model, hi_run = run, hi_writer_build = writer_build,
                                       hi_writer = writer, hi_vars_normal = [], hi_vars_deferred = [],
                                       hi_source_provenance = [], hi_encode_elapsed = 0, hi_lock = lock\<rparr>, w)))"

definition begin_hour :: "ingest_env \<Rightarrow> string \<Rightarrow> string \<Rightarrow> string \<Rightarrow> u16 \<Rightarrow> lat_lon_grid \<Rightarrow> grid_projection option \<Rightarrow> string
    \<Rightarrow> lock_world \<Rightarrow> hour_ingest_writer rw_result \<times> lock_world" where
  "begin_hour env store_root model run forecast_hour grid projection writer_build w =
     begin_with_time env store_root model run forecast_hour None grid projection writer_build w"

definition begin_exact :: "ingest_env \<Rightarrow> string \<Rightarrow> string \<Rightarrow> string \<Rightarrow> u16 \<Rightarrow> rws_exact_time \<Rightarrow> lat_lon_grid
    \<Rightarrow> grid_projection option \<Rightarrow> string \<Rightarrow> lock_world \<Rightarrow> hour_ingest_writer rw_result \<times> lock_world" where
  "begin_exact env store_root model run storage_slot time grid projection writer_build w =
     begin_with_time env store_root model run storage_slot (Some time) grid projection writer_build w"

definition set_source_provenance :: "rws_source_provenance list \<Rightarrow> hour_ingest_writer \<Rightarrow> unit rw_result \<times> hour_ingest_writer" where
  "set_source_provenance provenance h =
     (case normalize_source_provenance provenance of
        Inl e \<Rightarrow> (Inl e, h) | Inr ns \<Rightarrow> (Inr (), h\<lparr>hi_source_provenance := ns\<rparr>))"

text \<open>How long the addition of the next variable takes.\<close>

definition took :: "ingest_env \<Rightarrow> hour_ingest_writer \<Rightarrow> nat" where
  "took env h = ie_took env (length (hi_vars_normal h) + length (hi_vars_deferred h))"

definition add_field_2d :: "ingest_env \<Rightarrow> string \<Rightarrow> string \<Rightarrow> json \<Rightarrow> f32 list \<Rightarrow> hour_ingest_writer
    \<Rightarrow> unit rw_result \<times> hour_ingest_writer" where
  "add_field_2d env name units selector values h =
     (case add_surface2d (ie_write env) name units selector values (hi_writer h) of
        (Inl e, w) \<Rightarrow> (Inl e, h\<lparr>hi_writer := w\<rparr>)
      | (Inr _, w) \<Rightarrow> (Inr (), h\<lparr>hi_writer := w, hi_encode_elapsed := hi_encode_elapsed h + took env h,
          hi_vars_normal := hi_vars_normal h @ [name]\<rparr>))"

definition add_derived_2d :: "ingest_env \<Rightarrow> string \<Rightarrow> string \<Rightarrow> f32 list \<Rightarrow> hour_ingest_writer
    \<Rightarrow> unit rw_result \<times> hour_ingest_writer" where
  "add_derived_2d env name units values h =
     (if length values \<noteq> hi_cells h then (Inl (Format ''derived 2D field''), h)
      else case add_surface2d (ie_write env) name units (derived_selector name) values (hi_writer h) of
        (Inl e, w) \<Rightarrow> (Inl e, h\<lparr>hi_writer := w\<rparr>)
      | (Inr _, w) \<Rightarrow> (Inr (), h\<lparr>hi_writer := w, hi_encode_elapsed := hi_encode_elapsed h + took env h,
          hi_vars_normal := hi_vars_normal h @ [name]\<rparr>))"

text \<open>The stable sort by descending level, and the first pair of equal neighbours.\<close>

definition sort_levels :: "(u16 \<times> f32 list) list \<Rightarrow> (u16 \<times> f32 list) list" where
  "sort_levels levels = linorder_class.sort_key (\<lambda>(level, _). - int (unat level)) levels"

fun duplicate_level :: "(u16 \<times> f32 list) list \<Rightarrow> u16 option" where
  "duplicate_level (a # b # rest) = (if fst a = fst b then Some (fst a) else duplicate_level (b # rest))"
| "duplicate_level _ = None"

definition add_volume :: "ingest_env \<Rightarrow> string \<Rightarrow> string \<Rightarrow> json \<Rightarrow> (u16 \<times> f32 list) list \<Rightarrow> hour_ingest_writer
    \<Rightarrow> unit rw_result \<times> hour_ingest_writer" where
  "add_volume env name units selector_template levels h =
     (case validated_volume_elements (length levels) (hi_cells h) of
        Inl e \<Rightarrow> (Inl e, h)
      | Inr _ \<Rightarrow>
          let sorted = sort_levels levels
          in if duplicate_level sorted \<noteq> None then (Inl (Format ''volume: duplicate level''), h)
             else if \<exists>(level, plane) \<in> set sorted. length plane \<noteq> hi_cells h then (Inl (Format ''volume level: plane holds''), h)
             else
               (case add_pressure3d_deferred (ie_write env) name units selector_template (map fst sorted) (map snd sorted) (hi_writer h) of
                  (Inl e, w) \<Rightarrow> (Inl e, h\<lparr>hi_writer := w\<rparr>)
                | (Inr _, w) \<Rightarrow> (Inr (), h\<lparr>hi_writer := w, hi_encode_elapsed := hi_encode_elapsed h + took env h,
                    hi_vars_deferred := hi_vars_deferred h @ [name]\<rparr>)))"

section \<open>Finishing an hour\<close>

definition load_manifest_for :: "ingest_env \<Rightarrow> file_system \<Rightarrow> hour_ingest_writer \<Rightarrow> rws_run_manifest rw_result" where
  "load_manifest_for env fs h =
     (let path = (hi_run_dir h, ''run.json'');
          writer_info = \<lparr>wi_name = ''rw-store'', wi_version = we_version (ie_write env), wi_build = hi_writer_build h\<rparr>
      in if hi_exact_time h \<noteq> None
         then load_or_new_exact (ie_from_json env) fs path (hi_model h) (hi_run h) (hi_grid_hash h) (hi_nx h) (hi_ny h) writer_info
         else load_or_new (ie_from_json env) fs path (hi_model h) (hi_run h) (hi_grid_hash h) (hi_nx h) (hi_ny h) writer_info)"

text \<open>An exact-time slot keeps its physical time.\<close>

definition refuse_remap :: "hour_ingest_writer \<Rightarrow> rws_run_manifest \<Rightarrow> unit rw_result" where
  "refuse_remap h manifest =
     (case (hi_exact_time h, fmlookup (rm_hours manifest) (hi_forecast_hour h)) of
        (Some requested_time, Some existing) \<Rightarrow>
          r_bind (ok_or (entry_exact_time existing) (Meta ''existing exact-time storage slot has no complete physical time'')) (\<lambda>persisted_time.
          if persisted_time \<noteq> requested_time then Inl (Meta ''refusing to remap exact-time storage slot'') else Inr ())
      | _ \<Rightarrow> Inr ())"

definition hour_entry_for :: "hour_ingest_writer \<Rightarrow> u64 \<Rightarrow> u64 \<Rightarrow> rws_hour_entry" where
  "hour_entry_for h written_unix encode_ms =
     \<lparr>he_file = hour_file_name (hi_forecast_hour h), he_lead_seconds = map_option et_lead_seconds (hi_exact_time h),
      he_valid_unix = map_option et_valid_unix (hi_exact_time h), he_written_unix = written_unix, he_encode_ms = encode_ms,
      he_variables = hi_vars_normal h @ hi_vars_deferred h, he_source_provenance = hi_source_provenance h\<rparr>"

definition write_pending_grid :: "ingest_env \<Rightarrow> hour_ingest_writer \<Rightarrow> file_system \<Rightarrow> unit rw_result \<times> file_system" where
  "write_pending_grid env h fs =
     (case hi_pending_grid h of
        None \<Rightarrow> (Inr (), fs)
      | Some bytes \<Rightarrow> atomic_write_bytes (ie_grid_os env) (ie_pid env) (hi_run_dir h, ''grid.rwg'') bytes fs)"

text \<open>The hour file and then the manifest.\<close>

definition publish_hour :: "ingest_env \<Rightarrow> u64 \<Rightarrow> hour_ingest_writer \<Rightarrow> rws_run_manifest \<Rightarrow> file_system
    \<Rightarrow> written_hour rw_result \<times> file_system" where
  "publish_hour env written_unix h manifest fs =
     (let hour_path = (hi_run_dir h, hour_file_name (hi_forecast_hour h))
      in case finish (ie_write env) (ie_hour_os env) (ie_pid env) hour_path (hi_writer h) fs of
           (Inl e, fs) \<Rightarrow> (Inl e, fs)
         | (Inr hour_meta, fs) \<Rightarrow>
             let encode_ms = of_nat ((hi_encode_elapsed h + took env h) div 1000000)
             in if \<not> ie_stat env then (Inl (Io ''metadata''), fs)
                else
                  let bytes = of_nat (case fs_content fs hour_path of Some c \<Rightarrow> length c | None \<Rightarrow> 0);
                      manifest = register_hour (hi_forecast_hour h) (hour_entry_for h written_unix encode_ms) manifest
                  in case manifest_hour_meta manifest (hi_forecast_hour h) hour_meta of
                       Inl e \<Rightarrow> (Inl e, fs)
                     | Inr _ \<Rightarrow>
                         (case save_manifest (ie_to_json env) (ie_manifest_os env) (ie_pid env) manifest (hi_run_dir h, ''run.json'') fs of
                            (Inl e, fs) \<Rightarrow> (Inl e, fs)
                          | (Inr _, fs) \<Rightarrow>
                              (Inr \<lparr>wh_path = hour_path, wh_encode_ms = encode_ms, wh_bytes = bytes,
                                 wh_vars = hi_vars_normal h @ hi_vars_deferred h\<rparr>, fs)))"

text \<open>
  The body of \<open>finish\<close> on the file system; the writer and with it the lock are dropped
  afterwards in every case.
\<close>

definition finish_files :: "ingest_env \<Rightarrow> u64 \<Rightarrow> hour_ingest_writer \<Rightarrow> file_system \<Rightarrow> written_hour rw_result \<times> file_system" where
  "finish_files env written_unix h fs =
     (case r_bind (load_manifest_for env fs h) (\<lambda>manifest.
           r_bind (refuse_remap h manifest) (\<lambda>_.
           let manifest = register_hour (hi_forecast_hour h) (hour_entry_for h written_unix 0) manifest
           in r_bind (validate_contents manifest) (\<lambda>_. Inr manifest))) of
        Inl e \<Rightarrow> (Inl e, fs)
      | Inr manifest \<Rightarrow>
          (case write_pending_grid env h fs of
             (Inl e, fs) \<Rightarrow> (Inl e, fs)
           | (Inr _, fs) \<Rightarrow> publish_hour env written_unix h manifest fs))"

definition finish_ingest :: "ingest_env \<Rightarrow> u64 \<Rightarrow> hour_ingest_writer \<Rightarrow> lock_world \<Rightarrow> written_hour rw_result \<times> lock_world" where
  "finish_ingest env written_unix h w =
     (case finish_files env written_unix h (lw_fs w) of (r, fs) \<Rightarrow> (r, drop_lock (hi_lock h) (w\<lparr>lw_fs := fs\<rparr>)))"

section \<open>One-shot writes\<close>

text \<open>The checks of all inputs before anything touches the disk.\<close>

definition check_field :: "lat_lon_grid \<Rightarrow> nat \<Rightarrow> 's selected_field2d \<Rightarrow> unit rw_result" where
  "check_field reference cells field =
     (let g = sf_grid field
      in if (gs_nx (lg_shape g), gs_ny (lg_shape g)) \<noteq> (gs_nx (lg_shape reference), gs_ny (lg_shape reference))
         then Inl (Format ''2D field: does not match the hour grid'')
         else if \<not> (length (lg_lat_deg g) = cells \<and> length (lg_lon_deg g) = cells
              \<and> list_all (\<lambda>(a, b). a = b) (zip (lg_lat_deg g) (lg_lat_deg reference))
              \<and> list_all (\<lambda>(a, b). a = b) (zip (lg_lon_deg g) (lg_lon_deg reference)))
         then Inl (Format ''2D field: different coordinates'') else Inr ())"

text \<open>The additions in order; the first error ends the session. \<open>to_value\<close> serialises a selector.\<close>

fun add_fields :: "ingest_env \<Rightarrow> ('s \<Rightarrow> json option) \<Rightarrow> (string \<times> 's selected_field2d) list \<Rightarrow> hour_ingest_writer
    \<Rightarrow> unit rw_result \<times> hour_ingest_writer" where
  "add_fields env to_value [] h = (Inr (), h)"
| "add_fields env to_value ((name, field) # rest) h =
     (case to_value (sf_selector field) of
        None \<Rightarrow> (Inl (Meta ''2D field: selector JSON''), h)
      | Some selector \<Rightarrow>
          (case add_field_2d env name (sf_units field) selector (sf_values field) h of
             (Inl e, h) \<Rightarrow> (Inl e, h) | (Inr _, h) \<Rightarrow> add_fields env to_value rest h))"

fun add_deriveds :: "ingest_env \<Rightarrow> derived_field_input list \<Rightarrow> hour_ingest_writer \<Rightarrow> unit rw_result \<times> hour_ingest_writer" where
  "add_deriveds env [] h = (Inr (), h)"
| "add_deriveds env (d # rest) h =
     (case add_derived_2d env (df_name d) (df_units d) (df_values d) h of
        (Inl e, h) \<Rightarrow> (Inl e, h) | (Inr _, h) \<Rightarrow> add_deriveds env rest h)"

fun add_volumes :: "ingest_env \<Rightarrow> pressure_volume_input list \<Rightarrow> hour_ingest_writer \<Rightarrow> unit rw_result \<times> hour_ingest_writer" where
  "add_volumes env [] h = (Inr (), h)"
| "add_volumes env (v # rest) h =
     (case add_volume env (pv_name v) (pv_units v) (pv_selector_template v) (pv_levels v) h of
        (Inl e, h) \<Rightarrow> (Inl e, h) | (Inr _, h) \<Rightarrow> add_volumes env rest h)"

definition write_hour_from_grid_with_derived_time :: "ingest_env \<Rightarrow> ('s \<Rightarrow> json option) \<Rightarrow> string \<Rightarrow> string \<Rightarrow> string \<Rightarrow> u16
    \<Rightarrow> rws_exact_time option \<Rightarrow> lat_lon_grid \<Rightarrow> grid_projection option \<Rightarrow> (string \<times> 's selected_field2d) list
    \<Rightarrow> derived_field_input list \<Rightarrow> pressure_volume_input list \<Rightarrow> string \<Rightarrow> u64 \<Rightarrow> lock_world \<Rightarrow> written_hour rw_result \<times> lock_world" where
  "write_hour_from_grid_with_derived_time env to_value store_root model run storage_slot time reference projection fields_2d derived_2d
     volumes writer_build written_unix w =
     (if fields_2d = [] \<and> derived_2d = [] \<and> volumes = [] then (Inl (Format ''write_hour requires at least one''), w)
      else case r_bind (map_err Format (validated_grid_cells (gs_nx (lg_shape reference)) (gs_ny (lg_shape reference)))) (\<lambda>cells.
             if length (lg_lat_deg reference) \<noteq> cells \<or> length (lg_lon_deg reference) \<noteq> cells
             then Inl (Format ''hour grid coordinate arrays must hold'') else
             r_bind (r_map (\<lambda>(_, field). check_field reference cells field) fields_2d) (\<lambda>_.
             if list_ex (\<lambda>d. length (df_values d) \<noteq> cells) derived_2d then Inl (Format ''derived 2D field'') else Inr ())) of
        Inl e \<Rightarrow> (Inl e, w)
      | Inr _ \<Rightarrow>
          (case begin_with_time env store_root model run storage_slot time reference projection writer_build w of
             (Inl e, w) \<Rightarrow> (Inl e, w)
           | (Inr h, w) \<Rightarrow>
               (case add_fields env to_value fields_2d h of
                  (Inl e, h) \<Rightarrow> (Inl e, drop_lock (hi_lock h) w)
                | (Inr _, h) \<Rightarrow>
                    (case add_deriveds env derived_2d h of
                       (Inl e, h) \<Rightarrow> (Inl e, drop_lock (hi_lock h) w)
                     | (Inr _, h) \<Rightarrow>
                         (case add_volumes env volumes h of
                            (Inl e, h) \<Rightarrow> (Inl e, drop_lock (hi_lock h) w)
                          | (Inr _, h) \<Rightarrow> finish_ingest env written_unix h w)))))"

text \<open>Without a grid of its own the hour is on the grid of its first field.\<close>

definition write_hour_from_fields_with_derived_time :: "ingest_env \<Rightarrow> ('s \<Rightarrow> json option) \<Rightarrow> string \<Rightarrow> string \<Rightarrow> string \<Rightarrow> u16
    \<Rightarrow> rws_exact_time option \<Rightarrow> (string \<times> 's selected_field2d) list \<Rightarrow> derived_field_input list \<Rightarrow> pressure_volume_input list
    \<Rightarrow> string \<Rightarrow> u64 \<Rightarrow> lock_world \<Rightarrow> written_hour rw_result \<times> lock_world" where
  "write_hour_from_fields_with_derived_time env to_value store_root model run storage_slot time fields_2d derived_2d volumes
     writer_build written_unix w =
     (case fields_2d of
        [] \<Rightarrow> (Inl (Format ''write_hour_from_fields requires at least one extracted 2D field''), w)
      | (_, first) # _ \<Rightarrow> write_hour_from_grid_with_derived_time env to_value store_root model run storage_slot time (sf_grid first)
          (sf_projection first) fields_2d derived_2d volumes writer_build written_unix w)"

definition write_hour_from_fields :: "ingest_env \<Rightarrow> ('s \<Rightarrow> json option) \<Rightarrow> string \<Rightarrow> string \<Rightarrow> string \<Rightarrow> u16
    \<Rightarrow> (string \<times> 's selected_field2d) list \<Rightarrow> pressure_volume_input list \<Rightarrow> string \<Rightarrow> u64 \<Rightarrow> lock_world
    \<Rightarrow> written_hour rw_result \<times> lock_world" where
  "write_hour_from_fields env to_value store_root model run forecast_hour fields_2d volumes writer_build written_unix w =
     write_hour_from_fields_with_derived_time env to_value store_root model run forecast_hour None fields_2d [] volumes writer_build
       written_unix w"

definition write_hour_from_fields_exact :: "ingest_env \<Rightarrow> ('s \<Rightarrow> json option) \<Rightarrow> string \<Rightarrow> string \<Rightarrow> string \<Rightarrow> u16 \<Rightarrow> rws_exact_time
    \<Rightarrow> (string \<times> 's selected_field2d) list \<Rightarrow> pressure_volume_input list \<Rightarrow> string \<Rightarrow> u64 \<Rightarrow> lock_world
    \<Rightarrow> written_hour rw_result \<times> lock_world" where
  "write_hour_from_fields_exact env to_value store_root model run storage_slot time fields_2d volumes writer_build written_unix w =
     write_hour_from_fields_with_derived_time env to_value store_root model run storage_slot (Some time) fields_2d [] volumes
       writer_build written_unix w"

definition write_hour_from_fields_with_derived :: "ingest_env \<Rightarrow> ('s \<Rightarrow> json option) \<Rightarrow> string \<Rightarrow> string \<Rightarrow> string \<Rightarrow> u16
    \<Rightarrow> (string \<times> 's selected_field2d) list \<Rightarrow> derived_field_input list \<Rightarrow> pressure_volume_input list \<Rightarrow> string \<Rightarrow> u64 \<Rightarrow> lock_world
    \<Rightarrow> written_hour rw_result \<times> lock_world" where
  "write_hour_from_fields_with_derived env to_value store_root model run forecast_hour fields_2d derived_2d volumes writer_build written_unix w =
     write_hour_from_fields_with_derived_time env to_value store_root model run forecast_hour None fields_2d derived_2d volumes
       writer_build written_unix w"

definition write_hour_from_fields_with_derived_exact :: "ingest_env \<Rightarrow> ('s \<Rightarrow> json option) \<Rightarrow> string \<Rightarrow> string \<Rightarrow> string \<Rightarrow> u16 \<Rightarrow> rws_exact_time
    \<Rightarrow> (string \<times> 's selected_field2d) list \<Rightarrow> derived_field_input list \<Rightarrow> pressure_volume_input list \<Rightarrow> string \<Rightarrow> u64 \<Rightarrow> lock_world
    \<Rightarrow> written_hour rw_result \<times> lock_world" where
  "write_hour_from_fields_with_derived_exact env to_value store_root model run storage_slot time fields_2d derived_2d volumes writer_build
     written_unix w =
     write_hour_from_fields_with_derived_time env to_value store_root model run storage_slot (Some time) fields_2d derived_2d volumes
       writer_build written_unix w"

definition write_hour_from_grid_with_derived :: "ingest_env \<Rightarrow> ('s \<Rightarrow> json option) \<Rightarrow> string \<Rightarrow> string \<Rightarrow> string \<Rightarrow> u16 \<Rightarrow> lat_lon_grid
    \<Rightarrow> grid_projection option \<Rightarrow> (string \<times> 's selected_field2d) list \<Rightarrow> derived_field_input list \<Rightarrow> pressure_volume_input list
    \<Rightarrow> string \<Rightarrow> u64 \<Rightarrow> lock_world \<Rightarrow> written_hour rw_result \<times> lock_world" where
  "write_hour_from_grid_with_derived env to_value store_root model run forecast_hour reference projection fields_2d derived_2d volumes
     writer_build written_unix w =
     write_hour_from_grid_with_derived_time env to_value store_root model run forecast_hour None reference projection fields_2d derived_2d
       volumes writer_build written_unix w"

definition write_hour_from_grid_with_derived_exact :: "ingest_env \<Rightarrow> ('s \<Rightarrow> json option) \<Rightarrow> string \<Rightarrow> string \<Rightarrow> string \<Rightarrow> u16 \<Rightarrow> rws_exact_time
    \<Rightarrow> lat_lon_grid \<Rightarrow> grid_projection option \<Rightarrow> (string \<times> 's selected_field2d) list \<Rightarrow> derived_field_input list
    \<Rightarrow> pressure_volume_input list \<Rightarrow> string \<Rightarrow> u64 \<Rightarrow> lock_world \<Rightarrow> written_hour rw_result \<times> lock_world" where
  "write_hour_from_grid_with_derived_exact env to_value store_root model run storage_slot time reference projection fields_2d derived_2d
     volumes writer_build written_unix w =
     write_hour_from_grid_with_derived_time env to_value store_root model run storage_slot (Some time) reference projection fields_2d
       derived_2d volumes writer_build written_unix w"

section \<open>Reading back\<close>

record stored_field2d =
  st_units :: string
  st_selector :: json
  st_grid :: lat_lon_grid
  st_values :: "f32 list"
  st_projection :: "grid_projection option"

definition read_grid_2d :: "read_env \<Rightarrow> hour_reader \<Rightarrow> grid_file \<Rightarrow> string \<Rightarrow> stored_field2d rw_result" where
  "read_grid_2d env reader grid name =
     r_bind (ok_or (find_variable reader name) (UnknownVariable name)) (\<lambda>var.
     if vm_kind var \<noteq> ''surface2d'' then Inl (Format ''variable has kind'')
     else if hm_grid_hash (hr_meta reader) \<noteq> gf_hash grid then Inl (Grid ''hour file was written against grid'') else
     r_bind (read_full_2d env reader name) (\<lambda>values.
     r_bind (map_err (\<lambda>_. Grid ''stored grid shape is invalid'') (new_shape (gf_nx grid) (gf_ny grid))) (\<lambda>shape.
     Inr \<lparr>st_units = vm_units var, st_selector = vm_selector var,
       st_grid = \<lparr>lg_shape = shape, lg_lat_deg = gf_lat grid, lg_lon_deg = gf_lon grid\<rparr>,
       st_values = values, st_projection = gf_projection grid\<rparr>)))"

definition read_field_2d :: "read_env \<Rightarrow> (json \<Rightarrow> 's option) \<Rightarrow> hour_reader \<Rightarrow> grid_file \<Rightarrow> string \<Rightarrow> 's selected_field2d rw_result" where
  "read_field_2d env from_value reader grid name =
     r_bind (read_grid_2d env reader grid name) (\<lambda>stored.
     r_bind (ok_or (from_value (st_selector stored)) (Meta ''variable: selector JSON'')) (\<lambda>selector.
     Inr \<lparr>sf_selector = selector, sf_units = st_units stored, sf_grid = st_grid stored, sf_values = st_values stored,
       sf_projection = st_projection stored\<rparr>))"

end
