(* ===== verification/Rw_Ingest_Facts.thy ===== *)
theory Rw_Ingest_Facts
  imports Rw_Ingest Rw_Round_Trip Rw_Run_Props Rw_Grid_Props
begin

text \<open>
  What an ingest session does to the visible files of its run directory. A run directory is
  consistent when its manifest, if there is one, loads, its grid file opens with the identity
  the manifest records, and every registered hour is in the file named after its slot, which
  the reader opens with metadata that agree with the manifest.
\<close>

section \<open>Hour files\<close>

definition opens_with :: "json_parser \<Rightarrow> u8 list \<Rightarrow> rws_hour_meta \<Rightarrow> bool" where
  "opens_with from_json data meta \<longleftrightarrow>
     (\<exists>rd. open_with_tile_cache_bytes from_json (Some (stored_file 0 data)) DEFAULT_TILE_CACHE_BYTES = Inr rd \<and> hr_meta rd = meta)"

text \<open>The contracts of the libraries a session uses, and the limit of the reader on the metadata.\<close>

definition session_libraries :: "json_parser \<Rightarrow> read_env \<Rightarrow> write_env \<Rightarrow> bool" where
  "session_libraries from_json renv env \<longleftrightarrow> zstd_bound env \<and> zstd_lossless env renv \<and> json_lossless env from_json \<and>
     (\<forall>meta mb. we_to_json env meta = Some mb \<longrightarrow> length mb \<le> 2 ^ 24)"

definition hour_of_writer :: "hour_writer \<Rightarrow> rws_hour_meta \<Rightarrow> bool" where
  "hour_of_writer w meta \<longleftrightarrow> hm_schema meta = (if hw_exact_time w \<noteq> None then SCHEMA_HOUR_V2 else SCHEMA_HOUR) \<and>
     hm_model meta = hw_model w \<and> hm_run meta = hw_run w \<and> hm_forecast_hour meta = hw_forecast_hour w \<and>
     hm_lead_seconds meta = map_option et_lead_seconds (hw_exact_time w) \<and>
     hm_valid_unix meta = map_option et_valid_unix (hw_exact_time w) \<and>
     hm_nx meta = hw_nx w \<and> hm_ny meta = hw_ny w \<and> hm_grid_hash meta = hw_grid_hash w"

lemma finish_visible:
  assumes add: "add_all env ops w0 = (Inr (), w)" and w0: "fresh w0" and libs: "session_libraries from_json renv env"
    and ceil: "within_ceilings (hw_nx w0) (hw_ny w0) ops" and fin: "finish env os pid path w fs = (r, fs')" and path: "\<not> hidden path"
    and len: "\<forall>data. visible fs' path = Some data \<longrightarrow> length data \<le> 2 ^ 36"
  shows "visible fs' = visible fs \<and> (\<forall>m. r \<noteq> Inr m) \<or>
    (\<exists>data meta. visible fs' = (visible fs)(path \<mapsto> data) \<and> opens_with from_json data meta \<and> hour_of_writer w0 meta \<and>
       (\<forall>m. r = Inr m \<longrightarrow> m = meta))"
proof (cases "finish_layout env w")
  case (Inl e)
  then show ?thesis using fin by (auto simp: finish_def)
next
  case (Inr l)
  obtain meta mb header chunks where l: "finish_layout env w = Inr (meta, mb, header, chunks)" using Inr by (cases l) auto
  have z: "zstd_bound env" "zstd_lossless env renv" "json_lossless env from_json"
    and mbs: "\<forall>meta mb. we_to_json env meta = Some mb \<longrightarrow> length mb \<le> 2 ^ 24"
    using libs by (simp_all add: session_libraries_def)
  note g = ceilings_small [OF ceil]
  obtain bytes own where e: "emit_file env (hw_spill w) mb header chunks = (bytes, own)" by fastforce
  obtain r' where at: "atomic_write_with os pid path (bytes, own) fs = (r', fs')" and r: "r = r_bind r' (\<lambda>_. Inr meta)"
    using fin by (auto simp: finish_def l e split: sum.splits prod.splits)
  consider "visible fs' = visible fs" "r' \<noteq> Inr ()" | "visible fs' = (visible fs)(path \<mapsto> bytes)" "own = Inr ()"
    using atomic_write_visible(1) [OF at path] by blast
  then show ?thesis
  proof cases
    case 1
    then show ?thesis by (auto simp: r r_bind_eq_Inr)
  next
    case 2
    obtain es where es: "map fst es = ops" "writer_inv env w0 es w" by (rule add_all_inv [OF w0 add z(1) g])
    have spec: "file_spec env w0 es = Inr (meta, bytes)"
      using finish_layout_spec [OF es(2) z(1) g(1)] l e 2(2) by auto
    then obtain mb' where mb': "we_to_json env meta = Some mb'" "bytes = hour_file mb' (file_records mb' es) (file_payload es)"
      and fs: "0 < hw_nx w0" "0 < hw_ny w0" "\<forall>t. hw_exact_time w0 = Some t \<longrightarrow> origin_unix t \<noteq> None" "length es \<le> 65536"
        "meta = file_meta env w0 es"
      by (auto simp: file_spec_def r_bind_eq_Inr ok_or_eq_Inr split: if_splits)
    have "length bytes \<le> 2 ^ 36" using len 2(1) by simp
    then have "stored_hour env renv w0 es mb'"
      using es(2) fs(1-4) z(1,2) ceil mbs mb' unfolding stored_hour_def es(1) by (simp add: writer_inv_def)
    moreover have "from_json mb' = Some (file_meta env w0 es)" using z(3) mb'(1) fs(5) by (simp add: json_lossless_def)
    ultimately obtain rd where "open_with_tile_cache_bytes from_json (Some (stored_file 0 bytes)) DEFAULT_TILE_CACHE_BYTES = Inr rd"
        "reads_stored env w0 es mb' rd"
      unfolding mb'(2) by (rule stored_opens)
    then have "opens_with from_json bytes meta" using fs(5) by (auto simp: opens_with_def reads_stored_def)
    moreover have "hour_of_writer w0 meta" by (simp add: fs(5) file_meta_def hour_meta_of_def hour_of_writer_def)
    moreover have "\<forall>m. r = Inr m \<longrightarrow> m = meta" by (simp add: r r_bind_eq_Inr)
    ultimately show ?thesis using 2(1) by blast
  qed
qed

section \<open>Agreement of an hour with the manifest\<close>

lemma manifest_hour_meta_same:
  assumes "rm_schema m' = rm_schema m" "rm_model m' = rm_model m" "rm_run m' = rm_run m" "rm_grid_hash m' = rm_grid_hash m"
    "rm_nx m' = rm_nx m" "rm_ny m' = rm_ny m" "fmlookup (rm_hours m') s = fmlookup (rm_hours m) s"
  shows "manifest_hour_meta m' s meta = manifest_hour_meta m s meta"
  unfolding manifest_hour_meta_def is_exact_time_axis_def assms ..

lemma register_hour_simps [simp]:
  "rm_schema (register_hour s e m) = rm_schema m" "rm_model (register_hour s e m) = rm_model m" "rm_run (register_hour s e m) = rm_run m"
  "rm_grid_hash (register_hour s e m) = rm_grid_hash m" "rm_nx (register_hour s e m) = rm_nx m" "rm_ny (register_hour s e m) = rm_ny m"
  "rm_hours (register_hour s e m) = fmupd s e (rm_hours m)"
  by (simp_all add: register_hour_def)

lemma manifest_hour_meta_lookup: "manifest_hour_meta m s meta = Inr e \<Longrightarrow> fmlookup (rm_hours m) s = Some e"
  by (auto simp: manifest_hour_meta_def r_bind_eq_Inr ok_or_eq_Inr split: if_splits)

lemma schema_distinct [simp]: "SCHEMA_RUN \<noteq> SCHEMA_RUN_V2" "SCHEMA_RUN_V2 \<noteq> SCHEMA_RUN" "SCHEMA_HOUR \<noteq> SCHEMA_HOUR_V2" "SCHEMA_HOUR_V2 \<noteq> SCHEMA_HOUR"
  by (simp_all add: SCHEMA_RUN_def SCHEMA_RUN_V2_def SCHEMA_HOUR_def SCHEMA_HOUR_V2_def)

lemma hour_agrees:
  assumes hour: "hour_of_writer w meta" and entry: "fmlookup (rm_hours m) (hw_forecast_hour w) = Some e"
    and ids: "rm_schema m = (if hw_exact_time w \<noteq> None then SCHEMA_RUN_V2 else SCHEMA_RUN)" "rm_model m = hw_model w" "rm_run m = hw_run w"
      "rm_grid_hash m = hw_grid_hash w" "rm_nx m = hw_nx w" "rm_ny m = hw_ny w"
    and time: "he_lead_seconds e = map_option et_lead_seconds (hw_exact_time w)" "he_valid_unix e = map_option et_valid_unix (hw_exact_time w)"
      "\<forall>t. hw_exact_time w = Some t \<longrightarrow> origin_unix t \<noteq> None"
  shows "manifest_hour_meta m (hw_forecast_hour w) meta = Inr e"
proof (cases "hw_exact_time w")
  case None
  then show ?thesis
    using hour entry ids time
    by (simp add: hour_of_writer_def manifest_hour_meta_def is_exact_time_axis_def validate_time_schema_def timing_pair_def)
next
  case (Some t)
  obtain w' where "origin_unix t = Some w'" using time(3) Some by auto
  then have "origin_unix \<lparr>et_lead_seconds = et_lead_seconds t, et_valid_unix = et_valid_unix t\<rparr> = Some w'"
    by (simp add: origin_unix_def)
  then show ?thesis
    using hour entry ids time Some
    by (simp add: hour_of_writer_def manifest_hour_meta_def is_exact_time_axis_def validate_time_schema_def timing_pair_def)
qed

section \<open>Consistent run directories\<close>

definition quiet_file :: "u8 list \<Rightarrow> manifest_file" where
  "quiet_file c = \<lparr>mf_initial = Some (File c), mf_opened = Some (True, length c), mf_bytes = c\<rparr>"

lemma manifest_file_at_content: "fs_content fs p = Some c \<Longrightarrow> manifest_file_at fs p = quiet_file c"
  by (auto simp: fs_content_def manifest_file_at_def quiet_file_def split: option.splits file_node.splits)

record store_libraries =
  sl_grid :: grid_env
  sl_from_json :: manifest_parser
  sl_to_json :: manifest_printer
  sl_hour_json :: json_parser
  sl_read :: read_env

definition libraries_ok :: "store_libraries \<Rightarrow> bool" where
  "libraries_ok L \<longleftrightarrow> grid_libraries_ok (sl_grid L) \<and> (\<forall>m bs. sl_to_json L m = Some bs \<longrightarrow> sl_from_json L (bs @ [0x0A]) = Some m)"

definition uses_libraries :: "store_libraries \<Rightarrow> ingest_env \<Rightarrow> bool" where
  "uses_libraries L env \<longleftrightarrow> ie_grid env = sl_grid L \<and> ie_from_json env = sl_from_json L \<and> ie_to_json env = sl_to_json L \<and>
     session_libraries (sl_hour_json L) (sl_read L) (ie_write env)"

definition grid_is :: "store_libraries \<Rightarrow> u8 list \<Rightarrow> string \<Rightarrow> nat \<Rightarrow> nat \<Rightarrow> bool" where
  "grid_is L bytes hash nx ny \<longleftrightarrow>
     (\<exists>g. open_grid (sl_grid L) (Some (at_rest bytes)) = Inr g \<and> gf_hash g = hash \<and> gf_nx g = nx \<and> gf_ny g = ny)"

definition hour_stored :: "store_libraries \<Rightarrow> (file_path \<Rightarrow> u8 list option) \<Rightarrow> string \<Rightarrow> rws_run_manifest \<Rightarrow> u16 \<Rightarrow> rws_hour_entry \<Rightarrow> bool" where
  "hour_stored L V dir m s e \<longleftrightarrow> he_file e = hour_file_name s \<and>
     (\<exists>data meta. V (dir, hour_file_name s) = Some data \<and> opens_with (sl_hour_json L) data meta \<and> manifest_hour_meta m s meta = Inr e)"

definition manifest_consistent :: "store_libraries \<Rightarrow> (file_path \<Rightarrow> u8 list option) \<Rightarrow> string \<Rightarrow> rws_run_manifest \<Rightarrow> bool" where
  "manifest_consistent L V dir m \<longleftrightarrow>
     (\<exists>gb. V (dir, ''grid.rwg'') = Some gb \<and> grid_is L gb (rm_grid_hash m) (rm_nx m) (rm_ny m)) \<and>
     (\<forall>s e. fmlookup (rm_hours m) s = Some e \<longrightarrow> hour_stored L V dir m s e)"

definition run_consistent :: "store_libraries \<Rightarrow> (file_path \<Rightarrow> u8 list option) \<Rightarrow> string \<Rightarrow> bool" where
  "run_consistent L V dir \<longleftrightarrow> (\<forall>c. V (dir, ''run.json'') = Some c \<longrightarrow>
     (\<exists>m. load_manifest (sl_from_json L) (quiet_file c) = Inr m \<and> manifest_consistent L V dir m))"

lemma hour_file_names [simp]:
  "hour_file_name s = hour_file_name t \<longleftrightarrow> s = t" "hour_file_name s \<noteq> ''run.json''" "hour_file_name s \<noteq> ''grid.rwg''"
  "''run.json'' \<noteq> hour_file_name s" "''grid.rwg'' \<noteq> hour_file_name s" "\<not> hidden (dir, hour_file_name s)"
  by (auto simp: hour_file_name_def hidden_def word_unat_eq_iff)

lemma store_names [simp]: "\<not> hidden (dir, ''run.json'')" "\<not> hidden (dir, ''grid.rwg'')"
  by (simp_all add: hidden_def)

text \<open>What \<open>begin\<close> settles and the additions keep, as long as nobody else changes the grid file.\<close>

definition session_settled :: "store_libraries \<Rightarrow> (file_path \<Rightarrow> u8 list option) \<Rightarrow> ingest_env \<Rightarrow> add_op list \<Rightarrow> hour_ingest_writer \<Rightarrow> bool" where
  "session_settled L V env ops h \<longleftrightarrow>
     (case hi_pending_grid h of
        None \<Rightarrow> \<exists>gb. V (hi_run_dir h, ''grid.rwg'') = Some gb \<and> grid_is L gb (hi_grid_hash h) (hi_nx h) (hi_ny h)
      | Some bytes \<Rightarrow> V (hi_run_dir h, ''grid.rwg'') = None \<and> grid_is L bytes (hi_grid_hash h) (hi_nx h) (hi_ny h)) \<and>
     (\<exists>w0. fresh w0 \<and> add_all (ie_write env) ops w0 = (Inr (), hi_writer h) \<and>
        hw_model w0 = hi_model h \<and> hw_run w0 = hi_run h \<and> hw_forecast_hour w0 = hi_forecast_hour h \<and> hw_exact_time w0 = hi_exact_time h \<and>
        hw_nx w0 = hi_nx h \<and> hw_ny w0 = hi_ny h \<and> hw_grid_hash w0 = hi_grid_hash h) \<and>
     (\<forall>t. hi_exact_time h = Some t \<longrightarrow> origin_unix t \<noteq> None) \<and> rl_path (hi_lock h) = (hi_run_dir h, LOCK_FILE_NAME)"

section \<open>The stages of \<open>finish\<close>\<close>

text \<open>The manifest before and after the prospective registration.\<close>

definition expected_schema :: "hour_ingest_writer \<Rightarrow> string" where
  "expected_schema h = (if hi_exact_time h \<noteq> None then SCHEMA_RUN_V2 else SCHEMA_RUN)"

lemma load_manifest_for_Inr:
  assumes "load_manifest_for env fs h = Inr m"
  shows "wf_manifest m" "rm_schema m = expected_schema h" "rm_model m = hi_model h" "rm_run m = hi_run h"
    "rm_grid_hash m = hi_grid_hash h" "rm_nx m = hi_nx h" "rm_ny m = hi_ny h"
    "visible fs (hi_run_dir h, ''run.json'') = None \<Longrightarrow> rm_hours m = fmempty"
    "visible fs (hi_run_dir h, ''run.json'') = Some c \<Longrightarrow> load_manifest (ie_from_json env) (quiet_file c) = Inr m"
proof -
  let ?p = "(hi_run_dir h, ''run.json'')"
  obtain wi where l: "load_or_new_schema (ie_from_json env) fs ?p (hi_model h) (hi_run h) (hi_grid_hash h) (hi_nx h) (hi_ny h) wi (expected_schema h) = Inr m"
    using assms by (auto simp: load_manifest_for_def load_or_new_def load_or_new_exact_def expected_schema_def Let_def split: if_splits)
  note f = load_or_new_Inr [OF l]
  show "wf_manifest m" "rm_schema m = expected_schema h" "rm_model m = hi_model h" "rm_run m = hi_run h"
    "rm_grid_hash m = hi_grid_hash h" "rm_nx m = hi_nx h" "rm_ny m = hi_ny h"
    using f by simp_all
  show "rm_hours m = fmempty" if "visible fs ?p = None"
  proof (cases "fs_exists fs ?p")
    case True
    then have "fmlookup (fs_nodes fs) ?p = Some Directory"
      using that by (auto simp: visible_def fs_content_def fs_exists_def split: option.splits file_node.splits)
    then have "load_for_run (ie_from_json env) (manifest_file_at fs ?p) (hi_model h) (hi_run h) \<noteq> Inr m"
      by (simp add: load_for_run_def load_manifest_def load_bounded_def manifest_file_at_def r_bind_eq_Inr)
    then show ?thesis using f(9) [OF True] by blast
  qed (rule f(8))
  show "load_manifest (ie_from_json env) (quiet_file c) = Inr m" if "visible fs ?p = Some c"
  proof -
    have c: "fs_content fs ?p = Some c" using that by (simp add: visible_def)
    then have "fs_exists fs ?p" by (auto simp: fs_content_def fs_exists_def split: option.splits)
    from f(9) [OF this] show ?thesis
      unfolding manifest_file_at_content [OF c] by (auto simp: load_for_run_def r_bind_eq_Inr)
  qed
qed

lemma manifest_consistent_cong:
  assumes "\<And>q. snd q \<noteq> ''run.json'' \<Longrightarrow> V' q = V q"
  shows "manifest_consistent L V' dir m \<longleftrightarrow> manifest_consistent L V dir m"
  using assms by (simp add: manifest_consistent_def hour_stored_def)

lemma grid_stage:
  assumes con: "run_consistent L (visible fs) (hi_run_dir h)" and set: "session_settled L (visible fs) env ops h"
    and wr: "write_pending_grid env h fs = (r, fs')"
  shows "run_consistent L (visible fs') (hi_run_dir h)"
    and "r = Inr () \<Longrightarrow> \<exists>gb. visible fs' (hi_run_dir h, ''grid.rwg'') = Some gb \<and> grid_is L gb (hi_grid_hash h) (hi_nx h) (hi_ny h)"
    and "q \<noteq> (hi_run_dir h, ''grid.rwg'') \<Longrightarrow> visible fs' q = visible fs q"
proof -
  let ?g = "(hi_run_dir h, ''grid.rwg'')"
  have "run_consistent L (visible fs') (hi_run_dir h) \<and>
    (r = Inr () \<longrightarrow> (\<exists>gb. visible fs' ?g = Some gb \<and> grid_is L gb (hi_grid_hash h) (hi_nx h) (hi_ny h))) \<and> (q \<noteq> ?g \<longrightarrow> visible fs' q = visible fs q)"
  proof (cases "hi_pending_grid h")
    case None
    then show ?thesis using con set wr by (simp add: write_pending_grid_def session_settled_def)
  next
    case (Some bytes)
    have free: "visible fs ?g = None" and image: "grid_is L bytes (hi_grid_hash h) (hi_nx h) (hi_ny h)"
      using set by (simp_all add: session_settled_def Some)
    have "visible fs (hi_run_dir h, ''run.json'') = None"
      using con free by (cases "visible fs (hi_run_dir h, ''run.json'')") (auto simp: run_consistent_def manifest_consistent_def)
    moreover have "visible fs' = visible fs \<and> r \<noteq> Inr () \<or> visible fs' = (visible fs)(?g \<mapsto> bytes)"
      using wr atomic_write_visible(1) [of "ie_grid_os env" "ie_pid env" ?g bytes "Inr ()" fs r fs']
      by (simp add: write_pending_grid_def Some atomic_write_bytes_def)
    ultimately show ?thesis using image by (auto simp: run_consistent_def)
  qed
  then show "run_consistent L (visible fs') (hi_run_dir h)"
    "r = Inr () \<Longrightarrow> \<exists>gb. visible fs' ?g = Some gb \<and> grid_is L gb (hi_grid_hash h) (hi_nx h) (hi_ny h)"
    "q \<noteq> ?g \<Longrightarrow> visible fs' q = visible fs q"
    by blast+
qed

text \<open>Replacing the hour file of a slot by one that agrees with the manifest.\<close>

lemma hour_stage:
  assumes con: "run_consistent L V dir" and opens: "opens_with (sl_hour_json L) data meta"
    and agree: "\<And>c m e. V (dir, ''run.json'') = Some c \<Longrightarrow> load_manifest (sl_from_json L) (quiet_file c) = Inr m \<Longrightarrow>
      fmlookup (rm_hours m) s = Some e \<Longrightarrow> manifest_hour_meta m s meta = Inr e"
  shows "run_consistent L (V((dir, hour_file_name s) \<mapsto> data)) dir"
  unfolding run_consistent_def
proof (intro allI impI)
  let ?V = "V((dir, hour_file_name s) \<mapsto> data)"
  fix c assume "?V (dir, ''run.json'') = Some c"
  then have c: "V (dir, ''run.json'') = Some c" by simp
  obtain m where m: "load_manifest (sl_from_json L) (quiet_file c) = Inr m" "manifest_consistent L V dir m"
    using con c by (auto simp: run_consistent_def)
  have "hour_stored L ?V dir m t e" if e: "fmlookup (rm_hours m) t = Some e" for t e
  proof (cases "t = s")
    case True
    then show ?thesis
      using agree [OF c m(1)] e opens m(2) by (auto simp: hour_stored_def manifest_consistent_def)
  next
    case False
    then show ?thesis using m(2) e by (simp add: hour_stored_def manifest_consistent_def)
  qed
  then show "\<exists>m. load_manifest (sl_from_json L) (quiet_file c) = Inr m \<and> manifest_consistent L ?V dir m"
    using m by (auto simp: manifest_consistent_def)
qed

lemma saved_loads:
  assumes "libraries_ok L" and "sl_to_json L m = Some bs" and "length bs < MAX_RUN_MANIFEST_BYTES" and "wf_manifest m"
  shows "load_manifest (sl_from_json L) (quiet_file (bs @ [0x0A])) = Inr m"
  using assms by (simp add: load_manifest_def load_bounded_def quiet_file_def Let_def libraries_ok_def validate_contents_wf [symmetric])

lemma manifest_stage:
  assumes con: "run_consistent L V dir" and libs: "libraries_ok L" and json: "sl_to_json L m = Some bs"
    and len: "length bs < MAX_RUN_MANIFEST_BYTES" and wf: "wf_manifest m" and m: "manifest_consistent L V dir m"
  shows "run_consistent L (V((dir, ''run.json'') \<mapsto> bs @ [0x0A])) dir"
proof -
  have "manifest_consistent L (V((dir, ''run.json'') \<mapsto> bs @ [0x0A])) dir m \<longleftrightarrow> manifest_consistent L V dir m"
    by (rule manifest_consistent_cong) auto
  then show ?thesis using saved_loads [OF libs json len wf] m by (simp add: run_consistent_def)
qed

section \<open>A whole \<open>finish\<close>\<close>

lemma entry_time_kept:
  assumes "refuse_remap h m = Inr ()" and "wf_manifest m" and "rm_schema m = expected_schema h"
    and "fmlookup (rm_hours m) (hi_forecast_hour h) = Some e"
  shows "he_lead_seconds e = map_option et_lead_seconds (hi_exact_time h)" "he_valid_unix e = map_option et_valid_unix (hi_exact_time h)"
proof -
  have "he_lead_seconds e = map_option et_lead_seconds (hi_exact_time h) \<and> he_valid_unix e = map_option et_valid_unix (hi_exact_time h)"
  proof (cases "hi_exact_time h")
    case None
    then have "wf_hour False (hi_forecast_hour h) e" using assms(2-4) by (simp add: wf_manifest_def wf_hours_def expected_schema_def)
    then show ?thesis by (simp add: wf_hour_def None)
  next
    case (Some t)
    then have "entry_exact_time e = Some t" using assms(1,4) by (auto simp: refuse_remap_def r_bind_eq_Inr ok_or_eq_Inr split: if_splits)
    then show ?thesis by (auto simp: Some entry_exact_time_def split: option.splits)
  qed
  then show "he_lead_seconds e = map_option et_lead_seconds (hi_exact_time h)" "he_valid_unix e = map_option et_valid_unix (hi_exact_time h)"
    by simp_all
qed

definition hours_before :: "store_libraries \<Rightarrow> (file_path \<Rightarrow> u8 list option) \<Rightarrow> string \<Rightarrow> (u16, rws_hour_entry) fmap" where
  "hours_before L V dir = (case V (dir, ''run.json'') of None \<Rightarrow> fmempty
     | Some c \<Rightarrow> (case load_manifest (sl_from_json L) (quiet_file c) of Inr m \<Rightarrow> rm_hours m | Inl _ \<Rightarrow> fmempty))"

lemma finish_prospect:
  assumes "uses_libraries L env" and "load_manifest_for env fs h = Inr m"
  shows "rm_hours m = hours_before L (visible fs) (hi_run_dir h)"
    "visible fs (hi_run_dir h, ''run.json'') = Some c \<Longrightarrow> load_manifest (sl_from_json L) (quiet_file c) = Inr m"
proof -
  have F: "ie_from_json env = sl_from_json L" using assms(1) by (simp add: uses_libraries_def)
  show "visible fs (hi_run_dir h, ''run.json'') = Some c \<Longrightarrow> load_manifest (sl_from_json L) (quiet_file c) = Inr m" for c
    using load_manifest_for_Inr(9) [OF assms(2)] by (simp add: F)
  then show "rm_hours m = hours_before L (visible fs) (hi_run_dir h)"
    using load_manifest_for_Inr(8) [OF assms(2)]
    by (cases "visible fs (hi_run_dir h, ''run.json'')") (simp_all add: hours_before_def)
qed

end
