(* ===== verification/Rw_Ingest_Finish.thy ===== *)
theory Rw_Ingest_Finish
  imports Rw_Ingest_Facts
begin

text \<open>
  \<open>finish\<close> keeps the run directory consistent, wherever it stops, and when it succeeds the
  manifest has exactly the new hour in addition.
\<close>

lemma registered_consistent:
  assumes con: "run_consistent L V dir" and old: "\<And>c. V (dir, ''run.json'') = Some c \<Longrightarrow> load_manifest (sl_from_json L) (quiet_file c) = Inr m0"
    and none: "V (dir, ''run.json'') = None \<Longrightarrow> rm_hours m0 = fmempty"
    and grid: "V (dir, ''grid.rwg'') = Some gb" "grid_is L gb (rm_grid_hash m0) (rm_nx m0) (rm_ny m0)"
    and name: "he_file e = hour_file_name k" and opens: "opens_with (sl_hour_json L) data meta"
    and agree: "manifest_hour_meta (register_hour k e (register_hour k e' m0)) k meta = Inr e"
  shows "manifest_consistent L (V((dir, hour_file_name k) \<mapsto> data)) dir (register_hour k e (register_hour k e' m0))"
proof -
  let ?m = "register_hour k e (register_hour k e' m0)" and ?V = "V((dir, hour_file_name k) \<mapsto> data)"
  have "hour_stored L ?V dir ?m s d" if d: "fmlookup (rm_hours ?m) s = Some d" for s d
  proof (cases "s = k")
    case True
    then show ?thesis using d name opens agree by (auto simp: hour_stored_def)
  next
    case False
    have d0: "fmlookup (rm_hours m0) s = Some d" using d False by simp
    then obtain c where c: "V (dir, ''run.json'') = Some c" using none by (cases "V (dir, ''run.json'')") auto
    have "manifest_consistent L V dir m0" using con c old [OF c] by (auto simp: run_consistent_def)
    then have "hour_stored L V dir m0 s d" using d0 by (simp add: manifest_consistent_def)
    moreover have "manifest_hour_meta ?m s x = manifest_hour_meta m0 s x" for x
      by (rule manifest_hour_meta_same) (use False in simp_all)
    ultimately show ?thesis using False by (simp add: hour_stored_def)
  qed
  then show ?thesis using grid by (simp add: manifest_consistent_def)
qed

text \<open>The session as \<open>publish_hour\<close> sees it: the manifest of the directory with the new entry.\<close>

definition prospect :: "store_libraries \<Rightarrow> (file_path \<Rightarrow> u8 list option) \<Rightarrow> hour_ingest_writer \<Rightarrow> rws_run_manifest \<Rightarrow> bool" where
  "prospect L V h m \<longleftrightarrow> wf_manifest m \<and> rm_schema m = expected_schema h \<and> rm_model m = hi_model h \<and> rm_run m = hi_run h \<and>
     rm_grid_hash m = hi_grid_hash h \<and> rm_nx m = hi_nx h \<and> rm_ny m = hi_ny h \<and> refuse_remap h m = Inr () \<and>
     (V (hi_run_dir h, ''run.json'') = None \<longrightarrow> rm_hours m = fmempty) \<and>
     (\<forall>c. V (hi_run_dir h, ''run.json'') = Some c \<longrightarrow> load_manifest (sl_from_json L) (quiet_file c) = Inr m)"

lemma prospect_hours: "prospect L V h m \<Longrightarrow> rm_hours m = hours_before L V (hi_run_dir h)"
  by (cases "V (hi_run_dir h, ''run.json'')") (auto simp: prospect_def hours_before_def)

lemma prospect_agrees:
  assumes "prospect L V h m" and "hour_of_writer w meta" and "fmlookup (rm_hours m') (hi_forecast_hour h) = Some e"
    and "hw_model w = hi_model h" "hw_run w = hi_run h" "hw_forecast_hour w = hi_forecast_hour h" "hw_exact_time w = hi_exact_time h"
      "hw_nx w = hi_nx h" "hw_ny w = hi_ny h" "hw_grid_hash w = hi_grid_hash h"
    and "\<forall>t. hi_exact_time h = Some t \<longrightarrow> origin_unix t \<noteq> None"
    and "rm_schema m' = rm_schema m" "rm_model m' = rm_model m" "rm_run m' = rm_run m" "rm_grid_hash m' = rm_grid_hash m"
      "rm_nx m' = rm_nx m" "rm_ny m' = rm_ny m"
    and "he_lead_seconds e = map_option et_lead_seconds (hi_exact_time h)" "he_valid_unix e = map_option et_valid_unix (hi_exact_time h)"
  shows "manifest_hour_meta m' (hi_forecast_hour h) meta = Inr e"
  using hour_agrees [OF assms(2), of m' e] assms by (simp add: prospect_def expected_schema_def)

lemma publish_hour_keeps:
  assumes con: "run_consistent L (visible fs) (hi_run_dir h)" and libs: "libraries_ok L" "uses_libraries L env"
    and ceil: "within_ceilings (hi_nx h) (hi_ny h) ops" and pro: "prospect L (visible fs) h m"
    and grid: "visible fs (hi_run_dir h, ''grid.rwg'') = Some gb" "grid_is L gb (hi_grid_hash h) (hi_nx h) (hi_ny h)"
    and w0: "fresh w0" "add_all (ie_write env) ops w0 = (Inr (), hi_writer h)"
      "hw_model w0 = hi_model h" "hw_run w0 = hi_run h" "hw_forecast_hour w0 = hi_forecast_hour h" "hw_exact_time w0 = hi_exact_time h"
      "hw_nx w0 = hi_nx h" "hw_ny w0 = hi_ny h" "hw_grid_hash w0 = hi_grid_hash h"
    and time: "\<forall>t. hi_exact_time h = Some t \<longrightarrow> origin_unix t \<noteq> None"
    and pub: "publish_hour env t h (register_hour (hi_forecast_hour h) (hour_entry_for h t 0) m) fs = (r, fs')"
    and len: "\<forall>data. visible fs' (hi_run_dir h, hour_file_name (hi_forecast_hour h)) = Some data \<longrightarrow> length data \<le> 2 ^ 36"
  shows "run_consistent L (visible fs') (hi_run_dir h) \<and> (\<forall>q. fst q \<noteq> hi_run_dir h \<longrightarrow> visible fs' q = visible fs q) \<and>
    (\<forall>wh. r = Inr wh \<longrightarrow> hours_before L (visible fs') (hi_run_dir h) =
      fmupd (hi_forecast_hour h) (hour_entry_for h t (wh_encode_ms wh)) (hours_before L (visible fs) (hi_run_dir h)))"
proof -
  let ?dir = "hi_run_dir h" and ?k = "hi_forecast_hour h"
  let ?hour = "(?dir, hour_file_name ?k)" and ?run = "(?dir, ''run.json'')"
  have slibs: "session_libraries (sl_hour_json L) (sl_read L) (ie_write env)" and J: "ie_to_json env = sl_to_json L"
    using libs(2) by (simp_all add: uses_libraries_def)
  obtain rh fs2 where f: "finish (ie_write env) (ie_hour_os env) (ie_pid env) ?hour (hi_writer h) fs = (rh, fs2)" by fastforce
  let ?ms = "of_nat ((hi_encode_elapsed h + took env h) div 1000000) :: u64"
  let ?e = "hour_entry_for h t ?ms" and ?first = "hour_entry_for h t 0"
  let ?final = "register_hour ?k ?e (register_hour ?k ?first m)"
  have step: "fs' = fs2 \<and> (\<forall>wh. r \<noteq> Inr wh) \<or>
      (\<exists>meta rs. rh = Inr meta \<and> save_manifest (sl_to_json L) (ie_manifest_os env) (ie_pid env) ?final ?run fs2 = (rs, fs') \<and>
        (\<forall>wh. r = Inr wh \<longrightarrow> rs = Inr () \<and> wh_encode_ms wh = ?ms))"
    using pub by (auto simp: publish_hour_def Let_def f J split: sum.splits prod.splits if_splits)
  have "visible fs' ?hour = visible fs2 ?hour"
    using step save_manifest_visible [of "sl_to_json L" "ie_manifest_os env" "ie_pid env" ?final ?run fs2 _ fs'] by fastforce
  then have len2: "\<forall>data. visible fs2 ?hour = Some data \<longrightarrow> length data \<le> 2 ^ 36" using len by simp
  from finish_visible [OF w0(2,1) slibs _ f _ len2] ceil w0(7,8)
  consider "visible fs2 = visible fs" "\<forall>m. rh \<noteq> Inr m"
    | data meta where "visible fs2 = (visible fs)(?hour \<mapsto> data)" "opens_with (sl_hour_json L) data meta" "hour_of_writer w0 meta"
        "\<forall>m. rh = Inr m \<longrightarrow> m = meta"
    by auto
  then show ?thesis
  proof cases
    case 1
    then show ?thesis using step con by auto
  next
    case (2 data meta)
    note agrees = prospect_agrees [OF pro 2(3) _ w0(3-9) time]
    have "run_consistent L ((visible fs)(?hour \<mapsto> data)) ?dir"
    proof (rule hour_stage [OF con 2(2)])
      fix c m' e assume "visible fs ?run = Some c" "load_manifest (sl_from_json L) (quiet_file c) = Inr m'" and e: "fmlookup (rm_hours m') ?k = Some e"
      then have m': "m' = m" using pro by (auto simp: prospect_def)
      have "refuse_remap h m = Inr ()" "wf_manifest m" "rm_schema m = expected_schema h" using pro by (simp_all add: prospect_def)
      from entry_time_kept [OF this] e show "manifest_hour_meta m' ?k meta = Inr e" unfolding m' by (intro agrees) simp_all
    qed
    then have con2: "run_consistent L (visible fs2) ?dir" by (simp add: 2(1))
    have "manifest_hour_meta ?final ?k meta = Inr ?e" by (rule agrees) (simp_all add: hour_entry_for_def)
    then have m2: "manifest_consistent L (visible fs2) ?dir ?final"
      unfolding 2(1) using pro grid
      by (intro registered_consistent [OF con _ _ grid(1) _ _ 2(2)]) (simp_all add: prospect_def hour_entry_for_def)
    have "visible fs' = visible fs2 \<and> (\<forall>wh. r \<noteq> Inr wh) \<or>
        (\<exists>bs. wf_manifest ?final \<and> sl_to_json L ?final = Some bs \<and> length bs < MAX_RUN_MANIFEST_BYTES \<and>
          visible fs' = (visible fs2)(?run \<mapsto> bs @ [0x0A]) \<and> (\<forall>wh. r = Inr wh \<longrightarrow> wh_encode_ms wh = ?ms))"
      using step save_manifest_visible [of "sl_to_json L" "ie_manifest_os env" "ie_pid env" ?final ?run fs2 _ fs'] by fastforce
    then show ?thesis
    proof (elim disjE exE conjE)
      assume "visible fs' = visible fs2" "\<forall>wh. r \<noteq> Inr wh"
      then show ?thesis using con2 by (auto simp: 2(1))
    next
      fix bs assume bs: "wf_manifest ?final" "sl_to_json L ?final = Some bs" "length bs < MAX_RUN_MANIFEST_BYTES"
        "visible fs' = (visible fs2)(?run \<mapsto> bs @ [0x0A])" and ms: "\<forall>wh. r = Inr wh \<longrightarrow> wh_encode_ms wh = ?ms"
      have "hours_before L (visible fs') ?dir = rm_hours ?final"
        using saved_loads [OF libs(1) bs(2,3,1)] by (simp add: hours_before_def bs(4))
      then show ?thesis
        using manifest_stage [OF con2 libs(1) bs(2,3,1) m2] ms prospect_hours [OF pro] by (auto simp: bs(4) 2(1))
    qed
  qed
qed

lemma finish_files_keeps:
  assumes con: "run_consistent L (visible fs) (hi_run_dir h)" and set: "session_settled L (visible fs) env ops h"
    and libs: "libraries_ok L" "uses_libraries L env" and ceil: "within_ceilings (hi_nx h) (hi_ny h) ops"
    and fin: "finish_files env t h fs = (r, fs')"
    and len: "\<forall>data. visible fs' (hi_run_dir h, hour_file_name (hi_forecast_hour h)) = Some data \<longrightarrow> length data \<le> 2 ^ 36"
  shows "run_consistent L (visible fs') (hi_run_dir h) \<and> (\<forall>q. fst q \<noteq> hi_run_dir h \<longrightarrow> visible fs' q = visible fs q) \<and>
    (\<forall>wh. r = Inr wh \<longrightarrow> hours_before L (visible fs') (hi_run_dir h) =
      fmupd (hi_forecast_hour h) (hour_entry_for h t (wh_encode_ms wh)) (hours_before L (visible fs) (hi_run_dir h)))"
proof -
  let ?dir = "hi_run_dir h" and ?k = "hi_forecast_hour h"
  let ?register = "r_bind (load_manifest_for env fs h) (\<lambda>m. r_bind (refuse_remap h m) (\<lambda>_.
      let m = register_hour ?k (hour_entry_for h t 0) m in r_bind (validate_contents m) (\<lambda>_. Inr m)))"
  obtain w0 where w0: "fresh w0" "add_all (ie_write env) ops w0 = (Inr (), hi_writer h)" "hw_model w0 = hi_model h" "hw_run w0 = hi_run h"
      "hw_forecast_hour w0 = ?k" "hw_exact_time w0 = hi_exact_time h" "hw_nx w0 = hi_nx h" "hw_ny w0 = hi_ny h" "hw_grid_hash w0 = hi_grid_hash h"
    and time: "\<forall>t. hi_exact_time h = Some t \<longrightarrow> origin_unix t \<noteq> None"
    using set unfolding session_settled_def by blast
  obtain rg fs1 where g: "write_pending_grid env h fs = (rg, fs1)" by fastforce
  note con1 = grid_stage(1) [OF con set g] and frame1 = grid_stage(3) [OF con set g]
  show ?thesis
  proof (cases ?register)
    case (Inl e)
    then have "fs' = fs" "r = Inl e" using fin by (simp_all add: finish_files_def)
    then show ?thesis using con by simp
  next
    case reg: (Inr m1)
    then obtain m0 where load: "load_manifest_for env fs h = Inr m0" and remap: "refuse_remap h m0 = Inr ()"
        and m1: "m1 = register_hour ?k (hour_entry_for h t 0) m0"
      by (auto simp: r_bind_eq_Inr Let_def)
    show ?thesis
    proof (cases rg)
      case (Inl e)
      then have "fs' = fs1" "r = Inl e" using fin reg g by (simp_all add: finish_files_def)
      then show ?thesis using con1 frame1 by auto
    next
      case (Inr u)
      obtain gb where gb: "visible fs1 (?dir, ''grid.rwg'') = Some gb" "grid_is L gb (hi_grid_hash h) (hi_nx h) (hi_ny h)"
        using grid_stage(2) [OF con set g] Inr by auto
      have run: "visible fs1 (?dir, ''run.json'') = visible fs (?dir, ''run.json'')" by (rule frame1) simp
      have "prospect L (visible fs1) h m0"
        using load_manifest_for_Inr [OF load] finish_prospect(2) [OF libs(2) load] remap by (simp add: prospect_def run)
      moreover have "publish_hour env t h (register_hour ?k (hour_entry_for h t 0) m0) fs1 = (r, fs')"
        using fin reg g Inr m1 by (simp add: finish_files_def)
      ultimately have "run_consistent L (visible fs') ?dir \<and> (\<forall>q. fst q \<noteq> ?dir \<longrightarrow> visible fs' q = visible fs1 q) \<and>
          (\<forall>wh. r = Inr wh \<longrightarrow> hours_before L (visible fs') ?dir =
            fmupd ?k (hour_entry_for h t (wh_encode_ms wh)) (hours_before L (visible fs1) ?dir))"
        by (rule publish_hour_keeps [OF con1 libs ceil _ gb w0 time _ len])
      then show ?thesis using frame1 by (auto simp: hours_before_def run)
    qed
  qed
qed

end
