(* ===== verification/Rw_Ingest_Runs.thy ===== *)
theory Rw_Ingest_Runs
  imports Rw_Ingest_Finish
begin

text \<open>
  Any number of processes ingesting hours into any number of run directories. The lock makes
  the span from \<open>begin\<close> to \<open>finish\<close> of one directory exclusive, so what \<open>begin\<close> settled is
  still true at \<open>finish\<close>, and all directories stay consistent.
\<close>

section \<open>Taking the lock\<close>

lemma try_acquire_visible: "visible (lw_fs (snd (try_acquire os dir w))) = visible (lw_fs w)"
proof -
  have "hidden (dir, LOCK_FILE_NAME)" by (simp add: hidden_def LOCK_FILE_NAME_def)
  then have "visible (fs_create (dir, LOCK_FILE_NAME) fs) = visible fs" for fs by (intro visibleI) auto
  then show ?thesis by (simp add: try_acquire_def open_lock_file_def Let_def)
qed

lemma lock_step_try:
  assumes "try_acquire os dir w = (r, w')"
  shows "lock_step (w, gs) (w', case r of Inr (Some l) \<Rightarrow> (p, l) # gs | _ \<Rightarrow> gs)"
proof (cases "\<exists>l. r = Inr (Some l)")
  case True
  then show ?thesis using assms by (auto intro: lock_step.taken)
next
  case False
  then have "lock_step (w, gs) (w', gs)" using assms by (intro lock_step.refused) auto
  moreover have "(case r of Inr (Some l) \<Rightarrow> (p, l) # gs | _ \<Rightarrow> gs) = gs" using False by (auto split: sum.split option.split)
  ultimately show ?thesis by simp
qed

definition locked_by :: "run_lock rw_result \<Rightarrow> (nat \<times> run_lock) list \<Rightarrow> (nat \<times> run_lock) list" where
  "locked_by r gs = (case r of Inr l \<Rightarrow> (0, l) # gs | Inl _ \<Rightarrow> gs)"

lemma acquire_from_keeps:
  assumes "wt_others env = (\<lambda>_ x. x)" and "locks_inv (w, gs)"
  shows "let r = acquire_from env dir timeout k now w in
    locks_inv (wr_world r, locked_by (wr_lock r) gs) \<and> visible (lw_fs (wr_world r)) = visible (lw_fs w) \<and>
    (\<forall>l. wr_lock r = Inr l \<longrightarrow> rl_path l = (dir, LOCK_FILE_NAME))"
  using assms
proof (induction env dir timeout k now w rule: acquire_from.induct)
  case (1 env dir timeout k now w)
  obtain attempt w1 where asked: "try_acquire (wt_os env k) dir w = (attempt, w1)" by fastforce
  have vis: "visible (lw_fs w1) = visible (lw_fs w)" using try_acquire_visible [of "wt_os env k" dir w] asked by simp
  have inv: "locks_inv (w1, case attempt of Inr (Some l) \<Rightarrow> (0, l) # gs | _ \<Rightarrow> gs)"
    using locks_inv_step [OF lock_step_try [OF asked]] 1(3) by blast
  show ?case
  proof (cases "attempt = Inr None \<and> now + wt_attempt env k < timeout")
    case True
    let ?read = "now + wt_attempt env k + wt_reading env k"
    let ?next = "?read + min POLL_INTERVAL (timeout - ?read) + wt_oversleep env k"
    have eq: "acquire_from env dir timeout k now w = acquire_from env dir timeout (Suc k) ?next w1"
      using True 1(2) by (subst acquire_from.simps) (simp add: asked Let_def)
    have o: "wt_others env k w1 = w1" using 1(2) by simp
    have "locks_inv (w1, gs)" using inv True by simp
    from 1(1) [OF asked [symmetric] refl refl conjunct1 [OF True] refl _ refl refl refl, unfolded o, OF _ 1(2) this] True
    show ?thesis unfolding eq by (simp add: Let_def vis)
  next
    case False
    have "rl_path l = (dir, LOCK_FILE_NAME)" if "attempt = Inr (Some l)" for l
      using try_acquire_taken(1) [of "wt_os env k" dir w l w1] asked that by simp
    then show ?thesis
      using False inv vis by (subst acquire_from.simps, subst acquire_from.simps, subst acquire_from.simps)
        (auto simp: asked Let_def locked_by_def split: sum.splits option.splits)
  qed
qed

lemma drop_lock_fs [simp]: "lw_fs (drop_lock l w) = lw_fs w"
  by (simp add: drop_lock_def unlock_def)

lemma locks_inv_fs [simp]: "locks_inv (w\<lparr>lw_fs := fs\<rparr>, gs) \<longleftrightarrow> locks_inv (w, gs)"
  by (simp add: locks_inv_def)

section \<open>What \<open>begin\<close> settles\<close>

lemma settle_grid_settles:
  assumes "settle_grid (sl_grid L) fs (dir, ''grid.rwg'') grid projection = Inr (hash, pending)" and "libraries_ok L"
    and "length (lg_lat_deg grid) \<le> 2 ^ 59"
  shows "case pending of
      None \<Rightarrow> \<exists>gb. visible fs (dir, ''grid.rwg'') = Some gb \<and> grid_is L gb hash (gs_nx (lg_shape grid)) (gs_ny (lg_shape grid))
    | Some bytes \<Rightarrow> visible fs (dir, ''grid.rwg'') = None \<and> grid_is L bytes hash (gs_nx (lg_shape grid)) (gs_ny (lg_shape grid))"
proof (cases "fs_exists fs (dir, ''grid.rwg'')")
  case True
  then obtain g where g: "open_grid (sl_grid L) (grid_handle_at fs (dir, ''grid.rwg'')) = Inr g" "pending = None" "hash = gf_hash g"
      "gf_nx g = gs_nx (lg_shape grid)" "gf_ny g = gs_ny (lg_shape grid)"
    using assms(1) by (auto simp: settle_grid_def r_bind_eq_Inr split: if_splits)
  then obtain c where "fs_content fs (dir, ''grid.rwg'') = Some c"
    by (cases "fs_content fs (dir, ''grid.rwg'')") (auto simp: grid_handle_at_def open_grid_def read_grid_bytes_def)
  then show ?thesis using g by (auto simp: visible_def grid_is_def grid_handle_at_def)
next
  case False
  then obtain bytes where e: "encode_grid_bytes (sl_grid L) grid projection = Inr (bytes, hash)" "pending = Some bytes"
    using assms(1) by (auto simp: settle_grid_def r_bind_eq_Inr)
  have "visible fs (dir, ''grid.rwg'') = None" using False by (simp add: visible_def fs_content_def fs_exists_def)
  then show ?thesis using encoded_grid_opens [OF e(1) _ assms(3)] assms(2) e(2) by (simp add: grid_is_def libraries_ok_def)
qed

lemma begin_keeps:
  assumes beg: "begin_with_time env store model run slot time grid projection build w = (r, w')" and inv: "locks_inv (w, gs)"
    and quiet: "wt_others (ie_wait env) = (\<lambda>_ x. x)" and libs: "libraries_ok L" "uses_libraries L env"
    and cells: "length (lg_lat_deg grid) \<le> 2 ^ 59"
  shows "visible (lw_fs w') = visible (lw_fs w) \<and> (case r of
      Inl _ \<Rightarrow> locks_inv (w', gs)
    | Inr h \<Rightarrow> locks_inv (w', (0, hi_lock h) # gs) \<and> session_settled L (visible (lw_fs w')) env [] h)"
proof -
  let ?dir = "path_join (path_join store model) run"
  let ?a = "acquire (ie_wait env) ?dir LOCK_TIMEOUT w"
  have a: "locks_inv (wr_world ?a, locked_by (wr_lock ?a) gs)" "visible (lw_fs (wr_world ?a)) = visible (lw_fs w)"
      "wr_lock ?a = Inr l \<Longrightarrow> rl_path l = (?dir, LOCK_FILE_NAME)" for l
    using acquire_from_keeps [OF quiet inv, of ?dir LOCK_TIMEOUT 0 0] by (auto simp: acquire_def Let_def)
  have G: "ie_grid env = sl_grid L" using libs(2) by (simp add: uses_libraries_def)
  let ?bad = "case time of None \<Rightarrow> False | Some t \<Rightarrow> origin_unix t = None"
  let ?shape = "map_err Grid (validated_grid_cells (gs_nx (lg_shape grid)) (gs_ny (lg_shape grid)))"
  have early: ?thesis if "w' = w" "r = Inl e" for e using that inv by simp
  show ?thesis
  proof (cases "\<not> ?bad \<and> (\<exists>cells. ?shape = Inr cells \<and> length (lg_lat_deg grid) = cells \<and> length (lg_lon_deg grid) = cells) \<and> ie_create_dir env")
    case False
    have "\<exists>e. (r, w') = (Inl e, w)"
    proof (cases ?bad)
      case True
      then show ?thesis using beg unfolding begin_with_time_def if_P [OF True] by blast
    next
      case ok: False
      then show ?thesis using beg False unfolding begin_with_time_def if_not_P [OF ok] Let_def
        by (cases ?shape) (auto split: if_splits)
    qed
    then show ?thesis using early by blast
  next
    case True
    then obtain cells where c: "?shape = Inr cells" "length (lg_lat_deg grid) = cells" "length (lg_lon_deg grid) = cells" and ok: "\<not> ?bad" by blast
    have create: "ie_create_dir env" using True by blast
    note run = beg [unfolded begin_with_time_def if_not_P [OF ok] Let_def]
    show ?thesis
    proof (cases "wr_lock ?a")
      case (Inl e)
      then have "r = Inl e" "w' = wr_world ?a" using run by (simp_all add: c create)
      then show ?thesis using a Inl by (simp add: locked_by_def)
    next
      case (Inr l)
      have held: "locks_inv (wr_world ?a, (0, l) # gs)" using a(1) Inr by (simp add: locked_by_def)
      show ?thesis
      proof (cases "settle_grid (sl_grid L) (lw_fs (wr_world ?a)) (?dir, ''grid.rwg'') grid projection")
        case e: (Inl e)
        then have r: "r = Inl e" "w' = drop_lock l (wr_world ?a)" using run by (simp_all add: c create Inr G)
        have "distinct (map (rl_file \<circ> snd) ((0, l) # gs))" using held by (simp only: locks_inv_def prod.case)
        then have "(0, l) \<notin> set gs" by force
        then show ?thesis using locks_inv_drop [OF held, of 0 l] r a(2) by simp
      next
        case g: (Inr x)
        obtain hash pending where x: "x = (hash, pending)" by (cases x)
        have w': "w' = wr_world ?a" using run g by (simp add: c create Inr G x)
        let ?w0 = "with_spill_dir ?dir (new_with_time model run slot time (gs_nx (lg_shape grid)) (gs_ny (lg_shape grid)) hash build)"
        have "\<exists>h. r = Inr h \<and> hi_lock h = l \<and> hi_run_dir h = ?dir \<and> hi_grid_hash h = hash \<and> hi_pending_grid h = pending \<and>
            hi_nx h = gs_nx (lg_shape grid) \<and> hi_ny h = gs_ny (lg_shape grid) \<and> hi_exact_time h = time \<and> hi_model h = model \<and>
            hi_run h = run \<and> hi_forecast_hour h = slot \<and> hi_writer h = ?w0"
          using run g by (cases time) (auto simp: c create Inr G x new_exact_def new_writer_def)
        then obtain h where r: "r = Inr h" "hi_lock h = l" and h: "hi_run_dir h = ?dir" "hi_grid_hash h = hash" "hi_pending_grid h = pending"
            "hi_nx h = gs_nx (lg_shape grid)" "hi_ny h = gs_ny (lg_shape grid)" "hi_exact_time h = time" "hi_model h = model" "hi_run h = run"
            "hi_forecast_hour h = slot" "hi_writer h = ?w0"
          by blast
        have "session_settled L (visible (lw_fs w')) env [] h"
          unfolding session_settled_def w' h r(2) using settle_grid_settles [OF g [unfolded x] libs(1) cells] a(3) [OF Inr] ok
          by (auto simp: fresh_def with_spill_dir_def new_with_time_def split: option.splits)
        then show ?thesis using r a(2) held by (simp add: w')
      qed
    qed
  qed
qed

section \<open>The additions\<close>

lemma add_all_snoc: "add_all env ops w0 = (Inr (), w) \<Longrightarrow> add_one env op w = (Inr (), w') \<Longrightarrow> add_all env (ops @ [op]) w0 = (Inr (), w')"
  by (induction env ops w0 rule: add_all.induct) (auto split: sum.splits prod.splits)

text \<open>What an addition changes: the writer, the names and the time it took.\<close>

definition added :: "ingest_env \<Rightarrow> add_op \<Rightarrow> hour_ingest_writer \<Rightarrow> hour_ingest_writer \<Rightarrow> bool" where
  "added env op h h' \<longleftrightarrow> (\<exists>w normal deferred elapsed. add_one (ie_write env) op (hi_writer h) = (Inr (), w) \<and>
     h' = h\<lparr>hi_writer := w, hi_vars_normal := normal, hi_vars_deferred := deferred, hi_encode_elapsed := elapsed\<rparr>)"

lemma added_settled:
  assumes "session_settled L V env ops h" and "added env op h h'"
  shows "session_settled L V env (ops @ [op]) h'"
proof -
  obtain w normal deferred elapsed where add: "add_one (ie_write env) op (hi_writer h) = (Inr (), w)"
      and h': "h' = h\<lparr>hi_writer := w, hi_vars_normal := normal, hi_vars_deferred := deferred, hi_encode_elapsed := elapsed\<rparr>"
    using assms(2) unfolding added_def by blast
  obtain w0 where w0: "fresh w0" "add_all (ie_write env) ops w0 = (Inr (), hi_writer h)" "hw_model w0 = hi_model h" "hw_run w0 = hi_run h"
      "hw_forecast_hour w0 = hi_forecast_hour h" "hw_exact_time w0 = hi_exact_time h" "hw_nx w0 = hi_nx h" "hw_ny w0 = hi_ny h"
      "hw_grid_hash w0 = hi_grid_hash h"
    using assms(1) unfolding session_settled_def by blast
  have all: "add_all (ie_write env) (ops @ [op]) w0 = (Inr (), hi_writer h')" using add_all_snoc [OF w0(2) add] by (simp add: h')
  have same: "hi_pending_grid h' = hi_pending_grid h" "hi_run_dir h' = hi_run_dir h" "hi_grid_hash h' = hi_grid_hash h" "hi_nx h' = hi_nx h"
      "hi_ny h' = hi_ny h" "hi_exact_time h' = hi_exact_time h" "hi_lock h' = hi_lock h" "hi_model h' = hi_model h" "hi_run h' = hi_run h"
      "hi_forecast_hour h' = hi_forecast_hour h"
    by (simp_all add: h')
  show ?thesis using assms(1) w0(1,3-9) all unfolding session_settled_def same by blast
qed

lemma added_lock: "added env op h h' \<Longrightarrow> hi_lock h' = hi_lock h"
  by (auto simp: added_def)

lemma addedI:
  assumes "add_one (ie_write env) op (hi_writer h) = (Inr (), w)"
    and "h' = h\<lparr>hi_writer := w, hi_vars_normal := normal, hi_vars_deferred := deferred, hi_encode_elapsed := elapsed\<rparr>"
  shows "added env op h h'"
  using assms unfolding added_def by blast

lemma add_field_2d_added: "add_field_2d env n u s vs h = (Inr (), h') \<Longrightarrow> added env (Surface n u s vs) h h'"
  by (rule addedI [where normal = "hi_vars_normal h @ [n]" and deferred = "hi_vars_deferred h" and elapsed = "hi_encode_elapsed h + took env h"
        and w = "snd (add_surface2d (ie_write env) n u s vs (hi_writer h))"])
    (auto simp: add_field_2d_def forget_def split: sum.splits prod.splits)

lemma add_derived_2d_added: "add_derived_2d env n u vs h = (Inr (), h') \<Longrightarrow> added env (Surface n u (derived_selector n) vs) h h'"
  by (rule addedI [where normal = "hi_vars_normal h @ [n]" and deferred = "hi_vars_deferred h" and elapsed = "hi_encode_elapsed h + took env h"
        and w = "snd (add_surface2d (ie_write env) n u (derived_selector n) vs (hi_writer h))"])
    (auto simp: add_derived_2d_def forget_def split: sum.splits prod.splits if_splits)

definition volume_op :: "string \<Rightarrow> string \<Rightarrow> json \<Rightarrow> (u16 \<times> f32 list) list \<Rightarrow> add_op" where
  "volume_op n u s levels = Deferred n u s (map fst (sort_levels levels)) (map snd (sort_levels levels))"

lemma add_volume_added: "add_volume env n u s levels h = (Inr (), h') \<Longrightarrow> added env (volume_op n u s levels) h h'"
  by (rule addedI [where normal = "hi_vars_normal h" and deferred = "hi_vars_deferred h @ [n]" and elapsed = "hi_encode_elapsed h + took env h"
        and w = "snd (add_pressure3d_deferred (ie_write env) n u s (map fst (sort_levels levels)) (map snd (sort_levels levels)) (hi_writer h))"])
    (auto simp: add_volume_def volume_op_def forget_def Let_def split: sum.splits prod.splits if_splits)

section \<open>Interleaved sessions\<close>

text \<open>
  A state is the lock table with the file system, and the sessions that live, each with its
  environment and the additions so far. A process that waits for the lock polls, which other
  processes' steps may separate, and then begins with an attempt that decides. A finished
  hour is within the ceilings of the reader and its file is at most 64 GiB long.
\<close>

type_synonym session = "ingest_env \<times> add_op list \<times> hour_ingest_writer"
type_synonym ingest_state = "lock_world \<times> session list"

abbreviation session_lock :: "session \<Rightarrow> run_lock" where
  "session_lock s \<equiv> hi_lock (snd (snd s))"

inductive ingest_step :: "store_libraries \<Rightarrow> ingest_state \<Rightarrow> ingest_state \<Rightarrow> bool" for L where
  polled: "try_acquire os dir w = (r, w') \<Longrightarrow> (\<And>l. r \<noteq> Inr (Some l)) \<Longrightarrow> ingest_step L (w, ss) (w', ss)"
| begun: "begin_with_time env store model run slot time grid projection build w = (Inr h, w') \<Longrightarrow>
    uses_libraries L env \<Longrightarrow> wt_others (ie_wait env) = (\<lambda>_ x. x) \<Longrightarrow> length (lg_lat_deg grid) \<le> 2 ^ 59 \<Longrightarrow>
    ingest_step L (w, ss) (w', (env, [], h) # ss)"
| refused: "begin_with_time env store model run slot time grid projection build w = (Inl e, w') \<Longrightarrow>
    uses_libraries L env \<Longrightarrow> wt_others (ie_wait env) = (\<lambda>_ x. x) \<Longrightarrow> length (lg_lat_deg grid) \<le> 2 ^ 59 \<Longrightarrow>
    ingest_step L (w, ss) (w', ss)"
| sourced: "i < length ss \<Longrightarrow> ss ! i = (env, ops, h) \<Longrightarrow> set_source_provenance provenance h = (r, h') \<Longrightarrow>
    ingest_step L (w, ss) (w, ss[i := (env, ops, h')])"
| field: "i < length ss \<Longrightarrow> ss ! i = (env, ops, h) \<Longrightarrow> add_field_2d env n u s vs h = (Inr (), h') \<Longrightarrow>
    ingest_step L (w, ss) (w, ss[i := (env, ops @ [Surface n u s vs], h')])"
| derived: "i < length ss \<Longrightarrow> ss ! i = (env, ops, h) \<Longrightarrow> add_derived_2d env n u vs h = (Inr (), h') \<Longrightarrow>
    ingest_step L (w, ss) (w, ss[i := (env, ops @ [Surface n u (derived_selector n) vs], h')])"
| volume: "i < length ss \<Longrightarrow> ss ! i = (env, ops, h) \<Longrightarrow> add_volume env n u s levels h = (Inr (), h') \<Longrightarrow>
    ingest_step L (w, ss) (w, ss[i := (env, ops @ [volume_op n u s levels], h')])"
| finished: "(env, ops, h) \<in> set ss \<Longrightarrow> within_ceilings (hi_nx h) (hi_ny h) ops \<Longrightarrow> finish_ingest env t h w = (r, w') \<Longrightarrow>
    (\<And>data. visible (lw_fs w') (hi_run_dir h, hour_file_name (hi_forecast_hour h)) = Some data \<Longrightarrow> length data \<le> 2 ^ 36) \<Longrightarrow>
    ingest_step L (w, ss) (w', filter (\<lambda>s. session_lock s \<noteq> hi_lock h) ss)"
| abandoned: "(env, ops, h) \<in> set ss \<Longrightarrow> ingest_step L (w, ss) (drop_lock (hi_lock h) w, filter (\<lambda>s. session_lock s \<noteq> hi_lock h) ss)"

definition ingest_inv :: "store_libraries \<Rightarrow> ingest_state \<Rightarrow> bool" where
  "ingest_inv L = (\<lambda>(w, ss). locks_inv (w, map (\<lambda>s. (0, session_lock s)) ss) \<and> (\<forall>dir. run_consistent L (visible (lw_fs w)) dir) \<and>
     (\<forall>(env, ops, h) \<in> set ss. uses_libraries L env \<and> session_settled L (visible (lw_fs w)) env ops h))"

text \<open>An update of one session that keeps its lock and what \<open>begin\<close> settled.\<close>

lemma ingest_inv_update:
  assumes "ingest_inv L (w, ss)" and "i < length ss" and "ss ! i = (env, ops, h)" and "hi_lock h' = hi_lock h"
    and "session_settled L (visible (lw_fs w)) env ops h \<Longrightarrow> session_settled L (visible (lw_fs w)) env ops' h'"
  shows "ingest_inv L (w, ss[i := (env, ops', h')])"
proof -
  have m: "(env, ops, h) \<in> set ss" using assms(2,3) nth_mem by metis
  have "map (\<lambda>s. (0, session_lock s)) (ss[i := (env, ops', h')]) = map (\<lambda>s. (0 :: nat, session_lock s)) ss"
    using assms(2-4) by (intro nth_equalityI) (auto simp: nth_list_update)
  moreover have "set (ss[i := (env, ops', h')]) \<subseteq> insert (env, ops', h') (set ss)" by (rule set_update_subset_insert)
  moreover have "\<forall>(env, ops, h) \<in> insert (env, ops', h') (set ss). uses_libraries L env \<and> session_settled L (visible (lw_fs w)) env ops h"
    using assms(1,5) m by (auto simp: ingest_inv_def)
  ultimately show ?thesis using assms(1) unfolding ingest_inv_def by (simp del: map_update; blast)
qed

lemma locks_inv_release:
  assumes "locks_inv (w, map (\<lambda>s. (0, session_lock s)) ss)" and "(env, ops, h) \<in> set ss"
  shows "locks_inv (drop_lock (hi_lock h) w, map (\<lambda>s. (0, session_lock s)) (filter (\<lambda>s. session_lock s \<noteq> hi_lock h) ss))"
proof -
  have "(0, hi_lock h) \<in> set (map (\<lambda>s. (0, session_lock s)) ss)" using assms(2) by force
  moreover have "removeAll (0, hi_lock h) (map (\<lambda>s. (0 :: nat, session_lock s)) ss) =
      map (\<lambda>s. (0, session_lock s)) (filter (\<lambda>s. session_lock s \<noteq> hi_lock h) ss)"
    by (induction ss) auto
  ultimately show ?thesis using locks_inv_drop [OF assms(1)] by metis
qed

text \<open>Sessions that live together are in different directories.\<close>

lemma sessions_apart:
  assumes "ingest_inv L (w, ss)" and "(env, ops, h) \<in> set ss" and "(env', ops', h') \<in> set ss" and "hi_run_dir h' = hi_run_dir h"
  shows "(env', ops', h') = (env, ops, h)"
proof -
  have d: "distinct (map (\<lambda>s. rl_path (session_lock s)) ss)" using assms(1) by (simp add: ingest_inv_def locks_inv_def comp_def)
  have "rl_path (hi_lock h) = (hi_run_dir h, LOCK_FILE_NAME)" "rl_path (hi_lock h') = (hi_run_dir h', LOCK_FILE_NAME)"
    using assms(1-3) by (auto simp: ingest_inv_def session_settled_def)
  then have "rl_path (session_lock (env', ops', h')) = rl_path (session_lock (env, ops, h))" using assms(4) by simp
  then show ?thesis using d assms(2,3) unfolding distinct_map inj_on_def by blast
qed

lemma settled_frame:
  assumes "session_settled L V env ops h" and "V' (hi_run_dir h, ''grid.rwg'') = V (hi_run_dir h, ''grid.rwg'')"
  shows "session_settled L V' env ops h"
  using assms(1) unfolding session_settled_def assms(2) .

lemma run_consistent_frame: "run_consistent L V dir \<Longrightarrow> (\<And>q. fst q = dir \<Longrightarrow> V' q = V q) \<Longrightarrow> run_consistent L V' dir"
  by (simp add: run_consistent_def manifest_consistent_def hour_stored_def)

lemma finish_keeps:
  assumes inv: "ingest_inv L (w, ss)" and libs: "libraries_ok L" and s: "(env, ops, h) \<in> set ss"
    and ceil: "within_ceilings (hi_nx h) (hi_ny h) ops" and fin: "finish_ingest env t h w = (r, w')"
    and len: "\<forall>data. visible (lw_fs w') (hi_run_dir h, hour_file_name (hi_forecast_hour h)) = Some data \<longrightarrow> length data \<le> 2 ^ 36"
  shows "ingest_inv L (w', filter (\<lambda>s. session_lock s \<noteq> hi_lock h) ss)"
    and "r = Inr wh \<Longrightarrow> hours_before L (visible (lw_fs w')) (hi_run_dir h) =
      fmupd (hi_forecast_hour h) (hour_entry_for h t (wh_encode_ms wh)) (hours_before L (visible (lw_fs w)) (hi_run_dir h))"
    and "fst q \<noteq> hi_run_dir h \<Longrightarrow> visible (lw_fs w') q = visible (lw_fs w) q"
proof -
  obtain fs' where f: "finish_files env t h (lw_fs w) = (r, fs')" and w': "w' = drop_lock (hi_lock h) (w\<lparr>lw_fs := fs'\<rparr>)"
    using fin by (auto simp: finish_ingest_def split: prod.splits)
  have V: "visible (lw_fs w') = visible fs'" by (simp add: w')
  have con: "run_consistent L (visible (lw_fs w)) dir" and locks: "locks_inv (w, map (\<lambda>s. (0, session_lock s)) ss)"
    and set: "session_settled L (visible (lw_fs w)) env ops h" "uses_libraries L env" for dir
    using inv s by (auto simp: ingest_inv_def)
  note k = finish_files_keeps [OF con set(1) libs set(2) ceil f len [unfolded V]]
  have "locks_inv (w\<lparr>lw_fs := fs'\<rparr>, map (\<lambda>s. (0, session_lock s)) ss)" using locks by simp
  from locks_inv_release [OF this s]
  have "locks_inv (w', map (\<lambda>s. (0, session_lock s)) (filter (\<lambda>s. session_lock s \<noteq> hi_lock h) ss))" by (simp add: w')
  moreover have "run_consistent L (visible fs') dir" for dir
    using k run_consistent_frame [OF con, of dir "visible fs'"] by (cases "dir = hi_run_dir h") auto
  moreover have "uses_libraries L env' \<and> session_settled L (visible fs') env' ops' h'"
    if "(env', ops', h') \<in> set ss" "hi_lock h' \<noteq> hi_lock h" for env' ops' h'
  proof -
    have "hi_run_dir h' \<noteq> hi_run_dir h" using sessions_apart [OF inv s that(1)] that(2) by auto
    then show ?thesis using inv that(1) k settled_frame [of L "visible (lw_fs w)" env' ops' h' "visible fs'"] by (auto simp: ingest_inv_def)
  qed
  ultimately show "ingest_inv L (w', filter (\<lambda>s. session_lock s \<noteq> hi_lock h) ss)"
    unfolding ingest_inv_def V prod.case by (intro conjI ballI) (auto split: prod.splits)
  show "r = Inr wh \<Longrightarrow> hours_before L (visible (lw_fs w')) (hi_run_dir h) =
      fmupd (hi_forecast_hour h) (hour_entry_for h t (wh_encode_ms wh)) (hours_before L (visible (lw_fs w)) (hi_run_dir h))"
    and "fst q \<noteq> hi_run_dir h \<Longrightarrow> visible (lw_fs w') q = visible (lw_fs w) q"
    using k unfolding V by blast+
qed

lemma ingest_inv_step:
  assumes "ingest_step L s s'" and "libraries_ok L" and "ingest_inv L s"
  shows "ingest_inv L s'"
  using assms
proof (induction rule: ingest_step.induct)
  case (polled os dir w r w' ss)
  have "lock_step (w, gs) (w', gs)" for gs using polled(1,2) by (rule lock_step.refused)
  moreover have "visible (lw_fs w') = visible (lw_fs w)" using try_acquire_visible [of os dir w] polled(1) by simp
  ultimately show ?case using polled(4) by (auto simp: ingest_inv_def intro: locks_inv_step)
next
  case (begun env store model run slot time grid projection build w h w' ss)
  have "locks_inv (w, map (\<lambda>s. (0, session_lock s)) ss)" using begun by (simp add: ingest_inv_def)
  from begin_keeps [OF begun(1) this begun(3,5,2,4)] show ?case using begun(2,6) by (auto simp: ingest_inv_def)
next
  case (refused env store model run slot time grid projection build w e w' ss)
  have "locks_inv (w, map (\<lambda>s. (0, session_lock s)) ss)" using refused by (simp add: ingest_inv_def)
  from begin_keeps [OF refused(1) this refused(3,5,2,4)] show ?case using refused(6) by (auto simp: ingest_inv_def)
next
  case (sourced i ss env ops h provenance r h' w)
  have "\<exists>p. h' = h\<lparr>hi_source_provenance := p\<rparr>"
    using sourced(3) unfolding set_source_provenance_def
    by (auto split: sum.splits intro: exI [of _ "hi_source_provenance h"])
  then obtain p where p: "h' = h\<lparr>hi_source_provenance := p\<rparr>" ..
  show ?case by (rule ingest_inv_update [OF sourced(5,1,2)]) (simp_all add: p session_settled_def cong: option.case_cong)
next
  case (field i ss env ops h n u s vs h' w)
  note a = add_field_2d_added [OF field(3)]
  show ?case by (rule ingest_inv_update [OF field(5,1,2) added_lock [OF a] added_settled [OF _ a]])
next
  case (derived i ss env ops h n u vs h' w)
  note a = add_derived_2d_added [OF derived(3)]
  show ?case by (rule ingest_inv_update [OF derived(5,1,2) added_lock [OF a] added_settled [OF _ a]])
next
  case (volume i ss env ops h n u s levels h' w)
  note a = add_volume_added [OF volume(3)]
  show ?case by (rule ingest_inv_update [OF volume(5,1,2) added_lock [OF a] added_settled [OF _ a]])
next
  case (finished env ops h ss t w r w')
  show ?case using finished(4) by (intro finish_keeps(1) [OF finished(6,5,1,2,3)]) blast
next
  case (abandoned env ops h ss w)
  have "locks_inv (w, map (\<lambda>s. (0, session_lock s)) ss)" using abandoned(3) by (simp add: ingest_inv_def)
  from locks_inv_release [OF this abandoned(1)] show ?case using abandoned(3) by (auto simp: ingest_inv_def)
qed

lemma ingest_inv_reachable: "(ingest_step L)\<^sup>*\<^sup>* s s' \<Longrightarrow> libraries_ok L \<Longrightarrow> ingest_inv L s \<Longrightarrow> ingest_inv L s'"
  by (induction rule: rtranclp_induct) (auto dest: ingest_inv_step)

lemma ingest_inv_start:
  "lw_holder w = fmempty \<Longrightarrow> \<forall>dir. run_consistent L (visible (lw_fs w)) dir \<Longrightarrow> ingest_inv L (w, [])"
  by (simp add: ingest_inv_def locks_inv_start)

end
