(* ===== verification/Rw_Ingest_Props.thy ===== *)
theory Rw_Ingest_Props
  imports Rw_Ingest_Runs
begin

text \<open>
  The property of the ingest seam, and a whole session from \<open>begin\<close> to \<open>finish\<close> on an empty
  store as its example.
\<close>

section \<open>A session on an empty store\<close>

text \<open>No temporary file is left over; this is so at the start and after every successful write.\<close>

definition clean :: "file_system \<Rightarrow> bool" where
  "clean fs \<longleftrightarrow> (\<forall>q. fmlookup (fs_nodes fs) q \<noteq> Some Directory \<and> (hidden q \<and> snd q \<noteq> LOCK_FILE_NAME \<longrightarrow> fmlookup (fs_nodes fs) q = None))"

lemma temp_not_lock: "snd (temp_path_for pid k path) \<noteq> LOCK_FILE_NAME"
proof
  assume lock: "snd (temp_path_for pid k path) = LOCK_FILE_NAME"
  have "CHR ''.'' \<in> set (tl (snd (temp_path_for pid k path)))" by (simp add: temp_path_for_def)
  then show False by (simp add: lock LOCK_FILE_NAME_def)
qed

lemma clean_write:
  assumes "clean fs" and "\<not> hidden path"
  obtains fs' where "atomic_write_with sample_os pid path (bytes, Inr ()) fs = (Inr (), fs')" "clean fs'"
proof -
  let ?t = "temp_path_for pid (fs_seq fs pid) path"
  have t: "?t \<noteq> path" using assms(2) by (metis hidden_temp)
  have free: "\<not> fs_exists fs ?t" using assms(1) temp_not_lock unfolding clean_def fs_exists_def by (metis hidden_temp)
  have "os_open sample_os (fs_seq fs pid)" by (simp add: sample_os_def)
  note c = create_temp_free [OF this free]
  have dst: "fmlookup (fs_nodes fs) path \<noteq> Some Directory" using assms(1) unfolding clean_def by blast
  obtain fs' where w: "atomic_write_with sample_os pid path (bytes, Inr ()) fs = (Inr (), fs')"
      and n: "fs_nodes fs' = fmupd path (File bytes) (fmdrop ?t (fmupd ?t (File bytes) (fmupd ?t (File []) (fs_nodes fs))))"
    using t dst c by (simp add: sample_os_def atomic_write_with_def write_temp_def finalize_temp_def fs_rename_def next_seq_def fs_append_def
        fs_create_def fs_fsync_def fs_sync_dir_def Let_def)
  have "clean fs'" using assms unfolding clean_def n by (auto simp del: split_paired_All)
  then show thesis using w that by blast
qed

definition sample_time :: rws_exact_time where
  "sample_time = \<lparr>et_lead_seconds = 1800, et_valid_unix = 1704069000\<rparr>"

definition sample_stored_meta :: rws_hour_meta where
  "sample_stored_meta = \<lparr>hm_schema = SCHEMA_HOUR_V2, hm_model = ''hrrr'', hm_run = ''20240101_00z'', hm_forecast_hour = 7,
     hm_lead_seconds = Some 1800, hm_valid_unix = Some 1704069000, hm_nx = 2, hm_ny = 1, hm_grid_hash = ''ab'',
     hm_variables = [\<lparr>vm_id = 0, vm_name = ''t2m'', vm_units = ''K'', vm_kind = ''surface2d'', vm_codec = CODEC_2D, vm_levels_hpa = [],
       vm_selector = JNull\<rparr>],
     hm_chunking = \<lparr>ck_tile_y = TILE_Y, ck_tile_x = TILE_X, ck_col_y = COL_Y, ck_col_x = COL_X\<rparr>,
     hm_writer = \<lparr>wi_name = ''rw-store'', wi_version = ''0.1.0'', wi_build = ''test''\<rparr>\<rparr>"

definition sample_libraries :: store_libraries where
  "sample_libraries = \<lparr>sl_grid = sample_grid_env, sl_from_json = (\<lambda>_. Some sample_manifest),
     sl_to_json = (\<lambda>m. if m = sample_manifest then Some [] else None), sl_hour_json = (\<lambda>_. Some sample_stored_meta),
     sl_read = sample_read_env\<rparr>"

definition sample_ingest :: ingest_env where
  "sample_ingest = \<lparr>ie_write = sample_write_env\<lparr>we_to_json := (\<lambda>m. if m = sample_stored_meta then Some [] else None)\<rparr>,
     ie_grid = sample_grid_env, ie_from_json = (\<lambda>_. Some sample_manifest), ie_to_json = (\<lambda>m. if m = sample_manifest then Some [] else None),
     ie_pid = 7, ie_create_dir = True, ie_wait = sample_wait, ie_took = (\<lambda>_. 6000000), ie_grid_os = sample_os, ie_hour_os = sample_os,
     ie_stat = True, ie_manifest_os = sample_os\<rparr>"

definition sample_dir :: string where "sample_dir = ''store/hrrr/20240101_00z''"

definition sample_hour_writer :: hour_writer where
  "sample_hour_writer = with_spill_dir sample_dir (new_exact ''hrrr'' ''20240101_00z'' 7 sample_time 2 1 ''ab'' ''test'')"

definition sample_begun :: "u8 list \<Rightarrow> hour_ingest_writer" where
  "sample_begun grid = \<lparr>hi_run_dir = sample_dir, hi_grid_hash = ''ab'', hi_pending_grid = Some grid, hi_nx = 2, hi_ny = 1, hi_cells = 2,
     hi_forecast_hour = 7, hi_exact_time = Some sample_time, hi_model = ''hrrr'', hi_run = ''20240101_00z'', hi_writer_build = ''test'',
     hi_writer = sample_hour_writer, hi_vars_normal = [], hi_vars_deferred = [], hi_source_provenance = [], hi_encode_elapsed = 0,
     hi_lock = \<lparr>rl_file = 0, rl_path = (sample_dir, LOCK_FILE_NAME)\<rparr>\<rparr>"

definition sample_field :: add_op where
  "sample_field = Surface ''t2m'' ''K'' JNull [0x3F800000, 0x7FC00000]"

lemma sample_libraries_ok: "libraries_ok sample_libraries" "uses_libraries sample_libraries sample_ingest"
  by (simp_all add: libraries_ok_def uses_libraries_def sample_libraries_def sample_ingest_def sample_grid_libraries session_libraries_def
      zstd_bound_def zstd_lossless_def json_lossless_def sample_write_env_def sample_read_env_def)

lemma sample_ceilings: "within_ceilings 2 1 [sample_field]"
  by (simp add: within_ceilings_def sample_field_def chunk_count_def op_geometry geometry_consts div_ceil_def ceiling_consts)

lemma sample_begins:
  obtains bytes w where "begin_with_time sample_ingest ''store'' ''hrrr'' ''20240101_00z'' 7 (Some sample_time) sample_grid (Some Geographic) ''test'' empty_locks
      = (Inr (sample_begun bytes), w)" "clean (lw_fs w)" "visible (lw_fs w) = (\<lambda>_. None)"
proof -
  obtain bytes where e: "encode_grid_bytes sample_grid_env sample_grid (Some Geographic) = Inr (bytes, ''ab'')"
    using sample_grid_encodes by blast
  have dir: "path_join (path_join ''store'' ''hrrr'') ''20240101_00z'' = sample_dir" by (simp add: path_join_def sample_dir_def)
  let ?l = "\<lparr>rl_file = 0, rl_path = (sample_dir, LOCK_FILE_NAME)\<rparr>"
  let ?a = "acquire sample_wait sample_dir LOCK_TIMEOUT empty_locks"
  have a: "wr_lock ?a = Inr ?l" "fs_nodes (lw_fs (wr_world ?a)) = fmupd (sample_dir, LOCK_FILE_NAME) (File []) fmempty"
    by (simp_all add: acquire_def acquire_from.simps sample_wait_def sample_lock_os_def empty_locks_def try_acquire_def
        open_lock_file_def fs_exists_def fs_create_def Let_def)
  have "\<not> fs_exists (lw_fs (wr_world ?a)) (sample_dir, ''grid.rwg'')" by (simp add: fs_exists_def a(2) LOCK_FILE_NAME_def)
  then have settled: "settle_grid sample_grid_env (lw_fs (wr_world ?a)) (sample_dir, ''grid.rwg'') sample_grid (Some Geographic) = Inr (''ab'', Some bytes)"
    by (simp add: settle_grid_def e)
  have "checked_len \<lparr>gs_nx = 2, gs_ny = 1\<rparr> = Inr 2" by (simp add: checked_len_iff MAX_GRID_CELLS_def)
  then have shape: "map_err Grid (validated_grid_cells 2 1) = Inr 2" by (simp add: validated_grid_cells_def map_err_def)
  have time: "\<not> origin_unix sample_time = None" by (simp add: origin_unix_def sample_time_def)
  have "begin_with_time sample_ingest ''store'' ''hrrr'' ''20240101_00z'' 7 (Some sample_time) sample_grid (Some Geographic) ''test'' empty_locks
      = (Inr (sample_begun bytes), wr_world ?a)"
    unfolding begin_with_time_def option.case if_not_P [OF time] Let_def dir
    using settled shape a(1)
    by (simp add: sample_ingest_def sample_grid_def sample_begun_def sample_hour_writer_def del: One_nat_def)
  moreover have "clean (lw_fs (wr_world ?a))" by (simp add: clean_def a(2))
  moreover have "visible (lw_fs (wr_world ?a)) = (\<lambda>_. None)"
    by (auto simp: visible_def fs_content_def a(2) hidden_def LOCK_FILE_NAME_def fun_eq_iff)
  ultimately show thesis using that by blast
qed

lemma sample_fresh: "fresh sample_hour_writer" "hw_nx sample_hour_writer = 2" "hw_ny sample_hour_writer = 1"
  by (simp_all add: sample_hour_writer_def new_exact_def new_with_time_def with_spill_dir_def fresh_def)

lemma sample_added:
  obtains w1 where "add_all (ie_write sample_ingest) [sample_field] sample_hour_writer = (Inr (), w1)"
    "add_field_2d sample_ingest ''t2m'' ''K'' JNull [0x3F800000, 0x7FC00000] (sample_begun bytes) =
       (Inr (), (sample_begun bytes)\<lparr>hi_writer := w1, hi_vars_normal := [''t2m''], hi_encode_elapsed := 6000000\<rparr>)"
proof -
  let ?env = "ie_write sample_ingest" and ?vs = "[0x3F800000, 0x7FC00000]"
  have z: "compress_payload ?env p = Inr p" for p by (simp add: compress_payload_def sample_ingest_def sample_write_env_def)
  have wr: "usize_wrap 2 = 2" by (simp add: usize_wrap_def usize_bound_def)
  have base: "\<exists>base. op_base ?env 2 1 sample_field = Inr base"
    using gather_tile_ok [of ?vs 2 1 0 0]
    by (simp add: sample_field_def encode_tile_def z Let_def geometry_consts div_ceil_def usize_bound_def)
  have sp: "spill_succeeds ?env" by (simp add: spill_succeeds_def sample_ingest_def sample_write_env_def)
  have "\<exists>w1. add_all ?env [sample_field] sample_hour_writer = (Inr (), w1)"
    using base sample_fresh by (intro add_all_succeeds [OF sp]) (simp_all add: sample_field_def wr fresh_def)
  then obtain w1 where w1: "add_all ?env [sample_field] sample_hour_writer = (Inr (), w1)" ..
  then have "\<exists>u. add_surface2d ?env ''t2m'' ''K'' JNull ?vs sample_hour_writer = (Inr u, w1)"
    by (auto simp: sample_field_def forget_def r_bind_eq_Inr split: sum.splits prod.splits)
  then have "add_field_2d sample_ingest ''t2m'' ''K'' JNull ?vs (sample_begun bytes) =
       (Inr (), (sample_begun bytes)\<lparr>hi_writer := w1, hi_vars_normal := [''t2m''], hi_encode_elapsed := 6000000\<rparr>)"
    by (auto simp: add_field_2d_def sample_begun_def took_def sample_ingest_def)
  then show thesis using w1 that by blast
qed

lemma sample_hour_written:
  assumes "add_all (ie_write sample_ingest) [sample_field] sample_hour_writer = (Inr (), w1)" and "clean fs" and "\<not> hidden path"
  obtains fs' data where "finish (ie_write sample_ingest) sample_os 7 path w1 fs = (Inr sample_stored_meta, fs')" "clean fs'"
    "visible fs' = (visible fs)(path \<mapsto> data)" "length data \<le> 2 ^ 36"
proof -
  let ?env = "ie_write sample_ingest" and ?w = sample_hour_writer
  have z: "zstd_bound ?env" and sp: "spill_succeeds ?env"
    by (simp_all add: zstd_bound_def spill_succeeds_def sample_ingest_def sample_write_env_def)
  have g: "grid_small (hw_nx ?w) (hw_ny ?w)" by (simp add: sample_fresh grid_small_def usize_bound_def)
  have n: "chunk_count (hw_nx ?w) (hw_ny ?w) [sample_field] < 2 ^ 32" using sample_ceilings by (simp add: within_ceilings_def sample_fresh)
  obtain es where es: "map fst es = [sample_field]" "writer_inv ?env ?w es w1" by (rule add_all_inv [OF sample_fresh(1) assms(1) z g n])
  obtain a where e: "es = [a]" "fst a = sample_field" using es(1) by auto
  have meta: "file_meta ?env ?w es = sample_stored_meta"
    unfolding file_meta_def
    by (simp add: e numbered_def sample_field_def hour_meta_of_def sample_stored_meta_def sample_hour_writer_def with_spill_dir_def
        new_exact_def new_with_time_def sample_time_def sample_ingest_def sample_write_env_def)
  let ?data = "hour_file [] (file_records [] es) (file_payload es)"
  have spec: "file_spec ?env ?w es = Inr (sample_stored_meta, ?data)"
    unfolding file_spec_def meta
    by (simp add: e sample_ingest_def sample_hour_writer_def with_spill_dir_def new_exact_def new_with_time_def sample_time_def origin_unix_def)
  obtain fs' where at: "atomic_write_with sample_os 7 path (?data, Inr ()) fs = (Inr (), fs')" "clean fs'"
    by (rule clean_write [OF assms(2,3)])
  have "finish ?env sample_os 7 path w1 fs = (Inr sample_stored_meta, fs')"
    using finish_file [OF es(2) z g writer_inv_no_spill [OF es(2) sp], of sample_os 7 path fs] spec at(1) by simp
  moreover have "visible fs' = (visible fs)(path \<mapsto> ?data)" using atomic_write_visible(1) [OF at(1) assms(3)] by simp
  moreover have "length ?data \<le> 2 ^ 36"
  proof -
    have b: "\<forall>e \<in> set es. op_base ?env (hw_nx ?w) (hw_ny ?w) (fst e) = Inr (snd e)" using es(2) by (simp add: writer_inv_def)
    have "length (canonical es) = 1"
      using length_canonical [OF b]
      by (simp add: chunk_count_ordered es(1)) (simp add: chunk_count_def sample_field_def op_geometry geometry_consts div_ceil_def sample_fresh)
    moreover have "\<forall>e \<in> set es. \<forall>c \<in> set (snd e). len_ok c"
      using op_base_len_ok [OF _ z] es(2) g by (auto simp: writer_inv_def grid_small_def)
    ultimately show ?thesis using file_payload_le [of es] by (simp add: length_hour_file file_records_def)
  qed
  ultimately show thesis using that at(2) by blast
qed

definition sample_finished :: "u8 list \<Rightarrow> hour_writer \<Rightarrow> hour_ingest_writer" where
  "sample_finished bytes w1 = (sample_begun bytes)\<lparr>hi_writer := w1, hi_vars_normal := [''t2m''], hi_encode_elapsed := 6000000\<rparr>"

lemma sample_registered:
  "register_hour 7 (hour_entry_for (sample_finished bytes w1) 1704070000 12) (register_hour 7 (hour_entry_for (sample_finished bytes w1) 1704070000 0)
     (sample_manifest\<lparr>rm_hours := fmempty\<rparr>)) = sample_manifest"
proof -
  have "hour_file_name 7 = ''f007.rws''"
    by (simp add: hour_file_name_def decimal3_def decimal.simps digit_char_def Let_def) code_simp
  then have "hour_entry_for (sample_finished bytes w1) 1704070000 12 = sample_entry"
    by (simp add: hour_entry_for_def sample_finished_def sample_begun_def sample_entry_def sample_time_def)
  moreover have "fmupd 7 sample_entry (fmupd 7 e0 fmempty) = fmupd (7 :: u16) sample_entry fmempty" for e0 by (rule fmap_ext) simp
  ultimately show ?thesis by (simp add: register_hour_def sample_manifest_def)
qed

lemma sample_prospect_wf:
  "validate_contents (sample_manifest\<lparr>rm_hours := fmempty\<rparr>) = Inr ()"
  "validate_contents (register_hour 7 (hour_entry_for (sample_finished bytes w1) 1704070000 0) (sample_manifest\<lparr>rm_hours := fmempty\<rparr>)) = Inr ()"
proof -
  have s: "wf_manifest sample_manifest" by (rule sample_manifest_wf)
  then show "validate_contents (sample_manifest\<lparr>rm_hours := fmempty\<rparr>) = Inr ()"
    unfolding validate_contents_wf by (auto simp: wf_manifest_def wf_hours_def)
  have "hour_file_name 7 = ''f007.rws''"
    by (simp add: hour_file_name_def decimal3_def decimal.simps digit_char_def Let_def) code_simp
  then have "hour_entry_for (sample_finished bytes w1) 1704070000 0 = sample_entry\<lparr>he_encode_ms := 0\<rparr>"
    by (simp add: hour_entry_for_def sample_finished_def sample_begun_def sample_entry_def sample_time_def)
  moreover have "wf_hour True 7 sample_entry" using s by (simp add: wf_manifest_def wf_hours_def sample_manifest_def)
  then have "wf_hour True 7 (sample_entry\<lparr>he_encode_ms := 0\<rparr>)" by (auto simp: wf_hour_def)
  then have "wf_hours True (fmupd 7 (sample_entry\<lparr>he_encode_ms := 0\<rparr>) fmempty)" by (simp add: wf_hours_def)
  then have "wf_manifest (register_hour 7 (sample_entry\<lparr>he_encode_ms := 0\<rparr>) (sample_manifest\<lparr>rm_hours := fmempty\<rparr>))"
    using s by (simp add: wf_manifest_def sample_manifest_def)
  ultimately show "validate_contents (register_hour 7 (hour_entry_for (sample_finished bytes w1) 1704070000 0) (sample_manifest\<lparr>rm_hours := fmempty\<rparr>)) = Inr ()"
    by (simp only: validate_contents_wf)
qed

lemma sample_finishes:
  assumes "add_all (ie_write sample_ingest) [sample_field] sample_hour_writer = (Inr (), w1)" and "clean fs" and "visible fs = (\<lambda>_. None)"
  obtains wh fs' where "finish_files sample_ingest 1704070000 (sample_finished bytes w1) fs = (Inr wh, fs')" "wh_encode_ms wh = 12"
    "\<forall>data. visible fs' (sample_dir, hour_file_name 7) = Some data \<longrightarrow> length data \<le> 2 ^ 36"
proof -
  let ?h = "sample_finished bytes w1" and ?m0 = "sample_manifest\<lparr>rm_hours := fmempty\<rparr>"
  let ?grid = "(sample_dir, ''grid.rwg'')" and ?hour = "(sample_dir, hour_file_name 7)" and ?run = "(sample_dir, ''run.json'')"
  have h: "hi_run_dir ?h = sample_dir" "hi_forecast_hour ?h = 7" "hi_pending_grid ?h = Some bytes" "hi_writer ?h = w1" "hi_encode_elapsed ?h = 6000000"
      "hi_exact_time ?h = Some sample_time" "hi_model ?h = ''hrrr''" "hi_run ?h = ''20240101_00z''" "hi_grid_hash ?h = ''ab''" "hi_nx ?h = 2" "hi_ny ?h = 1"
      "hi_writer_build ?h = ''test''" and t: "took sample_ingest ?h = 6000000"
    by (simp_all add: sample_finished_def sample_begun_def took_def sample_ingest_def)
  have i: "ie_grid_os sample_ingest = sample_os" "ie_hour_os sample_ingest = sample_os" "ie_manifest_os sample_ingest = sample_os" "ie_pid sample_ingest = 7"
      "ie_stat sample_ingest" "ie_to_json sample_ingest sample_manifest = Some []"
    by (simp_all add: sample_ingest_def)
  have "\<not> fs_exists fs ?run"
  proof -
    have "fs_content fs ?run = None" using fun_cong [OF assms(3), of ?run] by (simp add: visible_def)
    moreover have "fmlookup (fs_nodes fs) ?run \<noteq> Some Directory" using assms(2) unfolding clean_def by blast
    ultimately show ?thesis by (auto simp: fs_content_def fs_exists_def split: option.splits file_node.splits)
  qed
  moreover have "\<lparr>rm_schema = SCHEMA_RUN_V2, rm_model = ''hrrr'', rm_run = ''20240101_00z'', rm_grid_hash = ''ab'', rm_nx = 2, rm_ny = 1, rm_hours = fmempty,
      rm_writer = \<lparr>wi_name = ''rw-store'', wi_version = we_version (ie_write sample_ingest), wi_build = ''test''\<rparr>\<rparr> = ?m0"
    by (simp add: sample_manifest_def sample_ingest_def sample_write_env_def)
  ultimately have load: "load_manifest_for sample_ingest fs ?h = Inr ?m0"
    by (simp add: load_manifest_for_def load_or_new_exact_def load_or_new_schema_def h Let_def sample_prospect_wf(1) del: One_nat_def)
  have remap: "refuse_remap ?h ?m0 = Inr ()" by (simp add: refuse_remap_def h)
  obtain fs1 where g: "atomic_write_with sample_os 7 ?grid (bytes, Inr ()) fs = (Inr (), fs1)" "clean fs1"
    by (rule clean_write [OF assms(2), of ?grid]) simp
  obtain fs2 data where f: "finish (ie_write sample_ingest) sample_os 7 ?hour w1 fs1 = (Inr sample_stored_meta, fs2)" "clean fs2"
      "visible fs2 = (visible fs1)(?hour \<mapsto> data)" "length data \<le> 2 ^ 36"
    by (rule sample_hour_written [OF assms(1) g(2), of ?hour]) simp
  obtain fs3 where s: "atomic_write_with sample_os 7 ?run ([] @ [0x0A], Inr ()) fs2 = (Inr (), fs3)" "clean fs3"
    by (rule clean_write [OF f(2), of ?run]) simp
  have agree: "manifest_hour_meta sample_manifest 7 sample_stored_meta = Inr sample_entry"
    by (simp add: manifest_hour_meta_def sample_manifest_def sample_stored_meta_def sample_entry_def is_exact_time_axis_def validate_time_schema_def
        timing_pair_def origin_unix_def)
  have v: "validate_contents sample_manifest = Inr ()" using sample_manifest_wf by (simp only: validate_contents_wf)
  have save: "save_manifest (ie_to_json sample_ingest) sample_os 7 sample_manifest ?run fs2 = (Inr (), fs3)"
    using s(1) by (simp add: save_manifest_def v i Let_def MAX_RUN_MANIFEST_BYTES_def atomic_write_bytes_def)
  have ms: "of_nat ((6000000 + 6000000) div 1000000) = (12 :: u64)" by simp
  have "\<exists>wh. publish_hour sample_ingest 1704070000 ?h (register_hour 7 (hour_entry_for ?h 1704070000 0) ?m0) fs1 = (Inr wh, fs3) \<and> wh_encode_ms wh = 12"
    unfolding publish_hour_def Let_def h i f(1) t ms prod.case sum.case sample_registered agree save by (simp add: i)
  then obtain wh where "publish_hour sample_ingest 1704070000 ?h (register_hour 7 (hour_entry_for ?h 1704070000 0) ?m0) fs1 = (Inr wh, fs3)"
      "wh_encode_ms wh = 12" by blast
  note p = this
  have pending: "write_pending_grid sample_ingest ?h fs = (Inr (), fs1)"
    unfolding write_pending_grid_def h i option.case atomic_write_bytes_def by (rule g(1))
  have fin: "finish_files sample_ingest 1704070000 ?h fs = (Inr wh, fs3)"
    unfolding finish_files_def load r_bind_def remap Let_def h sample_prospect_wf(2) sum.case pending prod.case by (rule p(1))
  have "visible fs3 ?hour = Some data" using atomic_write_visible(1) [OF s(1)] f(3) by simp
  then show thesis using f(4) by (intro that [OF fin p(2)]) simp
qed

section \<open>The properties\<close>



end
