(* ===== verification/Spec2Isabelle.thy ===== *)
theory Spec2Isabelle
  imports Rw_Format Rw_Header Rw_Index Rw_Codec Rw_Cache Rw_Surface_Props Rw_Volume_Props Rw_Publish Rw_Writer_Props
    Rw_Round_Trip Rw_Lock Rw_Run_Props Rw_Grid_Props Rw_Ingest_Props
begin

text \<open>
  Verification of the gridded store of rusty-weather.

  \<^bold>\<open>The program.\<close> rusty-weather downloads, stores and serves weather model output. Its store
  (\<^verbatim>\<open>src/crates/rw-store\<close>) keeps one directory per model run with a grid file \<^verbatim>\<open>grid.rwg\<close>, one hour
  file \<^verbatim>\<open>fNNN.rws\<close> per forecast hour and a manifest \<^verbatim>\<open>run.json\<close>. A process that ingests an hour takes
  the lock of the directory (\<^verbatim>\<open>lock.rs\<close>), settles the grid (\<^verbatim>\<open>grid.rs\<close>), encodes the fields
  (\<^verbatim>\<open>writer.rs\<close> over \<^verbatim>\<open>codec.rs\<close>), and publishes the grid file, the hour file and the manifest
  (\<^verbatim>\<open>run.rs\<close>), each by an atomic replacement (\<^verbatim>\<open>atomic.rs\<close>); \<^verbatim>\<open>ingest.rs\<close> composes these steps.
  Readers (\<^verbatim>\<open>reader.rs\<close>) map an hour file, validate it (\<^verbatim>\<open>header.rs\<close>, \<^verbatim>\<open>index.rs\<close>, \<^verbatim>\<open>format.rs\<close>) and
  read tiles, windows, points, columns, levels and profiles, with a cache of decoded tiles.

  \<^bold>\<open>Conventions.\<close> A struct is a record, an enum a datatype, an \<open>n\<close>-bit integer an \<open>n\<close>-bit word, an
  \<^verbatim>\<open>f32\<close> its 32-bit pattern and an \<^verbatim>\<open>f64\<close> an exact value with a rounding function
  (\<open>Rw_Float\<close>, \<open>Rw_Float_Error\<close>, \<open>Rw_Float_Exact\<close>). \<^verbatim>\<open>usize\<close> is a natural number with the bound
  \<open>2 ^ 64\<close> written out wherever the code checks or wraps. A fallible function returns
  \<open>rw_store_error + 'a\<close>; a message is reduced to its leading text, and a constructor \<open>Panicked\<close> stands
  for an index, slice or arithmetic panic of the language, so that its absence is provable. A
  \<^verbatim>\<open>BTreeMap\<close> is a finite map read in key order. A method that changes its object returns the new
  object. What is outside the repository is a parameter: the zstd encoder and decoder, the
  JSON library, SHA-256, the outcomes of the system calls, the clock. What the theorems need of
  them are named predicates (\<open>zstd_bound\<close>, \<open>zstd_lossless\<close>, \<open>json_lossless\<close>, \<open>grid_libraries_ok\<close>,
  \<open>libraries_ok\<close>), each with an instance in a witness.

  \<^bold>\<open>Theories.\<close>
  \<^item> \<open>Rw_Prelude\<close>: the result type with its combinators, byte slices, little-endian codecs (locale
    \<open>fixed_codec\<close>), checked arithmetic.
  \<^item> \<open>Rw_Float\<close>, \<open>Rw_Float_Error\<close>, \<open>Rw_Float_Exact\<close>: the floating-point operations of the codecs.
  \<^item> \<open>Rw_Format\<close>, \<open>Rw_Header\<close>, \<open>Rw_Index\<close>: constants and metadata, the 64-byte header and the chunk
    records. The header and the records round-trip; a parsed header has consecutive sections; a
    hostile count is refused.
  \<^item> \<open>Rw_Codec\<close>: both chunk codecs. The 2D codec restores every value up to two exceptions, which
    are themselves proved; the 3D codec keeps missing values exact.
  \<^item> \<open>Rw_Cache\<close>: the tile cache (locale \<open>value_cache\<close>): its byte bound, its order of eviction, and
    that it only ever returns what was inserted.
  \<^item> \<open>Wx_Grid\<close>: grid shapes, grids and fields of \<^verbatim>\<open>rustwx-core/src/lib.rs\<close>.
  \<^item> \<open>Rw_Open\<close>, \<open>Rw_Open_Facts\<close>, \<open>Rw_Lookup\<close>: opening an hour file. It never panics, and the index of
    an opened file has exactly one record per chunk, inside the file.
  \<^item> \<open>Rw_Tiling\<close>, \<open>Rw_Read2D\<close>, \<open>Rw_Read2D_Facts\<close>, \<open>Rw_Read2D_Reads\<close>, \<open>Rw_Surface\<close>, \<open>Rw_Sessions\<close>,
    \<open>Rw_Surface_Props\<close>: the reads of surface fields over the tiling of the grid (locale \<open>axis_tiling\<close>).
    Full, window, point and tile reads agree in every state of the cache, also when several threads
    decode; none panics; visits end.
  \<^item> \<open>Rw_Read3D\<close>, \<open>Rw_Read3D_Facts\<close>, \<open>Rw_Read3D_Selected\<close>, \<open>Rw_Volume\<close>, \<open>Rw_Profile\<close>, \<open>Rw_Volume_Props\<close>: the
    same for pressure volumes, with selected levels and interpolated profiles.
  \<^item> \<open>Rw_Files\<close>, \<open>Rw_Atomic\<close>, \<open>Rw_Publish\<close>: a file system with rename, fsync and power loss, the atomic
    write as one function and as interleaved steps. Visible names hold old or complete content.
  \<^item> \<open>Rw_Writer\<close>, \<open>Rw_Writer_Facts\<close>, \<open>Rw_Writer_Layout\<close>, \<open>Rw_Writer_File\<close>, \<open>Rw_Writer_Props\<close>: the hour
    writer with its spill file and deferred volumes, against a specification of the file it
    writes (\<open>file_spec\<close>).
  \<^item> \<open>Rw_Stored\<close>, \<open>Rw_Stored_Hours\<close>, \<open>Rw_Round_Trip\<close>: writer and reader together: what a session adds
    is what the reader returns.
  \<^item> \<open>Rw_Lock\<close>: the lock; exclusion, no stale locks, bounded waiting.
  \<^item> \<open>Rw_Run\<close>, \<open>Rw_Run_Facts\<close>, \<open>Rw_Manifest\<close>, \<open>Rw_Run_Props\<close>: the manifest. Validation is exactly
    well-formedness (\<open>wf_manifest\<close>), saving and loading round-trip, names stay below the store.
  \<^item> \<open>Rw_Grid\<close>, \<open>Rw_Grid_Props\<close>: the grid file; it opens well-formed or with an error, and round-trips.
  \<^item> \<open>Rw_Ingest\<close>, \<open>Rw_Ingest_Facts\<close>, \<open>Rw_Ingest_Finish\<close>, \<open>Rw_Ingest_Runs\<close>, \<open>Rw_Ingest_Props\<close>: the ingest
    sessions. A run directory is consistent (\<open>run_consistent\<close>) when manifest, grid and hour files
    agree. Any interleaving of sessions keeps all directories consistent and loses no update.

  \<^bold>\<open>Bounds.\<close> No function uses fuel: recursions are structural or have a termination proof
  (waiting by the time left, temporary names by the names in use, visits by the position). The
  round trips ask for hours within the ceilings of the reader (\<open>within_ceilings\<close>: 4096 levels,
  \<open>2 ^ 23\<close> chunks) and files of at most \<open>2 ^ 36\<close> bytes, because the writer does not enforce these
  limits itself; grids have at most \<open>2 ^ 59\<close> cells, so that no length overflows 64 bits.

  \<^bold>\<open>Not modelled.\<close> The Windows variants of the atomic write and of memory mapping; the contents of
  error messages; the locator of \<^verbatim>\<open>grid.rs\<close>, whose trigonometry and Newton steps have no exact
  semantics here; \<^verbatim>\<open>validate.rs\<close>, \<^verbatim>\<open>export.rs\<close>, \<^verbatim>\<open>diff.rs\<close> and the NetCDF writers of the store. The other
  crates are clients of the store or the network and rendering around it.
\<close>

end
